(* ===== verification/Prelude.thy ===== *)
theory Prelude
  imports Main "HOL-Library.Word"
begin

text \<open>
  What every component shares: the integer and byte types of Go as words, the big- and
  little-endian codecs of \<open>encoding/binary\<close>, the wrap-around of signed integers, the FNV-1a
  hash of \<open>hash/fnv\<close>, the state-and-error monad in which a method with a mutable receiver and
  an \<open>error\<close> result is written, and generic lemmas on lists and maps.
\<close>

unbundle bit_operations_syntax

named_theorems codec_simps "unfolding the fixed-width codecs"

subsection \<open>Machine types\<close>

type_synonym byte = "8 word"
type_synonym bytes = "byte list"
type_synonym u16 = "16 word"
type_synonym u32 = "32 word"
type_synonym u64 = "64 word"

text \<open>Signed Go integers are kept as \<open>int\<close> with the wrap-around of their width written out.\<close>

definition i32 :: "int \<Rightarrow> int" where
  "i32 x = (x + 2 ^ 31) mod 2 ^ 32 - 2 ^ 31"

definition i64 :: "int \<Rightarrow> int" where
  "i64 x = (x + 2 ^ 63) mod 2 ^ 64 - 2 ^ 63"

lemma i32_id [simp]: "- (2 ^ 31) \<le> x \<Longrightarrow> x < 2 ^ 31 \<Longrightarrow> i32 x = x"
  by (simp add: i32_def)

lemma i64_id [simp]: "- (2 ^ 63) \<le> x \<Longrightarrow> x < 2 ^ 63 \<Longrightarrow> i64 x = x"
  by (simp add: i64_def)

lemma i32_range: "- (2 ^ 31) \<le> i32 x \<and> i32 x < 2 ^ 31"
proof -
  have "0 \<le> (x + 2 ^ 31) mod 2 ^ 32" "(x + 2 ^ 31) mod 2 ^ 32 < (2 ^ 32 :: int)"
    by simp_all
  then show ?thesis by (simp add: i32_def)
qed

subsection \<open>Codecs of \<open>encoding/binary\<close>\<close>

definition be16 :: "byte \<Rightarrow> byte \<Rightarrow> u16" where
  "be16 a b = push_bit 8 (ucast a) OR ucast b"

definition be32 :: "byte \<Rightarrow> byte \<Rightarrow> byte \<Rightarrow> byte \<Rightarrow> u32" where
  "be32 a b c d =
     push_bit 24 (ucast a) OR push_bit 16 (ucast b) OR push_bit 8 (ucast c) OR ucast d"

definition put_be16 :: "u16 \<Rightarrow> bytes" where
  "put_be16 w = [ucast (drop_bit 8 w), ucast w]"

definition put_be32 :: "u32 \<Rightarrow> bytes" where
  "put_be32 w = [ucast (drop_bit 24 w), ucast (drop_bit 16 w), ucast (drop_bit 8 w), ucast w]"

definition put_le64 :: "u64 \<Rightarrow> bytes" where
  "put_le64 w = map (\<lambda>i. ucast (drop_bit (8 * i) w)) [0..<8]"

lemma length_put [simp]:
  "length (put_be16 w) = 2" "length (put_be32 v) = 4" "length (put_le64 x) = 8"
  by (simp_all add: put_be16_def put_be32_def put_le64_def)

lemma bit_byte_beyond: "8 \<le> n \<Longrightarrow> \<not> bit (b :: byte) n"
  using bit_imp_le_length[of b n] by auto

lemma be16_put_be16: "be16 (ucast (drop_bit 8 w)) (ucast w) = w"
  unfolding be16_def by (rule bit_word_eqI) (auto simp: bit_simps)

lemma be32_put_be32:
  "be32 (ucast (drop_bit 24 w)) (ucast (drop_bit 16 w)) (ucast (drop_bit 8 w)) (ucast w) = w"
  unfolding be32_def
proof (rule bit_word_eqI, goal_cases)
  case (1 n)
  then show ?case
    by (cases "n < 8"; cases "n < 16"; cases "n < 24"; auto simp: bit_simps)
qed

lemma put_be16_be16: "put_be16 (be16 a b) = [a, b]"
  unfolding put_be16_def be16_def by (auto intro!: bit_word_eqI simp: bit_simps bit_byte_beyond)

lemma put_be32_be32: "put_be32 (be32 a b c d) = [a, b, c, d]"
  unfolding put_be32_def be32_def by (auto intro!: bit_word_eqI simp: bit_simps bit_byte_beyond)

lemma put_le64_inj: "put_le64 v = put_le64 w \<Longrightarrow> v = w"
proof (rule bit_word_eqI)
  fix n assume eq: "put_le64 v = put_le64 w" and n: "n < LENGTH(64)"
  have "put_le64 v ! (n div 8) = put_le64 w ! (n div 8)" by (simp add: eq)
  moreover have "n div 8 < 8" using n by simp
  ultimately have "(ucast (drop_bit (8 * (n div 8)) v) :: byte)
      = ucast (drop_bit (8 * (n div 8)) w)"
    by (simp add: put_le64_def)
  then have "bit (ucast (drop_bit (8 * (n div 8)) v) :: byte) (n mod 8)
      = bit (ucast (drop_bit (8 * (n div 8)) w) :: byte) (n mod 8)"
    by simp
  then show "bit v n = bit w n"
    by (simp add: bit_simps)
qed

lemmas [codec_simps] = be16_put_be16 be32_put_be32 put_be16_be16 put_be32_be32

subsection \<open>FNV-1a, the 64-bit hash of \<open>hash/fnv\<close>\<close>

definition fnv_offset :: u64 where "fnv_offset = 14695981039346656037"
definition fnv_prime :: u64 where "fnv_prime = 1099511628211"

definition fnv_step :: "u64 \<Rightarrow> byte \<Rightarrow> u64" where
  "fnv_step h b = (h XOR ucast b) * fnv_prime"

definition fnv1a :: "bytes \<Rightarrow> u64" where
  "fnv1a bs = foldl fnv_step fnv_offset bs"

subsection \<open>Strings\<close>

text \<open>\<open>strings.ToLower\<close> on the ASCII strings the code applies it to.\<close>

definition lower_char :: "char \<Rightarrow> char" where
  "lower_char c = (if 65 \<le> (of_char c :: nat) \<and> (of_char c :: nat) \<le> 90
                   then char_of ((of_char c :: nat) + 32) else c)"

definition to_lower :: "string \<Rightarrow> string" where
  "to_lower s = map lower_char s"

lemma lower_char_idem [simp]: "lower_char (lower_char c) = lower_char c"
  by (auto simp: lower_char_def)

lemma to_lower_idem [simp]: "to_lower (to_lower s) = to_lower s"
  by (simp add: to_lower_def)

lemma to_lower_Nil [simp]: "to_lower s = [] \<longleftrightarrow> s = []"
  by (simp add: to_lower_def)

text \<open>\<open>strings.EqualFold\<close>, on ASCII.\<close>

definition equal_fold :: "string \<Rightarrow> string \<Rightarrow> bool" where
  "equal_fold s t \<longleftrightarrow> to_lower s = to_lower t"

text \<open>Decimal notation, as \<open>%d\<close> prints it.\<close>

fun decimal :: "nat \<Rightarrow> string" where
  "decimal n = (if n < 10 then [char_of (48 + n)] else decimal (n div 10) @ [char_of (48 + n mod 10)])"

declare decimal.simps [simp del]

text \<open>\<open>strings.Trim\<close> and \<open>strings.TrimSpace\<close>, on ASCII.\<close>

definition trim_set :: "char set \<Rightarrow> string \<Rightarrow> string" where
  "trim_set cs s = rev (dropWhile (\<lambda>c. c \<in> cs) (rev (dropWhile (\<lambda>c. c \<in> cs) s)))"

definition TrimSpace :: "string \<Rightarrow> string" where
  "TrimSpace = trim_set {char_of (9 :: nat), char_of (10 :: nat), char_of (11 :: nat), char_of (12 :: nat),
     char_of (13 :: nat), CHR '' ''}"

text \<open>\<open>strings.CutSuffix\<close> and \<open>strings.TrimSuffix\<close>.\<close>

definition CutSuffix :: "string \<Rightarrow> string \<Rightarrow> string option" where
  "CutSuffix s t = (if length t \<le> length s \<and> drop (length s - length t) s = t then Some (take (length s - length t) s) else None)"

definition TrimSuffix :: "string \<Rightarrow> string \<Rightarrow> string" where
  "TrimSuffix s t = (case CutSuffix s t of Some p \<Rightarrow> p | None \<Rightarrow> s)"

subsection \<open>Methods with a mutable receiver and an error result\<close>

text \<open>
  A Go method on a pointer receiver that returns \<open>(T, error)\<close> is a function from the receiver's
  state to the result, an error (\<open>Inl\<close>) or a value (\<open>Inr\<close>), and the receiver afterwards, which
  is kept on the error path too.
\<close>

type_synonym ('s, 'e, 'a) meth = "'s \<Rightarrow> ('e + 'a) \<times> 's"

definition ret :: "'a \<Rightarrow> ('s, 'e, 'a) meth" where
  "ret x s = (Inr x, s)"

definition fail :: "'e \<Rightarrow> ('s, 'e, 'a) meth" where
  "fail e s = (Inl e, s)"

definition andThen :: "('s, 'e, 'a) meth \<Rightarrow> ('a \<Rightarrow> ('s, 'e, 'b) meth) \<Rightarrow> ('s, 'e, 'b) meth" where
  "andThen m f s = (case m s of (Inl e, s') \<Rightarrow> (Inl e, s') | (Inr x, s') \<Rightarrow> f x s')"

text \<open>\<open>fmt.Errorf("...: %w", err)\<close>: the error is wrapped, the state is as the callee left it.\<close>

definition wrapErr :: "('e \<Rightarrow> 'e) \<Rightarrow> ('s, 'e, 'a) meth \<Rightarrow> ('s, 'e, 'a) meth" where
  "wrapErr w m s = (case m s of (Inl e, s') \<Rightarrow> (Inl (w e), s') | (Inr x, s') \<Rightarrow> (Inr x, s'))"

lemma andThen_Inr:
  "andThen m f s = (Inr y, s') \<longleftrightarrow> (\<exists>x s1. m s = (Inr x, s1) \<and> f x s1 = (Inr y, s'))"
  by (auto simp: andThen_def split: prod.splits sum.splits)

lemma wrapErr_Inr: "wrapErr w m s = (Inr y, s') \<longleftrightarrow> m s = (Inr y, s')"
  by (auto simp: wrapErr_def split: prod.splits sum.splits)

lemma ret_Inr: "ret x s = (Inr y, s') \<longleftrightarrow> y = x \<and> s' = s"
  by (auto simp: ret_def)

lemma fail_Inr: "fail e s \<noteq> (Inr y, s')"
  by (simp add: fail_def)

lemmas meth_Inr = andThen_Inr wrapErr_Inr ret_Inr fail_Inr
lemmas meth_defs = andThen_def wrapErr_def ret_def fail_def

subsection \<open>Splitting a capacity over shards\<close>

text \<open>
  Both sharded stores give every shard \<open>cap / n\<close> entries and one more to the first
  \<open>cap % n\<close> shards.
\<close>

definition split_capacity :: "nat \<Rightarrow> nat \<Rightarrow> nat list" where
  "split_capacity cap n = map (\<lambda>i. cap div n + (if i < cap mod n then 1 else 0)) [0..<n]"

lemma length_split_capacity [simp]: "length (split_capacity cap n) = n"
  by (simp add: split_capacity_def)

lemma sum_split_capacity:
  assumes "0 < n"
  shows "sum_list (split_capacity cap n) = cap"
proof -
  have count: "(\<Sum>i \<leftarrow> [0..<n]. if i < k then 1 else 0) = k" if "k \<le> n" for k
  proof -
    have "[0..<n] = [0..<k] @ [k..<n]"
      using that by (metis le_add_diff_inverse le0 upt_add_eq_append)
    moreover have "(\<Sum>i \<leftarrow> [0..<k]. if i < k then 1 else 0) = sum_list (map (\<lambda>_. 1 :: nat) [0..<k])"
      "(\<Sum>i \<leftarrow> [k..<n]. if i < k then 1 else 0) = sum_list (map (\<lambda>_. 0 :: nat) [k..<n])"
      by (auto intro!: arg_cong[where f = sum_list])
    ultimately show ?thesis by (simp add: sum_list_triv)
  qed
  have "sum_list (split_capacity cap n)
      = (\<Sum>i \<leftarrow> [0..<n]. cap div n) + (\<Sum>i \<leftarrow> [0..<n]. if i < cap mod n then 1 else 0)"
    by (simp add: split_capacity_def sum_list_addf)
  also have "\<dots> = n * (cap div n) + cap mod n"
    using count[of "cap mod n"] assms by (simp add: sum_list_triv less_imp_le)
  finally show ?thesis by simp
qed

lemma split_capacity_pos:
  assumes "0 < n" "n \<le> cap" "c \<in> set (split_capacity cap n)"
  shows "0 < c"
proof -
  have "0 < cap div n" using assms(1,2) by (simp add: div_greater_zero_iff)
  then show ?thesis using assms(3) by (auto simp: split_capacity_def)
qed

end
