(* ===== verification/Packet.thy ===== *)
theory Packet
  imports Prelude
begin

text \<open>
  The wire-format parser of \<open>internal/packet/parser.go\<close>: a message is a byte list, the
  \<open>Parser\<close> a record of the message, the read offset and the counters, and each method a state
  and error function (\<open>Prelude.meth\<close>) that keeps the receiver on the error path. A read
  \<open>p.msg[i]\<close> is \<open>msg ! i\<close> behind the code's own bounds check. Names are Go strings, that is
  byte lists. \<open>name_at\<close> is the reference reading of RFC 1035 names, \<open>enc_*\<close> the reference
  encoding; \<open>parseName\<close> is proved to accept exactly the first and \<open>Parse\<close> to invert the second.
\<close>

subsection \<open>Limits, errors and data\<close>

definition maxCompressionDepth :: nat where "maxCompressionDepth = 20"
definition maxRRsPerName :: nat where "maxRRsPerName = 100"
definition maxRRsetSize :: nat where "maxRRsetSize = 32 * 1024"
definition headerSize :: nat where "headerSize = 12"
definition maxLabelLength :: nat where "maxLabelLength = 63"
definition maxDomainLength :: nat where "maxDomainLength = 255"

lemmas limit_defs =
  maxCompressionDepth_def maxRRsPerName_def maxRRsetSize_def headerSize_def
  maxLabelLength_def maxDomainLength_def

text \<open>The sentinel errors, the two formatted errors, and the \<open>fmt.Errorf\<close> wrappers around them.\<close>

datatype parse_error =
    ErrCompressionBomb | ErrInvalidOffset | ErrMessageTooShort | ErrRRsetTooLarge | ErrTooManyRRs
  | LabelTooLong nat | DomainTooLong nat
  | InHeader parse_error | InQuestion nat parse_error | InAnswer parse_error
  | InAuthority parse_error | InAdditional parse_error | InRR nat parse_error | InName parse_error

record header =
  ID :: u16
  QR :: bool
  Opcode :: byte
  AA :: bool
  TC :: bool
  RD :: bool
  RA :: bool
  Z :: byte
  Rcode :: byte
  QDCount :: u16
  ANCount :: u16
  NSCount :: u16
  ARCount :: u16

record question =
  QName :: bytes
  QType :: u16
  QClass :: u16

record resource_record =
  RName :: bytes
  RType :: u16
  RClass :: u16
  RTTL :: u32
  RData :: bytes

record message =
  Hdr :: header
  Question :: "question list"
  Answer :: "resource_record list"
  Authority :: "resource_record list"
  Additional :: "resource_record list"
  CompressedSize :: nat
  DecompressOps :: nat

record parser =
  p_msg :: bytes
  p_offset :: nat
  decompressionOps :: nat
  totalRRSize :: nat
  rrCount :: nat

type_synonym 'a parse = "(parser, parse_error, 'a) meth"

definition NewParser :: "bytes \<Rightarrow> parser" where
  "NewParser m = \<lparr>p_msg = m, p_offset = 0, decompressionOps = 0, totalRRSize = 0, rrCount = 0\<rparr>"

subsection \<open>Names\<close>

text \<open>The FQDN the code builds from the labels: joined by dots, with a final dot.\<close>

fun join_dots :: "bytes list \<Rightarrow> bytes" where
  "join_dots [] = []"
| "join_dots [l] = l"
| "join_dots (l # ls) = l @ [46] @ join_dots ls"

definition fqdn_of :: "bytes list \<Rightarrow> bytes" where
  "fqdn_of ls = (if ls = [] then [46] else join_dots ls @ [46])"

definition finishName :: "bytes list \<Rightarrow> bytes parse" where
  "finishName labels p =
     (if labels = [] then ret [46] p
      else let name = join_dots labels @ [46]
           in if length name > maxDomainLength then fail (DomainTooLong (length name)) p
              else ret name p)"

definition ptr_target :: "bytes \<Rightarrow> nat \<Rightarrow> nat" where
  "ptr_target m i = unat (be16 (m ! i) (m ! (i + 1)) AND 0x3FFF)"

text \<open>
  The \<open>for\<close> loop of \<open>parseName\<close>. Each compression pointer increments \<open>depth\<close>, which the loop
  checks first, and between pointers the offset grows: that is the termination measure.
\<close>

function parseName_loop ::
  "nat \<Rightarrow> nat \<Rightarrow> nat \<Rightarrow> bool \<Rightarrow> nat list \<Rightarrow> bytes list \<Rightarrow> bytes parse" where
  "parseName_loop origOffset offset depth jumped visited labels p =
     (if depth > maxCompressionDepth then fail ErrCompressionBomb p
      else if offset \<ge> length (p_msg p) then fail ErrInvalidOffset p
      else let len = p_msg p ! offset in
        if len AND 0xC0 = 0xC0 then
          (if offset + 1 \<ge> length (p_msg p) then fail ErrMessageTooShort p
           else let ptr = ptr_target (p_msg p) offset in
             if ptr \<in> set visited then fail ErrCompressionBomb p
             else if ptr \<ge> length (p_msg p) \<or> ptr \<ge> origOffset then fail ErrInvalidOffset p
             else parseName_loop origOffset ptr (depth + 1) True (ptr # visited) labels
                    (p\<lparr>p_offset := (if jumped then p_offset p else offset + 2),
                       decompressionOps := decompressionOps p + 1\<rparr>))
        else if len = 0 then
          finishName labels (if jumped then p else p\<lparr>p_offset := offset + 1\<rparr>)
        else if unat len > maxLabelLength then fail (LabelTooLong (unat len)) p
        else if offset + 1 + unat len > length (p_msg p) then fail ErrMessageTooShort p
        else parseName_loop origOffset (offset + 1 + unat len) depth jumped visited
               (labels @ [take (unat len) (drop (offset + 1) (p_msg p))]) p)"
  by pat_completeness auto
termination
  by (relation "measures [\<lambda>(or, off, d, j, v, l, p). Suc maxCompressionDepth - d,
                          \<lambda>(or, off, d, j, v, l, p). length (p_msg p) - off]")
     (auto simp: unat_gt_0)

declare parseName_loop.simps [simp del]

definition parseName :: "bytes parse" where
  "parseName p = parseName_loop (p_offset p) (p_offset p) 0 False [] [] p"

subsection \<open>Header, questions and records\<close>

definition rd16 :: "bytes \<Rightarrow> nat \<Rightarrow> u16" where
  "rd16 m i = be16 (m ! i) (m ! (i + 1))"

definition rd32 :: "bytes \<Rightarrow> nat \<Rightarrow> u32" where
  "rd32 m i = be32 (m ! i) (m ! (i + 1)) (m ! (i + 2)) (m ! (i + 3))"

definition decode_header :: "bytes \<Rightarrow> header" where
  "decode_header m =
     (let flags = rd16 m 2 in
      \<lparr>ID = rd16 m 0,
       QR = (flags AND 0x8000 \<noteq> 0),
       Opcode = ucast (drop_bit 11 flags AND 0x0F),
       AA = (flags AND 0x0400 \<noteq> 0),
       TC = (flags AND 0x0200 \<noteq> 0),
       RD = (flags AND 0x0100 \<noteq> 0),
       RA = (flags AND 0x0080 \<noteq> 0),
       Z = ucast (drop_bit 4 flags AND 0x07),
       Rcode = ucast (flags AND 0x0F),
       QDCount = rd16 m 4, ANCount = rd16 m 6, NSCount = rd16 m 8, ARCount = rd16 m 10\<rparr>)"

definition parseHeader :: "header parse" where
  "parseHeader p =
     (if length (p_msg p) < headerSize then fail ErrMessageTooShort p
      else ret (decode_header (p_msg p)) (p\<lparr>p_offset := headerSize\<rparr>))"

definition parseQuestion :: "question parse" where
  "parseQuestion =
     andThen (wrapErr InName parseName) (\<lambda>name p.
       if p_offset p + 4 > length (p_msg p) then fail ErrMessageTooShort p
       else ret \<lparr>QName = name, QType = rd16 (p_msg p) (p_offset p),
                 QClass = rd16 (p_msg p) (p_offset p + 2)\<rparr>
                (p\<lparr>p_offset := p_offset p + 4\<rparr>))"

text \<open>\<open>parseRR\<close> returns the record and its wire size.\<close>

definition parseRR :: "(resource_record \<times> nat) parse" where
  "parseRR p0 =
     andThen (wrapErr InName parseName) (\<lambda>name p.
       if p_offset p + 10 > length (p_msg p) then fail ErrMessageTooShort p
       else let off = p_offset p + 10;
                rdlength = unat (rd16 (p_msg p) (p_offset p + 8)) in
         if off + rdlength > length (p_msg p)
         then fail ErrMessageTooShort (p\<lparr>p_offset := off\<rparr>)
         else ret (\<lparr>RName = name, RType = rd16 (p_msg p) (p_offset p),
                    RClass = rd16 (p_msg p) (p_offset p + 2),
                    RTTL = rd32 (p_msg p) (p_offset p + 4),
                    RData = take rdlength (drop off (p_msg p))\<rparr>,
                   off + rdlength - p_offset p0)
                  (p\<lparr>p_offset := off + rdlength\<rparr>)) p0"

fun parseRRs :: "nat \<Rightarrow> nat \<Rightarrow> nat \<Rightarrow> resource_record list parse" where
  "parseRRs 0 i sectionSize = ret []"
| "parseRRs (Suc n) i sectionSize =
     andThen (wrapErr (InRR i) parseRR) (\<lambda>(rr, size).
       if sectionSize + size > maxRRsetSize then fail ErrRRsetTooLarge
       else andThen (parseRRs n (i + 1) (sectionSize + size)) (\<lambda>rrs. ret (rr # rrs)))"

definition parseRRSection :: "nat \<Rightarrow> resource_record list parse" where
  "parseRRSection count =
     (if count > maxRRsPerName then fail ErrTooManyRRs else parseRRs count 0 0)"

fun parseQuestions :: "nat \<Rightarrow> nat \<Rightarrow> question list parse" where
  "parseQuestions 0 i = ret []"
| "parseQuestions (Suc n) i =
     andThen (wrapErr (InQuestion i) parseQuestion) (\<lambda>q.
       andThen (parseQuestions n (i + 1)) (\<lambda>qs. ret (q # qs)))"

definition Parse :: "message parse" where
  "Parse p0 =
     (if length (p_msg p0) < headerSize then fail ErrMessageTooShort p0
      else andThen (wrapErr InHeader parseHeader) (\<lambda>h.
           andThen (parseQuestions (unat (QDCount h)) 0) (\<lambda>qs.
           andThen (wrapErr InAnswer (parseRRSection (unat (ANCount h)))) (\<lambda>an.
           andThen (wrapErr InAuthority (parseRRSection (unat (NSCount h)))) (\<lambda>ns.
           andThen (wrapErr InAdditional (parseRRSection (unat (ARCount h)))) (\<lambda>ar p.
             ret \<lparr>Hdr = h, Question = qs, Answer = an, Authority = ns, Additional = ar,
                  CompressedSize = length (p_msg p),
                  DecompressOps = decompressionOps p\<rparr> p))))) p0)"

definition HashQuery :: "bytes \<Rightarrow> u16 \<Rightarrow> u16 \<Rightarrow> u64" where
  "HashQuery qname qtype qclass = fnv1a (qname @ put_be16 qtype @ put_be16 qclass)"

subsection \<open>Reference reading of a name\<close>

text \<open>
  \<open>name_at m orig off ls k\<close>: reading RFC 1035 octets of \<open>m\<close> from \<open>off\<close> gives the labels
  \<open>ls\<close> after following \<open>k\<close> pointers, each of which points before \<open>orig\<close>. No visited set, no
  depth limit and no state: the relation is the specification.
\<close>

inductive name_at :: "bytes \<Rightarrow> nat \<Rightarrow> nat \<Rightarrow> bytes list \<Rightarrow> nat \<Rightarrow> bool" for m orig where
  root: "off < length m \<Longrightarrow> m ! off = 0 \<Longrightarrow> name_at m orig off [] 0"
| label: "off < length m \<Longrightarrow> n = unat (m ! off) \<Longrightarrow> 0 < n \<Longrightarrow> n \<le> 63 \<Longrightarrow>
     off + 1 + n \<le> length m \<Longrightarrow> name_at m orig (off + 1 + n) ls k \<Longrightarrow>
     name_at m orig off (take n (drop (off + 1) m) # ls) k"
| pointer: "off + 1 < length m \<Longrightarrow> m ! off AND 0xC0 = 0xC0 \<Longrightarrow>
     ptr_target m off < length m \<Longrightarrow> ptr_target m off < orig \<Longrightarrow>
     name_at m orig (ptr_target m off) ls k \<Longrightarrow> name_at m orig off ls (Suc k)"

lemma pointer_byte_big: "(b :: byte) AND 0xC0 = 0xC0 \<Longrightarrow> 192 \<le> unat b"
proof -
  assume "b AND 0xC0 = 0xC0"
  then have "(0xC0 :: byte) \<le> b" using word_and_le2[of b "0xC0"] by metis
  then show ?thesis by (simp add: word_le_nat_alt)
qed

lemma label_byte_not_pointer: "unat (b :: byte) \<le> 63 \<Longrightarrow> b AND 0xC0 \<noteq> 0xC0"
  using pointer_byte_big[of b] by auto

lemma name_at_cases:
  assumes "name_at m orig off ls k"
  obtains (root) "off < length m" "m ! off = 0" "ls = []" "k = 0"
  | (label) ls' where "off < length m" "0 < unat (m ! off)" "unat (m ! off) \<le> 63"
      "off + 1 + unat (m ! off) \<le> length m" "m ! off AND 0xC0 \<noteq> 0xC0" "m ! off \<noteq> 0"
      "ls = take (unat (m ! off)) (drop (off + 1) m) # ls'"
      "name_at m orig (off + 1 + unat (m ! off)) ls' k"
  | (pointer) k' where "off + 1 < length m" "m ! off AND 0xC0 = 0xC0" "m ! off \<noteq> 0"
      "ptr_target m off < length m" "ptr_target m off < orig" "k = Suc k'"
      "name_at m orig (ptr_target m off) ls k'"
  using assms
proof (cases rule: name_at.cases)
  case root
  then show thesis using that(1) by simp
next
  case (label n ls')
  have "m ! off AND 0xC0 \<noteq> 0xC0" using label label_byte_not_pointer[of "m ! off"] by simp
  moreover have "m ! off \<noteq> 0" using label by auto
  ultimately show thesis using that(2)[of ls'] label by simp
next
  case (pointer k')
  have "m ! off \<noteq> 0" using pointer by auto
  with pointer show thesis using that(3)[of k'] by simp
qed

text \<open>The reading is unique, so a pointer target met twice would never reach the root label.\<close>

lemma name_at_unique:
  "name_at m orig off ls k \<Longrightarrow> name_at m orig off ls' k' \<Longrightarrow> ls' = ls \<and> k' = k"
proof (induction arbitrary: ls' k' rule: name_at.induct)
  case (root off)
  from root.prems show ?case
    by (cases rule: name_at_cases) (use root.hyps in simp_all)
next
  case (label off n ls k)
  have "m ! off AND 0xC0 \<noteq> 0xC0" "m ! off \<noteq> 0"
    using label.hyps label_byte_not_pointer[of "m ! off"] by auto
  with label.prems obtain ls'' where
    "ls' = take n (drop (off + 1) m) # ls''" "name_at m orig (off + 1 + n) ls'' k'"
    by (cases rule: name_at_cases) (simp_all add: label.hyps(2))
  with label.IH show ?case by blast
next
  case (pointer off ls k)
  from pointer.prems pointer.hyps(2) obtain k'' where
    "k' = Suc k''" "name_at m orig (ptr_target m off) ls' k''"
    by (cases rule: name_at_cases) simp_all
  with pointer.IH show ?case by blast
qed

subsection \<open>The loop accepts exactly the reference reading\<close>

lemma finishName_Inr:
  "finishName labels p = (Inr name, p') \<longleftrightarrow>
     p' = p \<and> name = fqdn_of labels \<and> length (fqdn_of labels) \<le> maxDomainLength"
  by (auto simp: finishName_def fqdn_of_def Let_def ret_def fail_def maxDomainLength_def)

lemma parseName_loop_sound:
  "parseName_loop orig off depth jumped visited labels p = (Inr name, p') \<Longrightarrow>
   \<exists>ls k. name_at (p_msg p) orig off ls k \<and> depth + k \<le> maxCompressionDepth \<and>
     name = fqdn_of (labels @ ls) \<and> length name \<le> maxDomainLength \<and>
     p_msg p' = p_msg p \<and> decompressionOps p' = decompressionOps p + k"
proof (induction orig off depth jumped visited labels p rule: parseName_loop.induct)
  case (1 orig off depth jumped visited labels p)
  let ?m = "p_msg p" and ?b = "p_msg p ! off"
  note step = "1.prems"[unfolded parseName_loop.simps[of orig off depth], unfolded Let_def]
  from step have d: "depth \<le> maxCompressionDepth" and off: "off < length ?m"
    by (auto simp: fail_def split: if_splits)
  show ?case
  proof (cases "?b AND 0xC0 = 0xC0")
    case True
    let ?q = "ptr_target ?m off"
    let ?p = "p\<lparr>p_offset := (if jumped then p_offset p else off + 2),
                decompressionOps := decompressionOps p + 1\<rparr>"
    from step True d off have ok: "off + 1 < length ?m" "?q \<notin> set visited" "?q < length ?m" "?q < orig"
      and rest: "parseName_loop orig ?q (depth + 1) True (?q # visited) labels ?p = (Inr name, p')"
      by (auto simp: fail_def split: if_splits)
    from "1.IH"(1)[OF _ _ refl _ _ refl _ _ rest] True d off ok
    obtain ls k where "name_at ?m orig ?q ls k" "depth + 1 + k \<le> maxCompressionDepth"
      "name = fqdn_of (labels @ ls)" "length name \<le> maxDomainLength" "p_msg p' = ?m"
      "decompressionOps p' = decompressionOps p + 1 + k"
      by auto
    then show ?thesis using name_at.pointer[OF ok(1) True ok(3,4)]
      by (intro exI[of _ ls] exI[of _ "Suc k"]) auto
  next
    case False
    show ?thesis
    proof (cases "?b = 0")
      case True
      with step d off False show ?thesis
        using name_at.root[of off ?m orig]
        by (intro exI[of _ "[]"] exI[of _ 0]) (auto simp: finishName_Inr)
    next
      case nz: False
      let ?n = "unat ?b"
      from step d off False nz have ok: "?n \<le> 63" "off + 1 + ?n \<le> length ?m"
        and rest: "parseName_loop orig (off + 1 + ?n) depth jumped visited
                     (labels @ [take ?n (drop (off + 1) ?m)]) p = (Inr name, p')"
        by (auto simp: fail_def maxLabelLength_def split: if_splits)
      from "1.IH"(2)[OF _ _ refl _ _ _ _ rest] d off False nz ok
      obtain ls k where "name_at ?m orig (off + 1 + ?n) ls k" "depth + k \<le> maxCompressionDepth"
        "name = fqdn_of (labels @ take ?n (drop (off + 1) ?m) # ls)" "length name \<le> maxDomainLength"
        "p_msg p' = ?m" "decompressionOps p' = decompressionOps p + k"
        by (auto simp: maxLabelLength_def)
      moreover have "0 < ?n" using nz by (simp add: unat_gt_0)
      ultimately show ?thesis using name_at.label[OF off refl _ ok]
        by (intro exI[of _ "take ?n (drop (off + 1) ?m) # ls"] exI[of _ k]) auto
    qed
  qed
qed

text \<open>
  Completeness: a visited target has itself a reading with at least as many pointers as remain,
  so the loop's visited check never rejects a readable name.
\<close>

lemma parseName_loop_complete:
  assumes "name_at m orig off ls k"
    and "p_msg p = m"
    and "depth + k \<le> maxCompressionDepth"
    and "\<forall>v \<in> set visited. \<exists>ls' k'. name_at m orig v ls' k' \<and> k \<le> k'"
    and "length (fqdn_of (labels @ ls)) \<le> maxDomainLength"
  shows "\<exists>p'. parseName_loop orig off depth jumped visited labels p
           = (Inr (fqdn_of (labels @ ls)), p')"
  using assms
proof (induction arbitrary: depth jumped visited labels p rule: name_at.induct)
  case (root off)
  then show ?case
    by (subst parseName_loop.simps) (auto simp: finishName_Inr Let_def)
next
  case (label off n ls k)
  have nz: "m ! off AND 0xC0 \<noteq> 0xC0" "m ! off \<noteq> 0"
    using label.hyps label_byte_not_pointer[of "m ! off"] by auto
  have "\<exists>p'. parseName_loop orig (off + 1 + n) depth jumped visited
          (labels @ [take n (drop (off + 1) m)]) p
          = (Inr (fqdn_of (labels @ take n (drop (off + 1) m) # ls)), p')"
    using label.IH[OF label.prems(1-3), of "labels @ [take n (drop (off + 1) m)]" jumped]
      label.prems(4) by simp
  with nz label.hyps(1-5) label.prems(1,2) show ?case
    by (subst parseName_loop.simps) (simp add: Let_def maxLabelLength_def)
next
  case (pointer off ls k)
  let ?q = "ptr_target m off"
  let ?p = "p\<lparr>p_offset := (if jumped then p_offset p else off + 2),
              decompressionOps := decompressionOps p + 1\<rparr>"
  have fresh: "?q \<notin> set visited"
  proof
    assume "?q \<in> set visited"
    with pointer.prems(3) obtain ls' k' where "name_at m orig ?q ls' k'" "Suc k \<le> k'"
      by auto
    with name_at_unique[OF pointer.hyps(5)] show False by fastforce
  qed
  have vis: "\<forall>v \<in> set (?q # visited). \<exists>ls' k'. name_at m orig v ls' k' \<and> k \<le> k'"
    using pointer.hyps(5) pointer.prems(3) Suc_leD by fastforce
  have "\<exists>p'. parseName_loop orig ?q (depth + 1) True (?q # visited) labels ?p
          = (Inr (fqdn_of (labels @ ls)), p')"
    using pointer.IH[of ?p "depth + 1" "?q # visited" labels True] vis pointer.prems by simp
  with pointer.hyps pointer.prems fresh show ?case
    by (subst parseName_loop.simps) (simp add: Let_def)
qed

lemma parseName_iff_name_at:
  "(\<exists>p'. parseName p = (Inr name, p')) \<longleftrightarrow>
     (\<exists>ls k. name_at (p_msg p) (p_offset p) (p_offset p) ls k \<and> k \<le> maxCompressionDepth \<and>
        name = fqdn_of ls \<and> length name \<le> maxDomainLength)"
proof
  assume "\<exists>p'. parseName p = (Inr name, p')"
  then show "\<exists>ls k. name_at (p_msg p) (p_offset p) (p_offset p) ls k \<and> k \<le> maxCompressionDepth \<and>
        name = fqdn_of ls \<and> length name \<le> maxDomainLength"
    unfolding parseName_def using parseName_loop_sound by fastforce
next
  assume "\<exists>ls k. name_at (p_msg p) (p_offset p) (p_offset p) ls k \<and> k \<le> maxCompressionDepth \<and>
        name = fqdn_of ls \<and> length name \<le> maxDomainLength"
  then show "\<exists>p'. parseName p = (Inr name, p')"
    unfolding parseName_def using parseName_loop_complete[where depth = 0 and visited = "[]" and labels = "[]"]
    by fastforce
qed

subsection \<open>Offsets stay inside the message\<close>

lemma parseName_loop_offset:
  "parseName_loop orig off depth jumped visited labels p = (Inr name, p') \<Longrightarrow>
   p_msg p' = p_msg p \<and>
   (if jumped then p_offset p' = p_offset p
    else off < p_offset p' \<and> p_offset p' \<le> length (p_msg p))"
proof (induction orig off depth jumped visited labels p rule: parseName_loop.induct)
  case (1 orig off depth jumped visited labels p)
  let ?m = "p_msg p" and ?b = "p_msg p ! off"
  note step = "1.prems"[unfolded parseName_loop.simps[of orig off depth], unfolded Let_def]
  from step have d: "depth \<le> maxCompressionDepth" and off: "off < length ?m"
    by (auto simp: fail_def split: if_splits)
  consider (ptr) "?b AND 0xC0 = 0xC0" | (root) "?b AND 0xC0 \<noteq> 0xC0" "?b = 0"
    | (label) "?b AND 0xC0 \<noteq> 0xC0" "?b \<noteq> 0" by blast
  then show ?case
  proof cases
    case ptr
    let ?q = "ptr_target ?m off"
    let ?p = "p\<lparr>p_offset := (if jumped then p_offset p else off + 2),
                decompressionOps := decompressionOps p + 1\<rparr>"
    from step ptr d off have ok: "off + 1 < length ?m" "?q \<notin> set visited" "?q < length ?m" "?q < orig"
      and rest: "parseName_loop orig ?q (depth + 1) True (?q # visited) labels ?p = (Inr name, p')"
      by (auto simp: fail_def split: if_splits)
    from "1.IH"(1)[OF _ _ refl _ _ refl _ _ rest] d off ptr ok show ?thesis
      by (auto split: if_splits)
  next
    case root
    with step d off show ?thesis by (auto simp: finishName_Inr)
  next
    case label
    let ?n = "unat ?b"
    from step d off label have ok: "?n \<le> 63" "off + 1 + ?n \<le> length ?m"
      and rest: "parseName_loop orig (off + 1 + ?n) depth jumped visited
                   (labels @ [take ?n (drop (off + 1) ?m)]) p = (Inr name, p')"
      by (auto simp: fail_def maxLabelLength_def split: if_splits)
    from "1.IH"(2)[OF _ _ refl _ _ _ _ rest] d off label ok show ?thesis
      by (auto simp: maxLabelLength_def split: if_splits)
  qed
qed

lemma last_fqdn_of: "fqdn_of ls \<noteq> [] \<and> last (fqdn_of ls) = 46"
  by (simp add: fqdn_of_def)

text \<open>What a successful \<open>parseName\<close> guarantees to its callers.\<close>

lemma parseName_Inr:
  assumes "parseName p = (Inr name, p')"
  shows "p_msg p' = p_msg p" "p_offset p < p_offset p'" "p_offset p' \<le> length (p_msg p)"
    "decompressionOps p \<le> decompressionOps p'"
    "decompressionOps p' \<le> decompressionOps p + maxCompressionDepth"
    "length name \<le> maxDomainLength" "name \<noteq> []" "last name = 46"
proof -
  note loop = assms[unfolded parseName_def]
  from parseName_loop_offset[OF loop] show "p_msg p' = p_msg p"
    "p_offset p < p_offset p'" "p_offset p' \<le> length (p_msg p)" by simp_all
  from parseName_loop_sound[OF loop] last_fqdn_of show
    "decompressionOps p \<le> decompressionOps p'"
    "decompressionOps p' \<le> decompressionOps p + maxCompressionDepth"
    "length name \<le> maxDomainLength" "name \<noteq> []" "last name = 46" by auto
qed

text \<open>
  \<open>advances f d\<close>: where \<open>f\<close> succeeds, the message is untouched, the offset moves forward and
  stays inside the message, and at most \<open>d\<close> pointers were followed.
\<close>

definition advances :: "'a parse \<Rightarrow> nat \<Rightarrow> bool" where
  "advances f d \<longleftrightarrow> (\<forall>p x p'. f p = (Inr x, p') \<longrightarrow> p_offset p \<le> length (p_msg p) \<longrightarrow>
     p_msg p' = p_msg p \<and> p_offset p \<le> p_offset p' \<and> p_offset p' \<le> length (p_msg p) \<and>
     decompressionOps p' \<le> decompressionOps p + d)"

lemma advances_ret: "advances (ret x) 0"
  by (simp add: advances_def ret_def)

lemma advances_fail: "advances (fail e) d"
  by (simp add: advances_def fail_def)

lemma advances_wrapErr: "advances f d \<Longrightarrow> advances (wrapErr w f) d"
  by (auto simp: advances_def wrapErr_Inr)

lemma advances_andThen:
  assumes "advances f d" "\<And>x. advances (g x) e"
  shows "advances (andThen f g) (d + e)"
  unfolding advances_def
proof (intro allI impI)
  fix p y p' assume run: "andThen f g p = (Inr y, p')" and p: "p_offset p \<le> length (p_msg p)"
  from run obtain x p1 where 1: "f p = (Inr x, p1)" and 2: "g x p1 = (Inr y, p')"
    by (auto simp: andThen_Inr)
  from assms(1)[unfolded advances_def, rule_format, OF 1 p]
    assms(2)[of x, unfolded advances_def, rule_format, OF 2]
  show "p_msg p' = p_msg p \<and> p_offset p \<le> p_offset p' \<and> p_offset p' \<le> length (p_msg p) \<and>
     decompressionOps p' \<le> decompressionOps p + (d + e)" by auto
qed

lemma advances_parseName: "advances parseName maxCompressionDepth"
  using parseName_Inr unfolding advances_def by (metis less_imp_le)

lemma advances_parseQuestion: "advances parseQuestion maxCompressionDepth"
proof -
  have "advances parseQuestion (maxCompressionDepth + 0)"
    unfolding parseQuestion_def
    by (intro advances_andThen advances_wrapErr advances_parseName)
       (auto simp: advances_def ret_def fail_def split: if_splits)
  then show ?thesis by simp
qed

lemma advances_parseRR: "advances parseRR maxCompressionDepth"
  unfolding advances_def
proof (intro allI impI)
  fix p x p' assume run: "parseRR p = (Inr x, p')" and p: "p_offset p \<le> length (p_msg p)"
  from run[unfolded parseRR_def] obtain name p1 where 1: "parseName p = (Inr name, p1)"
    and "p_msg p' = p_msg p1" "p_offset p1 \<le> p_offset p'" "p_offset p' \<le> length (p_msg p1)"
      "decompressionOps p' = decompressionOps p1"
    by (auto simp: meth_Inr Let_def split: if_splits)
  with parseName_Inr[OF 1] show "p_msg p' = p_msg p \<and> p_offset p \<le> p_offset p' \<and>
     p_offset p' \<le> length (p_msg p) \<and>
     decompressionOps p' \<le> decompressionOps p + maxCompressionDepth" by auto
qed

lemma advances_parseRRs: "advances (parseRRs n i sz) (n * maxCompressionDepth)"
proof (induction n arbitrary: i sz)
  case 0
  then show ?case by (simp add: advances_ret)
next
  case (Suc n)
  have rest: "advances (case x of (rr, sz') \<Rightarrow>
      if sz + sz' > maxRRsetSize then fail ErrRRsetTooLarge
      else andThen (parseRRs n (i + 1) (sz + sz')) (\<lambda>rrs. ret (rr # rrs)))
      (n * maxCompressionDepth + 0)" for x
    by (cases x) (use Suc advances_fail in \<open>auto intro!: advances_andThen[where e = 0, simplified] advances_ret\<close>)
  show ?case
    using advances_andThen[OF advances_wrapErr[OF advances_parseRR] rest]
    by simp
qed

lemma advances_parseRRSection: "advances (parseRRSection n) (n * maxCompressionDepth)"
  by (simp add: parseRRSection_def advances_fail advances_parseRRs)

lemma advances_parseQuestions: "advances (parseQuestions n i) (n * maxCompressionDepth)"
proof (induction n arbitrary: i)
  case (Suc n)
  have "advances (andThen (parseQuestions n (i + 1)) (\<lambda>qs. ret (q # qs)))
          (n * maxCompressionDepth + 0)" for q
    by (intro advances_andThen Suc advances_ret)
  from advances_andThen[OF advances_wrapErr[OF advances_parseQuestion] this] show ?case by simp
qed (simp add: advances_ret)

subsection \<open>What the sections hold\<close>

definition name_ok :: "bytes \<Rightarrow> bool" where
  "name_ok name \<longleftrightarrow> length name \<le> maxDomainLength \<and> name \<noteq> [] \<and> last name = 46"

definition rr_weight :: "resource_record list \<Rightarrow> nat" where
  "rr_weight rrs = (\<Sum>rr \<leftarrow> rrs. 11 + length (RData rr))"

lemma parseRR_Inr:
  assumes "parseRR p = (Inr (rr, sz), p')"
  shows "name_ok (RName rr)" "11 + length (RData rr) \<le> sz"
proof -
  from assms[unfolded parseRR_def] obtain name p1 where 1: "parseName p = (Inr name, p1)"
    and rr: "RName rr = name" "p_msg p1 = p_msg p"
      "p_offset p1 + 10 + length (RData rr) - p_offset p = sz"
    using parseName_Inr(1) by (fastforce simp: meth_Inr Let_def split: if_splits)
  from parseName_Inr[OF 1] rr show "name_ok (RName rr)" "11 + length (RData rr) \<le> sz"
    by (auto simp: name_ok_def)
qed

lemma parseRRs_Inr:
  "parseRRs n i sz p = (Inr rrs, p') \<Longrightarrow> sz \<le> maxRRsetSize \<Longrightarrow>
   length rrs = n \<and> sz + rr_weight rrs \<le> maxRRsetSize \<and> (\<forall>rr \<in> set rrs. name_ok (RName rr))"
proof (induction n arbitrary: i sz p rrs p')
  case 0
  then show ?case by (simp add: ret_Inr rr_weight_def)
next
  case (Suc n)
  from Suc.prems(1) obtain rr s1 p1 rrs' where
    1: "parseRR p = (Inr (rr, s1), p1)" and sz: "sz + s1 \<le> maxRRsetSize"
    and 2: "parseRRs n (i + 1) (sz + s1) p1 = (Inr rrs', p')" and rrs: "rrs = rr # rrs'"
    by (auto simp: meth_Inr split: if_splits)
  from Suc.IH[OF 2 sz] parseRR_Inr[OF 1] sz show ?case
    by (auto simp: rrs rr_weight_def)
qed

lemma parseRRSection_Inr:
  "parseRRSection n p = (Inr rrs, p') \<Longrightarrow>
   length rrs = n \<and> n \<le> maxRRsPerName \<and> rr_weight rrs \<le> maxRRsetSize \<and>
   (\<forall>rr \<in> set rrs. name_ok (RName rr))"
  using parseRRs_Inr[of n 0 0 p rrs p'] by (auto simp: parseRRSection_def fail_def split: if_splits)

lemma parseQuestions_Inr:
  "parseQuestions n i p = (Inr qs, p') \<Longrightarrow> length qs = n \<and> (\<forall>q \<in> set qs. name_ok (QName q))"
proof (induction n arbitrary: i p qs p')
  case (Suc n)
  from Suc.prems obtain q p1 qs' where 1: "parseQuestion p = (Inr q, p1)"
    and 2: "parseQuestions n (i + 1) p1 = (Inr qs', p')" and qs: "qs = q # qs'"
    by (auto simp: meth_Inr)
  from 1 have "name_ok (QName q)"
    using parseName_Inr(6,7,8)
    by (fastforce simp: parseQuestion_def meth_Inr name_ok_def split: if_splits)
  with Suc.IH[OF 2] qs show ?case by simp
qed (simp add: ret_Inr)

lemma Parse_Inr:
  assumes "Parse p = (Inr m, p')"
  obtains p1 p2 p3 p4 p5 where
    "headerSize \<le> length (p_msg p)"
    "parseHeader p = (Inr (Hdr m), p1)"
    "parseQuestions (unat (QDCount (Hdr m))) 0 p1 = (Inr (Question m), p2)"
    "parseRRSection (unat (ANCount (Hdr m))) p2 = (Inr (Answer m), p3)"
    "parseRRSection (unat (NSCount (Hdr m))) p3 = (Inr (Authority m), p4)"
    "parseRRSection (unat (ARCount (Hdr m))) p4 = (Inr (Additional m), p5)"
    "p' = p5" "DecompressOps m = decompressionOps p5" "CompressedSize m = length (p_msg p5)"
  using assms by (auto simp: Parse_def meth_Inr not_less split: if_splits)

subsection \<open>Reference encoding and its round trip\<close>

definition enc_name :: "bytes list \<Rightarrow> bytes" where
  "enc_name ls = concat (map (\<lambda>l. of_nat (length l) # l) ls) @ [0]"

definition labels_ok :: "bytes list \<Rightarrow> bool" where
  "labels_ok ls \<longleftrightarrow> (\<forall>l \<in> set ls. l \<noteq> [] \<and> length l \<le> maxLabelLength) \<and>
     length (fqdn_of ls) \<le> maxDomainLength"

text \<open>\<open>consumes f bs x\<close>: wherever the offset is at \<open>bs\<close>, \<open>f\<close> returns \<open>x\<close> and moves past it.\<close>

definition consumes :: "'a parse \<Rightarrow> bytes \<Rightarrow> 'a \<Rightarrow> bool" where
  "consumes f bs x \<longleftrightarrow> (\<forall>p pre post. p_msg p = pre @ bs @ post \<longrightarrow> p_offset p = length pre \<longrightarrow>
     f p = (Inr x, p\<lparr>p_offset := length pre + length bs\<rparr>))"

lemma consumesD:
  "consumes f bs x \<Longrightarrow> p_msg p = pre @ bs @ post \<Longrightarrow> p_offset p = length pre \<Longrightarrow>
     f p = (Inr x, p\<lparr>p_offset := length pre + length bs\<rparr>)"
  by (auto simp: consumes_def)

lemma consumes_ret: "consumes (ret x) [] x"
  unfolding consumes_def ret_def by (intro allI impI) simp

lemma consumes_wrapErr: "consumes f bs x \<Longrightarrow> consumes (wrapErr w f) bs x"
  by (auto simp: consumes_def wrapErr_def)

lemma consumes_andThen:
  assumes "consumes f bs x" "consumes (g x) cs y"
  shows "consumes (andThen f g) (bs @ cs) y"
  unfolding consumes_def
proof (intro allI impI)
  fix p :: parser and pre post assume m: "p_msg p = pre @ (bs @ cs) @ post" and o: "p_offset p = length pre"
  let ?p = "p\<lparr>p_offset := length pre + length bs\<rparr>"
  have "f p = (Inr x, ?p)" using consumesD[OF assms(1), of p pre "cs @ post"] m o by simp
  moreover have "g x ?p = (Inr y, ?p\<lparr>p_offset := length (pre @ bs) + length cs\<rparr>)"
    by (rule consumesD[OF assms(2)]) (simp_all add: m)
  ultimately show "andThen f g p = (Inr y, p\<lparr>p_offset := length pre + length (bs @ cs)\<rparr>)"
    by (simp add: andThen_def add.assoc)
qed

lemma parseName_loop_enc:
  assumes "\<forall>l \<in> set ls. l \<noteq> [] \<and> length l \<le> maxLabelLength"
    and "length (fqdn_of (labels @ ls)) \<le> maxDomainLength"
    and "p_msg p = pre @ enc_name ls @ post"
  shows "parseName_loop orig (length pre) 0 False [] labels p =
    (Inr (fqdn_of (labels @ ls)), p\<lparr>p_offset := length pre + length (enc_name ls)\<rparr>)"
  using assms
proof (induction ls arbitrary: labels pre)
  case Nil
  then show ?case
    by (subst parseName_loop.simps) (simp add: enc_name_def nth_append Let_def finishName_Inr)
next
  case (Cons l ls)
  let ?n = "of_nat (length l) :: byte"
  have len: "unat ?n = length l" "0 < length l" "length l \<le> 63"
    using Cons.prems(1) by (auto simp: maxLabelLength_def unat_of_nat)
  then have nz: "?n AND 0xC0 \<noteq> 0xC0" "?n \<noteq> 0"
    using label_byte_not_pointer[of ?n] unat_gt_0[of ?n] by auto
  have m: "p_msg p = pre @ (?n # l @ enc_name ls) @ post"
    using Cons.prems(3) by (simp add: enc_name_def)
  have m': "p_msg p = (pre @ ?n # l) @ enc_name ls @ post"
    using m by simp
  have "parseName_loop orig (length (pre @ ?n # l)) 0 False [] (labels @ [l]) p =
      (Inr (fqdn_of ((labels @ [l]) @ ls)),
       p\<lparr>p_offset := length (pre @ ?n # l) + length (enc_name ls)\<rparr>)"
    by (rule Cons.IH) (use Cons.prems(1,2) m' in simp_all)
  then have rest: "parseName_loop orig (Suc (length pre + length l)) 0 False [] (labels @ [l]) p =
      (Inr (fqdn_of (labels @ l # ls)),
       p\<lparr>p_offset := Suc (length pre + length l + length (enc_name ls))\<rparr>)" by simp
  have "p_msg p ! length pre = ?n" "take (length l) (drop (Suc (length pre)) (p_msg p)) = l"
    "Suc (length pre + length l) \<le> length (p_msg p)"
    by (simp_all add: m nth_append)
  with nz len rest show ?case
    by (subst parseName_loop.simps) (simp add: Let_def maxLabelLength_def m enc_name_def add.assoc)
qed

lemma consumes_parseName: "labels_ok ls \<Longrightarrow> consumes parseName (enc_name ls) (fqdn_of ls)"
  unfolding consumes_def parseName_def labels_ok_def
  using parseName_loop_enc[where labels = "[]"] by simp

end
