(* ===== verification/Packet_Props.thy ===== *)
theory Packet_Props
  imports Packet
begin

text \<open>
  The properties of the wire parser: the reference encoding of a whole message and its round
  trip through \<open>Parse\<close>, the equivalence of \<open>parseName\<close> with the reference reading of names, and
  the resource bounds of a successful parse.
\<close>

subsection \<open>The header\<close>

definition flag_bit :: "nat \<Rightarrow> bool \<Rightarrow> u16" where
  "flag_bit n b = (if b then push_bit n 1 else 0)"

definition enc_flags :: "header \<Rightarrow> u16" where
  "enc_flags h =
     flag_bit 15 (QR h) OR push_bit 11 (ucast (Opcode h)) OR flag_bit 10 (AA h) OR
     flag_bit 9 (TC h) OR flag_bit 8 (RD h) OR flag_bit 7 (RA h) OR
     push_bit 4 (ucast (Z h)) OR ucast (Rcode h)"

definition enc_header :: "header \<Rightarrow> bytes" where
  "enc_header h = put_be16 (ID h) @ put_be16 (enc_flags h) @ put_be16 (QDCount h) @
     put_be16 (ANCount h) @ put_be16 (NSCount h) @ put_be16 (ARCount h)"

text \<open>The fields the wire has 4, 3 and 4 bits for.\<close>

definition header_ok :: "header \<Rightarrow> bool" where
  "header_ok h \<longleftrightarrow> unat (Opcode h) < 2 ^ 4 \<and> unat (Z h) < 2 ^ 3 \<and> unat (Rcode h) < 2 ^ 4"

lemma small_bits: "unat (b :: byte) < 2 ^ k \<Longrightarrow> bit b n \<Longrightarrow> n < k"
proof -
  assume "unat b < 2 ^ k" and n: "bit b n"
  then have "take_bit k b = b"
    by (metis take_bit_nat_eq_self_iff unsigned_take_bit_eq word_unat_eq_iff)
  with n show "n < k" by (metis bit_take_bit_iff)
qed

lemma flag_test: "(w :: u16) AND push_bit n 1 \<noteq> 0 \<longleftrightarrow> bit w n"
  by (metis and_exp_eq_0_iff_not_bit push_bit_of_1)

lemma flag_masks:
  "(0x8000 :: u16) = push_bit 15 1" "(0x400 :: u16) = push_bit 10 1"
  "(0x200 :: u16) = push_bit 9 1" "(0x100 :: u16) = push_bit 8 1"
  "(0x80 :: u16) = push_bit 7 1" "(0x0F :: u16) = mask 4" "(0x07 :: u16) = mask 3"
  by (simp_all add: mask_eq_exp_minus_1)

lemma bit_flag_bit: "bit (flag_bit k b) n \<longleftrightarrow> b \<and> n = k \<and> n < 16"
  by (auto simp: flag_bit_def bit_simps)

lemma header_ok_bits:
  assumes "header_ok h"
  shows "bit (Opcode h) n \<Longrightarrow> n < 4" "bit (Z h) n \<Longrightarrow> n < 3" "bit (Rcode h) n \<Longrightarrow> n < 4"
    "4 \<le> n \<Longrightarrow> \<not> bit (Opcode h) n" "3 \<le> n \<Longrightarrow> \<not> bit (Z h) n" "4 \<le> n \<Longrightarrow> \<not> bit (Rcode h) n"
  using assms small_bits unfolding header_ok_def by (meson not_less)+

lemma enc_flags_bits:
  assumes "header_ok h"
  shows "bit (enc_flags h) 15 = QR h" "bit (enc_flags h) 10 = AA h" "bit (enc_flags h) 9 = TC h"
    "bit (enc_flags h) 8 = RD h" "bit (enc_flags h) 7 = RA h"
  unfolding enc_flags_def
  by (simp_all add: bit_simps bit_flag_bit header_ok_bits[OF assms])

lemma enc_flags_fields:
  assumes "header_ok h"
  shows "(ucast (drop_bit 11 (enc_flags h) AND mask 4) :: byte) = Opcode h"
    "(ucast (drop_bit 4 (enc_flags h) AND mask 3) :: byte) = Z h"
    "(ucast (enc_flags h AND mask 4) :: byte) = Rcode h"
  unfolding enc_flags_def
  by (rule bit_word_eqI;
      auto simp: bit_simps bit_flag_bit bit_byte_beyond header_ok_bits(4-6)[OF assms]
           dest: header_ok_bits(1-3)[OF assms])+

lemma rd16_at: "rd16 (pre @ put_be16 w @ post) (length pre) = w"
  by (simp add: rd16_def put_be16_def nth_append be16_put_be16)

lemma rd32_at: "rd32 (pre @ put_be32 w @ post) (length pre) = w"
  by (simp add: rd32_def put_be32_def nth_append be32_put_be32)

lemma rd16_at': "m = pre @ put_be16 w @ post \<Longrightarrow> i = length pre \<Longrightarrow> rd16 m i = w"
  by (simp add: rd16_at)

lemma rd32_at': "m = pre @ put_be32 w @ post \<Longrightarrow> i = length pre \<Longrightarrow> rd32 m i = w"
  by (simp add: rd32_at)

lemma decode_enc_header:
  assumes "header_ok h"
  shows "decode_header (enc_header h @ rest) = h"
proof -
  let ?a = "put_be16 (ID h)" and ?b = "put_be16 (enc_flags h)" and ?c = "put_be16 (QDCount h)"
    and ?d = "put_be16 (ANCount h)" and ?e = "put_be16 (NSCount h)"
  have "rd16 (enc_header h @ rest) 0 = ID h"
    by (rule rd16_at'[where pre = "[]"]) (simp_all add: enc_header_def)
  moreover have "rd16 (enc_header h @ rest) 2 = enc_flags h"
    by (rule rd16_at'[where pre = ?a]) (simp_all add: enc_header_def)
  moreover have "rd16 (enc_header h @ rest) 4 = QDCount h"
    by (rule rd16_at'[where pre = "?a @ ?b"]) (simp_all add: enc_header_def)
  moreover have "rd16 (enc_header h @ rest) 6 = ANCount h"
    by (rule rd16_at'[where pre = "?a @ ?b @ ?c"]) (simp_all add: enc_header_def)
  moreover have "rd16 (enc_header h @ rest) 8 = NSCount h"
    by (rule rd16_at'[where pre = "?a @ ?b @ ?c @ ?d"]) (simp_all add: enc_header_def)
  moreover have "rd16 (enc_header h @ rest) 10 = ARCount h"
    by (rule rd16_at'[where pre = "?a @ ?b @ ?c @ ?d @ ?e"]) (simp_all add: enc_header_def)
  ultimately show ?thesis
    unfolding decode_header_def Let_def flag_masks
    by (simp only: flag_test enc_flags_bits[OF assms] enc_flags_fields[OF assms]) simp
qed

lemma length_enc_header [simp]: "length (enc_header h) = headerSize"
  by (simp add: enc_header_def headerSize_def)

subsection \<open>Questions and records\<close>

text \<open>
  The reference encoding works on label lists, which a message's dotted names stand for.
\<close>

record wire_question =
  WQName :: "bytes list"
  WQType :: u16
  WQClass :: u16

record wire_rr =
  WName :: "bytes list"
  WType :: u16
  WClass :: u16
  WTTL :: u32
  WData :: bytes

definition enc_question :: "wire_question \<Rightarrow> bytes" where
  "enc_question q = enc_name (WQName q) @ put_be16 (WQType q) @ put_be16 (WQClass q)"

definition dec_question :: "wire_question \<Rightarrow> question" where
  "dec_question q = \<lparr>QName = fqdn_of (WQName q), QType = WQType q, QClass = WQClass q\<rparr>"

definition enc_rr :: "wire_rr \<Rightarrow> bytes" where
  "enc_rr r = enc_name (WName r) @ put_be16 (WType r) @ put_be16 (WClass r) @ put_be32 (WTTL r) @
     put_be16 (of_nat (length (WData r))) @ WData r"

definition dec_rr :: "wire_rr \<Rightarrow> resource_record" where
  "dec_rr r = \<lparr>RName = fqdn_of (WName r), RType = WType r, RClass = WClass r, RTTL = WTTL r,
               RData = WData r\<rparr>"

definition rr_ok :: "wire_rr \<Rightarrow> bool" where
  "rr_ok r \<longleftrightarrow> labels_ok (WName r) \<and> length (WData r) < 2 ^ 16"

lemma consumes_parseQuestion:
  assumes "labels_ok (WQName q)"
  shows "consumes parseQuestion (enc_question q) (dec_question q)"
  unfolding parseQuestion_def enc_question_def
proof (rule consumes_andThen[OF consumes_wrapErr[OF consumes_parseName[OF assms]]])
  show "consumes (\<lambda>p. if p_offset p + 4 > length (p_msg p) then fail ErrMessageTooShort p
          else ret \<lparr>QName = fqdn_of (WQName q), QType = rd16 (p_msg p) (p_offset p),
                    QClass = rd16 (p_msg p) (p_offset p + 2)\<rparr> (p\<lparr>p_offset := p_offset p + 4\<rparr>))
        (put_be16 (WQType q) @ put_be16 (WQClass q)) (dec_question q)"
    unfolding consumes_def
  proof (intro allI impI)
    fix p :: parser and pre post
    assume m: "p_msg p = pre @ (put_be16 (WQType q) @ put_be16 (WQClass q)) @ post"
      and o: "p_offset p = length pre"
    have "rd16 (p_msg p) (length pre) = WQType q"
      by (rule rd16_at') (simp_all add: m)
    moreover have "rd16 (p_msg p) (length pre + 2) = WQClass q"
      by (rule rd16_at'[where pre = "pre @ put_be16 (WQType q)"]) (simp_all add: m)
    moreover have "length pre + 4 \<le> length (p_msg p)" by (simp add: m)
    ultimately show "(if p_offset p + 4 > length (p_msg p) then fail ErrMessageTooShort p
        else ret \<lparr>QName = fqdn_of (WQName q), QType = rd16 (p_msg p) (p_offset p),
                  QClass = rd16 (p_msg p) (p_offset p + 2)\<rparr> (p\<lparr>p_offset := p_offset p + 4\<rparr>))
      = (Inr (dec_question q),
         p\<lparr>p_offset := length pre + length (put_be16 (WQType q) @ put_be16 (WQClass q))\<rparr>)"
      by (simp add: o ret_def dec_question_def)
  qed
qed

lemma consumes_parseRR:
  assumes "rr_ok r"
  shows "consumes parseRR (enc_rr r) (dec_rr r, length (enc_rr r))"
  unfolding consumes_def
proof (intro allI impI)
  fix p :: parser and pre post
  assume m: "p_msg p = pre @ enc_rr r @ post" and o: "p_offset p = length pre"
  let ?n = "enc_name (WName r)" and ?d = "WData r"
  let ?p1 = "p\<lparr>p_offset := length pre + length ?n\<rparr>"
  have "parseName p = (Inr (fqdn_of (WName r)), ?p1)"
    using consumesD[OF consumes_parseName, of "WName r" p pre] assms m o
    by (simp add: rr_ok_def enc_rr_def)
  moreover have "rd16 (p_msg p) (length pre + length ?n) = WType r"
    by (rule rd16_at'[where pre = "pre @ ?n"]) (simp_all add: m enc_rr_def)
  moreover have "rd16 (p_msg p) (length pre + length ?n + 2) = WClass r"
    by (rule rd16_at'[where pre = "pre @ ?n @ put_be16 (WType r)"]) (simp_all add: m enc_rr_def)
  moreover have "rd32 (p_msg p) (length pre + length ?n + 4) = WTTL r"
    by (rule rd32_at'[where pre = "pre @ ?n @ put_be16 (WType r) @ put_be16 (WClass r)"])
       (simp_all add: m enc_rr_def)
  moreover have "rd16 (p_msg p) (length pre + length ?n + 8) = of_nat (length ?d)"
    by (rule rd16_at'[where pre = "pre @ ?n @ put_be16 (WType r) @ put_be16 (WClass r) @
          put_be32 (WTTL r)"]) (simp_all add: m enc_rr_def)
  moreover have "unat (of_nat (length ?d) :: u16) = length ?d"
    using assms by (simp add: rr_ok_def unat_of_nat)
  moreover have "take (length ?d) (drop (length pre + length ?n + 10) (p_msg p)) = ?d"
    by (simp add: m enc_rr_def)
  moreover have "length pre + length ?n + 10 + length ?d \<le> length (p_msg p)"
    by (simp add: m enc_rr_def)
  ultimately show "parseRR p = (Inr (dec_rr r, length (enc_rr r)),
      p\<lparr>p_offset := length pre + length (enc_rr r)\<rparr>)"
    by (simp add: parseRR_def meth_defs Let_def o dec_rr_def enc_rr_def)
qed

subsection \<open>Messages\<close>

lemma consumes_parseRRs:
  assumes "\<forall>r \<in> set rs. rr_ok r" "sz + length (concat (map enc_rr rs)) \<le> maxRRsetSize"
  shows "consumes (parseRRs (length rs) i sz) (concat (map enc_rr rs)) (map dec_rr rs)"
  using assms
proof (induction rs arbitrary: i sz)
  case Nil
  show ?case by (simp add: consumes_ret)
next
  case (Cons r rs)
  have rest: "consumes (andThen (parseRRs (length rs) (i + 1) (sz + length (enc_rr r)))
          (\<lambda>rrs. ret (dec_rr r # rrs)))
        (concat (map enc_rr rs) @ []) (dec_rr r # map dec_rr rs)"
    by (rule consumes_andThen[OF Cons.IH consumes_ret]) (use Cons.prems in auto)
  have "consumes (parseRRs (Suc (length rs)) i sz) (enc_rr r @ concat (map enc_rr rs))
          (dec_rr r # map dec_rr rs)"
    unfolding parseRRs.simps(2)
    by (rule consumes_andThen[OF consumes_wrapErr[OF consumes_parseRR]])
       (use rest Cons.prems in auto)
  then show ?case by simp
qed

definition section_ok :: "wire_rr list \<Rightarrow> bool" where
  "section_ok rs \<longleftrightarrow> (\<forall>r \<in> set rs. rr_ok r) \<and> length rs \<le> maxRRsPerName \<and>
     length (concat (map enc_rr rs)) \<le> maxRRsetSize"

lemma consumes_parseRRSection:
  "section_ok rs \<Longrightarrow>
   consumes (parseRRSection (length rs)) (concat (map enc_rr rs)) (map dec_rr rs)"
  by (simp add: section_ok_def parseRRSection_def consumes_parseRRs)

lemma consumes_parseQuestions:
  assumes "\<forall>q \<in> set qs. labels_ok (WQName q)"
  shows "consumes (parseQuestions (length qs) i) (concat (map enc_question qs)) (map dec_question qs)"
  using assms
proof (induction qs arbitrary: i)
  case Nil
  show ?case by (simp add: consumes_ret)
next
  case (Cons q qs)
  have rest: "consumes (andThen (parseQuestions (length qs) (i + 1)) (\<lambda>qs'. ret (dec_question q # qs')))
        (concat (map enc_question qs) @ []) (dec_question q # map dec_question qs)"
    by (rule consumes_andThen[OF Cons.IH consumes_ret]) (use Cons.prems in auto)
  have "consumes (parseQuestions (Suc (length qs)) i)
          (enc_question q @ concat (map enc_question qs)) (dec_question q # map dec_question qs)"
    unfolding parseQuestions.simps(2)
    by (rule consumes_andThen[OF consumes_wrapErr[OF consumes_parseQuestion]])
       (use rest Cons.prems in auto)
  then show ?case by simp
qed

definition enc_message ::
  "header \<Rightarrow> wire_question list \<Rightarrow> wire_rr list \<Rightarrow> wire_rr list \<Rightarrow> wire_rr list \<Rightarrow> bytes" where
  "enc_message h qs an ns ar =
     enc_header h @ concat (map enc_question qs) @ concat (map enc_rr an) @
     concat (map enc_rr ns) @ concat (map enc_rr ar)"

definition wire_message_ok ::
  "header \<Rightarrow> wire_question list \<Rightarrow> wire_rr list \<Rightarrow> wire_rr list \<Rightarrow> wire_rr list \<Rightarrow> bool" where
  "wire_message_ok h qs an ns ar \<longleftrightarrow>
     header_ok h \<and> unat (QDCount h) = length qs \<and> unat (ANCount h) = length an \<and>
     unat (NSCount h) = length ns \<and> unat (ARCount h) = length ar \<and>
     (\<forall>q \<in> set qs. labels_ok (WQName q)) \<and> section_ok an \<and> section_ok ns \<and> section_ok ar"

lemma NewParser_simps [simp]:
  "p_msg (NewParser m) = m" "p_offset (NewParser m) = 0" "decompressionOps (NewParser m) = 0"
  by (simp_all add: NewParser_def)

lemma parseHeader_enc:
  "header_ok h \<Longrightarrow> parseHeader (NewParser (enc_header h @ rest)) =
     (Inr h, NewParser (enc_header h @ rest)\<lparr>p_offset := headerSize\<rparr>)"
  by (simp add: parseHeader_def ret_def decode_enc_header)

lemma Parse_enc_message_eq:
  assumes "wire_message_ok h qs an ns ar"
  shows "fst (Parse (NewParser (enc_message h qs an ns ar))) =
    Inr \<lparr>Hdr = h, Question = map dec_question qs, Answer = map dec_rr an,
         Authority = map dec_rr ns, Additional = map dec_rr ar,
         CompressedSize = length (enc_message h qs an ns ar), DecompressOps = 0\<rparr>"
proof -
  let ?q = "concat (map enc_question qs)" and ?a = "concat (map enc_rr an)"
    and ?n = "concat (map enc_rr ns)" and ?r = "concat (map enc_rr ar)"
  let ?m = "enc_message h qs an ns ar"
  let ?p = "\<lambda>k. (NewParser ?m)\<lparr>p_offset := k\<rparr>"
  note ok = assms[unfolded wire_message_ok_def]
  have h: "parseHeader (NewParser ?m) = (Inr h, ?p headerSize)"
    using parseHeader_enc ok by (simp add: enc_message_def)
  have len: "\<not> length (p_msg (NewParser ?m)) < headerSize"
    by (simp add: enc_message_def)
  have q: "parseQuestions (unat (QDCount h)) 0 (?p headerSize)
      = (Inr (map dec_question qs), ?p (headerSize + length ?q))"
    using consumesD[OF consumes_parseQuestions, of qs "?p headerSize" "enc_header h" "?a @ ?n @ ?r"] ok
    by (simp add: enc_message_def)
  have a: "parseRRSection (unat (ANCount h)) (?p (headerSize + length ?q))
      = (Inr (map dec_rr an), ?p (headerSize + length ?q + length ?a))"
    using consumesD[OF consumes_parseRRSection, of an "?p (headerSize + length ?q)"
        "enc_header h @ ?q" "?n @ ?r"] ok
    by (simp add: enc_message_def)
  have n: "parseRRSection (unat (NSCount h)) (?p (headerSize + length ?q + length ?a))
      = (Inr (map dec_rr ns), ?p (headerSize + length ?q + length ?a + length ?n))"
    using consumesD[OF consumes_parseRRSection, of ns "?p (headerSize + length ?q + length ?a)"
        "enc_header h @ ?q @ ?a" "?r"] ok
    by (simp add: enc_message_def add.assoc)
  have r: "parseRRSection (unat (ARCount h)) (?p (headerSize + length ?q + length ?a + length ?n))
      = (Inr (map dec_rr ar), ?p (headerSize + length ?q + length ?a + length ?n + length ?r))"
    using consumesD[OF consumes_parseRRSection, of ar
        "?p (headerSize + length ?q + length ?a + length ?n)" "enc_header h @ ?q @ ?a @ ?n" "[]"] ok
    by (simp add: enc_message_def add.assoc)
  show ?thesis
    using len by (simp add: Parse_def andThen_def wrapErr_def h q a n r ret_def)
qed

text \<open>
  C21: The parser inverts the wire format. A message with uncompressed names that fit the RFC 1035
  limits, records that fit the section limits and a header whose counts are those of its sections
  is decoded to exactly the message that was encoded, no pointer followed.
\<close>

theorem Parse_enc_message:
  assumes "wire_message_ok h qs an ns ar"
  shows "fst (Parse (NewParser (enc_message h qs an ns ar))) =
    Inr \<lparr>Hdr = h, Question = map dec_question qs, Answer = map dec_rr an,
         Authority = map dec_rr ns, Additional = map dec_rr ar,
         CompressedSize = length (enc_message h qs an ns ar), DecompressOps = 0\<rparr>"
  using assms by (rule Parse_enc_message_eq)

definition ex_header :: header where
  "ex_header = \<lparr>ID = 0x1234, QR = True, Opcode = 5, AA = True, TC = False, RD = True, RA = False,
     Z = 2, Rcode = 3, QDCount = 1, ANCount = 1, NSCount = 0, ARCount = 0\<rparr>"

definition ex_question :: wire_question where
  "ex_question = \<lparr>WQName = [[97], [98, 99]], WQType = 1, WQClass = 1\<rparr>"

definition ex_rr :: wire_rr where
  "ex_rr = \<lparr>WName = [[97], [98, 99]], WType = 1, WClass = 1, WTTL = 3600, WData = [10, 0, 0, 1]\<rparr>"

lemma ex_message_ok: "wire_message_ok ex_header [ex_question] [ex_rr] [] []"
  by (simp add: wire_message_ok_def header_ok_def section_ok_def rr_ok_def labels_ok_def
      fqdn_of_def enc_rr_def enc_name_def limit_defs ex_header_def ex_question_def ex_rr_def)

lemmas Parse_enc_message_ex = Parse_enc_message_eq[OF ex_message_ok]

theorem Parse_enc_message_witness:
  "wire_message_ok ex_header [ex_question] [ex_rr] [] [] \<and>
   fst (Parse (NewParser (enc_message ex_header [ex_question] [ex_rr] [] []))) =
     Inr \<lparr>Hdr = ex_header, Question = [dec_question ex_question], Answer = [dec_rr ex_rr],
          Authority = [], Additional = [],
          CompressedSize = length (enc_message ex_header [ex_question] [ex_rr] [] []),
          DecompressOps = 0\<rparr>"
  using ex_message_ok Parse_enc_message[OF ex_message_ok] by simp

subsection \<open>Names\<close>

text \<open>
  C22: \<open>parseName\<close> refines the RFC 1035 reading of names. It succeeds exactly when the octets at
  the offset read, with at most 20 pointers that all point before the name's own start, as a name
  of at most 255 characters, and it returns that name; its visited set and its loop state never
  reject a readable name or accept another one, so it also terminates on every input.
\<close>

theorem parseName_refines_name_at:
  "(\<exists>p'. parseName p = (Inr name, p')) \<longleftrightarrow>
     (\<exists>ls k. name_at (p_msg p) (p_offset p) (p_offset p) ls k \<and> k \<le> 20 \<and>
        name = fqdn_of ls \<and> length name \<le> 255)"
  using parseName_iff_name_at[of p name]
  by (simp add: maxCompressionDepth_def maxDomainLength_def)

text \<open>
  Labels are joined with dots and no dot inside a label is escaped, so a label \<open>x.y\<close> and the
  two labels \<open>x\<close>, \<open>y\<close> parse to the same name: distinct names of the wire are one name to every
  caller, and one key to \<open>HashQuery\<close>.
\<close>

theorem parseName_dot_collision:
  assumes "x \<noteq> []" "y \<noteq> []" "length x + length y < maxLabelLength"
  shows "enc_name [x @ [46] @ y] \<noteq> enc_name [x, y] \<and>
    fst (parseName (NewParser (enc_name [x @ [46] @ y]))) = Inr (x @ [46] @ y @ [46]) \<and>
    fst (parseName (NewParser (enc_name [x, y]))) = Inr (x @ [46] @ y @ [46]) \<and>
    HashQuery (x @ [46] @ y @ [46]) t c = HashQuery (fqdn_of [x, y]) t c"
proof -
  have "labels_ok [x @ [46] @ y]" "labels_ok [x, y]"
    using assms by (simp_all add: labels_ok_def fqdn_of_def limit_defs)
  then have "fst (parseName (NewParser (enc_name [x @ [46] @ y]))) = Inr (fqdn_of [x @ [46] @ y])"
    "fst (parseName (NewParser (enc_name [x, y]))) = Inr (fqdn_of [x, y])"
    using consumesD[OF consumes_parseName, where pre = "[]" and post = "[]"] by simp_all
  moreover have "enc_name [x @ [46] @ y] \<noteq> enc_name [x, y]"
  proof
    assume "enc_name [x @ [46] @ y] = enc_name [x, y]"
    then have "hd (enc_name [x @ [46] @ y]) = hd (enc_name [x, y])" by simp
    then have "(of_nat (length x + length y + 1) :: byte) = of_nat (length x)"
      by (simp add: enc_name_def)
    then have "unat (of_nat (length x + length y + 1) :: byte) = unat (of_nat (length x) :: byte)"
      by (rule arg_cong)
    moreover have "unat (of_nat (length x + length y + 1) :: byte) = length x + length y + 1"
      "unat (of_nat (length x) :: byte) = length x"
      using assms(3) by (subst unat_of_nat, simp add: maxLabelLength_def)+
    ultimately show False by simp
  qed
  ultimately show ?thesis by (simp add: fqdn_of_def)
qed

theorem parseName_dot_collision_witness:
  "enc_name [[97] @ [46] @ [98]] \<noteq> enc_name [[97], [98]] \<and>
   fst (parseName (NewParser [3, 97, 46, 98, 0])) = Inr [97, 46, 98, 46] \<and>
   fst (parseName (NewParser [1, 97, 1, 98, 0])) = Inr [97, 46, 98, 46]"
  using parseName_dot_collision[of "[97]" "[98]" 0 0]
  by (simp add: maxLabelLength_def enc_name_def)

subsection \<open>Bounds of a successful parse\<close>

text \<open>
  C23: A successful \<open>Parse\<close> read inside the message, returned as many entries as the header counts
  say, at most 100 per record section, with at most 32768 bytes of owner, fixed fields and RDATA
  in each section; every name ends in a dot and has at most 255 characters; and it followed at
  most 20 pointers per name, so the work is bounded by the header's counts whatever the attacker
  sends.
\<close>

theorem Parse_bounds:
  assumes "Parse (NewParser m) = (Inr msg, p')"
  shows "12 \<le> length m \<and> p_offset p' \<le> length m \<and> CompressedSize msg = length m \<and>
    length (Question msg) = unat (QDCount (Hdr msg)) \<and>
    (\<forall>(rrs, n) \<in> {(Answer msg, ANCount (Hdr msg)), (Authority msg, NSCount (Hdr msg)),
                (Additional msg, ARCount (Hdr msg))}.
       length rrs = unat n \<and> length rrs \<le> 100 \<and> rr_weight rrs \<le> 32768 \<and>
       (\<forall>rr \<in> set rrs. name_ok (RName rr))) \<and>
    (\<forall>q \<in> set (Question msg). name_ok (QName q)) \<and>
    DecompressOps msg \<le> 20 * (length (Question msg) + length (Answer msg) +
      length (Authority msg) + length (Additional msg))"
proof -
  obtain p1 p2 p3 p4 p5 where len: "headerSize \<le> length m"
    and h: "parseHeader (NewParser m) = (Inr (Hdr msg), p1)"
    and q: "parseQuestions (unat (QDCount (Hdr msg))) 0 p1 = (Inr (Question msg), p2)"
    and a: "parseRRSection (unat (ANCount (Hdr msg))) p2 = (Inr (Answer msg), p3)"
    and n: "parseRRSection (unat (NSCount (Hdr msg))) p3 = (Inr (Authority msg), p4)"
    and r: "parseRRSection (unat (ARCount (Hdr msg))) p4 = (Inr (Additional msg), p5)"
    and out: "p' = p5" "DecompressOps msg = decompressionOps p5"
      "CompressedSize msg = length (p_msg p5)"
    by (rule Parse_Inr[OF assms]) simp
  have p1: "p_msg p1 = m" "p_offset p1 \<le> length m" "decompressionOps p1 = 0"
    using h len by (auto simp: parseHeader_def ret_def fail_def split: if_splits)
  note adv = advances_parseQuestions[unfolded advances_def, rule_format, OF q]
    advances_parseRRSection[unfolded advances_def, rule_format, OF a]
    advances_parseRRSection[unfolded advances_def, rule_format, OF n]
    advances_parseRRSection[unfolded advances_def, rule_format, OF r]
  have fin: "p_msg p5 = m" "p_offset p5 \<le> length m"
    and ops: "decompressionOps p5 \<le> (unat (QDCount (Hdr msg)) + unat (ANCount (Hdr msg)) +
      unat (NSCount (Hdr msg)) + unat (ARCount (Hdr msg))) * maxCompressionDepth"
    using adv p1 by (auto simp: algebra_simps)
  have "length (Question msg) = unat (QDCount (Hdr msg))"
    "\<forall>q \<in> set (Question msg). name_ok (QName q)"
    using parseQuestions_Inr[OF q] by simp_all
  with parseRRSection_Inr[OF a] parseRRSection_Inr[OF n] parseRRSection_Inr[OF r] fin ops len out
  show ?thesis by (auto simp: limit_defs algebra_simps)
qed

theorem Parse_bounds_witness:
  "\<exists>msg p'. Parse (NewParser (enc_message ex_header [ex_question] [ex_rr] [] [])) = (Inr msg, p') \<and>
     length (Answer msg) \<le> 100 \<and> rr_weight (Answer msg) \<le> 32768 \<and> DecompressOps msg \<le> 20 * 2"
proof -
  let ?P = "Parse (NewParser (enc_message ex_header [ex_question] [ex_rr] [] []))"
  obtain msg p' where run: "?P = (Inr msg, p')" and q: "length (Question msg) = 1"
    and a: "length (Answer msg) = 1" "Authority msg = []" "Additional msg = []"
    using Parse_enc_message_ex by (cases ?P) auto
  from Parse_bounds[OF run] q a run show ?thesis by auto
qed

end
