(* ===== verification/Go_Net.thy ===== *)
theory Go_Net
  imports Prelude
begin

text \<open>
  The operations of Go's package \<open>net\<close> that the source uses. A \<open>net.IP\<close> and a \<open>net.IPMask\<close> are
  byte slices; \<open>nil\<close> and the empty slice are both the empty list, which is what the callers'
  length tests see.
\<close>

type_synonym ip = bytes

definition v4InV6Prefix :: bytes where
  "v4InV6Prefix = replicate 10 0 @ [255, 255]"

definition To4 :: "ip \<Rightarrow> ip" where
  "To4 ip = (if length ip = 4 then ip
             else if length ip = 16 \<and> take 12 ip = v4InV6Prefix then drop 12 ip else [])"

definition To16 :: "ip \<Rightarrow> ip" where
  "To16 ip = (if length ip = 4 then v4InV6Prefix @ ip else if length ip = 16 then ip else [])"

definition CIDRMask :: "int \<Rightarrow> nat \<Rightarrow> bytes" where
  "CIDRMask ones bits =
     (if bits \<noteq> 32 \<and> bits \<noteq> 128 then []
      else if ones < 0 \<or> ones > int bits then []
      else map (\<lambda>i. NOT (drop_bit (min 8 (nat ones - 8 * i)) 255)) [0..<bits div 8])"

definition and_bytes :: "bytes \<Rightarrow> bytes \<Rightarrow> bytes" where
  "and_bytes = map2 (\<lambda>a b. a AND b)"

definition ip_Mask :: "ip \<Rightarrow> bytes \<Rightarrow> ip" where
  "ip_Mask ip m =
     (let m = (if length m = 16 \<and> length ip = 4 \<and> list_all (\<lambda>b. b = 255) (take 12 m)
               then drop 12 m else m);
          ip = (if length m = 4 \<and> length ip = 16 \<and> take 12 ip = v4InV6Prefix
                then drop 12 ip else ip)
      in if length ip \<noteq> length m then [] else and_bytes ip m)"

record ipnet =
  net_IP :: ip
  net_Mask :: bytes

definition networkNumberAndMask :: "ipnet \<Rightarrow> ip \<times> bytes" where
  "networkNumberAndMask n =
     (let ip = (if To4 (net_IP n) \<noteq> [] then To4 (net_IP n) else net_IP n);
          m = net_Mask n
      in if length ip \<noteq> 4 \<and> length ip \<noteq> 16 then ([], [])
         else if length m = 4 then (if length ip = 4 then (ip, m) else ([], []))
         else if length m = 16 then (if length ip = 4 then (ip, drop 12 m) else (ip, m))
         else ([], []))"

definition net_Contains :: "ipnet \<Rightarrow> ip \<Rightarrow> bool" where
  "net_Contains n ip =
     (let (nn, m) = networkNumberAndMask n; ip = (if To4 ip \<noteq> [] then To4 ip else ip)
      in length ip = length nn \<and> and_bytes nn m = and_bytes ip m)"

lemma length_To4: "To4 ip \<noteq> [] \<Longrightarrow> length (To4 ip) = 4"
  by (auto simp: To4_def split: if_splits)

lemma To4_v4 [simp]: "length ip = 4 \<Longrightarrow> To4 ip = ip"
  by (simp add: To4_def)

lemma To16_Nil [simp]: "To16 [] = []"
  by (simp add: To16_def)

lemma length_CIDRMask:
  "0 \<le> ones \<Longrightarrow> ones \<le> int bits \<Longrightarrow> bits = 32 \<or> bits = 128 \<Longrightarrow> length (CIDRMask ones bits) = bits div 8"
  by (auto simp: CIDRMask_def)

subsection \<open>The text form of an address\<close>

text \<open>
  \<open>IP.String\<close>: dotted decimal for an IPv4 address (also in its 16-byte form), otherwise groups of
  four hexadecimal digits, the longest run of at least two zero groups written as two colons.
\<close>

fun hex_digits :: "nat \<Rightarrow> string" where
  "hex_digits n =
     (if n < 16 then [''0123456789abcdef'' ! n] else hex_digits (n div 16) @ [''0123456789abcdef'' ! (n mod 16)])"

declare hex_digits.simps [simp del]

fun join_with :: "string \<Rightarrow> string list \<Rightarrow> string" where
  "join_with sep [] = []"
| "join_with sep [s] = s"
| "join_with sep (s # t # ss) = s @ sep @ join_with sep (t # ss)"

fun ip_groups :: "bytes \<Rightarrow> nat list" where
  "ip_groups (a # b # bs) = (256 * unat a + unat b) # ip_groups bs"
| "ip_groups _ = []"

definition zero_run :: "nat list \<Rightarrow> nat \<Rightarrow> nat" where
  "zero_run gs i = length (takeWhile ((=) 0) (drop i gs))"

definition ip6_String :: "nat list \<Rightarrow> string" where
  "ip6_String gs =
     (let best = fold max (map (zero_run gs) [0..<length gs]) 0 in
      if best < 2 then join_with '':'' (map hex_digits gs)
      else let i = hd (filter (\<lambda>i. zero_run gs i = best) [0..<length gs]) in
        join_with '':'' (map hex_digits (take i gs)) @ ''::'' @ join_with '':'' (map hex_digits (drop (i + best) gs)))"

definition IP_String :: "ip \<Rightarrow> string" where
  "IP_String ip =
     (if length ip = 0 then ''<nil>''
      else if To4 ip \<noteq> [] then join_with ''.'' (map (\<lambda>b. decimal (unat b)) (To4 ip))
      else if length ip = 16 then ip6_String (ip_groups ip)
      else ''?'' @ concat (map (\<lambda>b. [''0123456789abcdef'' ! (unat b div 16), ''0123456789abcdef'' ! (unat b mod 16)]) ip))"

definition JoinHostPort :: "string \<Rightarrow> string \<Rightarrow> string" where
  "JoinHostPort host port =
     (if CHR '':'' \<in> set host \<or> CHR ''%'' \<in> set host then ''['' @ host @ '']:'' @ port else host @ '':'' @ port)"

end
