(* ===== verification/RRL.thy ===== *)
theory RRL
  imports Go_Net
begin

text \<open>
  Response rate limiting, \<open>internal/rrl/limiter.go\<close>: one token bucket per hash of client prefix,
  query name, type and response category. The limiter's \<open>sync.Map\<close> is a map from hashes to
  buckets, \<open>Check\<close> one atomic step at a given clock reading; the \<open>int32\<close> tokens wrap as in Go.
\<close>

subsection \<open>Configuration and state\<close>

definition DefaultResponsesPerSecond :: int where "DefaultResponsesPerSecond = 5"
definition DefaultErrorsPerSecond :: int where "DefaultErrorsPerSecond = 5"
definition DefaultNXDOMAINsPerSecond :: int where "DefaultNXDOMAINsPerSecond = 5"
definition DefaultWindow :: int where "DefaultWindow = 15"
definition DefaultSlip :: int where "DefaultSlip = 2"

text \<open>The categories follow five other constants in one \<open>iota\<close> block, so they start at 5.\<close>

definition CategoryResponse :: int where "CategoryResponse = 5"
definition CategoryError :: int where "CategoryError = 6"
definition CategoryNXDOMAIN :: int where "CategoryNXDOMAIN = 7"
definition CategoryReferral :: int where "CategoryReferral = 8"
definition CategoryNodata :: int where "CategoryNodata = 9"
definition CategoryAll :: int where "CategoryAll = 10"

lemmas category_defs =
  CategoryResponse_def CategoryError_def CategoryNXDOMAIN_def CategoryReferral_def
  CategoryNodata_def CategoryAll_def

record config =
  ResponsesPerSecond :: int
  ErrorsPerSecond :: int
  NXDOMAINsPerSecond :: int
  ReferralsPerSecond :: int
  NodataPerSecond :: int
  AllPerSecond :: int
  Window :: int
  Slip :: int
  ExemptPrefixes :: "ipnet list"
  IPv4PrefixLen :: int
  IPv6PrefixLen :: int
  Enabled :: bool

definition DefaultConfig :: config where
  "DefaultConfig =
     \<lparr>ResponsesPerSecond = DefaultResponsesPerSecond, ErrorsPerSecond = DefaultErrorsPerSecond,
      NXDOMAINsPerSecond = DefaultNXDOMAINsPerSecond, ReferralsPerSecond = 5, NodataPerSecond = 5,
      AllPerSecond = 100, Window = DefaultWindow, Slip = DefaultSlip, ExemptPrefixes = [],
      IPv4PrefixLen = 24, IPv6PrefixLen = 56, Enabled = True\<rparr>"

datatype action = ActionAllow | ActionDrop | ActionSlip

record bucket =
  tokens :: int
  lastCheck :: int

record limiter =
  cfg :: config
  buckets :: "u64 \<rightharpoonup> bucket"
  allowed :: u64
  dropped :: u64
  slipped :: u64

definition NewLimiter :: "config \<Rightarrow> limiter" where
  "NewLimiter c =
     (let c = (if Window c = 0 then c\<lparr>Window := DefaultWindow\<rparr> else c);
          c = (if Slip c = 0 then c\<lparr>Slip := DefaultSlip\<rparr> else c)
      in \<lparr>cfg = c, buckets = Map.empty, allowed = 0, dropped = 0, slipped = 0\<rparr>)"

subsection \<open>Bucket selection\<close>

definition isExempt :: "config \<Rightarrow> ip \<Rightarrow> bool" where
  "isExempt c ip = list_ex (\<lambda>p. net_Contains p ip) (ExemptPrefixes c)"

definition getLimitForCategory :: "config \<Rightarrow> int \<Rightarrow> int" where
  "getLimitForCategory c category =
     (if category = CategoryResponse then ResponsesPerSecond c
      else if category = CategoryError then ErrorsPerSecond c
      else if category = CategoryNXDOMAIN then NXDOMAINsPerSecond c
      else if category = CategoryReferral then ReferralsPerSecond c
      else if category = CategoryNodata then NodataPerSecond c
      else AllPerSecond c)"

definition imputeQname :: "int \<Rightarrow> bool" where
  "imputeQname category \<longleftrightarrow>
     category = CategoryNXDOMAIN \<or> category = CategoryNodata \<or> category = CategoryError"

definition imputedQname :: bytes where "imputedQname = [46]"

text \<open>
  The receiver variable \<open>ip\<close> is overwritten by \<open>ip.To4()\<close> before the IPv6 branch calls
  \<open>ip.To16()\<close> on it.
\<close>

definition getPrefix :: "config \<Rightarrow> ip \<Rightarrow> bytes" where
  "getPrefix c ip0 =
     (let ip = To4 ip0 in
      if ip \<noteq> [] then
        ip_Mask ip (CIDRMask (if IPv4PrefixLen c = 0 then 24 else IPv4PrefixLen c) 32)
      else let ip = To16 ip in
        ip_Mask ip (CIDRMask (if IPv6PrefixLen c = 0 then 56 else IPv6PrefixLen c) 128))"

definition bucketHash :: "config \<Rightarrow> ip \<Rightarrow> bytes \<Rightarrow> u16 \<Rightarrow> int \<Rightarrow> u64" where
  "bucketHash c ip qname qtype category =
     fnv1a (getPrefix c ip @ (if imputeQname category then imputedQname else qname) @
            put_be16 qtype @ [of_int (drop_bit 8 category), of_int category])"

subsection \<open>The check\<close>

definition newBucket :: "config \<Rightarrow> int \<Rightarrow> int \<Rightarrow> bucket" where
  "newBucket c limit now = \<lparr>tokens = i32 (i64 (limit * Window c)), lastCheck = now\<rparr>"

definition refill :: "config \<Rightarrow> int \<Rightarrow> int \<Rightarrow> bucket \<Rightarrow> bucket" where
  "refill c limit now b =
     (let elapsed = i64 (now - lastCheck b) in
      if elapsed > 0 then
        let add = i32 (i64 (elapsed * limit));
            maxTokens = i32 (i64 (limit * Window c));
            newTokens = i32 (tokens b + add)
        in \<lparr>tokens = (if newTokens > maxTokens then maxTokens else newTokens), lastCheck = now\<rparr>
      else b)"

text \<open>Refill, then try to consume a token; the failed attempt is undone.\<close>

definition takeToken :: "config \<Rightarrow> int \<Rightarrow> int \<Rightarrow> bucket \<Rightarrow> bool \<times> bucket" where
  "takeToken c limit now b =
     (let b = refill c limit now b; t = i32 (tokens b - 1)
      in if t \<ge> 0 then (True, b\<lparr>tokens := t\<rparr>) else (False, b\<lparr>tokens := i32 (t + 1)\<rparr>))"

definition Check :: "limiter \<Rightarrow> ip \<Rightarrow> bytes \<Rightarrow> u16 \<Rightarrow> int \<Rightarrow> int \<Rightarrow> action \<times> limiter" where
  "Check l clientIP qname qtype category now =
     (let c = cfg l in
      if \<not> Enabled c then (ActionAllow, l\<lparr>allowed := allowed l + 1\<rparr>)
      else if isExempt c clientIP then (ActionAllow, l\<lparr>allowed := allowed l + 1\<rparr>)
      else let limit = getLimitForCategory c category in
      if limit = 0 then (ActionAllow, l\<lparr>allowed := allowed l + 1\<rparr>)
      else
        let hash = bucketHash c clientIP qname qtype category;
            b = (case buckets l hash of Some b \<Rightarrow> b | None \<Rightarrow> newBucket c limit now);
            (granted, b) = takeToken c limit now b;
            l = l\<lparr>buckets := (buckets l)(hash \<mapsto> b)\<rparr>
        in if granted then (ActionAllow, l\<lparr>allowed := allowed l + 1\<rparr>)
           else if Slip c > 0 \<and> hash mod of_int (Slip c) = 0
           then (ActionSlip, l\<lparr>slipped := slipped l + 1\<rparr>)
           else (ActionDrop, l\<lparr>dropped := dropped l + 1\<rparr>))"

definition performCleanup :: "limiter \<Rightarrow> int \<Rightarrow> limiter" where
  "performCleanup l now =
     (let cutoff = i64 (now - i64 (Window (cfg l) * 2)) in
      l\<lparr>buckets := (\<lambda>h. case buckets l h of None \<Rightarrow> None
                        | Some b \<Rightarrow> if lastCheck b < cutoff then None else Some b)\<rparr>)"

definition UpdateConfig :: "limiter \<Rightarrow> config \<Rightarrow> limiter" where
  "UpdateConfig l c = l\<lparr>cfg := c\<rparr>"

definition CategorizeResponse :: "int \<Rightarrow> int \<Rightarrow> int \<Rightarrow> int" where
  "CategorizeResponse rcode answerCount nsCount =
     (if rcode = 0 then
        (if answerCount > 0 then CategoryResponse
         else if nsCount > 0 then CategoryReferral else CategoryNodata)
      else if rcode = 3 then CategoryNXDOMAIN else CategoryError)"

end
