(* ===== verification/Token_Bucket.thy ===== *)
theory Token_Bucket
  imports Prelude
begin

text \<open>
  The contract of a token bucket, as a locale: \<open>take now b\<close> tries to consume one token of \<open>b\<close> at
  clock reading \<open>now\<close>. The provider promises that a grant pays one token and that the level grows
  no faster than \<open>rate\<close> per unit of time; the client gets the bound on the number of grants in
  any run of takes at non-decreasing clock readings.
\<close>

fun run_takes :: "(int \<Rightarrow> 'b \<Rightarrow> bool \<times> 'b) \<Rightarrow> int list \<Rightarrow> 'b \<Rightarrow> bool list \<times> 'b" where
  "run_takes f [] b = ([], b)"
| "run_takes f (t # ts) b =
     (let (g, b') = f t b; (gs, b'') = run_takes f ts b' in (g # gs, b''))"

definition grants :: "bool list \<Rightarrow> nat" where
  "grants gs = length (filter id gs)"

lemma grants_simps [simp]:
  "grants [] = 0" "grants (g # gs) = (if g then 1 else 0) + grants gs"
  by (simp_all add: grants_def)

locale token_bucket =
  fixes "take" :: "int \<Rightarrow> 'b \<Rightarrow> bool \<times> 'b"
    and level :: "'b \<Rightarrow> int"
    and stamp :: "'b \<Rightarrow> int"
    and valid :: "'b \<Rightarrow> bool"
    and horizon :: int
    and rate :: int
    and cap :: int
  assumes level_nonneg: "valid b \<Longrightarrow> 0 \<le> level b"
    and level_cap: "valid b \<Longrightarrow> level b \<le> cap"
    and rate_nonneg: "valid b \<Longrightarrow> 0 \<le> rate"
    and take_valid: "valid b \<Longrightarrow> stamp b \<le> now \<Longrightarrow> now \<le> horizon \<Longrightarrow> valid (snd (take now b))"
    and take_stamp: "valid b \<Longrightarrow> stamp b \<le> now \<Longrightarrow> now \<le> horizon \<Longrightarrow>
          stamp b \<le> stamp (snd (take now b)) \<and> stamp (snd (take now b)) \<le> now"
    and take_level: "valid b \<Longrightarrow> stamp b \<le> now \<Longrightarrow> now \<le> horizon \<Longrightarrow>
          level (snd (take now b)) + (if fst (take now b) then 1 else 0)
            \<le> level b + rate * (stamp (snd (take now b)) - stamp b)"
begin

text \<open>Grants are paid for: from the level at the start and the refill since.\<close>

lemma grants_paid:
  assumes "valid b" "sorted (stamp b # ts)" "\<forall>t \<in> set ts. t \<le> horizon"
  shows "valid (snd (run_takes take ts b)) \<and> stamp b \<le> stamp (snd (run_takes take ts b)) \<and>
    stamp (snd (run_takes take ts b)) \<le> last (stamp b # ts) \<and>
    int (grants (fst (run_takes take ts b))) + level (snd (run_takes take ts b))
      \<le> level b + rate * (stamp (snd (run_takes take ts b)) - stamp b)"
  using assms
proof (induction ts arbitrary: b)
  case Nil
  then show ?case by simp
next
  case (Cons t ts)
  obtain g b' where tb: "take t b = (g, b')" by fastforce
  from Cons.prems have t: "stamp b \<le> t" "t \<le> horizon" by simp_all
  from take_valid[OF Cons.prems(1) t] take_stamp[OF Cons.prems(1) t] take_level[OF Cons.prems(1) t] tb
  have b': "valid b'" "stamp b \<le> stamp b'" "stamp b' \<le> t"
    and lv: "level b' + (if g then 1 else 0) \<le> level b + rate * (stamp b' - stamp b)" by simp_all
  have "sorted (stamp b' # ts)" using Cons.prems(2) b'(3) by auto
  note IH = Cons.IH[OF b'(1) this]
  let ?e = "run_takes take ts b'"
  have r: "run_takes take (t # ts) b = (g # fst ?e, snd ?e)" by (simp add: tb case_prod_beta)
  from IH Cons.prems(3) have e: "valid (snd ?e)" "stamp b' \<le> stamp (snd ?e)"
    "stamp (snd ?e) \<le> last (stamp b' # ts)"
    "int (grants (fst ?e)) + level (snd ?e) \<le> level b' + rate * (stamp (snd ?e) - stamp b')"
    by auto
  have "last (stamp b' # ts) \<le> last (t # ts)" using b'(3) by simp
  then have "stamp (snd ?e) \<le> last (stamp b # t # ts)" using e(3) by simp
  with e(1,2,4) b' lv show ?case unfolding r by (auto simp: algebra_simps)
qed

lemma grants_bounded:
  assumes "valid b" "sorted (stamp b # ts)" "\<forall>t \<in> set ts. t \<le> horizon" "last (stamp b # ts) \<le> e"
  shows "int (grants (fst (run_takes take ts b))) \<le> cap + rate * (e - stamp b)"
proof -
  let ?f = "snd (run_takes take ts b)"
  from grants_paid[OF assms(1-3)] have f: "valid ?f" "stamp ?f \<le> last (stamp b # ts)"
    "int (grants (fst (run_takes take ts b))) + level ?f \<le> level b + rate * (stamp ?f - stamp b)"
    by simp_all
  have "rate * (stamp ?f - stamp b) \<le> rate * (e - stamp b)"
    using f(2) assms(4) rate_nonneg[OF assms(1)] by (intro mult_left_mono) simp_all
  with f(3) level_nonneg[OF f(1)] level_cap[OF assms(1)] show ?thesis by simp
qed

end

end
