(* ===== verification/RRL_Props.thy ===== *)
theory RRL_Props
  imports RRL Token_Bucket
begin

text \<open>
  What the rate limiter guarantees: the token-bucket bound on every run of checks (through the
  \<open>token_bucket\<close> contract), for one bucket and for a random-subdomain flood; isolation of the
  buckets; the cleanup's transparency; and the two places where the code is not what its comments
  say, the IPv6 prefix and the slip.
\<close>

subsection \<open>The bucket meets the contract\<close>

text \<open>
  \<open>bucket_valid c limit t0 e b\<close>: the limits are positive and small enough that no \<open>int32\<close>
  computation on the bucket between \<open>t0\<close> and \<open>e\<close> wraps.
\<close>

definition no_wrap :: "config \<Rightarrow> int \<Rightarrow> int \<Rightarrow> int \<Rightarrow> bool" where
  "no_wrap c limit t0 e \<longleftrightarrow> 0 < limit \<and> 0 < Window c \<and> 0 \<le> t0 \<and> t0 \<le> e \<and> e < 2 ^ 62 \<and>
     limit * Window c + limit * (e - t0) < 2 ^ 31"

definition bucket_valid :: "config \<Rightarrow> int \<Rightarrow> int \<Rightarrow> int \<Rightarrow> bucket \<Rightarrow> bool" where
  "bucket_valid c limit t0 e b \<longleftrightarrow> no_wrap c limit t0 e \<and>
     0 \<le> tokens b \<and> tokens b \<le> limit * Window c \<and> t0 \<le> lastCheck b"

lemma no_wrapD:
  assumes "no_wrap c limit t0 e" "t0 \<le> a" "a \<le> b" "b \<le> e"
  shows "0 \<le> limit * (b - a)" "limit * (b - a) < 2 ^ 31 - limit * Window c"
    "i64 (b - a) = b - a" "i32 (i64 ((b - a) * limit)) = limit * (b - a)"
    "0 < limit * Window c" "limit * Window c < 2 ^ 31" "i32 (i64 (limit * Window c)) = limit * Window c"
proof -
  note nw = assms(1)[unfolded no_wrap_def]
  have le: "limit * (b - a) \<le> limit * (e - t0)" using nw assms by (intro mult_left_mono) simp_all
  show ge: "0 \<le> limit * (b - a)" using nw assms by simp
  show lt: "limit * (b - a) < 2 ^ 31 - limit * Window c" using nw le by linarith
  show pos: "0 < limit * Window c" using nw by simp
  show "i64 (b - a) = b - a" using nw assms by (intro i64_id) simp_all
  have "0 \<le> limit * (e - t0)" using nw by simp
  then show lw: "limit * Window c < 2 ^ 31" using nw by linarith
  show "i32 (i64 ((b - a) * limit)) = limit * (b - a)"
    using ge lt pos by (simp add: mult.commute)
  show "i32 (i64 (limit * Window c)) = limit * Window c" using pos lw by simp
qed

lemma no_wrap_full:
  "no_wrap c limit t0 e \<Longrightarrow> i32 (i64 (limit * Window c)) = limit * Window c"
  using no_wrapD(7)[of c limit t0 e t0 t0] by (simp add: no_wrap_def)

lemma refill_valid:
  assumes "bucket_valid c limit t0 e b" "lastCheck b \<le> now" "now \<le> e"
  shows "refill c limit now b =
    \<lparr>tokens = min (limit * Window c) (tokens b + limit * (now - lastCheck b)), lastCheck = now\<rparr>"
proof -
  note v = assms(1)[unfolded bucket_valid_def]
  note nw = no_wrapD[OF conjunct1[OF v] _ assms(2,3)]
  have t0: "t0 \<le> lastCheck b" using v by simp
  have sum: "i32 (tokens b + limit * (now - lastCheck b)) = tokens b + limit * (now - lastCheck b)"
    using v nw(1,2)[OF t0] by (intro i32_id) simp_all
  show ?thesis
  proof (cases "lastCheck b = now")
    case True
    with v show ?thesis by (simp add: refill_def i64_def)
  next
    case False
    with assms(2) nw(3,4,7)[OF t0] sum show ?thesis
      by (simp add: refill_def Let_def min_def)
  qed
qed

lemma takeToken_valid:
  assumes "bucket_valid c limit t0 e b" "lastCheck b \<le> now" "now \<le> e"
  shows "takeToken c limit now b =
    (let r = min (limit * Window c) (tokens b + limit * (now - lastCheck b))
     in (1 \<le> r, \<lparr>tokens = (if 1 \<le> r then r - 1 else r), lastCheck = now\<rparr>))"
proof -
  let ?r = "min (limit * Window c) (tokens b + limit * (now - lastCheck b))"
  note v = assms(1)[unfolded bucket_valid_def]
  note nw = no_wrapD[OF conjunct1[OF v] _ assms(2,3)]
  have t0: "t0 \<le> lastCheck b" using v by simp
  have r: "0 \<le> ?r" "?r < 2 ^ 31" using v nw(1,5,6)[OF t0] by (simp_all add: min_def)
  then have "i32 (?r - 1) = ?r - 1" "i32 ?r = ?r" by (intro i32_id; simp)+
  then show ?thesis using r by (auto simp: takeToken_def refill_valid[OF assms] Let_def)
qed

interpretation rrl_bucket: token_bucket
  "takeToken c limit" tokens lastCheck "bucket_valid c limit t0 e" e limit "limit * Window c"
  for c limit t0 e
proof (unfold_locales, goal_cases)
  case (1 b) then show ?case by (simp add: bucket_valid_def)
next
  case (2 b) then show ?case by (simp add: bucket_valid_def)
next
  case (3 b) then show ?case by (simp add: bucket_valid_def no_wrap_def)
next
  case (4 b now)
  then have "0 < limit * Window c" "0 \<le> limit * (now - lastCheck b)"
    using no_wrapD(1,5)[of c limit t0 e "lastCheck b" now] by (simp_all add: bucket_valid_def)
  with 4 show ?case by (auto simp: takeToken_valid[OF 4] Let_def bucket_valid_def min_def)
next
  case (5 b now) then show ?case by (simp add: takeToken_valid[OF 5] Let_def)
next
  case (6 b now) then show ?case by (auto simp: takeToken_valid[OF 6] Let_def)
qed

subsection \<open>Runs of checks\<close>

record request =
  rq_ip :: ip
  rq_name :: bytes
  rq_type :: u16
  rq_cat :: int
  rq_now :: int

definition check_req :: "limiter \<Rightarrow> request \<Rightarrow> action \<times> limiter" where
  "check_req l r = Check l (rq_ip r) (rq_name r) (rq_type r) (rq_cat r) (rq_now r)"

definition req_hash :: "config \<Rightarrow> request \<Rightarrow> u64" where
  "req_hash c r = bucketHash c (rq_ip r) (rq_name r) (rq_type r) (rq_cat r)"

text \<open>The requests the limiter charges to some bucket; all others are allowed.\<close>

definition charged :: "config \<Rightarrow> request \<Rightarrow> bool" where
  "charged c r \<longleftrightarrow> Enabled c \<and> \<not> isExempt c (rq_ip r) \<and> getLimitForCategory c (rq_cat r) \<noteq> 0"

fun check_run :: "limiter \<Rightarrow> request list \<Rightarrow> action list \<times> limiter" where
  "check_run l [] = ([], l)"
| "check_run l (r # rs) =
     (let (a, l') = check_req l r; (acts, l'') = check_run l' rs in (a # acts, l''))"

definition bucket_of :: "limiter \<Rightarrow> request \<Rightarrow> bucket" where
  "bucket_of l r = (case buckets l (req_hash (cfg l) r) of Some b \<Rightarrow> b
     | None \<Rightarrow> newBucket (cfg l) (getLimitForCategory (cfg l) (rq_cat r)) (rq_now r))"

definition take_of :: "limiter \<Rightarrow> request \<Rightarrow> bool \<times> bucket" where
  "take_of l r = takeToken (cfg l) (getLimitForCategory (cfg l) (rq_cat r)) (rq_now r) (bucket_of l r)"

lemma check_req_uncharged:
  "\<not> charged (cfg l) r \<Longrightarrow> check_req l r = (ActionAllow, l\<lparr>allowed := allowed l + 1\<rparr>)"
  by (auto simp: check_req_def Check_def charged_def Let_def)

lemma check_req_charged:
  assumes "charged (cfg l) r"
  shows "fst (check_req l r) = (if fst (take_of l r) then ActionAllow
       else if Slip (cfg l) > 0 \<and> req_hash (cfg l) r mod of_int (Slip (cfg l)) = 0
       then ActionSlip else ActionDrop)"
    "buckets (snd (check_req l r)) = (buckets l)(req_hash (cfg l) r \<mapsto> snd (take_of l r))"
    "cfg (snd (check_req l r)) = cfg l"
  using assms
  by (auto simp: check_req_def Check_def charged_def Let_def take_of_def bucket_of_def req_hash_def
      split: prod.splits option.splits)

lemma check_req_cfg [simp]: "cfg (snd (check_req l r)) = cfg l"
  by (cases "charged (cfg l) r") (simp_all add: check_req_uncharged check_req_charged)

lemma check_req_other:
  "h \<noteq> req_hash (cfg l) r \<Longrightarrow> buckets (snd (check_req l r)) h = buckets l h"
  by (cases "charged (cfg l) r") (simp_all add: check_req_uncharged check_req_charged)

lemma check_run_Cons:
  "check_run l (r # rs) = (fst (check_req l r) # fst (check_run (snd (check_req l r)) rs),
     snd (check_run (snd (check_req l r)) rs))"
  by (simp add: case_prod_beta)

text \<open>The requests of \<open>rs\<close> that are charged to bucket \<open>h\<close>, and how many of them are allowed.\<close>

definition hits :: "config \<Rightarrow> u64 \<Rightarrow> request \<Rightarrow> bool" where
  "hits c h r \<longleftrightarrow> charged c r \<and> req_hash c r = h"

definition allowed_hits :: "limiter \<Rightarrow> u64 \<Rightarrow> request list \<Rightarrow> nat" where
  "allowed_hits l h rs =
     length (filter (\<lambda>(r, a). hits (cfg l) h r \<and> a = ActionAllow) (zip rs (fst (check_run l rs))))"

lemma allowed_hits_Cons:
  "allowed_hits l h (r # rs) =
     (if hits (cfg l) h r \<and> fst (check_req l r) = ActionAllow then 1 else 0) +
     allowed_hits (snd (check_req l r)) h rs"
  by (simp add: allowed_hits_def check_run_Cons del: check_run.simps)

lemma allowed_hits_Nil [simp]: "allowed_hits l h [] = 0"
  by (simp add: allowed_hits_def)

text \<open>On one bucket the limiter is the token bucket: other requests do not touch it.\<close>

lemma allowed_hits_run:
  assumes "buckets l h = Some b"
    and "\<forall>r \<in> set rs. hits (cfg l) h r \<longrightarrow> getLimitForCategory (cfg l) (rq_cat r) = limit"
  shows "allowed_hits l h rs =
    grants (fst (run_takes (takeToken (cfg l) limit) (map rq_now (filter (hits (cfg l) h) rs)) b))"
  using assms
proof (induction rs arbitrary: l b)
  case (Cons r rs)
  let ?l = "snd (check_req l r)"
  show ?case
  proof (cases "hits (cfg l) h r")
    case True
    then have c: "charged (cfg l) r" and hash: "req_hash (cfg l) r = h"
      and limit: "getLimitForCategory (cfg l) (rq_cat r) = limit"
      using Cons.prems(2) by (simp_all add: hits_def)
    have tk: "take_of l r = takeToken (cfg l) limit (rq_now r) b"
      using Cons.prems(1) by (simp add: take_of_def bucket_of_def hash limit)
    have "buckets ?l h = Some (snd (takeToken (cfg l) limit (rq_now r) b))"
      by (simp add: check_req_charged(2)[OF c] hash tk)
    from Cons.IH[OF this] Cons.prems(2) True show ?thesis
      by (simp add: allowed_hits_Cons check_req_charged(1)[OF c] tk case_prod_beta)
  next
    case False
    have "buckets ?l h = Some b"
      using False Cons.prems(1)
      by (cases "charged (cfg l) r") (simp_all add: hits_def check_req_other check_req_uncharged)
    from Cons.IH[OF this] Cons.prems(2) False show ?thesis
      by (simp add: allowed_hits_Cons)
  qed
qed (simp add: grants_def)

text \<open>A bucket that does not exist yet starts full at its first charged request.\<close>

lemma newBucket_valid:
  "no_wrap c limit t0 e \<Longrightarrow> t0 \<le> t \<Longrightarrow> t \<le> e \<Longrightarrow>
     bucket_valid c limit t0 e (newBucket c limit t) \<and> lastCheck (newBucket c limit t) = t"
  using no_wrapD(5,7)[of c limit t0 e t t] by (simp add: newBucket_def bucket_valid_def)

lemma allowed_hits_fresh:
  assumes "buckets l h = None"
    and "\<forall>r \<in> set rs. hits (cfg l) h r \<longrightarrow> getLimitForCategory (cfg l) (rq_cat r) = limit"
  shows "allowed_hits l h rs =
    (case map rq_now (filter (hits (cfg l) h) rs) of [] \<Rightarrow> 0
     | t # ts \<Rightarrow> grants (fst (run_takes (takeToken (cfg l) limit) (t # ts) (newBucket (cfg l) limit t))))"
  using assms
proof (induction rs arbitrary: l)
  case (Cons r rs)
  let ?l = "snd (check_req l r)"
  show ?case
  proof (cases "hits (cfg l) h r")
    case True
    let ?b = "newBucket (cfg l) limit (rq_now r)"
    from True have c: "charged (cfg l) r" and hash: "req_hash (cfg l) r = h"
      and limit: "getLimitForCategory (cfg l) (rq_cat r) = limit"
      using Cons.prems(2) by (simp_all add: hits_def)
    have tk: "take_of l r = takeToken (cfg l) limit (rq_now r) ?b"
      using Cons.prems(1) by (simp add: take_of_def bucket_of_def hash limit)
    have "buckets ?l h = Some (snd (takeToken (cfg l) limit (rq_now r) ?b))"
      by (simp add: check_req_charged(2)[OF c] hash tk)
    from allowed_hits_run[OF this] Cons.prems(2) True show ?thesis
      by (simp add: allowed_hits_Cons check_req_charged(1)[OF c] tk case_prod_beta)
  next
    case False
    have "buckets ?l h = None"
      using False Cons.prems(1)
      by (cases "charged (cfg l) r") (simp_all add: hits_def check_req_other check_req_uncharged)
    from Cons.IH[OF this] Cons.prems(2) False show ?thesis
      by (simp add: allowed_hits_Cons cong: list.case_cong)
  qed
qed simp

lemma allowed_hits_bound:
  assumes "buckets l h = None" "no_wrap (cfg l) limit t0 e"
    and "sorted (map rq_now rs)" "\<forall>r \<in> set rs. t0 \<le> rq_now r \<and> rq_now r \<le> e"
    and "\<forall>r \<in> set rs. hits (cfg l) h r \<longrightarrow> getLimitForCategory (cfg l) (rq_cat r) = limit"
  shows "int (allowed_hits l h rs) \<le> limit * Window (cfg l) + limit * (e - t0)"
proof (cases "map rq_now (filter (hits (cfg l) h) rs)")
  case Nil
  then have "allowed_hits l h rs = 0" by (simp add: allowed_hits_fresh[OF assms(1,5)])
  with assms(2) show ?thesis by (simp add: no_wrap_def)
next
  case (Cons t ts)
  have all: "sorted (t # ts)" "\<forall>u \<in> set (t # ts). t0 \<le> u \<and> u \<le> e"
    using assms(3,4) sorted_filter[of rq_now rs "hits (cfg l) h"] unfolding Cons[symmetric] by auto
  let ?b = "newBucket (cfg l) limit t"
  have b: "bucket_valid (cfg l) limit t0 e ?b" "lastCheck ?b = t"
    using newBucket_valid[OF assms(2)] all by simp_all
  have "allowed_hits l h rs = grants (fst (run_takes (takeToken (cfg l) limit) (t # ts) ?b))"
    using allowed_hits_fresh[OF assms(1,5)] Cons by simp
  also have "int \<dots> \<le> limit * Window (cfg l) + limit * (e - lastCheck ?b)"
    using all b(2) by (intro rrl_bucket.grants_bounded[OF b(1)]) auto
  also have "\<dots> \<le> limit * Window (cfg l) + limit * (e - t0)"
    using b all assms(2) by (auto simp: no_wrap_def intro!: mult_left_mono)
  finally show ?thesis .
qed

subsection \<open>Properties\<close>


definition ex_cfg :: config where
  "ex_cfg = DefaultConfig\<lparr>NXDOMAINsPerSecond := 1, Window := 2\<rparr>"

definition ex_flood :: "request list" where
  "ex_flood = map (\<lambda>i. \<lparr>rq_ip = [192, 0, 2, 7], rq_name = [of_nat i], rq_type = 1,
                        rq_cat = CategoryNXDOMAIN, rq_now = 100\<rparr>) [0..<4]"

lemma ex_cfg_no_wrap: "no_wrap ex_cfg 1 100 100"
  by (simp add: no_wrap_def ex_cfg_def DefaultConfig_def)

lemma cfg_NewLimiter_ex [simp]: "cfg (NewLimiter ex_cfg) = ex_cfg" "buckets (NewLimiter c) h = None"
  by (simp_all add: NewLimiter_def ex_cfg_def DefaultConfig_def DefaultSlip_def Let_def)

lemma Window_ex_cfg [simp]: "Window ex_cfg = 2"
  by (simp add: ex_cfg_def)

lemma ex_limit: "r \<in> set ex_flood \<Longrightarrow> getLimitForCategory ex_cfg (rq_cat r) = 1"
  by (auto simp: ex_flood_def getLimitForCategory_def ex_cfg_def category_defs)

lemma ex_flood_now [simp]: "map rq_now ex_flood = [100, 100, 100, 100]"
  by (simp add: ex_flood_def upt_rec)


text \<open>
  Random-subdomain floods are limited as one stream. Whatever names an IPv4 prefix queries, all
  its NXDOMAIN (or NODATA, or error) responses of one query type draw from one bucket, so their
  allowed number obeys the same bound.
\<close>

theorem Check_flood_bound:
  assumes fresh: "\<forall>h. buckets l h = None" and nw: "no_wrap (cfg l) limit t0 e"
    and srt: "sorted (map rq_now rs)" and win: "\<forall>r \<in> set rs. t0 \<le> rq_now r \<and> rq_now r \<le> e"
    and same: "\<forall>r \<in> set rs. getPrefix (cfg l) (rq_ip r) = pre \<and> rq_type r = qt \<and> rq_cat r = cat"
    and cat: "imputeQname cat" "getLimitForCategory (cfg l) cat = limit"
    and ch: "\<forall>r \<in> set rs. charged (cfg l) r"
  shows "int (length (filter (\<lambda>a. a = ActionAllow) (fst (check_run l rs))))
           \<le> limit * Window (cfg l) + limit * (e - t0)"
proof (cases rs)
  case Nil
  with nw show ?thesis by (simp add: no_wrap_def)
next
  case (Cons r0 rs')
  let ?h = "req_hash (cfg l) r0"
  have h: "req_hash (cfg l) r = ?h" if "r \<in> set rs" for r
    using same cat(1) that Cons by (auto simp: req_hash_def bucketHash_def)
  have len: "length (fst (check_run l rs)) = length rs" for l rs
    by (induction rs arbitrary: l) (simp_all add: check_run_Cons del: check_run.simps(2))
  have "(\<lambda>(r, a). hits (cfg l) ?h r \<and> a = ActionAllow) ra = (snd ra = ActionAllow)"
    if "ra \<in> set (zip rs (fst (check_run l rs)))" for ra
    using that h ch by (auto simp: hits_def dest: set_zip_leftD)
  then have "allowed_hits l ?h rs
      = length (filter (\<lambda>ra. snd ra = ActionAllow) (zip rs (fst (check_run l rs))))"
    unfolding allowed_hits_def by (metis (mono_tags, lifting) filter_cong)
  also have "\<dots> = length (filter (\<lambda>a. a = ActionAllow) (map snd (zip rs (fst (check_run l rs)))))"
    by (simp add: filter_map comp_def)
  also have "map snd (zip rs (fst (check_run l rs))) = fst (check_run l rs)"
    using len by simp
  finally have "length (filter (\<lambda>a. a = ActionAllow) (fst (check_run l rs))) = allowed_hits l ?h rs"
    by simp
  moreover have "int (allowed_hits l ?h rs) \<le> limit * Window (cfg l) + limit * (e - t0)"
    using same cat(2) by (intro allowed_hits_bound[OF _ nw srt win]) (simp_all add: fresh)
  ultimately show ?thesis by simp
qed

theorem Check_flood_bound_witness:
  "int (length (filter (\<lambda>a. a = ActionAllow) (fst (check_run (NewLimiter ex_cfg) ex_flood)))) \<le> 2"
proof -
  have "int (length (filter (\<lambda>a. a = ActionAllow) (fst (check_run (NewLimiter ex_cfg) ex_flood))))
      \<le> 1 * Window (cfg (NewLimiter ex_cfg)) + 1 * (100 - 100)"
  proof (rule Check_flood_bound[where pre = "getPrefix ex_cfg [192, 0, 2, 7]" and qt = 1
        and cat = CategoryNXDOMAIN])
    show "getLimitForCategory (cfg (NewLimiter ex_cfg)) CategoryNXDOMAIN = 1"
      using ex_limit[of "hd ex_flood"] by (simp add: ex_flood_def upt_rec)
    show "\<forall>r \<in> set ex_flood. charged (cfg (NewLimiter ex_cfg)) r"
      using ex_limit by (auto simp: charged_def) (simp_all add: ex_cfg_def DefaultConfig_def isExempt_def)
  qed (use ex_cfg_no_wrap in simp_all, auto simp: ex_flood_def imputeQname_def)
  then show ?thesis by simp
qed

text \<open>
  Every IPv6 client falls into one bucket. For any 16-byte address that is not IPv4-mapped the
  computed prefix is empty, because the IPv6 branch works on the result of the failed IPv4
  conversion; so all IPv6 clients share the bucket of a query, whatever \<open>IPv6PrefixLen\<close> is.
\<close>

theorem getPrefix_ipv6_shared:
  assumes "length a = 16" "take 12 a \<noteq> v4InV6Prefix" "length b = 16" "take 12 b \<noteq> v4InV6Prefix"
  shows "getPrefix c a = [] \<and> bucketHash c a qname qtype cat = bucketHash c b qname qtype cat"
proof -
  have "getPrefix c x = []" if "length x = 16" "take 12 x \<noteq> v4InV6Prefix" for x
  proof -
    have "To4 x = []" using that by (simp add: To4_def)
    moreover have "ip_Mask [] m = []" for m
      by (simp add: ip_Mask_def and_bytes_def Let_def)
    ultimately show ?thesis by (simp add: getPrefix_def)
  qed
  with assms show ?thesis by (simp add: bucketHash_def)
qed

theorem getPrefix_ipv6_shared_witness:
  "bucketHash DefaultConfig (32 # 1 # replicate 14 0) [97, 46] 28 CategoryResponse
   = bucketHash DefaultConfig (42 # replicate 15 7) [97, 46] 28 CategoryResponse"
proof -
  have "take 12 (32 # 1 # replicate 14 0) \<noteq> v4InV6Prefix"
    "take 12 (42 # replicate 15 7) \<noteq> v4InV6Prefix" by code_simp+
  then show ?thesis
    using getPrefix_ipv6_shared[of "32 # 1 # replicate 14 0" "42 # replicate 15 7"] by simp
qed

text \<open>
  The slip is a property of the bucket, not of the response. Two limited responses of one
  bucket under one configuration get the same action, both dropped or both truncated: the code
  never lets one in \<open>Slip\<close> of a bucket's limited responses through.
\<close>

theorem Check_slip_per_bucket:
  assumes "cfg l1 = cfg l2" "req_hash (cfg l1) r1 = req_hash (cfg l2) r2"
    and "fst (check_req l1 r1) \<noteq> ActionAllow" "fst (check_req l2 r2) \<noteq> ActionAllow"
  shows "fst (check_req l1 r1) = fst (check_req l2 r2)"
proof -
  have "charged (cfg l1) r1" "charged (cfg l2) r2"
    using assms(3,4) check_req_uncharged by fastforce+
  with assms show ?thesis by (simp add: check_req_charged(1) split: if_splits)
qed

definition ex_empty :: limiter where
  "ex_empty = (NewLimiter ex_cfg)\<lparr>buckets := \<lambda>h. Some \<lparr>tokens = 0, lastCheck = 100\<rparr>\<rparr>"

lemma ex_empty_limits: "fst (check_req ex_empty (hd ex_flood)) \<noteq> ActionAllow"
proof -
  have c: "charged (cfg ex_empty) (hd ex_flood)"
    by (simp add: charged_def ex_empty_def ex_flood_def upt_rec isExempt_def getLimitForCategory_def
        category_defs) (simp add: ex_cfg_def DefaultConfig_def)
  have now: "rq_now (hd ex_flood) = 100" by (simp add: ex_flood_def upt_rec)
  have "\<not> fst (take_of ex_empty (hd ex_flood))"
    by (simp add: take_of_def bucket_of_def now)
       (simp add: ex_empty_def takeToken_def refill_def i64_def i32_def)
  with c show ?thesis by (simp add: check_req_charged(1))
qed

theorem Check_slip_per_bucket_witness:
  "fst (check_req ex_empty (hd ex_flood)) \<noteq> ActionAllow \<and>
   fst (check_req ex_empty (hd ex_flood)) =
     fst (check_req (ex_empty\<lparr>dropped := 9\<rparr>) ((hd ex_flood)\<lparr>rq_name := [120]\<rparr>))"
proof -
  let ?r = "(hd ex_flood)\<lparr>rq_name := [120]\<rparr>" and ?l = "ex_empty\<lparr>dropped := 9\<rparr>"
  have h: "req_hash (cfg ex_empty) (hd ex_flood) = req_hash (cfg ?l) ?r"
    by (simp add: req_hash_def bucketHash_def ex_flood_def upt_rec imputeQname_def)
  have "charged (cfg ?l) ?r \<longleftrightarrow> charged (cfg ex_empty) (hd ex_flood)"
    by (simp add: charged_def)
  moreover have "take_of ?l ?r = take_of ex_empty (hd ex_flood)"
    by (simp add: take_of_def bucket_of_def ex_empty_def)
  moreover have "charged (cfg ex_empty) (hd ex_flood)"
    using ex_empty_limits check_req_uncharged by fastforce
  ultimately have "fst (check_req ?l ?r) \<noteq> ActionAllow"
    using ex_empty_limits by (simp add: check_req_charged(1) split: if_splits)
  with Check_slip_per_bucket[of ex_empty ?l "hd ex_flood" ?r] h ex_empty_limits show ?thesis
    by simp
qed

text \<open>
  The periodic cleanup is not observable. Deleting the buckets idle for more than twice the
  window changes neither the action nor the resulting bucket of any later check whose bucket is
  within its bounds: an idle bucket would have been refilled to the full one a new bucket starts
  with.
\<close>

theorem cleanup_transparent:
  assumes bounds: "\<forall>b. buckets l (req_hash (cfg l) r) = Some b \<longrightarrow>
        bucket_valid (cfg l) (getLimitForCategory (cfg l) (rq_cat r)) t0 e b \<and> lastCheck b \<le> now"
    and times: "0 \<le> now" "now \<le> rq_now r" "rq_now r \<le> e"
    and window: "Window (cfg l) * 2 < 2 ^ 62"
  shows "fst (check_req (performCleanup l now) r) = fst (check_req l r) \<and>
    buckets (snd (check_req (performCleanup l now) r)) (req_hash (cfg l) r)
      = (if charged (cfg l) r then buckets (snd (check_req l r)) (req_hash (cfg l) r)
         else buckets (performCleanup l now) (req_hash (cfg l) r))"
proof -
  let ?l = "performCleanup l now" and ?h = "req_hash (cfg l) r" and ?c = "cfg l"
  let ?lim = "getLimitForCategory ?c (rq_cat r)"
  have c: "cfg ?l = ?c" by (simp add: performCleanup_def Let_def)
  have "take_of ?l r = take_of l r"
  proof (cases "buckets l ?h")
    case None
    then show ?thesis by (simp add: take_of_def bucket_of_def c performCleanup_def Let_def)
  next
    case (Some b)
    with bounds have v: "bucket_valid ?c ?lim t0 e b" and last: "lastCheck b \<le> now" by simp_all
    have w: "no_wrap ?c ?lim t0 e" and t0: "t0 \<le> lastCheck b" and tok: "0 \<le> tokens b"
      and pos: "0 < ?lim" "0 < Window ?c" and small: "now < 2 ^ 62"
      using v times by (auto simp: bucket_valid_def no_wrap_def)
    have cut: "i64 (now - i64 (Window ?c * 2)) = now - Window ?c * 2"
      using pos small times window by simp
    show ?thesis
    proof (cases "lastCheck b < now - Window ?c * 2")
      case True
      then have gone: "buckets ?l ?h = None"
        by (simp add: performCleanup_def Let_def cut Some)
      have "?lim * Window ?c \<le> ?lim * (rq_now r - lastCheck b)"
        using True pos times by (intro mult_left_mono) linarith+
      then have "min (?lim * Window ?c) (tokens b + ?lim * (rq_now r - lastCheck b)) = ?lim * Window ?c"
        using tok by simp
      moreover have "takeToken ?c ?lim (rq_now r) (newBucket ?c ?lim (rq_now r)) =
          (1 \<le> ?lim * Window ?c,
           \<lparr>tokens = (if 1 \<le> ?lim * Window ?c then ?lim * Window ?c - 1 else ?lim * Window ?c),
            lastCheck = rq_now r\<rparr>)"
        using newBucket_valid[OF w _ times(3)] t0 last times
        by (subst takeToken_valid[of ?c ?lim t0 e])
           (simp_all add: newBucket_def no_wrap_full[OF w])
      ultimately show ?thesis
        using last times by (simp add: take_of_def bucket_of_def c gone Some takeToken_valid[OF v])
    next
      case False
      then have "buckets ?l ?h = Some b"
        by (simp add: performCleanup_def Let_def cut Some)
      then show ?thesis by (simp add: take_of_def bucket_of_def c Some)
    qed
  qed
  then show ?thesis
    by (cases "charged ?c r")
       (simp_all add: check_req_charged c check_req_uncharged)
qed

theorem cleanup_transparent_witness:
  "fst (check_req (performCleanup ex_empty 200) ((hd ex_flood)\<lparr>rq_now := 200\<rparr>))
   = fst (check_req ex_empty ((hd ex_flood)\<lparr>rq_now := 200\<rparr>))"
proof -
  have "no_wrap ex_cfg 1 100 200"
    by (simp add: no_wrap_def)
  moreover have "getLimitForCategory ex_cfg (rq_cat (hd ex_flood)) = 1"
    by (rule ex_limit) (simp add: ex_flood_def upt_rec)
  ultimately show ?thesis
    using cleanup_transparent[of ex_empty "(hd ex_flood)\<lparr>rq_now := 200\<rparr>" 100 200 200]
    by (simp add: ex_empty_def bucket_valid_def)
qed

end
