(* ===== verification/Cookie.thy ===== *)
theory Cookie
  imports Prelude
begin

text \<open>
  DNS cookies, \<open>internal/cookie/cookie.go\<close>. SipHash-2-4 is code of another module, so it is the
  parameter \<open>sip\<close> (key, message) of every definition that uses it; what \<open>crypto/rand\<close> delivers is
  an argument too (\<open>None\<close> for its error), and the clock is the Unix second \<open>now\<close>. Fixed-size
  arrays are byte lists of that length; a nil error is \<open>None\<close>.
\<close>

datatype cookie_error =
    ErrInvalidCookie | ErrInvalidClientCookie | ErrInvalidServerCookie | ErrExpiredCookie
  | ErrBadCookie | ErrRandom

definition clientCookieSize :: nat where "clientCookieSize = 8"
definition serverCookieMetaSize :: nat where "serverCookieMetaSize = 8"
definition serverCookieHashSize :: nat where "serverCookieHashSize = 8"
definition serverCookieSize :: nat where
  "serverCookieSize = serverCookieMetaSize + serverCookieHashSize"
definition cookieVersion :: byte where "cookieVersion = 1"
definition serverCookieValidFor :: int where "serverCookieValidFor = 3600"
definition serverCookieMaxSkew :: int where "serverCookieMaxSkew = 300"

lemmas cookie_consts =
  clientCookieSize_def serverCookieMetaSize_def serverCookieHashSize_def serverCookieSize_def
  cookieVersion_def serverCookieValidFor_def serverCookieMaxSkew_def

record manager =
  currentSecret :: bytes
  previousSecret :: bytes
  secretTime :: int
  ck_enabled :: bool
  requireValid :: bool
  clusterSecret :: bytes
  useCluster :: bool

record cookie_config =
  CfgEnabled :: bool
  CfgRequireValid :: bool
  CfgClusterSecret :: "bytes option"

subsection \<open>Secrets\<close>

definition rotateSecret :: "bytes option \<Rightarrow> int \<Rightarrow> (manager, cookie_error, unit) meth" where
  "rotateSecret rnd now m =
     (if useCluster m then ret () m
      else let m = m\<lparr>previousSecret := currentSecret m\<rparr> in
        case rnd of None \<Rightarrow> fail ErrRandom m
        | Some s \<Rightarrow> ret () (m\<lparr>currentSecret := s, secretTime := now\<rparr>))"

definition NewManager :: "cookie_config \<Rightarrow> bytes option \<Rightarrow> int \<Rightarrow> cookie_error + manager" where
  "NewManager c rnd now =
     (let zero = replicate 16 0;
          m = \<lparr>currentSecret = zero, previousSecret = zero, secretTime = 0, ck_enabled = CfgEnabled c,
               requireValid = CfgRequireValid c, clusterSecret = zero, useCluster = False\<rparr>;
          random = (case rotateSecret rnd now m of (Inl e, _) \<Rightarrow> Inl e | (Inr _, m') \<Rightarrow> Inr m')
      in case CfgClusterSecret c of
           Some s \<Rightarrow> (if length s \<ge> 16
             then Inr (m\<lparr>clusterSecret := take 16 s, useCluster := True, currentSecret := take 16 s\<rparr>)
             else random)
         | None \<Rightarrow> random)"

subsection \<open>Cookies\<close>

definition computeServerCookie :: "(bytes \<Rightarrow> bytes \<Rightarrow> u64) \<Rightarrow> bytes \<Rightarrow> bytes \<Rightarrow> bytes \<Rightarrow> u32 \<Rightarrow> bytes" where
  "computeServerCookie sip secret clientCookie clientIP timestamp =
     (let meta = cookieVersion # [0, 0, 0] @ put_be32 timestamp
      in meta @ put_le64 (sip secret (clientCookie @ meta @ clientIP)))"

definition GenerateServerCookie :: "(bytes \<Rightarrow> bytes \<Rightarrow> u64) \<Rightarrow> manager \<Rightarrow> bytes \<Rightarrow> bytes \<Rightarrow> int \<Rightarrow> bytes" where
  "GenerateServerCookie sip m clientCookie clientIP now =
     computeServerCookie sip (currentSecret m) clientCookie clientIP (of_int now)"

definition cookie_timestamp :: "bytes \<Rightarrow> u32" where
  "cookie_timestamp sc = be32 (sc ! 4) (sc ! 5) (sc ! 6) (sc ! 7)"

definition subtle_compare :: "bytes \<Rightarrow> bytes \<Rightarrow> bool" where
  "subtle_compare a b \<longleftrightarrow> (if length a \<noteq> length b then False else a = b)"

definition ValidateServerCookie ::
  "(bytes \<Rightarrow> bytes \<Rightarrow> u64) \<Rightarrow> manager \<Rightarrow> bytes \<Rightarrow> bytes \<Rightarrow> bytes \<Rightarrow> int \<Rightarrow> cookie_error option" where
  "ValidateServerCookie sip m clientCookie serverCookie clientIP now =
     (if \<not> ck_enabled m then None
      else let timestamp = cookie_timestamp serverCookie;
        hash = drop serverCookieMetaSize serverCookie;
        expected = (\<lambda>secret. drop serverCookieMetaSize
                      (computeServerCookie sip secret clientCookie clientIP timestamp));
        valid = subtle_compare hash (expected (currentSecret m)) \<or>
                subtle_compare hash (expected (previousSecret m))
      in if \<not> valid then Some ErrInvalidServerCookie
      else let age = now - uint timestamp
      in if age > serverCookieValidFor then Some ErrExpiredCookie
      else if age < - serverCookieMaxSkew then Some ErrExpiredCookie
      else None)"

definition ValidateQueryCookie ::
  "(bytes \<Rightarrow> bytes \<Rightarrow> u64) \<Rightarrow> manager \<Rightarrow> bytes \<Rightarrow> bytes \<Rightarrow> bytes \<Rightarrow> int \<Rightarrow> bool \<times> cookie_error option" where
  "ValidateQueryCookie sip m clientCookie serverCookie clientIP now =
     (if \<not> ck_enabled m then (False, None)
      else if length serverCookie = 0 then (False, None)
      else if length serverCookie \<noteq> serverCookieSize then
        (if requireValid m then (True, Some ErrInvalidServerCookie) else (False, None))
      else case ValidateServerCookie sip m clientCookie serverCookie clientIP now of
        Some e \<Rightarrow> (if requireValid m then (True, Some e) else (False, None))
      | None \<Rightarrow> (False, None))"

text \<open>\<open>ParseCookie\<close> returns the client cookie, the server cookie (nil is empty) and the error.\<close>

definition ParseCookie :: "bytes \<Rightarrow> cookie_error + bytes \<times> bytes" where
  "ParseCookie data =
     (if length data < clientCookieSize then Inl ErrInvalidClientCookie
      else let clientCookie = take clientCookieSize data in
        if length data > clientCookieSize then
          let serverCookie = drop clientCookieSize data in
          if length serverCookie < 8 \<or> length serverCookie > 32 then Inl ErrInvalidServerCookie
          else Inr (clientCookie, serverCookie)
        else Inr (clientCookie, []))"

definition FormatCookie :: "bytes \<Rightarrow> bytes \<Rightarrow> bytes" where
  "FormatCookie clientCookie serverCookie =
     take clientCookieSize clientCookie @ (if length serverCookie > 0 then serverCookie else [])"

subsection \<open>What validation accepts\<close>

lemma compute_shape:
  "take 8 (computeServerCookie sip s cc ip t) = [1, 0, 0, 0] @ put_be32 t"
  "drop 8 (computeServerCookie sip s cc ip t) = put_le64 (sip s (cc @ ([1, 0, 0, 0] @ put_be32 t) @ ip))"
  "length (computeServerCookie sip s cc ip t) = 16"
  by (simp_all add: computeServerCookie_def Let_def cookieVersion_def)

lemma cookie_timestamp_compute [simp]:
  "cookie_timestamp (computeServerCookie sip s cc ip t) = t"
  by (simp add: cookie_timestamp_def computeServerCookie_def Let_def put_be32_def be32_put_be32)

lemma subtle_compare_eq [simp]: "subtle_compare a b \<longleftrightarrow> a = b"
  by (auto simp: subtle_compare_def)

text \<open>The MAC of a cookie under a secret, over the fields the code feeds to SipHash.\<close>

definition cookie_mac :: "(bytes \<Rightarrow> bytes \<Rightarrow> u64) \<Rightarrow> bytes \<Rightarrow> bytes \<Rightarrow> bytes \<Rightarrow> u32 \<Rightarrow> bytes" where
  "cookie_mac sip s cc ip t = put_le64 (sip s (cc @ [1, 0, 0, 0] @ put_be32 t @ ip))"

lemma Validate_iff:
  assumes "ck_enabled m"
  shows "ValidateServerCookie sip m cc sc ip now =
    (let t = cookie_timestamp sc in
     if drop 8 sc \<noteq> cookie_mac sip (currentSecret m) cc ip t \<and>
        drop 8 sc \<noteq> cookie_mac sip (previousSecret m) cc ip t then Some ErrInvalidServerCookie
     else if - 300 \<le> now - uint t \<and> now - uint t \<le> 3600 then None else Some ErrExpiredCookie)"
  using assms
  by (auto simp: ValidateServerCookie_def Let_def compute_shape cookie_consts cookie_mac_def)

lemma drop_compute [simp]:
  "drop 8 (computeServerCookie sip s cc ip t) = cookie_mac sip s cc ip t"
  by (simp add: compute_shape cookie_mac_def)

fun rotations :: "manager \<Rightarrow> (bytes \<times> int) list \<Rightarrow> manager" where
  "rotations m [] = m"
| "rotations m ((s, now) # rs) = rotations (snd (rotateSecret (Some s) now m)) rs"

lemma rotateSecret_fields [simp]:
  "ck_enabled (snd (rotateSecret r now m)) = ck_enabled m"
  "requireValid (snd (rotateSecret r now m)) = requireValid m"
  "useCluster (snd (rotateSecret r now m)) = useCluster m"
  by (simp_all add: rotateSecret_def ret_def fail_def Let_def split: option.splits)

lemma rotations_cluster: "useCluster m \<Longrightarrow> rotations m rs = m"
  by (induction rs) (auto simp: rotateSecret_def ret_def)

subsection \<open>Properties\<close>

text \<open>
  A server cookie minted at \<open>t\<close> validates for the same client cookie and address from five
  minutes before to one hour after \<open>t\<close>, across one rotation of the secret; in a cluster across any
  number of rotations.
\<close>

theorem cookie_roundtrip:
  assumes "0 \<le> t" "t < 2 ^ 32" "t - 300 \<le> now" "now \<le> t + 3600"
    and "length rs \<le> 1 \<or> useCluster m"
  shows "ValidateServerCookie sip (rotations m rs) cc (GenerateServerCookie sip m cc ip t) ip now = None"
proof -
  have t: "uint (of_int t :: u32) = t"
    using assms(1,2) by (simp add: uint_word_of_int)
  consider "rs = [] \<or> useCluster m" | s n where "rs = [(s, n)]" "\<not> useCluster m"
    using assms(5) by (cases rs) auto
  then show ?thesis
  proof cases
    case 1
    then have "rotations m rs = m" using rotations_cluster by auto
    with t assms(3,4) show ?thesis
      by (cases "ck_enabled m")
         (simp_all add: Validate_iff GenerateServerCookie_def Let_def, simp add: ValidateServerCookie_def)
  next
    case 2
    then have "previousSecret (rotations m rs) = currentSecret m"
      by (simp add: rotateSecret_def ret_def Let_def)
    with 2 t assms(3,4) show ?thesis
      by (cases "ck_enabled m")
         (simp_all add: Validate_iff GenerateServerCookie_def Let_def, simp add: ValidateServerCookie_def)
  qed
qed

definition ex_sip :: "bytes \<Rightarrow> bytes \<Rightarrow> u64" where
  "ex_sip k d = fnv1a (k @ d)"

definition ex_manager :: manager where
  "ex_manager = \<lparr>currentSecret = replicate 16 9, previousSecret = replicate 16 8, secretTime = 0,
     ck_enabled = True, requireValid = True, clusterSecret = replicate 16 0, useCluster = False\<rparr>"

theorem cookie_roundtrip_witness:
  "ValidateServerCookie ex_sip (rotations ex_manager [(replicate 16 5, 2000)]) [1,2,3,4,5,6,7,8]
     (GenerateServerCookie ex_sip ex_manager [1,2,3,4,5,6,7,8] [192,0,2,1] 1000) [192,0,2,1] 4600 = None"
  by (rule cookie_roundtrip) simp_all

text \<open>
  C31: Exact verdict. An enabled manager rejects a cookie as invalid unless its MAC bytes are those
  of the current or the previous secret over this client cookie, address and embedded timestamp,
  and rejects it as expired outside the freshness window; what it accepts depends on bytes 4 to 15
  only, so a cookie with any version or reserved bytes is accepted like the genuine one.
\<close>

theorem cookie_verdict:
  assumes "ck_enabled m" "length v = 4"
  shows "ValidateServerCookie sip m cc (v @ put_be32 t @ mac) ip now =
    (if mac \<noteq> cookie_mac sip (currentSecret m) cc ip t \<and>
        mac \<noteq> cookie_mac sip (previousSecret m) cc ip t then Some ErrInvalidServerCookie
     else if now > uint t + 3600 \<or> now < uint t - 300 then Some ErrExpiredCookie
     else None)"
proof -
  from assms(2) have "cookie_timestamp (v @ put_be32 t @ mac) = t" "drop 8 (v @ put_be32 t @ mac) = mac"
    by (simp_all add: cookie_timestamp_def put_be32_def nth_append be32_put_be32)
  then show ?thesis by (auto simp: Validate_iff[OF assms(1)] Let_def)
qed

theorem cookie_verdict_witness:
  "ValidateServerCookie ex_sip ex_manager [] ([7, 7, 7, 7] @ put_be32 1000 @
     cookie_mac ex_sip (replicate 16 9) [] [] 1000) [] 1000 = None"
  using cookie_verdict[of ex_manager "[7, 7, 7, 7]" ex_sip "[]" 1000
      "cookie_mac ex_sip (replicate 16 9) [] [] 1000" "[]" 1000]
  by (simp add: ex_manager_def)

text \<open>
  Before its first rotation a manager accepts cookies anyone can make. The previous secret is
  sixteen zero bytes until a rotation replaces it, which for a cluster secret is never, and
  validation tries it: a cookie computed with the zero key is accepted for any client whenever its
  timestamp is fresh, whatever the manager's real secret is.
\<close>

theorem zero_key_forgery:
  assumes "NewManager c rnd start = Inr m" "CfgEnabled c" "0 \<le> now" "now < 2 ^ 32"
    and "useCluster m \<or> rs = []"
  shows "ValidateServerCookie sip (rotations m rs) cc
           (computeServerCookie sip (replicate 16 0) cc ip (of_int now)) ip now = None"
proof -
  have m: "previousSecret m = replicate 16 0" "ck_enabled m"
    using assms(1,2)
    by (auto simp: NewManager_def rotateSecret_def ret_def fail_def Let_def
        split: option.splits if_splits)
  have "rotations m rs = m" using assms(5) rotations_cluster by auto
  moreover have "uint (of_int now :: u32) = now"
    using assms(3,4) by (simp add: uint_word_of_int)
  ultimately show ?thesis using m by (simp add: Validate_iff Let_def)
qed

definition ex_cluster_config :: cookie_config where
  "ex_cluster_config = \<lparr>CfgEnabled = True, CfgRequireValid = True,
                        CfgClusterSecret = Some (map of_nat [1..<17])\<rparr>"

theorem zero_key_forgery_witness:
  "\<exists>m. NewManager ex_cluster_config None 0 = Inr m \<and> currentSecret m = map of_nat [1..<17] \<and>
     ValidateServerCookie ex_sip (rotations m [(replicate 16 3, 5)]) [1,2,3,4,5,6,7,8]
       (computeServerCookie ex_sip (replicate 16 0) [1,2,3,4,5,6,7,8] [192,0,2,1] 1000)
       [192,0,2,1] 1000 = None"
proof -
  obtain m where m: "NewManager ex_cluster_config None 0 = Inr m" "useCluster m"
    "currentSecret m = map of_nat [1..<17]"
    by (simp add: NewManager_def ex_cluster_config_def Let_def)
  have "CfgEnabled ex_cluster_config" by (simp add: ex_cluster_config_def)
  from zero_key_forgery[OF m(1) this, of 1000 "[(replicate 16 3, 5)]"] m show ?thesis by simp
qed

text \<open>
  BADCOOKIE policy. A query gets BADCOOKIE exactly when the manager is enabled and requires
  valid cookies and the query carries a server cookie that has another length than 16 or does not
  validate; a query without a server cookie is never refused, not even when valid cookies are
  required.
\<close>

theorem query_cookie_policy:
  "fst (ValidateQueryCookie sip m cc sc ip now) \<longleftrightarrow>
     ck_enabled m \<and> requireValid m \<and> sc \<noteq> [] \<and>
     (length sc = 16 \<longrightarrow> ValidateServerCookie sip m cc sc ip now \<noteq> None)"
  by (auto simp: ValidateQueryCookie_def cookie_consts split: option.splits)

theorem query_cookie_policy_witness:
  "\<not> fst (ValidateQueryCookie ex_sip ex_manager [1,2,3,4,5,6,7,8] [] [] 0) \<and>
   fst (ValidateQueryCookie ex_sip ex_manager [1,2,3,4,5,6,7,8] [0,0,0,0,0,0,0,0] [] 0)"
  unfolding query_cookie_policy by (simp add: ex_manager_def)

text \<open>
  \<open>ParseCookie\<close> and \<open>FormatCookie\<close> are inverse: an option that parses is the format of its two
  parts, and the parts of every well-formed cookie come back from their format.
\<close>

theorem parse_format_cookie:
  "ParseCookie d = Inr (cc, sc) \<longleftrightarrow>
     d = FormatCookie cc sc \<and> length cc = 8 \<and> (sc = [] \<or> 8 \<le> length sc \<and> length sc \<le> 32)"
proof
  assume "ParseCookie d = Inr (cc, sc)"
  then show "d = FormatCookie cc sc \<and> length cc = 8 \<and> (sc = [] \<or> 8 \<le> length sc \<and> length sc \<le> 32)"
    by (auto simp: ParseCookie_def FormatCookie_def Let_def cookie_consts not_less split: if_splits)
next
  assume "d = FormatCookie cc sc \<and> length cc = 8 \<and> (sc = [] \<or> 8 \<le> length sc \<and> length sc \<le> 32)"
  then show "ParseCookie d = Inr (cc, sc)"
    by (auto simp: ParseCookie_def FormatCookie_def Let_def cookie_consts)
qed

end
