(* ===== verification/Dns_Lib.thy ===== *)
theory Dns_Lib
  imports Prelude
begin

text \<open>
  The DNS data and library functions the server code takes from the module
  \<open>github.com/miekg/dns\<close>. The resource record is the data the source reads and writes: a header
  and typed RDATA. The library's name and printing functions are code of that module: they are the
  fields of a record \<open>dns_lib\<close>, an argument of every definition that calls them. \<open>dns.Copy\<close> is a
  deep copy, the identity on these values. What the proofs need of the library is stated as named
  predicates on the record.
\<close>

subsection \<open>Resource records\<close>

text \<open>The IANA type and class numbers the source names.\<close>

definition TypeA :: u16 where "TypeA = 1"
definition TypeNS :: u16 where "TypeNS = 2"
definition TypeCNAME :: u16 where "TypeCNAME = 5"
definition TypeSOA :: u16 where "TypeSOA = 6"
definition TypeDNAME :: u16 where "TypeDNAME = 39"
definition TypePTR :: u16 where "TypePTR = 12"
definition TypeMX :: u16 where "TypeMX = 15"
definition TypeTXT :: u16 where "TypeTXT = 16"
definition TypeAAAA :: u16 where "TypeAAAA = 28"
definition TypeDS :: u16 where "TypeDS = 43"
definition TypeRRSIG :: u16 where "TypeRRSIG = 46"
definition TypeNSEC :: u16 where "TypeNSEC = 47"
definition TypeDNSKEY :: u16 where "TypeDNSKEY = 48"
definition TypeNSEC3 :: u16 where "TypeNSEC3 = 50"
definition TypeOPT :: u16 where "TypeOPT = 41"
definition TypeTSIG :: u16 where "TypeTSIG = 250"
definition TypeIXFR :: u16 where "TypeIXFR = 251"
definition TypeAXFR :: u16 where "TypeAXFR = 252"
definition TypeANY :: u16 where "TypeANY = 255"
definition ClassINET :: u16 where "ClassINET = 1"
definition ClassNONE :: u16 where "ClassNONE = 254"
definition ClassANY :: u16 where "ClassANY = 255"

lemmas rr_consts =
  TypeA_def TypeNS_def TypeCNAME_def TypeSOA_def TypeDNAME_def TypePTR_def TypeMX_def TypeTXT_def TypeAAAA_def
  TypeDS_def TypeRRSIG_def TypeNSEC_def TypeDNSKEY_def TypeNSEC3_def TypeOPT_def TypeTSIG_def
  TypeIXFR_def TypeAXFR_def TypeANY_def ClassINET_def ClassNONE_def ClassANY_def

record soa =
  SOA_Ns :: string
  SOA_Mbox :: string
  Serial :: u32
  Refresh :: u32
  Retry :: u32
  Expire :: u32
  Minttl :: u32

text \<open>The DNSSEC types; hexadecimal and base64 fields are text, as in the library.\<close>

record dnskey_rd =
  ky_Flags :: u16
  ky_Protocol :: byte
  ky_Algorithm :: byte
  ky_PublicKey :: string

record rrsig_rd =
  rs_TypeCovered :: u16
  rs_Algorithm :: byte
  rs_Labels :: byte
  rs_Expiration :: u32
  rs_Inception :: u32
  rs_KeyTag :: u16
  rs_SignerName :: string
  rs_Signature :: string

record ds_rd =
  ds_KeyTag :: u16
  ds_Algorithm :: byte
  ds_DigestType :: byte
  ds_Digest :: string

record nsec3_rd =
  n3_Hash :: byte
  n3_Flags :: byte
  n3_Iterations :: u16
  n3_Salt :: string
  n3_NextDomain :: string
  n3_TypeBitMap :: "u16 list"

text \<open>
  The dynamic type of a record: the RDATA types the source switches on, \<open>RAny\<close> for \<open>*dns.ANY\<close>
  (a record with no RDATA) and \<open>ROther\<close> with the raw bytes for the rest.
\<close>

datatype rdata =
    RA bytes | RAAAA bytes | RNS string | RCNAME string | RDNAME string | RSOA soa | RPTR string
  | RMX u16 string | RTXT "string list" | RAny | RDNSKEY dnskey_rd | RRRSIG rrsig_rd | RDS ds_rd
  | RNSEC string "u16 list" | RNSEC3 nsec3_rd | ROther bytes

record rr =
  rr_name :: string
  rr_type :: u16
  rr_class :: u16
  rr_ttl :: u32
  rr_data :: rdata

fun is_RSOA :: "rdata \<Rightarrow> bool" where
  "is_RSOA (RSOA s) = True"
| "is_RSOA _ = False"

fun is_RAny :: "rdata \<Rightarrow> bool" where
  "is_RAny RAny = True"
| "is_RAny _ = False"

text \<open>The parts of \<open>dns.Msg\<close> that the resolver reads and writes.\<close>

record dmsg =
  m_question :: "(string \<times> u16 \<times> u16) list"
  m_rcode :: int
  m_tc :: bool
  m_answer :: "rr list"
  m_ns :: "rr list"
  m_extra :: "rr list"
  m_id :: u16
  m_rd :: bool
  m_cd :: bool
  m_ra :: bool
  m_ad :: bool
  m_aa :: bool

subsection \<open>The library's functions\<close>

record dns_lib =
  Fqdn :: "string \<Rightarrow> string"
  CanonicalName :: "string \<Rightarrow> string"
  IsSubDomain :: "string \<Rightarrow> string \<Rightarrow> bool"
  SplitDomainName :: "string \<Rightarrow> string list"
  CountLabel :: "string \<Rightarrow> nat"
  RRString :: "rr \<Rightarrow> string"
  RRLen :: "rr \<Rightarrow> int"

text \<open>Response codes.\<close>

definition RcodeSuccess :: int where "RcodeSuccess = 0"
definition RcodeFormatError :: int where "RcodeFormatError = 1"
definition RcodeServerFailure :: int where "RcodeServerFailure = 2"
definition RcodeNameError :: int where "RcodeNameError = 3"
definition RcodeNotImplemented :: int where "RcodeNotImplemented = 4"
definition RcodeRefused :: int where "RcodeRefused = 5"
definition RcodeYXDomain :: int where "RcodeYXDomain = 6"
definition RcodeYXRrset :: int where "RcodeYXRrset = 7"
definition RcodeNXRrset :: int where "RcodeNXRrset = 8"
definition RcodeNotAuth :: int where "RcodeNotAuth = 9"
definition RcodeNotZone :: int where "RcodeNotZone = 10"

lemmas rcode_defs =
  RcodeSuccess_def RcodeFormatError_def RcodeServerFailure_def RcodeNameError_def
  RcodeNotImplemented_def RcodeRefused_def RcodeYXDomain_def RcodeYXRrset_def RcodeNXRrset_def
  RcodeNotAuth_def RcodeNotZone_def

text \<open>\<open>strings.Join(labels, ".")\<close>.\<close>

fun join_labels :: "string list \<Rightarrow> string" where
  "join_labels [] = []"
| "join_labels [l] = l"
| "join_labels (l # ls) = l @ ''.'' @ join_labels ls"

subsection \<open>A concrete library for closed examples\<close>

text \<open>
  On plain ASCII names without escapes these functions do what the library documents; the
  witnesses of the properties instantiate the parameter with them. The printer only has to tell
  different records apart.
\<close>

definition ex_fqdn :: "string \<Rightarrow> string" where
  "ex_fqdn s = (if s \<noteq> [] \<and> last s = CHR ''.'' then s else s @ ''.'')"

fun ex_labels :: "string \<Rightarrow> string \<Rightarrow> string list" where
  "ex_labels acc [] = (if acc = [] then [] else [rev acc])"
| "ex_labels acc (c # cs) =
     (if c = CHR ''.'' then (if acc = [] then [] else [rev acc]) @ ex_labels [] cs
      else ex_labels (c # acc) cs)"

definition ex_subdomain :: "string \<Rightarrow> string \<Rightarrow> bool" where
  "ex_subdomain parent child =
     (let p = rev (ex_labels [] (to_lower parent)); c = rev (ex_labels [] (to_lower child))
      in take (length p) c = p)"

fun ex_digits :: "nat \<Rightarrow> nat \<Rightarrow> string" where
  "ex_digits 0 n = []"
| "ex_digits (Suc k) n = ex_digits k (n div 10) @ [char_of (48 + n mod 10)]"

fun ex_rdata :: "rdata \<Rightarrow> string" where
  "ex_rdata (RA b) = ''A '' @ map (\<lambda>x. char_of (unat x)) b"
| "ex_rdata (RAAAA b) = ''AAAA '' @ map (\<lambda>x. char_of (unat x)) b"
| "ex_rdata (RNS n) = ''NS '' @ n"
| "ex_rdata (RCNAME n) = ''CNAME '' @ n"
| "ex_rdata (RDNAME n) = ''DNAME '' @ n"
| "ex_rdata (RSOA s) = ''SOA '' @ SOA_Ns s @ '' '' @ SOA_Mbox s @ '' '' @ ex_digits 10 (unat (Serial s))"
| "ex_rdata (RPTR n) = ''PTR '' @ n"
| "ex_rdata (RMX p n) = ''MX '' @ ex_digits 5 (unat p) @ '' '' @ n"
| "ex_rdata (RTXT ts) = ''TXT '' @ concat (map (\<lambda>t. t @ '';'') ts)"
| "ex_rdata RAny = ''ANY''"
| "ex_rdata (RDNSKEY k) = ''DNSKEY '' @ ex_digits 5 (unat (ky_Flags k)) @ '' '' @ ky_PublicKey k"
| "ex_rdata (RRRSIG s) = ''RRSIG '' @ ex_digits 5 (unat (rs_TypeCovered s)) @ '' '' @ rs_SignerName s @ '' '' @ rs_Signature s"
| "ex_rdata (RDS d) = ''DS '' @ ex_digits 5 (unat (ds_KeyTag d)) @ '' '' @ ds_Digest d"
| "ex_rdata (RNSEC next ts) = ''NSEC '' @ next @ concat (map (\<lambda>t. '' '' @ ex_digits 5 (unat t)) ts)"
| "ex_rdata (RNSEC3 n) = ''NSEC3 '' @ n3_Salt n @ '' '' @ n3_NextDomain n"
| "ex_rdata (ROther b) = ''RFC3597 '' @ map (\<lambda>x. char_of (unat x)) b"

definition ex_rrstring :: "rr \<Rightarrow> string" where
  "ex_rrstring r = rr_name r @ '' '' @ ex_digits 10 (unat (rr_ttl r)) @ '' '' @
     ex_digits 5 (unat (rr_class r)) @ '' '' @ ex_digits 5 (unat (rr_type r)) @ '' '' @
     ex_rdata (rr_data r)"

definition ex_lib :: dns_lib where
  "ex_lib = \<lparr>Fqdn = ex_fqdn, CanonicalName = (\<lambda>s. to_lower (ex_fqdn s)),
     IsSubDomain = ex_subdomain, SplitDomainName = ex_labels [], CountLabel = (\<lambda>s. length (ex_labels [] s)), RRString = ex_rrstring,
     RRLen = (\<lambda>r. int (length (rr_name r)) + 12)\<rparr>"

lemma ex_lib_simps [simp]:
  "Fqdn ex_lib = ex_fqdn" "CanonicalName ex_lib = (\<lambda>s. to_lower (ex_fqdn s))"
  "IsSubDomain ex_lib = ex_subdomain" "SplitDomainName ex_lib = ex_labels []"
  "CountLabel ex_lib = (\<lambda>s. length (ex_labels [] s))" "RRString ex_lib = ex_rrstring"
  by (simp_all add: ex_lib_def)

end
