(* ===== verification/Zone.thy ===== *)
theory Zone
  imports Dns_Lib "HOL-Library.AList"
begin

text \<open>
  An authoritative zone, \<open>internal/zone/zone.go\<close>. The Go map of maps is an association list of
  association lists: the list's order is the order in which one iteration visits the keys. \<open>SOA\<close>
  is the record behind the pointer \<open>z.SOA\<close> and \<open>soa_shared\<close> says whether that pointer is the one
  stored in \<open>Records\<close> (as after \<open>AddRecord\<close>) or an object of its own (as after \<open>Clone\<close>); a shared
  record is always the last one of its RRset. A failed type assertion is the error \<open>Panic\<close>.
\<close>

subsection \<open>State\<close>

record dnssec_config =
  D_Enabled :: bool
  D_Algorithm :: byte
  KSKLifetime :: int
  ZSKLifetime :: int
  NSEC3Enabled :: bool
  NSEC3Iterations :: u16
  NSEC3SaltLength :: byte

record security_config =
  Enable0x20 :: "bool option"
  EnableScrubbing :: "bool option"
  ValidateDNSSEC :: "bool option"
  EnableQNAMEMin :: "bool option"

type_synonym type_map = "(u16 \<times> rr list) list"
type_synonym record_map = "(string \<times> type_map) list"

record zone =
  Name :: string
  Origin :: string
  Class :: u16
  SOA :: "rr option"
  soa_shared :: bool
  Records :: record_map
  DNSSEC :: "dnssec_config option"
  Security :: "security_config option"

datatype zone_error =
    NilRecord | NotInZone | Panic | MissingSOA | SOANotAtApex | NoNameservers | MissingGlue string
  | CNAMECoexists string | MultipleCNAME string | MXPointsToCNAME string | NoSOAToIncrement
  | SerialOverflow

text \<open>A name with a final dot.\<close>

definition dotted :: "string \<Rightarrow> string" where
  "dotted s = (if s = [] \<or> last s \<noteq> CHR ''.'' then s @ ''.'' else s)"

text \<open>\<open>New\<close> panics on the empty name.\<close>

definition New :: "string \<Rightarrow> zone option" where
  "New n = (if n = [] then None
     else let n = (if last n \<noteq> CHR ''.'' then n @ ''.'' else n)
     in Some \<lparr>Name = n, Origin = n, Class = ClassINET, SOA = None, soa_shared = False, Records = [],
              DNSSEC = None, Security = None\<rparr>)"

definition type_map_of :: "zone \<Rightarrow> string \<Rightarrow> type_map" where
  "type_map_of z owner = (case map_of (Records z) owner of None \<Rightarrow> [] | Some tm \<Rightarrow> tm)"

definition rrset_of :: "type_map \<Rightarrow> u16 \<Rightarrow> rr list" where
  "rrset_of tm t = (case map_of tm t of None \<Rightarrow> [] | Some rrs \<Rightarrow> rrs)"

subsection \<open>Mutation\<close>

definition AddRecord :: "dns_lib \<Rightarrow> rr option \<Rightarrow> (zone, zone_error, unit) meth" where
  "AddRecord L orr z =
     (case orr of None \<Rightarrow> fail NilRecord z
      | Some rr0 \<Rightarrow>
        let owner = to_lower (rr_name rr0);
            rr = rr0\<lparr>rr_name := owner\<rparr>
        in if \<not> IsSubDomain L (Origin z) owner then fail NotInZone z
        else let rrtype = rr_type rr;
            tm = type_map_of z owner;
            tm' = AList.update rrtype (rrset_of tm rrtype @ [rr]) tm;
            z = z\<lparr>Records := AList.update owner tm' (Records z)\<rparr>
        in if rrtype = TypeSOA then
             (if is_RSOA (rr_data rr) then ret () (z\<lparr>SOA := Some rr, soa_shared := True\<rparr>)
              else fail Panic z)
           else ret () z)"

text \<open>The store of a type map back under its owner, with the owner dropped when it is empty.\<close>

definition put_type_map :: "string \<Rightarrow> type_map \<Rightarrow> zone \<Rightarrow> zone" where
  "put_type_map owner tm z =
     (if tm = [] then z\<lparr>Records := AList.delete owner (Records z)\<rparr>
      else z\<lparr>Records := AList.update owner tm (Records z)\<rparr>)"

text \<open>The index of the first element that satisfies a condition, \<open>-1\<close> in the source if none.\<close>

fun find_index :: "('a \<Rightarrow> bool) \<Rightarrow> 'a list \<Rightarrow> nat option" where
  "find_index P [] = None"
| "find_index P (x # xs) = (if P x then Some 0 else map_option Suc (find_index P xs))"

definition DeleteRecord :: "dns_lib \<Rightarrow> rr option \<Rightarrow> (zone, zone_error, unit) meth" where
  "DeleteRecord L orr z =
     (case orr of None \<Rightarrow> fail NilRecord z
      | Some rr \<Rightarrow>
        let owner = dotted (to_lower (rr_name rr));
            rrtype = rr_type rr
        in case map_of (Records z) owner of
          None \<Rightarrow> ret () z
        | Some tm \<Rightarrow>
          (case map_of tm rrtype of
            None \<Rightarrow> ret () z
          | Some existing \<Rightarrow>
            let normalized = rr\<lparr>rr_name := owner\<rparr>;
                normalized = (case existing of [] \<Rightarrow> normalized
                  | e # _ \<Rightarrow> normalized\<lparr>rr_class := rr_class e, rr_ttl := rr_ttl e\<rparr>);
                target = RRString L normalized
            in case find_index (\<lambda>e. RRString L e = target) existing of
              None \<Rightarrow> ret () z
            | Some found \<Rightarrow>
              let updated = take found existing @ drop (found + 1) existing;
                  z = put_type_map owner (if updated = [] then AList.delete rrtype tm
                                          else AList.update rrtype updated tm) z
              in ret () (if rrtype = TypeSOA then z\<lparr>SOA := None, soa_shared := False\<rparr> else z)))"

text \<open>
  Removing the stored record that \<open>z.SOA\<close> points to leaves the pointer alone: the record lives on
  outside \<open>Records\<close>.
\<close>

definition unshare :: "string \<Rightarrow> zone \<Rightarrow> zone" where
  "unshare owner z = (case SOA z of None \<Rightarrow> z
     | Some s \<Rightarrow> if rr_name s = owner then z\<lparr>soa_shared := False\<rparr> else z)"

definition DeleteRRSet :: "string \<Rightarrow> u16 \<Rightarrow> zone \<Rightarrow> zone" where
  "DeleteRRSet owner0 rrtype z =
     (let owner = dotted (to_lower owner0)
      in case map_of (Records z) owner of
        None \<Rightarrow> z
      | Some tm \<Rightarrow>
          let z = put_type_map owner (AList.delete rrtype tm) z
          in if rrtype = TypeSOA then unshare owner z else z)"

definition DeleteName :: "string \<Rightarrow> zone \<Rightarrow> zone" where
  "DeleteName owner0 z =
     (let owner = dotted (to_lower owner0)
      in unshare owner (z\<lparr>Records := AList.delete owner (Records z)\<rparr>))"

subsection \<open>Lookup\<close>

definition joinLabels :: "string list \<Rightarrow> string" where
  "joinLabels labels = (if labels = [] then ''.'' else concat (map (\<lambda>l. l @ ''.'') labels))"

definition recordsAt :: "zone \<Rightarrow> string \<Rightarrow> u16 \<Rightarrow> rr list" where
  "recordsAt z owner rrtype =
     (case map_of (Records z) owner of
        None \<Rightarrow> []
      | Some tm \<Rightarrow> if rrtype \<noteq> TypeANY then rrset_of tm rrtype else concat (map snd tm))"

definition nameExists :: "dns_lib \<Rightarrow> zone \<Rightarrow> string \<Rightarrow> bool" where
  "nameExists L z owner \<longleftrightarrow>
     map_of (Records z) owner \<noteq> None \<or>
     list_ex (\<lambda>recordOwner. \<not> equal_fold recordOwner owner \<and> IsSubDomain L owner recordOwner)
       (map fst (Records z))"

text \<open>The loop over the enclosers, from the labels after \<open>i\<close> on.\<close>

fun wildcard_loop :: "dns_lib \<Rightarrow> zone \<Rightarrow> string \<Rightarrow> u16 \<Rightarrow> string list \<Rightarrow> rr list" where
  "wildcard_loop L z owner rrtype [] = []"
| "wildcard_loop L z owner rrtype (l # ls) =
     (let encloser = Fqdn L (joinLabels (l # ls)) in
      if \<not> nameExists L z encloser then wildcard_loop L z owner rrtype ls
      else map (\<lambda>rr. rr\<lparr>rr_name := owner\<rparr>) (recordsAt z (''*.'' @ encloser) rrtype))"

definition GetRecords :: "dns_lib \<Rightarrow> zone \<Rightarrow> string \<Rightarrow> u16 \<Rightarrow> rr list" where
  "GetRecords L z owner0 rrtype =
     (if length owner0 = 0 then []
      else let owner = to_lower (dotted owner0) in
        if nameExists L z owner then recordsAt z owner rrtype
        else wildcard_loop L z owner rrtype (drop 1 (SplitDomainName L owner)))"

definition HasName :: "dns_lib \<Rightarrow> zone \<Rightarrow> string \<Rightarrow> bool" where
  "HasName L z owner0 \<longleftrightarrow>
     (if length owner0 = 0 then False else nameExists L z (to_lower (dotted owner0)))"

definition ExactRecords :: "dns_lib \<Rightarrow> zone \<Rightarrow> string \<Rightarrow> u16 \<Rightarrow> rr list" where
  "ExactRecords L z owner rrtype = recordsAt z (to_lower (Fqdn L owner)) rrtype"

fun delegation_loop :: "dns_lib \<Rightarrow> zone \<Rightarrow> string list \<Rightarrow> string \<times> rr list" where
  "delegation_loop L z [] = ([], [])"
| "delegation_loop L z (l # ls) =
     (let candidate = Fqdn L (joinLabels (l # ls)) in
      if equal_fold candidate (Origin z) then ([], [])
      else let records = recordsAt z candidate TypeNS in
        if length records > 0 then (candidate, records) else delegation_loop L z ls)"

definition FindDelegation :: "dns_lib \<Rightarrow> zone \<Rightarrow> string \<Rightarrow> string \<times> rr list" where
  "FindDelegation L z qname = delegation_loop L z (SplitDomainName L (to_lower (Fqdn L qname)))"

definition GetAllRecords :: "zone \<Rightarrow> rr list" where
  "GetAllRecords z = concat (map (\<lambda>(_, tm). concat (map snd tm)) (Records z))"

definition ns_target :: "rr \<Rightarrow> string option" where
  "ns_target r = (case rr_data r of RNS n \<Rightarrow> Some n | _ \<Rightarrow> None)"

text \<open>The nameservers are the targets of the apex NS records of type \<open>*dns.NS\<close>.\<close>

definition GetNameservers :: "dns_lib \<Rightarrow> zone \<Rightarrow> string list" where
  "GetNameservers L z = List.map_filter ns_target (GetRecords L z (Origin z) TypeNS)"

definition GetTypeMap :: "zone \<Rightarrow> string \<Rightarrow> type_map" where
  "GetTypeMap z owner0 =
     (let owner = to_lower owner0;
          owner = (if owner \<noteq> [] \<and> last owner \<noteq> CHR ''.'' then owner @ ''.'' else owner)
      in type_map_of z owner)"

definition fullyQualify :: "zone \<Rightarrow> string \<Rightarrow> string" where
  "fullyQualify z name =
     (if name = [] \<or> name = ''@'' then Origin z
      else if last name = CHR ''.'' then name else name @ ''.'' @ Origin z)"

record stats =
  S_Name :: string
  S_RecordSets :: nat
  S_Records :: nat
  S_Owners :: nat

definition GetStats :: "zone \<Rightarrow> stats" where
  "GetStats z =
     (let sets = concat (map snd (Records z))
      in \<lparr>S_Name = Name z, S_RecordSets = length sets, S_Records = sum_list (map (length \<circ> snd) sets),
          S_Owners = length (Records z)\<rparr>)"

subsection \<open>Validation\<close>

fun first_error :: "('a \<Rightarrow> 'e option) \<Rightarrow> 'a list \<Rightarrow> 'e option" where
  "first_error f [] = None"
| "first_error f (x # xs) = (case f x of None \<Rightarrow> first_error f xs | Some e \<Rightarrow> Some e)"

definition check_glue :: "dns_lib \<Rightarrow> zone \<Rightarrow> string \<Rightarrow> zone_error option" where
  "check_glue L z target =
     (if IsSubDomain L (Origin z) target \<and>
         \<not> (length (GetRecords L z target TypeA) > 0 \<or> length (GetRecords L z target TypeAAAA) > 0)
      then Some (MissingGlue target) else None)"

definition check_cname :: "string \<times> type_map \<Rightarrow> zone_error option" where
  "check_cname = (\<lambda>(owner, tm).
     case map_of tm TypeCNAME of
       None \<Rightarrow> None
     | Some cnames \<Rightarrow>
         if length tm > 1 then Some (CNAMECoexists owner)
         else if length cnames > 1 then Some (MultipleCNAME owner) else None)"

definition check_mx :: "dns_lib \<Rightarrow> zone \<Rightarrow> string \<times> type_map \<Rightarrow> zone_error option" where
  "check_mx L z = (\<lambda>(owner, tm).
     first_error (\<lambda>r. case rr_data r of
         RMX _ mx \<Rightarrow> (if mx = ''.'' then None
                       else if length (GetRecords L z mx TypeCNAME) > 0
                       then Some (MXPointsToCNAME owner) else None)
       | _ \<Rightarrow> Some Panic) (rrset_of tm TypeMX))"

definition Validate :: "dns_lib \<Rightarrow> zone \<Rightarrow> zone_error option" where
  "Validate L z =
     (case SOA z of
        None \<Rightarrow> Some MissingSOA
      | Some s \<Rightarrow>
          if rr_name s \<noteq> Origin z then Some SOANotAtApex
          else let ns = GetNameservers L z in
          if length ns = 0 then Some NoNameservers
          else case first_error (check_glue L z) ns of
            Some e \<Rightarrow> Some e
          | None \<Rightarrow> (case first_error check_cname (Records z) of
              Some e \<Rightarrow> Some e
            | None \<Rightarrow> first_error (check_mx L z) (Records z)))"

subsection \<open>Serial numbers and copies\<close>

definition soa_serial :: "rr \<Rightarrow> u32" where
  "soa_serial r = (case rr_data r of RSOA s \<Rightarrow> Serial s | _ \<Rightarrow> 0)"

definition with_serial :: "u32 \<Rightarrow> rr \<Rightarrow> rr" where
  "with_serial n r = (case rr_data r of RSOA s \<Rightarrow> r\<lparr>rr_data := RSOA (s\<lparr>Serial := n\<rparr>)\<rparr> | _ \<Rightarrow> r)"

text \<open>An assignment to \<open>z.SOA.Serial\<close>, seen through \<open>Records\<close> as well when the record is shared.\<close>

definition set_serial :: "u32 \<Rightarrow> zone \<Rightarrow> zone" where
  "set_serial n z =
     (case SOA z of None \<Rightarrow> z
      | Some s \<Rightarrow>
          let z' = z\<lparr>SOA := Some (with_serial n s)\<rparr> in
          if soa_shared z then
            let owner = rr_name s; tm = type_map_of z owner;
                rrs = rrset_of tm TypeSOA
            in z'\<lparr>Records := AList.update owner
                    (AList.update TypeSOA (butlast rrs @ [with_serial n (last rrs)]) tm) (Records z)\<rparr>
          else z')"

text \<open>\<open>todaySerial\<close> is today's date as \<open>YYYYMMDD00\<close>, read from the clock.\<close>

definition IncrementSerial :: "u32 \<Rightarrow> (zone, zone_error, unit) meth" where
  "IncrementSerial todaySerial z =
     (case SOA z of
        None \<Rightarrow> fail NoSOAToIncrement z
      | Some s \<Rightarrow>
          let currentSerial = soa_serial s in
          if currentSerial < todaySerial then ret () (set_serial todaySerial z)
          else if currentSerial \<ge> todaySerial \<and> currentSerial < todaySerial + 99
          then ret () (set_serial (currentSerial + 1) z)
          else if currentSerial = 0xFFFFFFFF then fail SerialOverflow z
          else ret () (set_serial (currentSerial + 1) z))"

definition Clone :: "zone \<Rightarrow> zone" where
  "Clone z =
     \<lparr>Name = Name z, Origin = Origin z, Class = Class z, SOA = SOA z, soa_shared = False,
      Records = map (\<lambda>(owner, tm). (owner, map (\<lambda>(t, rrs). (t, rrs)) tm)) (Records z),
      DNSSEC = DNSSEC z, Security = None\<rparr>"

lemma Clone_Records [simp]: "Records (Clone z) = Records z"
  by (simp add: Clone_def case_prod_unfold)

end
