(* ===== verification/Zone_Props.thy ===== *)
theory Zone_Props
  imports Zone
begin

text \<open>
  Properties of the zone: the invariant of its two-level map, the lookup view that the mutations
  update, wildcard lookup, exact deletion and serial numbers.
\<close>

subsection \<open>The invariant\<close>

text \<open>
  Keys are unique, no owner and no type is kept with nothing under it, and every record is stored
  under its own lower-case owner name (inside the zone) and its own type.
\<close>

definition rrset_wf :: "string \<Rightarrow> u16 \<Rightarrow> rr list \<Rightarrow> bool" where
  "rrset_wf owner t rrs \<longleftrightarrow> rrs \<noteq> [] \<and> (\<forall>r \<in> set rrs. rr_name r = owner \<and> rr_type r = t)"

definition type_map_wf :: "string \<Rightarrow> type_map \<Rightarrow> bool" where
  "type_map_wf owner tm \<longleftrightarrow>
     distinct (map fst tm) \<and> (\<forall>t rrs. map_of tm t = Some rrs \<longrightarrow> rrset_wf owner t rrs)"

definition records_wf :: "dns_lib \<Rightarrow> string \<Rightarrow> record_map \<Rightarrow> bool" where
  "records_wf L origin R \<longleftrightarrow>
     distinct (map fst R) \<and>
     (\<forall>owner tm. map_of R owner = Some tm \<longrightarrow>
        tm \<noteq> [] \<and> type_map_wf owner tm \<and> to_lower owner = owner \<and> IsSubDomain L origin owner)"

definition soa_wf :: "zone \<Rightarrow> bool" where
  "soa_wf z \<longleftrightarrow>
     (case SOA z of None \<Rightarrow> True
      | Some s \<Rightarrow> rr_type s = TypeSOA \<and> is_RSOA (rr_data s) \<and> to_lower (rr_name s) = rr_name s \<and>
          (soa_shared z \<longrightarrow> rrset_of (type_map_of z (rr_name s)) TypeSOA \<noteq> [] \<and>
             last (rrset_of (type_map_of z (rr_name s)) TypeSOA) = s))"

definition zone_wf :: "dns_lib \<Rightarrow> zone \<Rightarrow> bool" where
  "zone_wf L z \<longleftrightarrow> records_wf L (Origin z) (Records z) \<and> soa_wf z"

text \<open>The abstract zone: the RRset at each owner and type.\<close>

definition view :: "zone \<Rightarrow> string \<Rightarrow> u16 \<Rightarrow> rr list" where
  "view z owner t = rrset_of (type_map_of z owner) t"

lemma type_map_of_update [simp]:
  "type_map_of (z\<lparr>Records := AList.update owner tm (Records z)\<rparr>) owner' =
     (if owner' = owner then tm else type_map_of z owner')"
  by (simp add: type_map_of_def update_conv')

lemma type_map_of_delete [simp]:
  "type_map_of (z\<lparr>Records := AList.delete owner (Records z)\<rparr>) owner' =
     (if owner' = owner then [] else type_map_of z owner')"
  by (simp add: type_map_of_def delete_conv')

lemma type_map_of_upd_other [simp]:
  "type_map_of (z\<lparr>SOA := s\<rparr>) = type_map_of z" "type_map_of (z\<lparr>soa_shared := b\<rparr>) = type_map_of z"
  by (simp_all add: type_map_of_def fun_eq_iff)

lemma rrset_of_update [simp]:
  "rrset_of (AList.update t rrs tm) t' = (if t' = t then rrs else rrset_of tm t')"
  by (simp add: rrset_of_def update_conv')

lemma rrset_of_delete [simp]:
  "rrset_of (AList.delete t tm) t' = (if t' = t then [] else rrset_of tm t')"
  by (simp add: rrset_of_def delete_conv')

lemma rrset_of_Nil [simp]: "rrset_of [] t = []"
  by (simp add: rrset_of_def)

lemma view_put_type_map:
  "view (put_type_map owner tm z) = (view z)(owner := rrset_of tm)"
  by (auto simp: view_def put_type_map_def fun_eq_iff)

lemma view_upd_other [simp]:
  "view (z\<lparr>SOA := s\<rparr>) = view z" "view (z\<lparr>soa_shared := b\<rparr>) = view z" "view (unshare owner z) = view z"
  by (simp_all add: view_def unshare_def fun_eq_iff split: option.split)

subsection \<open>Operations on the view\<close>

lemma AddRecord_cases:
  obtains "AddRecord L orr z = fail NilRecord z" "orr = None"
  | r where "orr = Some r" "\<not> IsSubDomain L (Origin z) (to_lower (rr_name r))"
      "AddRecord L orr z = fail NotInZone z"
  | r z' where "orr = Some r" "IsSubDomain L (Origin z) (to_lower (rr_name r))"
      "z' = z\<lparr>Records := AList.update (to_lower (rr_name r)) (AList.update (rr_type r)
         (view z (to_lower (rr_name r)) (rr_type r) @ [r\<lparr>rr_name := to_lower (rr_name r)\<rparr>])
         (type_map_of z (to_lower (rr_name r)))) (Records z)\<rparr>"
      "AddRecord L orr z = (if rr_type r = TypeSOA then
         (if is_RSOA (rr_data r)
          then ret () (z'\<lparr>SOA := Some (r\<lparr>rr_name := to_lower (rr_name r)\<rparr>), soa_shared := True\<rparr>)
          else fail Panic z') else ret () z')"
proof (cases orr)
  case None
  with that(1) show ?thesis by (simp add: AddRecord_def)
next
  case (Some r)
  show ?thesis
  proof (cases "IsSubDomain L (Origin z) (to_lower (rr_name r))")
    case True
    then show ?thesis using that(3)[OF Some True refl] Some by (simp add: AddRecord_def Let_def view_def)
  next
    case False
    then show ?thesis using that(2)[OF Some False] Some by (simp add: AddRecord_def Let_def)
  qed
qed

lemma AddRecord_view:
  assumes "AddRecord L (Some r) z = (Inr (), z')"
  defines "owner \<equiv> to_lower (rr_name r)"
  shows "view z' = (view z)(owner := (view z owner)(rr_type r :=
      view z owner (rr_type r) @ [r\<lparr>rr_name := owner\<rparr>]))"
proof (cases rule: AddRecord_cases[of L "Some r" z])
  case (3 r' z1)
  then have "view z' = view z1" using assms(1) by (auto simp: ret_def fail_def split: if_splits)
  also have "view z1 = (view z)(owner := (view z owner)(rr_type r :=
      view z owner (rr_type r) @ [r\<lparr>rr_name := owner\<rparr>]))"
    using 3(1,3) by (auto simp: view_def owner_def fun_eq_iff)
  finally show ?thesis .
qed (use assms in \<open>simp_all add: fail_def\<close>)

lemma type_map_of_DeleteRRSet_none: "map_of (Records z) owner = None \<Longrightarrow> view z owner t = []"
  by (simp add: view_def type_map_of_def)

lemma DeleteRRSet_view:
  "view (DeleteRRSet owner t z) = (let o' = dotted (to_lower owner)
     in (view z)(o' := (view z o')(t := [])))"
proof (cases "map_of (Records z) (dotted (to_lower owner))")
  case None
  then show ?thesis
    by (auto simp: DeleteRRSet_def Let_def fun_eq_iff type_map_of_DeleteRRSet_none)
next
  case (Some tm)
  then have "view z (dotted (to_lower owner)) = rrset_of tm" by (simp add: view_def type_map_of_def fun_eq_iff)
  with Some show ?thesis by (simp add: DeleteRRSet_def Let_def view_put_type_map fun_eq_iff)
qed

lemma DeleteName_view:
  "view (DeleteName owner z) = (view z)(dotted (to_lower owner) := (\<lambda>_. []))"
  by (auto simp: DeleteName_def Let_def view_def fun_eq_iff unshare_def split: option.split)

definition delete_first :: "('a \<Rightarrow> bool) \<Rightarrow> 'a list \<Rightarrow> 'a list" where
  "delete_first P xs = (case find_index P xs of None \<Rightarrow> xs | Some i \<Rightarrow> take i xs @ drop (i + 1) xs)"

lemma delete_first_simps [simp]:
  "delete_first P [] = []"
  "delete_first P (x # xs) = (if P x then xs else x # delete_first P xs)"
  by (simp_all add: delete_first_def split: option.split)

text \<open>The record \<open>DeleteRecord\<close> compares with: class and TTL come from the first stored record.\<close>

definition delete_target :: "rr \<Rightarrow> rr list \<Rightarrow> rr" where
  "delete_target r existing =
     (let n = r\<lparr>rr_name := dotted (to_lower (rr_name r))\<rparr> in
      case existing of [] \<Rightarrow> n | e # _ \<Rightarrow> n\<lparr>rr_class := rr_class e, rr_ttl := rr_ttl e\<rparr>)"

lemma DeleteRecord_view:
  assumes "DeleteRecord L (Some r) z = (res, z')"
  defines "owner \<equiv> dotted (to_lower (rr_name r))"
  shows "res = Inr () \<and> view z' = (view z)(owner := (view z owner)(rr_type r :=
      delete_first (\<lambda>e. RRString L e = RRString L (delete_target r (view z owner (rr_type r))))
        (view z owner (rr_type r))))"
proof (cases "map_of (Records z) owner")
  case None
  then have "view z owner t = []" for t by (rule type_map_of_DeleteRRSet_none)
  with None assms(1) show ?thesis
    by (auto simp: DeleteRecord_def Let_def ret_def fun_eq_iff simp flip: owner_def)
next
  case (Some tm)
  then have tm: "view z owner = rrset_of tm" by (simp add: view_def type_map_of_def fun_eq_iff)
  show ?thesis
  proof (cases "map_of tm (rr_type r)")
    case None
    then have "rrset_of tm (rr_type r) = []" by (simp add: rrset_of_def)
    with None Some assms(1) tm show ?thesis
      by (auto simp: DeleteRecord_def Let_def ret_def fun_eq_iff simp flip: owner_def)
  next
    case ex: (Some existing)
    have e: "rrset_of tm (rr_type r) = existing" by (simp add: rrset_of_def ex)
    let ?P = "\<lambda>e. RRString L e = RRString L (delete_target r existing)"
    have target: "(case existing of [] \<Rightarrow> r\<lparr>rr_name := owner\<rparr>
        | e # _ \<Rightarrow> r\<lparr>rr_name := owner, rr_class := rr_class e, rr_ttl := rr_ttl e\<rparr>) = delete_target r existing"
      by (simp add: delete_target_def Let_def owner_def split: list.split)
    show ?thesis
    proof (cases "find_index ?P existing")
      case None
      then have "delete_first ?P existing = existing" by (simp add: delete_first_def)
      with None Some ex assms(1) tm e target show ?thesis
        by (auto simp: DeleteRecord_def Let_def ret_def fun_eq_iff simp flip: owner_def)
    next
      case (Some i)
      then have df: "delete_first ?P existing = take i existing @ drop (i + 1) existing"
        by (simp add: delete_first_def)
      have "res = Inr ()" "view z' = view (put_type_map owner
          (if delete_first ?P existing = [] then AList.delete (rr_type r) tm
           else AList.update (rr_type r) (delete_first ?P existing) tm) z)"
        using assms(1) \<open>map_of (Records z) owner = Some tm\<close> ex Some target
        by (simp_all add: DeleteRecord_def Let_def ret_def df flip: owner_def) (auto split: if_splits)
      then show ?thesis by (auto simp: view_put_type_map tm e fun_eq_iff)
    qed
  qed
qed

subsection \<open>Every operation keeps the invariant\<close>

lemma type_map_wf_update:
  "\<lbrakk>type_map_wf owner tm; rrset_wf owner t rrs\<rbrakk> \<Longrightarrow> type_map_wf owner (AList.update t rrs tm)"
  by (auto simp: type_map_wf_def update_conv' distinct_update split: if_splits)

lemma type_map_wf_delete: "type_map_wf owner tm \<Longrightarrow> type_map_wf owner (AList.delete t tm)"
  by (auto simp: type_map_wf_def delete_conv' distinct_delete split: if_splits)

lemma type_map_wf_Nil [simp]: "type_map_wf owner []"
  by (simp add: type_map_wf_def)

lemma records_wf_update:
  "\<lbrakk>records_wf L origin R; tm \<noteq> []; type_map_wf owner tm; to_lower owner = owner;
    IsSubDomain L origin owner\<rbrakk> \<Longrightarrow> records_wf L origin (AList.update owner tm R)"
  by (auto simp: records_wf_def update_conv' distinct_update split: if_splits)

lemma records_wf_delete: "records_wf L origin R \<Longrightarrow> records_wf L origin (AList.delete owner R)"
  by (auto simp: records_wf_def delete_conv' distinct_delete split: if_splits)

lemma update_not_Nil [simp]: "AList.update k v al \<noteq> []"
  by (cases al) auto

lemma type_map_of_wf: "records_wf L origin (Records z) \<Longrightarrow> type_map_wf owner (type_map_of z owner)"
  by (auto simp: records_wf_def type_map_of_def split: option.split)

lemma rrset_of_wf: "\<lbrakk>type_map_wf owner tm; r \<in> set (rrset_of tm t)\<rbrakk> \<Longrightarrow> rr_name r = owner \<and> rr_type r = t"
  by (auto simp: type_map_wf_def rrset_of_def rrset_wf_def split: option.splits)

lemma put_type_map_wf:
  "\<lbrakk>records_wf L (Origin z) (Records z); map_of (Records z) owner = Some tm0; type_map_wf owner tm\<rbrakk> \<Longrightarrow>
    records_wf L (Origin z) (Records (put_type_map owner tm z))"
  unfolding put_type_map_def
  by (auto intro!: records_wf_update records_wf_delete) (auto simp: records_wf_def)

lemma put_type_map_frame [simp]:
  "Origin (put_type_map owner tm z) = Origin z" "SOA (put_type_map owner tm z) = SOA z"
  "soa_shared (put_type_map owner tm z) = soa_shared z"
  by (simp_all add: put_type_map_def)

lemma soa_wf_view:
  "soa_wf z \<longleftrightarrow> (case SOA z of None \<Rightarrow> True
      | Some s \<Rightarrow> rr_type s = TypeSOA \<and> is_RSOA (rr_data s) \<and> to_lower (rr_name s) = rr_name s \<and>
          (soa_shared z \<longrightarrow> view z (rr_name s) TypeSOA \<noteq> [] \<and> last (view z (rr_name s) TypeSOA) = s))"
  by (simp add: soa_wf_def view_def split: option.split)

lemma soa_wf_cong:
  "\<lbrakk>soa_wf z; SOA z' = SOA z; soa_shared z' \<Longrightarrow> soa_shared z;
    \<And>s. \<lbrakk>SOA z = Some s; soa_shared z'\<rbrakk> \<Longrightarrow> view z' (rr_name s) TypeSOA = view z (rr_name s) TypeSOA\<rbrakk> \<Longrightarrow>
    soa_wf z'"
  by (auto simp: soa_wf_view split: option.splits)

lemma AddRecord_wf:
  assumes wf: "zone_wf L z" and add: "AddRecord L orr z = (res, z')" and "res \<noteq> Inl Panic"
  shows "zone_wf L z'"
proof (cases rule: AddRecord_cases[of L orr z])
  case (3 r z1)
  let ?o = "to_lower (rr_name r)" and ?r = "r\<lparr>rr_name := to_lower (rr_name r)\<rparr>"
  have R: "records_wf L (Origin z) (Records z)" using wf by (simp add: zone_wf_def)
  have "rrset_wf ?o (rr_type r) (view z ?o (rr_type r) @ [?r])"
    using rrset_of_wf[OF type_map_of_wf[OF R, of ?o]] by (auto simp: rrset_wf_def view_def)
  then have R1: "records_wf L (Origin z1) (Records z1)"
    using 3(2,3) type_map_of_wf[OF R] R by (auto intro!: records_wf_update type_map_wf_update)
  have view1: "view z1 ?o (rr_type r) = view z ?o (rr_type r) @ [?r]"
    "(o', t') \<noteq> (?o, rr_type r) \<Longrightarrow> view z1 o' t' = view z o' t'" for o' t'
    using 3(3) by (auto simp: view_def)
  show ?thesis
  proof (cases "rr_type r = TypeSOA")
    case True
    then have z': "z' = z1\<lparr>SOA := Some ?r, soa_shared := True\<rparr>" "is_RSOA (rr_data r)"
      using 3(4) add assms(3) by (auto simp: ret_def fail_def split: if_splits)
    have "soa_wf z'" using True z'(2) view1(1) by (simp add: soa_wf_view z'(1))
    with R1 z'(1) show ?thesis by (simp add: zone_wf_def)
  next
    case False
    then have z': "z' = z1" using 3(4) add by (simp add: ret_def)
    have "soa_wf z1"
      by (rule soa_wf_cong[of z]) (use wf 3(3) view1(2) False in \<open>auto simp: zone_wf_def\<close>)
    with R1 z' show ?thesis by (simp add: zone_wf_def)
  qed
qed (use assms in \<open>auto simp: fail_def\<close>)

lemma find_index_bound: "find_index P xs = Some i \<Longrightarrow> i < length xs"
  by (induction xs arbitrary: i) (auto split: if_splits)

lemma DeleteRecord_cases:
  assumes "DeleteRecord L orr z = (res, z')"
  obtains (same) "z' = z"
  | (del) r tm existing i where "orr = Some r"
      "map_of (Records z) (dotted (to_lower (rr_name r))) = Some tm"
      "map_of tm (rr_type r) = Some existing" "i < length existing"
      "z' = (let upd = take i existing @ drop (i + 1) existing;
                 z1 = put_type_map (dotted (to_lower (rr_name r)))
                   (if upd = [] then AList.delete (rr_type r) tm else AList.update (rr_type r) upd tm) z
             in if rr_type r = TypeSOA then z1\<lparr>SOA := None, soa_shared := False\<rparr> else z1)"
proof (cases orr)
  case None
  with same assms show ?thesis by (simp add: DeleteRecord_def fail_def)
next
  case orr: (Some r)
  show ?thesis
  proof (cases "map_of (Records z) (dotted (to_lower (rr_name r)))")
    case None
    with same assms orr show ?thesis by (simp add: DeleteRecord_def ret_def Let_def)
  next
    case tm: (Some tm)
    show ?thesis
    proof (cases "map_of tm (rr_type r)")
      case None
      with same assms orr tm show ?thesis by (simp add: DeleteRecord_def ret_def Let_def)
    next
      case ex: (Some existing)
      define target where "target = RRString L (case existing of [] \<Rightarrow> r\<lparr>rr_name := dotted (to_lower (rr_name r))\<rparr>
        | e # _ \<Rightarrow> r\<lparr>rr_name := dotted (to_lower (rr_name r)), rr_class := rr_class e, rr_ttl := rr_ttl e\<rparr>)"
      show ?thesis
      proof (cases "find_index (\<lambda>e. RRString L e = target) existing")
        case None
        with same assms orr tm ex show ?thesis by (simp add: DeleteRecord_def ret_def Let_def target_def)
      next
        case (Some i)
        from del[OF orr tm ex find_index_bound[OF this]] assms orr tm ex Some show ?thesis
          by (simp add: DeleteRecord_def ret_def Let_def target_def)
      qed
    qed
  qed
qed

lemma DeleteRecord_wf:
  assumes wf: "zone_wf L z" and del: "DeleteRecord L orr z = (res, z')"
  shows "zone_wf L z'"
  using del
proof (cases rule: DeleteRecord_cases)
  case same
  with wf show ?thesis by simp
next
  case (del r tm existing i)
  let ?o = "dotted (to_lower (rr_name r))"
  define upd where "upd = take i existing @ drop (i + 1) existing"
  define tm' where "tm' = (if upd = [] then AList.delete (rr_type r) tm else AList.update (rr_type r) upd tm)"
  let ?z = "put_type_map ?o tm' z"
  have z': "z' = (if rr_type r = TypeSOA then ?z\<lparr>SOA := None, soa_shared := False\<rparr> else ?z)"
    unfolding del(5) upd_def tm'_def Let_def ..
  have R: "records_wf L (Origin z) (Records z)" using wf by (simp add: zone_wf_def)
  have tm: "type_map_wf ?o tm" using R del(2) by (simp add: records_wf_def)
  have "set upd \<subseteq> set existing" by (auto simp: upd_def dest: in_set_takeD in_set_dropD)
  then have "rrset_wf ?o (rr_type r) upd" if "upd \<noteq> []"
    using that tm del(3) by (auto simp: type_map_wf_def rrset_wf_def)
  then have "type_map_wf ?o tm'" using tm by (simp add: tm'_def type_map_wf_update type_map_wf_delete)
  from put_type_map_wf[OF R del(2) this]
  have R': "records_wf L (Origin ?z) (Records ?z)" by simp
  have vz: "view z ?o t = rrset_of tm t" for t by (simp add: view_def type_map_of_def del(2))
  show ?thesis
  proof (cases "rr_type r = TypeSOA")
    case True
    with z' R' show ?thesis by (simp add: zone_wf_def soa_wf_view)
  next
    case False
    have "soa_wf ?z"
      by (rule soa_wf_cong[of z]) (use wf False vz in \<open>auto simp: zone_wf_def view_put_type_map tm'_def\<close>)
    with z' R' False show ?thesis by (simp add: zone_wf_def)
  qed
qed

lemma unshare_frame [simp]:
  "Records (unshare owner z) = Records z" "Origin (unshare owner z) = Origin z"
  "SOA (unshare owner z) = SOA z"
  by (simp_all add: unshare_def split: option.split)

lemma unshare_shared: "soa_shared (unshare owner z) \<Longrightarrow> soa_shared z"
  by (cases "SOA z") (simp_all add: unshare_def split: if_splits)

lemma unshare_name: "SOA z = Some s \<Longrightarrow> soa_shared (unshare owner z) \<Longrightarrow> rr_name s \<noteq> owner"
  by (auto simp: unshare_def)

lemma DeleteRRSet_wf:
  assumes "zone_wf L z"
  shows "zone_wf L (DeleteRRSet owner t z)"
proof (cases "map_of (Records z) (dotted (to_lower owner))")
  case None
  with assms show ?thesis by (simp add: DeleteRRSet_def Let_def)
next
  case (Some tm)
  let ?o = "dotted (to_lower owner)"
  let ?z = "put_type_map ?o (AList.delete t tm) z"
  have R: "records_wf L (Origin z) (Records z)" using assms by (simp add: zone_wf_def)
  then have "type_map_wf ?o tm" using Some by (simp add: records_wf_def)
  from put_type_map_wf[OF R Some type_map_wf_delete[OF this]]
  have R': "records_wf L (Origin ?z) (Records ?z)" by simp
  have z': "DeleteRRSet owner t z = (if t = TypeSOA then unshare ?o ?z else ?z)"
    by (simp add: DeleteRRSet_def Let_def Some)
  have vz: "view z ?o t = rrset_of tm t" for t by (simp add: view_def type_map_of_def Some)
  have "soa_wf (DeleteRRSet owner t z)"
  proof (cases "t = TypeSOA")
    case True
    show ?thesis
      unfolding z'
    by (rule soa_wf_cong[of z]) (use assms unshare_name[of ?z] in
        \<open>auto simp: True zone_wf_def view_put_type_map dest: unshare_shared\<close>)
  next
    case False
    show ?thesis
      unfolding z'
    by (rule soa_wf_cong[of z]) (use assms vz False in \<open>auto simp: zone_wf_def view_put_type_map\<close>)
  qed
  with R' show ?thesis by (auto simp: zone_wf_def z')
qed

lemma DeleteName_wf:
  assumes "zone_wf L z"
  shows "zone_wf L (DeleteName owner z)"
proof -
  let ?o = "dotted (to_lower owner)"
  let ?z = "z\<lparr>Records := AList.delete ?o (Records z)\<rparr>"
  have "soa_wf (unshare ?o ?z)"
    by (rule soa_wf_cong[of z]) (use assms unshare_name[of ?z] in \<open>auto simp: zone_wf_def view_def dest: unshare_shared\<close>)
  with assms show ?thesis by (simp add: DeleteName_def Let_def zone_wf_def records_wf_delete)
qed

lemma with_serial_frame [simp]:
  "rr_name (with_serial n r) = rr_name r" "rr_type (with_serial n r) = rr_type r"
  "is_RSOA (rr_data (with_serial n r)) = is_RSOA (rr_data r)"
  "is_RSOA (rr_data r) \<Longrightarrow> soa_serial (with_serial n r) = n"
  by (cases "rr_data r"; simp add: with_serial_def soa_serial_def)+

lemma set_serial_wf:
  assumes wf: "zone_wf L z"
  shows "zone_wf L (set_serial n z)"
proof (cases "SOA z")
  case None
  with wf show ?thesis by (simp add: set_serial_def)
next
  case (Some s)
  let ?o = "rr_name s" and ?tm = "type_map_of z (rr_name s)"
  let ?rrs = "rrset_of ?tm TypeSOA"
  let ?new = "butlast ?rrs @ [with_serial n (last ?rrs)]"
  have R: "records_wf L (Origin z) (Records z)" and soa: "soa_wf z" using wf by (simp_all add: zone_wf_def)
  have s: "rr_type s = TypeSOA" "is_RSOA (rr_data s)" "to_lower ?o = ?o" using soa Some by (simp_all add: soa_wf_def)
  show ?thesis
  proof (cases "soa_shared z")
    case False
    then show ?thesis using R s Some by (simp add: zone_wf_def set_serial_def soa_wf_def Let_def)
  next
    case True
    then have l: "?rrs \<noteq> []" "last ?rrs = s" using soa Some by (simp_all add: soa_wf_def)
    have tmwf: "type_map_wf ?o ?tm" using R by (rule type_map_of_wf)
    from rrset_of_wf[OF this] have "rrset_wf ?o TypeSOA ?rrs" using l(1) by (simp add: rrset_wf_def)
    then have "rrset_wf ?o TypeSOA ?new" using l s by (auto simp: rrset_wf_def dest: in_set_butlastD)
    moreover have "map_of (Records z) ?o \<noteq> None" using l(1) by (auto simp: type_map_of_def split: option.splits)
    then have "IsSubDomain L (Origin z) ?o" using R by (auto simp: records_wf_def)
    ultimately have "records_wf L (Origin z)
        (AList.update ?o (AList.update TypeSOA ?new ?tm) (Records z))"
      using R tmwf s by (intro records_wf_update type_map_wf_update) auto
    then show ?thesis
      using True Some s l by (simp add: zone_wf_def set_serial_def soa_wf_def Let_def type_map_of_def update_conv' rrset_of_def)
  qed
qed

lemma IncrementSerial_wf: "\<lbrakk>zone_wf L z; IncrementSerial today z = (res, z')\<rbrakk> \<Longrightarrow> zone_wf L z'"
  by (auto simp: IncrementSerial_def ret_def fail_def Let_def set_serial_wf split: option.splits if_splits)

lemma Clone_simps [simp]:
  "Origin (Clone z) = Origin z" "SOA (Clone z) = SOA z" "\<not> soa_shared (Clone z)" "Class (Clone z) = Class z"
  "Name (Clone z) = Name z" "view (Clone z) = view z" "type_map_of (Clone z) = type_map_of z"
  by (simp_all add: Clone_def view_def type_map_of_def case_prod_unfold fun_eq_iff)

lemma Clone_wf: "zone_wf L z \<Longrightarrow> zone_wf L (Clone z)"
  by (auto simp: zone_wf_def soa_wf_def split: option.split)

text \<open>The zones the package's operations can build (an operation that panics builds none).\<close>

inductive zone_reach :: "dns_lib \<Rightarrow> zone \<Rightarrow> bool" for L where
  new: "New n = Some z \<Longrightarrow> zone_reach L z"
| add: "\<lbrakk>zone_reach L z; AddRecord L r z = (res, z'); res \<noteq> Inl Panic\<rbrakk> \<Longrightarrow> zone_reach L z'"
| del: "\<lbrakk>zone_reach L z; DeleteRecord L r z = (res, z')\<rbrakk> \<Longrightarrow> zone_reach L z'"
| del_set: "zone_reach L z \<Longrightarrow> zone_reach L (DeleteRRSet owner t z)"
| del_name: "zone_reach L z \<Longrightarrow> zone_reach L (DeleteName owner z)"
| inc: "\<lbrakk>zone_reach L z; IncrementSerial today z = (res, z')\<rbrakk> \<Longrightarrow> zone_reach L z'"
| clone: "zone_reach L z \<Longrightarrow> zone_reach L (Clone z)"

lemma zone_reach_wf_all: "zone_reach L z \<Longrightarrow> zone_wf L z"
proof (induction rule: zone_reach.induct)
  case (new n z)
  then show ?case by (auto simp: New_def zone_wf_def records_wf_def soa_wf_def Let_def split: if_splits)
qed (blast intro: AddRecord_wf DeleteRecord_wf DeleteRRSet_wf DeleteName_wf IncrementSerial_wf Clone_wf)+


definition ex_rr :: "string \<Rightarrow> u16 \<Rightarrow> u32 \<Rightarrow> rdata \<Rightarrow> rr" where
  "ex_rr n t ttl d = \<lparr>rr_name = n, rr_type = t, rr_class = ClassINET, rr_ttl = ttl, rr_data = d\<rparr>"

lemma ex_rr_simps [simp]:
  "rr_name (ex_rr n t ttl d) = n" "rr_type (ex_rr n t ttl d) = t" "rr_class (ex_rr n t ttl d) = ClassINET"
  "rr_ttl (ex_rr n t ttl d) = ttl" "rr_data (ex_rr n t ttl d) = d"
  by (simp_all add: ex_rr_def)

definition ex_soa :: "u32 \<Rightarrow> rr" where
  "ex_soa serial = ex_rr ''a.'' TypeSOA 60 (RSOA \<lparr>SOA_Ns = ''n.a.'', SOA_Mbox = ''m.a.'', Serial = serial,
     Refresh = 1, Retry = 1, Expire = 1, Minttl = 1\<rparr>)"

definition ex_zone0 :: zone where "ex_zone0 = the (New ''a.'')"

definition ex_add :: "rr \<Rightarrow> zone \<Rightarrow> zone" where "ex_add r z = snd (AddRecord ex_lib (Some r) z)"

definition ex_zone :: zone where
  "ex_zone = ex_add (ex_rr ''w.a.'' TypeA 9 (RA [2])) (ex_add (ex_rr ''w.a.'' TypeA 7 (RA [1]))
     (ex_add (ex_rr ''n.a.'' TypeA 60 (RA [9])) (ex_add (ex_rr ''a.'' TypeNS 60 (RNS ''n.a.''))
       (ex_add (ex_soa 5) ex_zone0))))"

lemma ex_add_reach:
  assumes "zone_reach ex_lib z" "fst (AddRecord ex_lib (Some r) z) = Inr ()"
  shows "zone_reach ex_lib (ex_add r z)"
  by (rule zone_reach.add[OF assms(1), of "Some r" "Inr ()"]) (use assms(2) in \<open>simp_all add: ex_add_def prod_eq_iff\<close>)

lemma ex_zone_reach: "zone_reach ex_lib ex_zone"
proof -
  have "zone_reach ex_lib ex_zone0" by (rule zone_reach.new[of "''a.''"]) (simp add: ex_zone0_def New_def Let_def)
  moreover have "fst (AddRecord ex_lib (Some (ex_soa 5)) ex_zone0) = Inr ()"
    "fst (AddRecord ex_lib (Some (ex_rr ''a.'' TypeNS 60 (RNS ''n.a.''))) (ex_add (ex_soa 5) ex_zone0)) = Inr ()"
    "fst (AddRecord ex_lib (Some (ex_rr ''n.a.'' TypeA 60 (RA [9])))
       (ex_add (ex_rr ''a.'' TypeNS 60 (RNS ''n.a.'')) (ex_add (ex_soa 5) ex_zone0))) = Inr ()"
    "fst (AddRecord ex_lib (Some (ex_rr ''w.a.'' TypeA 7 (RA [1]))) (ex_add (ex_rr ''n.a.'' TypeA 60 (RA [9]))
       (ex_add (ex_rr ''a.'' TypeNS 60 (RNS ''n.a.'')) (ex_add (ex_soa 5) ex_zone0)))) = Inr ()"
    "fst (AddRecord ex_lib (Some (ex_rr ''w.a.'' TypeA 9 (RA [2])))
       (ex_add (ex_rr ''w.a.'' TypeA 7 (RA [1])) (ex_add (ex_rr ''n.a.'' TypeA 60 (RA [9]))
       (ex_add (ex_rr ''a.'' TypeNS 60 (RNS ''n.a.'')) (ex_add (ex_soa 5) ex_zone0))))) = Inr ()"
    by code_simp+
  ultimately show ?thesis unfolding ex_zone_def by (intro ex_add_reach)
qed


subsection \<open>Wildcards\<close>

text \<open>
  The name below which a wildcard may answer: the longest proper suffix of the query name that
  exists in the zone, as the number of labels taken off.
\<close>

definition encloser :: "dns_lib \<Rightarrow> string \<Rightarrow> nat \<Rightarrow> string" where
  "encloser L owner i = Fqdn L (joinLabels (drop i (SplitDomainName L owner)))"

definition closest_encloser :: "dns_lib \<Rightarrow> zone \<Rightarrow> string \<Rightarrow> nat \<Rightarrow> bool" where
  "closest_encloser L z owner i \<longleftrightarrow>
     1 \<le> i \<and> i < length (SplitDomainName L owner) \<and> nameExists L z (encloser L owner i) \<and>
     (\<forall>j. 1 \<le> j \<and> j < i \<longrightarrow> \<not> nameExists L z (encloser L owner j))"

lemma wildcard_loop_mem:
  "r \<in> set (wildcard_loop L z owner t ls) \<longleftrightarrow>
     (\<exists>i < length ls. nameExists L z (Fqdn L (joinLabels (drop i ls))) \<and>
        (\<forall>j < i. \<not> nameExists L z (Fqdn L (joinLabels (drop j ls)))) \<and>
        r \<in> (\<lambda>r. r\<lparr>rr_name := owner\<rparr>) ` set (recordsAt z (''*.'' @ Fqdn L (joinLabels (drop i ls))) t))"
  by (induction ls) (auto simp: Let_def Ex_less_Suc2 All_less_Suc2)

lemma GetRecords_mem:
  fixes q :: string
  defines "owner \<equiv> to_lower (dotted q)"
  shows "r \<in> set (GetRecords L z q t) \<longleftrightarrow> q \<noteq> [] \<and>
    (if nameExists L z owner then r \<in> set (recordsAt z owner t)
     else \<exists>i r0. closest_encloser L z owner i \<and>
       r0 \<in> set (recordsAt z (''*.'' @ encloser L owner i) t) \<and> r = r0\<lparr>rr_name := owner\<rparr>)"
proof (cases "q = [] \<or> nameExists L z owner")
  case True
  then show ?thesis by (auto simp: GetRecords_def owner_def Let_def)
next
  case False
  let ?ls = "SplitDomainName L owner"
  have shift: "(\<exists>i < length ?ls - 1. Q (Suc i) \<and> (\<forall>j < i. R (Suc j)) \<and> S (Suc i)) \<longleftrightarrow>
      (\<exists>i. 1 \<le> i \<and> i < length ?ls \<and> Q i \<and> (\<forall>j. 1 \<le> j \<and> j < i \<longrightarrow> R j) \<and> S i)" for Q R S
  proof
    assume "\<exists>i < length ?ls - 1. Q (Suc i) \<and> (\<forall>j < i. R (Suc j)) \<and> S (Suc i)"
    then obtain i where i: "i < length ?ls - 1" "Q (Suc i)" "\<forall>j < i. R (Suc j)" "S (Suc i)" by blast
    have "R j" if "1 \<le> j \<and> j < Suc i" for j using i(3) that by (cases j) auto
    with i show "\<exists>i. 1 \<le> i \<and> i < length ?ls \<and> Q i \<and> (\<forall>j. 1 \<le> j \<and> j < i \<longrightarrow> R j) \<and> S i"
      by (intro exI[of _ "Suc i"]) auto
  next
    assume "\<exists>i. 1 \<le> i \<and> i < length ?ls \<and> Q i \<and> (\<forall>j. 1 \<le> j \<and> j < i \<longrightarrow> R j) \<and> S i"
    then obtain i where i: "1 \<le> i" "i < length ?ls" "Q i" "\<forall>j. 1 \<le> j \<and> j < i \<longrightarrow> R j" "S i" by blast
    then show "\<exists>i < length ?ls - 1. Q (Suc i) \<and> (\<forall>j < i. R (Suc j)) \<and> S (Suc i)"
      by (intro exI[of _ "i - 1"]) auto
  qed
  have "r \<in> set (GetRecords L z q t) \<longleftrightarrow> r \<in> set (wildcard_loop L z owner t (drop 1 ?ls))"
    using False by (simp add: GetRecords_def owner_def Let_def)
  also have "\<dots> \<longleftrightarrow> (\<exists>i < length ?ls - 1. nameExists L z (encloser L owner (Suc i)) \<and>
      (\<forall>j < i. \<not> nameExists L z (encloser L owner (Suc j))) \<and>
      r \<in> (\<lambda>r. r\<lparr>rr_name := owner\<rparr>) ` set (recordsAt z (''*.'' @ encloser L owner (Suc i)) t))"
    by (simp add: wildcard_loop_mem encloser_def)
  also have "\<dots> \<longleftrightarrow> (\<exists>i r0. closest_encloser L z owner i \<and>
       r0 \<in> set (recordsAt z (''*.'' @ encloser L owner i) t) \<and> r = r0\<lparr>rr_name := owner\<rparr>)"
    unfolding shift[of "\<lambda>i. nameExists L z (encloser L owner i)" "\<lambda>i. \<not> nameExists L z (encloser L owner i)"
        "\<lambda>i. r \<in> (\<lambda>r. r\<lparr>rr_name := owner\<rparr>) ` set (recordsAt z (''*.'' @ encloser L owner i) t)"]
    by (auto simp: closest_encloser_def)
  finally show ?thesis using False by simp
qed


subsection \<open>Exact deletion\<close>

text \<open>
  \<open>DeleteRecord\<close> takes out of an RRset the first record that equals the request in its data,
  under the class and TTL of the RRset's first record, and changes nothing else. So a stored
  record with the requested data whose TTL differs from the first record's is not deleted.
\<close>

theorem DeleteRecord_exact:
  assumes "DeleteRecord L (Some r) z = (res, z')"
  defines "owner \<equiv> dotted (to_lower (rr_name r))"
  defines "old \<equiv> view z owner (rr_type r)"
  assumes "inj_on (RRString L) (insert (delete_target r old) (set old))"
  shows "res = Inr () \<and>
    view z' = (view z)(owner := (view z owner)(rr_type r := remove1 (delete_target r old) old)) \<and>
    (\<forall>e \<in> set old. rr_ttl e \<noteq> rr_ttl (hd old) \<longrightarrow> e \<in> set (view z' owner (rr_type r)))"
proof -
  have "delete_first (\<lambda>e. RRString L e = RRString L (delete_target r old)) xs = remove1 (delete_target r old) xs"
    if "set xs \<subseteq> set old" for xs
    using that assms(4) by (induction xs) (auto simp: inj_on_def)
  with DeleteRecord_view[OF assms(1)]
  have v: "res = Inr ()"
    "view z' = (view z)(owner := (view z owner)(rr_type r := remove1 (delete_target r old) old))"
    by (auto simp: owner_def old_def)
  have "rr_ttl (delete_target r old) = rr_ttl (hd old)" if "old \<noteq> []"
    using that by (cases old) (simp_all add: delete_target_def Let_def)
  then have "e \<in> set (remove1 (delete_target r old) old)" if "e \<in> set old" "rr_ttl e \<noteq> rr_ttl (hd old)" for e
    using that by (cases "old = []") (auto intro: in_set_remove1[THEN iffD2])
  with v show ?thesis by simp
qed

lemma DeleteRecord_exact_witness:
  "view (snd (DeleteRecord ex_lib (Some (ex_rr ''w.a.'' TypeA 0 (RA [2]))) ex_zone)) ''w.a.'' TypeA =
     [ex_rr ''w.a.'' TypeA 7 (RA [1]), ex_rr ''w.a.'' TypeA 9 (RA [2])]"
proof -
  let ?r = "ex_rr ''w.a.'' TypeA 0 (RA [2])"
  have o: "dotted (to_lower (rr_name ?r)) = ''w.a.''" "rr_type ?r = TypeA" by code_simp+
  have old: "view ex_zone ''w.a.'' TypeA = [ex_rr ''w.a.'' TypeA 7 (RA [1]), ex_rr ''w.a.'' TypeA 9 (RA [2])]"
    by code_simp
  have inj: "inj_on (RRString ex_lib) (insert (delete_target ?r (view ex_zone ''w.a.'' TypeA))
      (set (view ex_zone ''w.a.'' TypeA)))"
  proof -
    have "distinct (map (RRString ex_lib) (remdups (delete_target ?r (view ex_zone ''w.a.'' TypeA) #
        view ex_zone ''w.a.'' TypeA)))" by code_simp
    then show ?thesis unfolding distinct_map set_remdups by simp
  qed
  have "remove1 (delete_target ?r (view ex_zone ''w.a.'' TypeA)) (view ex_zone ''w.a.'' TypeA) =
      [ex_rr ''w.a.'' TypeA 7 (RA [1]), ex_rr ''w.a.'' TypeA 9 (RA [2])]"
    by code_simp
  with DeleteRecord_exact[of ex_lib ?r ex_zone, OF prod.collapse[symmetric], unfolded o, OF inj] show ?thesis
    by simp
qed

subsection \<open>The serial of a cloned zone\<close>

text \<open>
  Incrementing the serial of a clone, as every dynamic update does, changes only the clone's
  own SOA object. The SOA record stored in the zone's map, which answers SOA queries, keeps the old
  serial, so from the first update on it differs from the serial used for zone transfers.
\<close>

theorem IncrementSerial_clone_stale:
  assumes "zone_reach L z" "IncrementSerial today (Clone z) = (Inr (), z')"
  shows "view z' = view z \<and>
    (\<exists>s s'. SOA z = Some s \<and> SOA z' = Some s' \<and> soa_serial s' \<noteq> soa_serial s \<and>
      (soa_shared z \<longrightarrow> soa_serial (last (view z' (rr_name s') TypeSOA)) \<noteq> soa_serial s'))"
proof -
  obtain s where s: "SOA z = Some s" using assms(2) by (auto simp: IncrementSerial_def fail_def split: option.splits)
  have wf: "is_RSOA (rr_data s)" "soa_shared z \<Longrightarrow> last (view z (rr_name s) TypeSOA) = s"
    using zone_reach_wf_all[OF assms(1)] s by (auto simp: zone_wf_def soa_wf_view)
  have set: "view (set_serial n (Clone z)) = view z" "SOA (set_serial n (Clone z)) = Some (with_serial n s)" for n
    using s by (simp_all add: set_serial_def Let_def)
  obtain n where n: "z' = set_serial n (Clone z)" "n \<noteq> soa_serial s"
    using assms(2) s by (auto simp: IncrementSerial_def Let_def ret_def fail_def split: if_splits)
  with wf s set show ?thesis by simp
qed

lemma IncrementSerial_clone_stale_witness:
  "\<exists>z'. IncrementSerial 2026010100 (Clone ex_zone) = (Inr (), z') \<and>
     GetRecords ex_lib z' ''a.'' TypeSOA = [ex_soa 5] \<and> SOA z' = Some (ex_soa 2026010100)"
proof -
  have run: "IncrementSerial 2026010100 (Clone ex_zone) = (Inr (), set_serial 2026010100 (Clone ex_zone))"
    by code_simp
  have "view (set_serial 2026010100 (Clone ex_zone)) = view ex_zone"
    using IncrementSerial_clone_stale[OF ex_zone_reach run] by blast
  moreover have "GetRecords ex_lib (set_serial 2026010100 (Clone ex_zone)) ''a.'' TypeSOA = [ex_soa 5]"
    "SOA (set_serial 2026010100 (Clone ex_zone)) = Some (ex_soa 2026010100)" by code_simp+
  ultimately show ?thesis using run by blast
qed

end
