(* ===== verification/Journal.thy ===== *)
theory Journal
  imports Zone_Props "HOL-Library.List_Lexorder" "HOL-Library.Char_ord"
begin

text \<open>
  The journal of zone changes for incremental transfer, \<open>internal/zone/journal.go\<close>. A Go map built
  by a loop is an association list; \<open>sort.Strings\<close> is \<open>sort\<close> under the lexicographic order on
  strings. The pointers a delta keeps are copies, so they are values; \<open>None\<close> is a nil zone.
\<close>

subsection \<open>Serial arithmetic\<close>

definition SerialGreater :: "u32 \<Rightarrow> u32 \<Rightarrow> bool" where
  "SerialGreater next current \<longleftrightarrow> next \<noteq> current \<and> next - current < 0x80000000"

lemma SerialGreater_asym: "SerialGreater a b \<Longrightarrow> \<not> SerialGreater b a"
proof
  assume ab: "SerialGreater a b" and ba: "SerialGreater b a"
  then have "unat (a - b) < 2147483648" "unat (b - a) < 2147483648" "a \<noteq> b"
    by (simp_all add: SerialGreater_def word_less_nat_alt)
  moreover have "unat a < 4294967296" "unat b < 4294967296"
    using unsigned_less[of a] unsigned_less[of b] by simp_all
  moreover have "unat a \<noteq> unat b" using \<open>a \<noteq> b\<close> by (auto dest: unsigned_word_eqI)
  ultimately show False by (auto simp: unat_sub_if' split: if_splits)
qed

lemma SerialGreater_Suc: "SerialGreater (c + 1) c"
  by (simp add: SerialGreater_def)

lemma SerialGreater_less:
  assumes "c < n" "n < 0x80000000"
  shows "SerialGreater n c"
proof -
  have "unat (n - c) = unat n - unat c" using assms(1) by (simp add: unat_sub less_imp_le)
  with assms have "n - c < 0x80000000" by (simp add: word_less_nat_alt)
  with assms(1) show ?thesis by (simp add: SerialGreater_def)
qed

subsection \<open>Deltas\<close>

record delta =
  FromSOA :: rr
  ToSOA :: rr
  Deleted :: "rr list"
  Added :: "rr list"

record journal =
  maxDeltas :: int
  history :: "string \<rightharpoonup> delta list"

definition NewJournal :: "int \<Rightarrow> journal" where
  "NewJournal n = \<lparr>maxDeltas = (if n \<le> 0 then 100 else n), history = Map.empty\<rparr>"

definition recordSet :: "dns_lib \<Rightarrow> zone \<Rightarrow> (string \<times> rr) list" where
  "recordSet L z =
     fold (\<lambda>r m. if rr_type r = TypeSOA then m
                 else let c = r\<lparr>rr_name := to_lower (Fqdn L (rr_name r))\<rparr>
                 in AList.update (RRString L c) c m)
       (GetAllRecords z) []"

text \<open>The records of the first map whose keys are not in the second, in the order of the keys.\<close>

definition missing_from :: "(string \<times> rr) list \<Rightarrow> (string \<times> rr) list \<Rightarrow> rr list" where
  "missing_from m m' =
     map (\<lambda>k. the (map_of m k)) (filter (\<lambda>k. map_of m' k = None) (sort (map fst m)))"

text \<open>\<open>Diff\<close> panics on a zone without SOA.\<close>

definition Diff :: "dns_lib \<Rightarrow> zone \<Rightarrow> zone \<Rightarrow> delta option" where
  "Diff L previous next =
     (let oldRecords = recordSet L previous; newRecords = recordSet L next in
      case (SOA previous, SOA next) of
        (Some from, Some to) \<Rightarrow>
          Some \<lparr>FromSOA = from, ToSOA = to, Deleted = missing_from oldRecords newRecords,
                Added = missing_from newRecords oldRecords\<rparr>
      | _ \<Rightarrow> None)"

subsection \<open>The journal\<close>

definition zone_key :: "dns_lib \<Rightarrow> string \<Rightarrow> string" where
  "zone_key L name = to_lower (Fqdn L name)"

definition Reset :: "dns_lib \<Rightarrow> string \<Rightarrow> journal \<Rightarrow> journal" where
  "Reset L name j = j\<lparr>history := (history j)(zone_key L name := None)\<rparr>"

definition append_delta :: "int \<Rightarrow> delta list \<Rightarrow> delta \<Rightarrow> delta list" where
  "append_delta m h d =
     (let h = (if length h > 0 \<and> soa_serial (ToSOA (last h)) \<noteq> soa_serial (FromSOA d) then [] else h);
          h = h @ [d]
      in if int (length h) > m then drop (length h - nat m) h else h)"

definition Record :: "dns_lib \<Rightarrow> zone option \<Rightarrow> zone option \<Rightarrow> journal \<Rightarrow> journal" where
  "Record L previous next j =
     (case (previous, next) of
        (Some p, Some n) \<Rightarrow>
          (case (SOA p, SOA n) of
             (Some sp, Some sn) \<Rightarrow>
               if \<not> equal_fold (Origin p) (Origin n) \<or> \<not> SerialGreater (soa_serial sn) (soa_serial sp)
               then Reset L (Origin n) j
               else let name = zone_key L (Origin n);
                        h = (case history j name of None \<Rightarrow> [] | Some h \<Rightarrow> h)
                 in j\<lparr>history := (history j)(name \<mapsto> append_delta (maxDeltas j) h (the (Diff L p n)))\<rparr>
           | _ \<Rightarrow> Reset L (Origin n) j)
      | _ \<Rightarrow> j)"

text \<open>The walk along the history from the starting delta on.\<close>

fun walk :: "u32 \<Rightarrow> u32 \<Rightarrow> delta list \<Rightarrow> delta list option" where
  "walk expected toSerial [] = None"
| "walk expected toSerial (d # ds) =
     (if soa_serial (FromSOA d) \<noteq> expected then None
      else if soa_serial (ToSOA d) = toSerial then Some [d]
      else map_option ((#) d) (walk (soa_serial (ToSOA d)) toSerial ds))"

definition Changes :: "dns_lib \<Rightarrow> string \<Rightarrow> u32 \<Rightarrow> u32 \<Rightarrow> journal \<Rightarrow> delta list option" where
  "Changes L name fromSerial toSerial j =
     (let h = (case history j (zone_key L name) of None \<Rightarrow> [] | Some h \<Rightarrow> h)
      in case find_index (\<lambda>d. soa_serial (FromSOA d) = fromSerial) h of
           None \<Rightarrow> None
         | Some start \<Rightarrow> walk fromSerial toSerial (drop start h))"

end
