(* ===== verification/Journal_Props.thy ===== *)
theory Journal_Props
  imports Journal
begin

text \<open>
  The journal serves exactly what was recorded: a delta turns the record set of one version into
  that of the next, and \<open>Changes\<close> finds every retained range of versions.
\<close>

subsection \<open>Serials advance\<close>

lemma IncrementSerial_wf_ahead:
  assumes "zone_wf L z" "SOA z = Some s" "today < 0x80000000"
  shows "if soa_serial s = 0xFFFFFFFF then IncrementSerial today z = (Inl SerialOverflow, z)
    else \<exists>z' s'. IncrementSerial today z = (Inr (), z') \<and> SOA z' = Some s' \<and>
      SerialGreater (soa_serial s') (soa_serial s) \<and> soa_serial s' \<noteq> 0"
proof -
  let ?c = "soa_serial s"
  have wf: "is_RSOA (rr_data s)"
    using assms(1,2) by (auto simp: zone_wf_def soa_wf_view)
  have SOA: "SOA (set_serial n z) = Some (with_serial n s)" for n
    using assms(2) by (simp add: set_serial_def Let_def)
  show ?thesis
  proof (cases "?c = 0xFFFFFFFF")
    case True
    have t: "unat today < 2147483648" using assms(3) by (simp add: word_less_nat_alt)
    then have "unat (today + 99) = unat today + 99" by (simp add: unat_word_ariths)
    with t have "\<not> ?c < today" "\<not> ?c < today + 99" by (simp_all add: True word_less_nat_alt)
    with True assms(2) show ?thesis by (simp add: IncrementSerial_def fail_def)
  next
    case False
    define n where "n = (if ?c < today then today else ?c + 1)"
    have "?c + 1 \<noteq> 0"
    proof
      assume "?c + 1 = 0"
      then have "?c = - 1" by (simp add: eq_neg_iff_add_eq_0)
      with False show False by simp
    qed
    then have "SerialGreater n ?c" "n \<noteq> 0"
      using SerialGreater_less[of ?c today] assms(3) SerialGreater_Suc by (auto simp: n_def)
    moreover have "IncrementSerial today z = (Inr (), set_serial n z)"
      using assms(2) False by (auto simp: IncrementSerial_def n_def Let_def ret_def)
    ultimately show ?thesis using False SOA wf by simp
  qed
qed

text \<open>
  The serial increment of an update always moves forward in RFC 1982 arithmetic, until the
  largest 32-bit value, where it reports an error instead of wrapping to 0. (Dates up to the year
  2147 are below the half range.)
\<close>

theorem IncrementSerial_advances:
  assumes "zone_reach L z" "SOA z = Some s" "today < 0x80000000"
  shows "if soa_serial s = 0xFFFFFFFF then IncrementSerial today z = (Inl SerialOverflow, z)
    else \<exists>z' s'. IncrementSerial today z = (Inr (), z') \<and> SOA z' = Some s' \<and>
      SerialGreater (soa_serial s') (soa_serial s) \<and> soa_serial s' \<noteq> 0"
  using IncrementSerial_wf_ahead[OF zone_reach_wf_all[OF assms(1)] assms(2,3)] .

lemma IncrementSerial_advances_witness:
  "\<exists>z' s'. IncrementSerial 2026010100 ex_zone = (Inr (), z') \<and> SOA z' = Some s' \<and>
     SerialGreater (soa_serial s') 5 \<and> soa_serial s' \<noteq> 0"
proof -
  have "SOA ex_zone = Some (ex_soa 5)" "soa_serial (ex_soa 5) = 5" by code_simp+
  with IncrementSerial_advances[OF ex_zone_reach, of "ex_soa 5" 2026010100] show ?thesis by simp
qed

subsection \<open>A delta is the difference\<close>

definition keys_ok :: "dns_lib \<Rightarrow> (string \<times> rr) list \<Rightarrow> bool" where
  "keys_ok L m \<longleftrightarrow> distinct (map fst m) \<and>
     (\<forall>k v. map_of m k = Some v \<longrightarrow> k = RRString L v \<and> rr_type v \<noteq> TypeSOA)"

lemma keys_ok_update:
  "\<lbrakk>keys_ok L m; rr_type v \<noteq> TypeSOA\<rbrakk> \<Longrightarrow> keys_ok L (AList.update (RRString L v) v m)"
  by (simp add: keys_ok_def update_conv' distinct_update)

lemma recordSet_keys: "keys_ok L (recordSet L z)"
  unfolding recordSet_def
  by (rule fold_invariant[where Q = "\<lambda>_. True"]) (auto simp: keys_ok_update Let_def, simp add: keys_ok_def)

text \<open>The text forms of a zone's records, the SOA apart: what a delta is about.\<close>

definition content :: "dns_lib \<Rightarrow> zone \<Rightarrow> string set" where
  "content L z = fst ` set (recordSet L z)"

definition apply_delta :: "dns_lib \<Rightarrow> delta \<Rightarrow> string set \<Rightarrow> string set" where
  "apply_delta L d S = (S - RRString L ` set (Deleted d)) \<union> RRString L ` set (Added d)"

lemma missing_from_keys:
  "RRString L ` set (missing_from (recordSet L a) (recordSet L b)) = content L a - content L b"
proof -
  have key: "RRString L (the (map_of (recordSet L a) k)) = k" if "k \<in> fst ` set (recordSet L a)" for k
  proof -
    obtain v where "map_of (recordSet L a) k = Some v" using \<open>k \<in> _\<close> by (metis map_of_eq_None_iff option.exhaust)
    with recordSet_keys[of L a] show ?thesis by (simp add: keys_ok_def)
  qed
  have "RRString L ` set (missing_from (recordSet L a) (recordSet L b)) =
      (\<lambda>k. RRString L (the (map_of (recordSet L a) k))) `
        {k \<in> fst ` set (recordSet L a). map_of (recordSet L b) k = None}"
    by (simp add: missing_from_def image_image)
  also have "\<dots> = {k \<in> fst ` set (recordSet L a). map_of (recordSet L b) k = None}"
    using key by force
  finally show ?thesis by (auto simp: content_def map_of_eq_None_iff)
qed

lemma Diff_apply:
  assumes "Diff L p n = Some d"
  shows "apply_delta L d (content L p) = content L n"
proof -
  have "Deleted d = missing_from (recordSet L p) (recordSet L n)"
    "Added d = missing_from (recordSet L n) (recordSet L p)"
    using assms by (auto simp: Diff_def Let_def split: option.splits)
  then have "RRString L ` set (Deleted d) = content L p - content L n"
    "RRString L ` set (Added d) = content L n - content L p"
    by (simp_all only: missing_from_keys)
  then show ?thesis unfolding apply_delta_def by blast
qed

lemma Diff_Some: "\<lbrakk>SOA p = Some a; SOA n = Some b\<rbrakk> \<Longrightarrow> \<exists>d. Diff L p n = Some d \<and> FromSOA d = a \<and> ToSOA d = b"
  by (simp add: Diff_def Let_def)

subsection \<open>Recorded versions can be served\<close>

text \<open>\<open>versions zs\<close>: successive versions of one zone with different, increasing serials.\<close>

definition zserial :: "zone \<Rightarrow> u32" where
  "zserial z = (case SOA z of None \<Rightarrow> 0 | Some s \<Rightarrow> soa_serial s)"

definition versions :: "dns_lib \<Rightarrow> zone list \<Rightarrow> bool" where
  "versions L zs \<longleftrightarrow>
     (\<forall>z \<in> set zs. SOA z \<noteq> None) \<and> distinct (map zserial zs) \<and>
     (\<forall>z \<in> set zs. \<forall>z' \<in> set zs. equal_fold (Origin z) (Origin z') \<and> zone_key L (Origin z) = zone_key L (Origin z')) \<and>
     successively (\<lambda>a b. SerialGreater (zserial b) (zserial a)) zs"

fun record_all :: "dns_lib \<Rightarrow> zone list \<Rightarrow> journal \<Rightarrow> journal" where
  "record_all L (a # b # zs) j = record_all L (b # zs) (Record L (Some a) (Some b) j)"
| "record_all L _ j = j"

definition delta_at :: "dns_lib \<Rightarrow> zone list \<Rightarrow> nat \<Rightarrow> delta" where
  "delta_at L zs k = the (Diff L (zs ! k) (zs ! Suc k))"

definition recent :: "nat \<Rightarrow> 'a list \<Rightarrow> 'a list" where
  "recent m xs = drop (length xs - m) xs"

lemma record_all_snoc:
  "record_all L (zs @ [a, b]) j = Record L (Some a) (Some b) (record_all L (zs @ [a]) j)"
proof (induction zs arbitrary: j)
  case (Cons z zs)
  then show ?case by (cases zs) simp_all
qed simp

lemma append_delta_recent:
  assumes "ds \<noteq> [] \<Longrightarrow> soa_serial (ToSOA (last ds)) = soa_serial (FromSOA d)" "0 < m"
  shows "append_delta (int m) (recent m ds) d = recent m (ds @ [d])"
proof -
  have "last (recent m ds) = last ds" if "recent m ds \<noteq> []"
    using that by (simp add: recent_def last_drop)
  then have "append_delta (int m) (recent m ds) d =
      (let h = recent m ds @ [d] in if length h > m then drop (length h - m) h else h)"
    using assms(1) by (auto simp: append_delta_def Let_def recent_def)
  also have "\<dots> = recent m (ds @ [d])"
    using assms(2) by (auto simp: recent_def Let_def Suc_diff_le)
  finally show ?thesis .
qed

lemma delta_at_serial:
  assumes "\<forall>z \<in> set zs. SOA z \<noteq> None" "Suc k < length zs"
  shows "soa_serial (FromSOA (delta_at L zs k)) = zserial (zs ! k)"
    "soa_serial (ToSOA (delta_at L zs k)) = zserial (zs ! Suc k)"
    "apply_delta L (delta_at L zs k) (content L (zs ! k)) = content L (zs ! Suc k)"
proof -
  have "zs ! k \<in> set zs" "zs ! Suc k \<in> set zs" using assms(2) by simp_all
  then obtain a b where "SOA (zs ! k) = Some a" "SOA (zs ! Suc k) = Some b" using assms(1) by blast
  moreover from this obtain d where "Diff L (zs ! k) (zs ! Suc k) = Some d" "FromSOA d = a" "ToSOA d = b"
    using Diff_Some by blast
  ultimately show "soa_serial (FromSOA (delta_at L zs k)) = zserial (zs ! k)"
    "soa_serial (ToSOA (delta_at L zs k)) = zserial (zs ! Suc k)"
    "apply_delta L (delta_at L zs k) (content L (zs ! k)) = content L (zs ! Suc k)"
    using Diff_apply by (simp_all add: delta_at_def zserial_def)
qed

lemma versions_snocD: "versions L (zs @ [z]) \<Longrightarrow> versions L zs"
  unfolding versions_def map_append distinct_append set_append successively_append_iff by blast

lemma record_all_history:
  assumes "versions L zs" "zs \<noteq> []" "0 < m"
  defines "J \<equiv> record_all L zs (NewJournal (int m))"
  shows "maxDeltas J = int m \<and> history J (zone_key L (Origin (hd zs))) =
    (if length zs = 1 then None else Some (recent m (map (delta_at L zs) [0..<length zs - 1])))"
  using assms(1,2) unfolding J_def
proof (induction zs rule: rev_induct)
  case (snoc b zs)
  show ?case
  proof (cases zs rule: rev_cases)
    case Nil
    then show ?thesis using assms(3) by (simp add: NewJournal_def)
  next
    case (snoc zs0 a)
    let ?J = "record_all L zs (NewJournal (int m))" and ?ds = "map (delta_at L zs) [0..<length zs - 1]"
    let ?key = "zone_key L (Origin (hd zs))"
    have v: "versions L zs" using snoc.prems(1) by (rule versions_snocD)
    then have v2: "\<forall>z \<in> set zs. SOA z \<noteq> None" unfolding versions_def by blast
    from v snoc.IH snoc have IH: "maxDeltas ?J = int m"
      "history ?J ?key = (if length zs = 1 then None else Some (recent m ?ds))" by simp_all
    have mem: "a \<in> set (zs @ [b])" "b \<in> set (zs @ [b])" "hd zs \<in> set (zs @ [b])"
      using snoc hd_in_set[of zs] by (simp, simp, auto)
    have step: "SerialGreater (zserial b) (zserial a)"
      using snoc.prems(1) unfolding snoc by (simp add: versions_def successively_append_iff)
    have ab: "SOA a \<noteq> None" "SOA b \<noteq> None" "equal_fold (Origin a) (Origin b)" "zone_key L (Origin b) = ?key"
      using snoc.prems(1) mem unfolding versions_def by blast+
    obtain x y where xy: "SOA a = Some x" "SOA b = Some y" using ab by blast
    have ds: "map (delta_at L (zs @ [b])) [0..<length (zs @ [b]) - 1] = ?ds @ [the (Diff L a b)]"
      using snoc by (simp add: delta_at_def nth_append)
    have last: "soa_serial (ToSOA (last ?ds)) = soa_serial (FromSOA (the (Diff L a b)))" if "?ds \<noteq> []"
    proof -
      have l: "1 < length zs" using that by simp
      then have "last ?ds = delta_at L zs (length zs - 2)" by (simp add: last_map numeral_2_eq_2)
      moreover have "zs ! (length zs - 1) = a" using snoc by simp
      moreover have "Suc (length zs - 2) = length zs - 1" using l by simp
      ultimately have "soa_serial (ToSOA (last ?ds)) = zserial a"
        using delta_at_serial(2)[OF v2, of "length zs - 2" L] l by simp
      with xy show ?thesis using Diff_Some[of a x b y L] by (auto simp: zserial_def)
    qed
    have "record_all L (zs @ [b]) (NewJournal (int m)) = Record L (Some a) (Some b) ?J"
      using record_all_snoc[of L zs0 a b] snoc by simp
    moreover have "history (Record L (Some a) (Some b) ?J) ?key = Some (append_delta (int m)
        (if length zs = 1 then [] else recent m ?ds) (the (Diff L a b)))"
      using ab xy step by (simp add: Record_def zserial_def IH Let_def)
    moreover have "maxDeltas (Record L (Some a) (Some b) ?J) = int m"
      using IH(1) by (simp add: Record_def Reset_def Let_def xy)
    moreover have "(if length zs = 1 then [] else recent m ?ds) = recent m ?ds"
      by (simp add: recent_def)
    moreover have "hd (zs @ [b]) = hd zs" "length (zs @ [b]) \<noteq> 1" using snoc by (simp_all add: hd_append)
    ultimately show ?thesis
      unfolding ds using append_delta_recent[OF last assms(3)] by simp
  qed
qed simp

lemma find_index_map_upt:
  assumes "k \<le> i" "i < n" "inj_on f {..n}" and that: "\<And>x. x < n \<Longrightarrow> g (h x) = f x"
  shows "find_index (\<lambda>d. g d = f i) (map h [k..<n]) = Some (i - k)"
  using assms(1)
proof (induction "i - k" arbitrary: k)
  case 0
  then show ?case using assms(2) that by (simp add: upt_conv_Cons)
next
  case (Suc x)
  then have "k < n" "f k \<noteq> f i" using assms(2,3) by (auto simp: inj_on_def)
  with Suc that show ?case by (simp add: upt_conv_Cons Suc_diff_Suc)
qed

lemma find_index_None: "find_index P xs = None \<longleftrightarrow> (\<forall>x \<in> set xs. \<not> P x)"
  by (induction xs) auto

lemma walk_upt:
  assumes "i < j" "j \<le> n" "inj_on f {..n}"
    and "\<And>x. x < n \<Longrightarrow> soa_serial (FromSOA (h x)) = f x \<and> soa_serial (ToSOA (h x)) = f (Suc x)"
  shows "walk (f i) (f j) (map h [i..<n]) = Some (map h [i..<j])"
  using assms(1)
proof (induction "j - i" arbitrary: i)
  case (Suc x)
  then have i: "i < n" using assms(2) by simp
  show ?case
  proof (cases "j = Suc i")
    case True
    with i assms(4) show ?thesis by (simp add: upt_conv_Cons)
  next
    case False
    then have "f (Suc i) \<noteq> f j" "Suc i < j" using Suc assms(2,3) by (auto simp: inj_on_def)
    with i Suc assms(4) show ?thesis by (simp add: upt_conv_Cons)
  qed
qed simp

lemma fold_deltas:
  assumes "\<forall>z \<in> set zs. SOA z \<noteq> None" "i \<le> j" "j < length zs"
  shows "fold (apply_delta L) (map (delta_at L zs) [i..<j]) (content L (zs ! i)) = content L (zs ! j)"
  using assms(2,3)
proof (induction j)
  case (Suc j)
  then show ?case using delta_at_serial(3)[OF assms(1), of j L] by (cases "i = Suc j") simp_all
qed simp

lemma Changes_answer:
  assumes "versions L zs" "i < j" "j < length zs" "0 < m"
    and "zone_key L name = zone_key L (Origin (hd zs))"
  shows "Changes L name (zserial (zs ! i)) (zserial (zs ! j)) (record_all L zs (NewJournal (int m))) =
    (if length zs - 1 - i \<le> m then Some (map (delta_at L zs) [i..<j]) else None)"
    (is "?answer = _")
proof -
  let ?n = "length zs - 1" and ?f = "\<lambda>k. zserial (zs ! k)" and ?h = "delta_at L zs"
  let ?k = "?n - m"
  have soa: "\<forall>z \<in> set zs. SOA z \<noteq> None" and "distinct (map zserial zs)"
    using assms(1) by (simp_all add: versions_def)
  then have inj: "inj_on ?f {..?n}"
    using assms(3) nth_eq_iff_index_eq[of "map zserial zs"] by (intro inj_onI) simp
  have serials: "soa_serial (FromSOA (?h x)) = ?f x \<and> soa_serial (ToSOA (?h x)) = ?f (Suc x)" if "x < ?n" for x
    using delta_at_serial(1,2)[OF soa, of x L] that by simp
  have ne: "zs \<noteq> []" "length zs \<noteq> 1" using assms(2,3) by auto
  have "history (record_all L zs (NewJournal (int m))) (zone_key L name) = Some (recent m (map ?h [0..<?n]))"
    using record_all_history[OF assms(1) ne(1) assms(4)] ne(2) unfolding assms(5) by simp
  also have "recent m (map ?h [0..<?n]) = map ?h [?k..<?n]"
    by (simp add: recent_def drop_map)
  finally have hist: "history (record_all L zs (NewJournal (int m))) (zone_key L name) = Some (map ?h [?k..<?n])" .
  have ans: "?answer = (case find_index (\<lambda>d. soa_serial (FromSOA d) = ?f i) (map ?h [?k..<?n]) of
      None \<Rightarrow> None | Some start \<Rightarrow> walk (?f i) (?f j) (drop start (map ?h [?k..<?n])))"
    unfolding Changes_def hist option.case Let_def ..
  show ?thesis
  proof (cases "?n - i \<le> m")
    case True
    then have k: "?k \<le> i" by simp
    have "find_index (\<lambda>d. soa_serial (FromSOA d) = ?f i) (map ?h [?k..<?n]) = Some (i - ?k)"
      using k assms(2,3) inj serials by (intro find_index_map_upt) auto
    moreover have "walk (?f i) (?f j) (map ?h [i..<?n]) = Some (map ?h [i..<j])"
      using assms(2,3) inj serials by (intro walk_upt) auto
    ultimately show ?thesis using k True by (simp add: ans drop_map)
  next
    case False
    have "\<forall>x \<in> {?k..<?n}. soa_serial (FromSOA (?h x)) \<noteq> ?f i"
    proof
      fix x assume x: "x \<in> {?k..<?n}"
      then have "x \<noteq> i" "x \<le> ?n" "i \<le> ?n" using False assms(2,3) by auto
      with inj have "?f x \<noteq> ?f i" by (auto simp: inj_on_def)
      with serials x show "soa_serial (FromSOA (?h x)) \<noteq> ?f i" by simp
    qed
    then have "find_index (\<lambda>d. soa_serial (FromSOA d) = ?f i) (map ?h [?k..<?n]) = None"
      by (simp add: find_index_None)
    with ans False show ?thesis by simp
  qed
qed

text \<open>
  C35: The journal serves what was recorded. After the successive versions of a zone have been
  recorded, \<open>Changes\<close> between the serials of two versions returns, when the older one is within the
  last \<open>m\<close> changes, exactly the deltas between them; applied in order to the records of the older
  version they give the records of the newer. For a version no longer retained it reports that
  there is no chain.
\<close>

theorem journal_serves_versions:
  assumes "versions L zs" "i < j" "j < length zs" "0 < m"
    and "zone_key L name = zone_key L (Origin (hd zs))"
  defines "answer \<equiv> Changes L name (zserial (zs ! i)) (zserial (zs ! j)) (record_all L zs (NewJournal (int m)))"
  shows "if length zs - 1 - i \<le> m
    then \<exists>ds. answer = Some ds \<and> length ds = j - i \<and>
      fold (apply_delta L) ds (content L (zs ! i)) = content L (zs ! j)
    else answer = None"
proof -
  have "\<forall>z \<in> set zs. SOA z \<noteq> None" using assms(1) by (simp add: versions_def)
  from fold_deltas[OF this, of i j L] Changes_answer[OF assms(1-5)] assms(2,3) show ?thesis
    by (simp add: answer_def)
qed

definition ex_zone2 :: zone where
  "ex_zone2 = snd (IncrementSerial 7 (ex_add (ex_rr ''v.a.'' TypeA 60 (RA [3])) (Clone ex_zone)))"

lemma journal_serves_versions_witness:
  "\<exists>ds. Changes ex_lib ''A'' 5 7 (record_all ex_lib [ex_zone, ex_zone2] (NewJournal 4)) = Some ds \<and>
     length ds = 1 \<and> fold (apply_delta ex_lib) ds (content ex_lib ex_zone) = content ex_lib ex_zone2"
proof -
  have s: "zserial ex_zone = 5" "zserial ex_zone2 = 7" "SOA ex_zone \<noteq> None" "SOA ex_zone2 \<noteq> None" 
    "Origin ex_zone = ''a.''" "Origin ex_zone2 = ''a.''" "zone_key ex_lib ''A'' = zone_key ex_lib ''a.''"
    by code_simp+
  then have v: "versions ex_lib [ex_zone, ex_zone2]"
    by (simp add: versions_def equal_fold_def SerialGreater_def)
  have "if length [ex_zone, ex_zone2] - 1 - 0 \<le> 4
    then \<exists>ds. Changes ex_lib ''A'' (zserial ([ex_zone, ex_zone2] ! 0)) (zserial ([ex_zone, ex_zone2] ! 1))
        (record_all ex_lib [ex_zone, ex_zone2] (NewJournal (int 4))) = Some ds \<and> length ds = 1 - 0 \<and>
      fold (apply_delta ex_lib) ds (content ex_lib ([ex_zone, ex_zone2] ! 0)) =
        content ex_lib ([ex_zone, ex_zone2] ! 1)
    else Changes ex_lib ''A'' (zserial ([ex_zone, ex_zone2] ! 0)) (zserial ([ex_zone, ex_zone2] ! 1))
        (record_all ex_lib [ex_zone, ex_zone2] (NewJournal (int 4))) = None"
    by (rule journal_serves_versions[OF v]) (use s in simp_all)
  then show ?thesis using s by simp
qed

end
