(* ===== verification/Acl.thy ===== *)
theory Acl
  imports Go_Net
begin

text \<open>
  Address lists: the query ACL of \<open>internal/engine/acl.go\<close>, the source ACL of
  \<open>internal/dsync/source_acl.go\<close> and the per-zone lists \<open>internal/server/server.go\<close> builds from it.
  The two address parsers of package \<open>net\<close> are arguments (\<open>None\<close> for their error).
\<close>

record parsers =
  ParseCIDR :: "string \<Rightarrow> ipnet option"
  ParseIP :: "string \<Rightarrow> ip option"

subsection \<open>The query ACL\<close>

record acl =
  allowedNets :: "ipnet list"
  deniedNets :: "ipnet list"
  defaultAllow :: bool

definition NewACL :: "bool \<Rightarrow> acl" where
  "NewACL d = \<lparr>allowedNets = [], deniedNets = [], defaultAllow = d\<rparr>"

text \<open>The network of an entry: CIDR notation or a single address.\<close>

definition entry_net :: "parsers \<Rightarrow> string \<Rightarrow> ipnet option" where
  "entry_net P cidr =
     (case ParseCIDR P cidr of
        Some n \<Rightarrow> Some n
      | None \<Rightarrow> (case ParseIP P cidr of
          None \<Rightarrow> None
        | Some a \<Rightarrow> Some (if To4 a \<noteq> [] then \<lparr>net_IP = a, net_Mask = CIDRMask 32 32\<rparr>
                          else \<lparr>net_IP = a, net_Mask = CIDRMask 128 128\<rparr>)))"

text \<open>The result is whether the entry was accepted.\<close>

definition AllowNet :: "parsers \<Rightarrow> string \<Rightarrow> acl \<Rightarrow> bool \<times> acl" where
  "AllowNet P cidr a = (case entry_net P cidr of None \<Rightarrow> (False, a)
     | Some n \<Rightarrow> (True, a\<lparr>allowedNets := allowedNets a @ [n]\<rparr>))"

definition DenyNet :: "parsers \<Rightarrow> string \<Rightarrow> acl \<Rightarrow> bool \<times> acl" where
  "DenyNet P cidr a = (case entry_net P cidr of None \<Rightarrow> (False, a)
     | Some n \<Rightarrow> (True, a\<lparr>deniedNets := deniedNets a @ [n]\<rparr>))"

definition IsAllowed :: "acl \<Rightarrow> ip \<Rightarrow> bool" where
  "IsAllowed a ip =
     (if list_ex (\<lambda>n. net_Contains n ip) (deniedNets a) then False
      else if list_ex (\<lambda>n. net_Contains n ip) (allowedNets a) then True
      else defaultAllow a)"

definition IsAllowedString :: "parsers \<Rightarrow> acl \<Rightarrow> string \<Rightarrow> bool" where
  "IsAllowedString P a s = (case ParseIP P s of None \<Rightarrow> False | Some ip \<Rightarrow> IsAllowed a ip)"

definition acl_Clear :: "acl \<Rightarrow> acl" where
  "acl_Clear a = a\<lparr>allowedNets := [], deniedNets := []\<rparr>"

subsection \<open>Source ACLs\<close>

record source_acl =
  networks :: "ipnet list"
  allowAll :: bool

text \<open>One entry: \<open>None\<close> is the error return, \<open>Some None\<close> an entry that yields no network.\<close>

definition source_entry :: "parsers \<Rightarrow> string \<Rightarrow> ipnet option option" where
  "source_entry P cidr =
     (case ParseCIDR P cidr of
        Some n \<Rightarrow> Some (Some n)
      | None \<Rightarrow> (case ParseIP P cidr of
          None \<Rightarrow> None
        | Some a \<Rightarrow> Some (ParseCIDR P (cidr @ (if To4 a \<noteq> [] then ''/32'' else ''/128'')))))"

fun source_nets :: "parsers \<Rightarrow> string list \<Rightarrow> ipnet list option" where
  "source_nets P [] = Some []"
| "source_nets P (c # cs) =
     (case source_entry P c of
        None \<Rightarrow> None
      | Some n \<Rightarrow> map_option (\<lambda>ns. (case n of None \<Rightarrow> [] | Some n \<Rightarrow> [n]) @ ns) (source_nets P cs))"

definition NewSourceACL :: "parsers \<Rightarrow> string list \<Rightarrow> source_acl option" where
  "NewSourceACL P cidrs =
     (if length cidrs = 0 then Some \<lparr>networks = [], allowAll = True\<rparr>
      else case source_nets P cidrs of
        None \<Rightarrow> None
      | Some nets \<Rightarrow> if length nets = 0 then None else Some \<lparr>networks = nets, allowAll = False\<rparr>)"

definition source_Check :: "source_acl \<Rightarrow> ip \<Rightarrow> bool" where
  "source_Check a ip = (if allowAll a then True else list_ex (\<lambda>n. net_Contains n ip) (networks a))"

text \<open>
  The server's map from zones to ACLs. An inner \<open>None\<close> is the nil ACL of an empty list; the outer
  \<open>None\<close> is a configuration error.
\<close>

fun build_zone_acls ::
  "parsers \<Rightarrow> (string \<times> string list) list \<Rightarrow> (string \<rightharpoonup> source_acl) option" where
  "build_zone_acls P [] = Some Map.empty"
| "build_zone_acls P ((zone, cidrs) # rest) =
     (if length cidrs = 0 then map_option (\<lambda>m. m(zone := None)) (build_zone_acls P rest)
      else case NewSourceACL P cidrs of
        None \<Rightarrow> None
      | Some a \<Rightarrow> map_option (\<lambda>m. m(zone \<mapsto> a)) (build_zone_acls P rest))"

text \<open>The test every transfer and update handler makes.\<close>

definition zone_acl_allows :: "(string \<rightharpoonup> source_acl) \<Rightarrow> string \<Rightarrow> ip \<Rightarrow> bool" where
  "zone_acl_allows acls zone ip = (case acls zone of None \<Rightarrow> False | Some a \<Rightarrow> source_Check a ip)"

subsection \<open>Properties\<close>

text \<open>
  Zone transfer and update lists deny by default. A client is let through for a zone only if
  the configuration lists that zone with a non-empty list one of whose entries yields a network
  that contains the client's address, although the source ACL itself reads an empty list as
  allow-all.
\<close>

theorem zone_acls_deny_by_default:
  assumes "build_zone_acls P conf = Some acls" "zone_acl_allows acls zone ip"
  shows "\<exists>cidrs c n. (zone, cidrs) \<in> set conf \<and> c \<in> set cidrs \<and>
    source_entry P c = Some (Some n) \<and> net_Contains n ip"
proof -
  have nets: "n \<in> set ns \<Longrightarrow> \<exists>c \<in> set cs. source_entry P c = Some (Some n)"
    if "source_nets P cs = Some ns" for cs ns n
    using that
    by (induction cs arbitrary: ns) (fastforce split: option.splits)+
  have "\<exists>cidrs. (zone, cidrs) \<in> set conf \<and> cidrs \<noteq> [] \<and> NewSourceACL P cidrs = acls zone"
    using assms
  proof (induction conf arbitrary: acls)
    case (Cons zc conf)
    obtain z cs where zc: "zc = (z, cs)" by fastforce
    obtain m where m: "build_zone_acls P conf = Some m"
      "acls = m(z := (if cs = [] then None else NewSourceACL P cs))"
      using Cons.prems(1) zc by (auto split: if_splits option.splits)
    show ?case
    proof (cases "zone = z")
      case True
      with Cons.prems(2) m zc show ?thesis
        by (auto simp: zone_acl_allows_def split: if_splits)
    next
      case False
      then have "zone_acl_allows m zone ip" using Cons.prems(2) m by (simp add: zone_acl_allows_def)
      from Cons.IH[OF m(1) this] False m show ?thesis by auto
    qed
  qed (simp add: zone_acl_allows_def)
  then obtain cidrs a where c: "(zone, cidrs) \<in> set conf" "cidrs \<noteq> []" "NewSourceACL P cidrs = Some a"
      "source_Check a ip"
    using assms(2) by (auto simp: zone_acl_allows_def split: option.splits)
  then obtain ns n where "source_nets P cidrs = Some ns" "n \<in> set ns" "net_Contains n ip"
    by (auto simp: NewSourceACL_def source_Check_def list_ex_iff split: option.splits if_splits)
  with nets c(1) show ?thesis by blast
qed

definition ex_parsers :: parsers where
  "ex_parsers = \<lparr>ParseCIDR = (\<lambda>s. if s = ''10.0.0.0/8'' then Some \<lparr>net_IP = [10, 0, 0, 0], net_Mask = [255, 0, 0, 0]\<rparr>
       else None), ParseIP = (\<lambda>_. None)\<rparr>"

lemma zone_acls_deny_by_default_witness:
  defines "conf \<equiv> [(''a.'', [''10.0.0.0/8'']), (''b.'', [])]"
  shows "\<exists>acls. build_zone_acls ex_parsers conf = Some acls \<and> zone_acl_allows acls ''a.'' [10, 1, 2, 3] \<and>
    \<not> zone_acl_allows acls ''b.'' [10, 1, 2, 3] \<and>
    (\<exists>cidrs c n. (''a.'', cidrs) \<in> set conf \<and> c \<in> set cidrs \<and>
      source_entry ex_parsers c = Some (Some n) \<and> net_Contains n [10, 1, 2, 3])"
proof -
  let ?n = "\<lparr>net_IP = [10, 0, 0, 0], net_Mask = [255, 0, 0, 0]\<rparr> :: ipnet"
  let ?acls = "[''a.'' \<mapsto> \<lparr>networks = [?n], allowAll = False\<rparr>] :: string \<rightharpoonup> source_acl"
  have b: "build_zone_acls ex_parsers conf = Some (?acls(''b.'' := None))"
    by (simp add: conf_def ex_parsers_def NewSourceACL_def source_entry_def fun_eq_iff)
  moreover have "net_Contains ?n [10, 1, 2, 3]" by code_simp
  then have a: "zone_acl_allows (?acls(''b.'' := None)) ''a.'' [10, 1, 2, 3]"
    by (simp add: zone_acl_allows_def source_Check_def)
  moreover have "\<not> zone_acl_allows (?acls(''b.'' := None)) ''b.'' [10, 1, 2, 3]"
    by (simp add: zone_acl_allows_def)
  ultimately show ?thesis using zone_acls_deny_by_default[OF b a] by blast
qed

end
