(* ===== verification/Zone_Transfer.thy ===== *)
theory Zone_Transfer
  imports Journal_Props Acl
begin

text \<open>
  Zone transfer: the server's side, \<open>internal/server/axfr.go\<close>, and the secondary's,
  \<open>internal/secondary/ixfr.go\<close> and \<open>zoneFromAXFR\<close> of \<open>internal/secondary/transfer.go\<close>. What a handler
  reads of the request and its connection is a record; what it writes is a value.
\<close>

subsection \<open>Serving transfers\<close>

record axfr_request =
  over_udp :: bool
  over_xot :: bool
  has_tsig :: bool
  tsig_status :: bool
  questions :: "(string \<times> u16 \<times> u16) list"
  ns_section :: "rr list"
  client_ip :: ip

record transfer_server =
  zones :: "string \<rightharpoonup> zone"
  zone_tls_only :: "string \<Rightarrow> bool"
  zone_transfer_acls :: "string \<rightharpoonup> source_acl"
  zone_allow_fallback :: "string \<rightharpoonup> bool"
  ixfr_journal :: journal

datatype axfr_response =
    AxfrTruncated | AxfrRcode int | AxfrTsigError | AxfrStream "rr list list"

definition axfrBatchSize :: nat where "axfrBatchSize = 100"

fun batches :: "rr list \<Rightarrow> rr list list" where
  "batches [] = []"
| "batches (r # rs) = take axfrBatchSize (r # rs) # batches (drop (axfrBatchSize - 1) rs)"

definition ixfrRequestSerial :: "dns_lib \<Rightarrow> axfr_request \<Rightarrow> string \<Rightarrow> u16 \<Rightarrow> u32 option" where
  "ixfrRequestSerial L req qname zoneClass =
     (case ns_section req of
        [soa] \<Rightarrow>
          (if \<not> is_RSOA (rr_data soa) \<or> rr_class soa \<noteq> zoneClass \<or>
              \<not> equal_fold (Fqdn L (rr_name soa)) (Fqdn L qname)
           then None else Some (soa_serial soa))
      | _ \<Rightarrow> None)"

definition fullTransferRecords :: "rr \<Rightarrow> zone \<Rightarrow> rr list" where
  "fullTransferRecords soa z =
     soa # filter (\<lambda>r. rr_type r \<noteq> TypeSOA) (GetAllRecords z) @ [soa]"

definition incrementalTransferRecords :: "rr \<Rightarrow> delta list \<Rightarrow> rr list" where
  "incrementalTransferRecords current deltas =
     current # concat (map (\<lambda>d. FromSOA d # Deleted d @ ToSOA d # Added d) deltas) @ [current]"

definition transferRecordSize :: "dns_lib \<Rightarrow> rr list \<Rightarrow> int" where
  "transferRecordSize L rs = sum_list (map (RRLen L) rs)"

text \<open>The choice of what to stream, once the request has passed the guards.\<close>

definition transfer_answer ::
  "dns_lib \<Rightarrow> transfer_server \<Rightarrow> axfr_request \<Rightarrow> string \<Rightarrow> u16 \<Rightarrow> zone \<Rightarrow> rr \<Rightarrow> axfr_response" where
  "transfer_answer L s req name qtype z soa =
     (let qname = to_lower (Fqdn L name);
          full = fullTransferRecords soa z;
          allowFallback = (case zone_allow_fallback s qname of None \<Rightarrow> True | Some b \<Rightarrow> b)
      in if qtype = TypeIXFR then
        (case ixfrRequestSerial L req name (Class z) of
           None \<Rightarrow> AxfrRcode RcodeFormatError
         | Some requestedSerial \<Rightarrow>
            if \<not> SerialGreater (soa_serial soa) requestedSerial then AxfrStream (batches [soa])
            else case Changes L qname requestedSerial (soa_serial soa) (ixfr_journal s) of
              Some deltas \<Rightarrow>
                let incremental = incrementalTransferRecords soa deltas in
                if \<not> allowFallback \<or> transferRecordSize L incremental < transferRecordSize L full
                then AxfrStream (batches incremental) else AxfrStream (batches full)
            | None \<Rightarrow> if \<not> allowFallback then AxfrRcode RcodeNotImplemented
                      else AxfrStream (batches full))
      else AxfrStream (batches full))"

definition handleAXFR :: "dns_lib \<Rightarrow> transfer_server \<Rightarrow> axfr_request \<Rightarrow> axfr_response" where
  "handleAXFR L s req =
     (if over_udp req then AxfrTruncated
      else if length (questions req) = 1 \<and>
              zone_tls_only s (to_lower (Fqdn L (fst (questions req ! 0)))) \<and> \<not> over_xot req
      then AxfrRcode RcodeRefused
      else if \<not> has_tsig req then AxfrRcode RcodeNotAuth
      else if \<not> tsig_status req then AxfrTsigError
      else case questions req of
        [(name, qtype, qclass)] \<Rightarrow>
          (if qtype \<noteq> TypeAXFR \<and> qtype \<noteq> TypeIXFR then AxfrRcode RcodeRefused
           else let qname = to_lower (Fqdn L name) in
           case zones s qname of
             None \<Rightarrow> AxfrRcode RcodeRefused
           | Some z \<Rightarrow>
              if qclass \<noteq> Class z then AxfrRcode RcodeRefused
              else if \<not> zone_acl_allows (zone_transfer_acls s) qname (client_ip req)
              then AxfrRcode RcodeRefused
              else case SOA z of
                None \<Rightarrow> AxfrRcode RcodeServerFailure
              | Some soa \<Rightarrow> transfer_answer L s req name qtype z soa)
      | _ \<Rightarrow> AxfrRcode RcodeRefused)"

subsection \<open>Applying a transfer\<close>

datatype transfer_error =
    EmptyTransfer | NotSOAFirst | SingleSOAChanged | NotBounded | UnexpectedSerial | MissingNewSOA
  | NoAdvance | DeletesAbsent rr | AddsExisting rr | Incomplete | WrongEnd | TooFew | NonINClass
  | ZoneError zone_error

definition normalizedRR :: "dns_lib \<Rightarrow> rr \<Rightarrow> string" where
  "normalizedRR L r =
     RRString L (r\<lparr>rr_name := to_lower (Fqdn L (rr_name r)), rr_class := ClassINET, rr_ttl := 0\<rparr>)"

definition zoneHasRR :: "dns_lib \<Rightarrow> zone \<Rightarrow> rr \<Rightarrow> bool" where
  "zoneHasRR L z candidate =
     list_ex (\<lambda>r. normalizedRR L r = normalizedRR L candidate)
       (ExactRecords L z (rr_name candidate) (rr_type candidate))"

fun add_all :: "dns_lib \<Rightarrow> zone \<Rightarrow> rr list \<Rightarrow> transfer_error + zone" where
  "add_all L z [] = Inr z"
| "add_all L z (r # rs) =
     (case AddRecord L (Some r) z of (Inl e, _) \<Rightarrow> Inl (ZoneError e) | (Inr _, z') \<Rightarrow> add_all L z' rs)"

text \<open>
  The loop checks the class of each record before it adds it; the last record, the closing SOA, is
  checked but not added. \<open>New\<close> panics on an empty name, here a missing result.
\<close>

fun axfr_loop :: "dns_lib \<Rightarrow> zone \<Rightarrow> rr list \<Rightarrow> transfer_error + zone" where
  "axfr_loop L z [] = Inr z"
| "axfr_loop L z (r # rs) =
     (if rr_class r \<noteq> ClassINET then Inl NonINClass
      else if rs = [] then Inr z
      else case AddRecord L (Some r) z of
        (Inl e, _) \<Rightarrow> Inl (ZoneError e) | (Inr _, z') \<Rightarrow> axfr_loop L z' rs)"

definition zoneFromAXFR :: "dns_lib \<Rightarrow> string \<Rightarrow> rr list \<Rightarrow> transfer_error + zone" where
  "zoneFromAXFR L name records =
     (if length records < 2 then Inl TooFew
      else if \<not> is_RSOA (rr_data (hd records)) \<or> \<not> is_RSOA (rr_data (last records)) \<or>
              soa_serial (hd records) \<noteq> soa_serial (last records) then Inl NotBounded
      else case New name of
        None \<Rightarrow> Inl (ZoneError Panic)
      | Some result \<Rightarrow>
          (case axfr_loop L result records of
             Inl e \<Rightarrow> Inl e
           | Inr z \<Rightarrow> (case Validate L z of Some e \<Rightarrow> Inl (ZoneError e) | None \<Rightarrow> Inr z)))"

fun delete_all :: "dns_lib \<Rightarrow> zone \<Rightarrow> rr list \<Rightarrow> transfer_error + zone" where
  "delete_all L z [] = Inr z"
| "delete_all L z (r # rs) =
     (if \<not> zoneHasRR L z r then Inl (DeletesAbsent r)
      else case DeleteRecord L (Some r) z of
        (Inl e, _) \<Rightarrow> Inl (ZoneError e) | (Inr _, z') \<Rightarrow> delete_all L z' rs)"

fun insert_all :: "dns_lib \<Rightarrow> zone \<Rightarrow> rr list \<Rightarrow> transfer_error + zone" where
  "insert_all L z [] = Inr z"
| "insert_all L z (r # rs) =
     (if zoneHasRR L z r then Inl (AddsExisting r)
      else case AddRecord L (Some r) z of
        (Inl e, _) \<Rightarrow> Inl (ZoneError e) | (Inr _, z') \<Rightarrow> insert_all L z' rs)"

text \<open>One delta: the deletions, the new SOA in place of the old one, the additions.\<close>

definition apply_one :: "dns_lib \<Rightarrow> zone \<Rightarrow> rr list \<Rightarrow> rr \<Rightarrow> rr list \<Rightarrow> transfer_error + zone" where
  "apply_one L work deleted newSOA added =
     (case delete_all L work deleted of
        Inl e \<Rightarrow> Inl e
      | Inr work \<Rightarrow>
          let work = (DeleteRRSet (Origin work) TypeSOA work)\<lparr>SOA := None, soa_shared := False\<rparr> in
          case AddRecord L (Some newSOA) work of
            (Inl e, _) \<Rightarrow> Inl (ZoneError e)
          | (Inr _, work) \<Rightarrow> insert_all L work added)"

text \<open>The records between the opening and the closing SOA.\<close>

function ixfr_loop :: "dns_lib \<Rightarrow> zone \<Rightarrow> rr list \<Rightarrow> transfer_error + zone" where
  "ixfr_loop L work [] = Inr work"
| "ixfr_loop L work (oldSOA # rs) =
     (if \<not> is_RSOA (rr_data oldSOA) \<or> SOA work = None \<or> soa_serial oldSOA \<noteq> zserial work
      then Inl UnexpectedSerial
      else let data = (\<lambda>r. \<not> is_RSOA (rr_data r)); deleted = takeWhile data rs in
      case dropWhile data rs of
        [] \<Rightarrow> Inl MissingNewSOA
      | newSOA # rs' \<Rightarrow>
          if \<not> SerialGreater (soa_serial newSOA) (soa_serial oldSOA) then Inl NoAdvance
          else let added = takeWhile data rs' in
          case apply_one L work deleted newSOA added of
            Inl e \<Rightarrow> Inl e
          | Inr work \<Rightarrow> ixfr_loop L work (dropWhile data rs'))"
  by pat_completeness auto
termination
proof (relation "measure (\<lambda>(_, _, rs). length rs)")
  fix L :: dns_lib and work work' :: zone and oldSOA newSOA :: rr and rs rs' deleted added :: "rr list" and data
  assume d: "dropWhile data rs = newSOA # rs'"
  have "length (dropWhile data rs') \<le> length rs'" by (rule length_dropWhile_le)
  also have "length rs' < length rs" using length_dropWhile_le[of data rs] by (simp add: d)
  finally show "((L, work', dropWhile data rs'), L, work, oldSOA # rs) \<in> measure (\<lambda>(_, _, rs). length rs)"
    by simp
qed simp

definition applyTransfer :: "dns_lib \<Rightarrow> zone \<Rightarrow> string \<Rightarrow> rr list \<Rightarrow> transfer_error + zone \<times> bool" where
  "applyTransfer L current name records =
     (case records of
        [] \<Rightarrow> Inl EmptyTransfer
      | target # rest \<Rightarrow>
          if \<not> is_RSOA (rr_data target) then Inl NotSOAFirst
          else case rest of
            [] \<Rightarrow> (if soa_serial target \<noteq> zserial current then Inl SingleSOAChanged
                   else Inr (Clone current, True))
          | second # _ \<Rightarrow>
              if \<not> is_RSOA (rr_data second) then
                (case zoneFromAXFR L name records of Inl e \<Rightarrow> Inl e | Inr z \<Rightarrow> Inr (z, False))
              else if \<not> is_RSOA (rr_data (last records)) \<or> soa_serial (last records) \<noteq> soa_serial target
              then Inl NotBounded
              else case ixfr_loop L (Clone current) (butlast rest) of
                Inl e \<Rightarrow> Inl e
              | Inr work \<Rightarrow>
                  if SOA work = None then Inl Incomplete
                  else if zserial work \<noteq> soa_serial target then Inl WrongEnd
                  else case Validate L work of
                    Some e \<Rightarrow> Inl (ZoneError e) | None \<Rightarrow> Inr (work, True))"

end
