(* ===== verification/Zone_Transfer_Props.thy ===== *)
theory Zone_Transfer_Props
  imports Zone_Transfer
begin

text \<open>
  Zone transfers carry the zone: what a secondary builds from a full or an incremental transfer has
  the RRsets of the primary's zone.
\<close>

subsection \<open>All records of a zone\<close>

lemma type_map_wf_Cons:
  assumes "type_map_wf owner ((t, rrs) # tm)"
  shows "rrset_wf owner t rrs" "type_map_wf owner tm" "rrset_of tm t = []"
proof -
  have d: "distinct (map fst tm)" "t \<notin> fst ` set tm" using assms by (auto simp: type_map_wf_def)
  show "rrset_wf owner t rrs" using assms by (auto simp: type_map_wf_def)
  show "rrset_of tm t = []" using d(2) map_of_eq_None_iff[of tm t] by (simp add: rrset_of_def)
  show "type_map_wf owner tm"
    unfolding type_map_wf_def
  proof (intro conjI allI impI)
    fix t' rrs' assume "map_of tm t' = Some rrs'"
    moreover from this have "t' \<noteq> t" using d(2) map_of_eq_None_iff[of tm t] by auto
    ultimately have "map_of ((t, rrs) # tm) t' = Some rrs'" by simp
    with assms show "rrset_wf owner t' rrs'" unfolding type_map_wf_def by blast
  qed (rule d(1))
qed

lemma filter_type_map:
  "type_map_wf owner tm \<Longrightarrow> filter (\<lambda>r. rr_name r = o' \<and> rr_type r = t) (concat (map snd tm)) =
     (if o' = owner then rrset_of tm t else [])"
proof (induction tm)
  case (Cons x tm)
  obtain t1 rrs where x: "x = (t1, rrs)" by fastforce
  note wf = type_map_wf_Cons[OF Cons.prems[unfolded x]]
  have mem: "rr_name r = owner \<and> rr_type r = t1" if "r \<in> set rrs" for r
    using wf(1) that by (simp add: rrset_wf_def)
  then have "filter (\<lambda>r. rr_name r = o' \<and> rr_type r = t) rrs = (if o' = owner \<and> t = t1 then rrs else [])"
    by (auto simp: filter_empty_conv intro!: filter_True)
  moreover have "rrset_of (x # tm) t = (if t = t1 then rrs else rrset_of tm t)"
    by (simp add: rrset_of_def x)
  ultimately show ?case using Cons.IH[OF wf(2)] wf(3) by (simp add: x)
qed simp

lemma records_wf_Cons:
  assumes "records_wf L origin ((owner, tm) # R)"
  shows "type_map_wf owner tm" "records_wf L origin R" "map_of R owner = None"
proof -
  have d: "distinct (map fst R)" "owner \<notin> fst ` set R" using assms by (auto simp: records_wf_def)
  show "type_map_wf owner tm" using assms by (auto simp: records_wf_def)
  show "map_of R owner = None" using d(2) by (simp add: map_of_eq_None_iff)
  have "map_of ((owner, tm) # R) o' = Some tm'" if "map_of R o' = Some tm'" for o' tm'
    using that \<open>map_of R owner = None\<close> by auto
  with assms d(1) show "records_wf L origin R" unfolding records_wf_def by blast
qed

lemma filter_GetAllRecords:
  assumes "records_wf L (Origin z) (Records z)"
  shows "filter (\<lambda>r. rr_name r = o' \<and> rr_type r = t) (GetAllRecords z) = view z o' t"
proof -
  have "filter (\<lambda>r. rr_name r = o' \<and> rr_type r = t) (concat (map (\<lambda>(_, tm). concat (map snd tm)) R)) =
      rrset_of (case map_of R o' of None \<Rightarrow> [] | Some tm \<Rightarrow> tm) t"
    if "records_wf L origin R" for R origin
    using that
  proof (induction R)
    case (Cons x R)
    obtain owner tm where x: "x = (owner, tm)" by fastforce
    note wf = records_wf_Cons[OF Cons.prems[unfolded x]]
    show ?case using filter_type_map[OF wf(1), of o' t] Cons.IH[OF wf(2)] wf(3) by (simp add: x)
  qed simp
  from this[OF assms] show ?thesis by (simp add: GetAllRecords_def view_def type_map_of_def)
qed

definition recs :: "zone \<Rightarrow> rr set" where
  "recs z = {r \<in> set (GetAllRecords z). rr_type r \<noteq> TypeSOA}"

lemma recs_view:
  assumes "records_wf L (Origin z) (Records z)"
  shows "r \<in> recs z \<longleftrightarrow> rr_type r \<noteq> TypeSOA \<and> r \<in> set (view z (rr_name r) (rr_type r))"
    "r \<in> set (view z o' t) \<Longrightarrow> rr_name r = o' \<and> rr_type r = t \<and> to_lower o' = o' \<and> IsSubDomain L (Origin z) o'"
proof -
  have "r \<in> set (GetAllRecords z) \<longleftrightarrow> r \<in> set (view z (rr_name r) (rr_type r))"
    by (simp flip: filter_GetAllRecords[OF assms])
  then show "r \<in> recs z \<longleftrightarrow> rr_type r \<noteq> TypeSOA \<and> r \<in> set (view z (rr_name r) (rr_type r))"
    by (auto simp: recs_def)
  assume r: "r \<in> set (view z o' t)"
  then have "map_of (Records z) o' \<noteq> None" by (auto simp: view_def type_map_of_def split: option.splits)
  then have "to_lower o' = o' \<and> IsSubDomain L (Origin z) o'" using assms by (auto simp: records_wf_def)
  with r rrset_of_wf[OF type_map_of_wf[OF assms]]
  show "rr_name r = o' \<and> rr_type r = t \<and> to_lower o' = o' \<and> IsSubDomain L (Origin z) o'"
    by (simp add: view_def)
qed

lemma recs_of_wf:
  assumes "records_wf L (Origin z) (Records z)" "r \<in> recs z"
  shows "to_lower (rr_name r) = rr_name r \<and> IsSubDomain L (Origin z) (rr_name r)"
  using recs_view(1)[OF assms(1), of r] recs_view(2)[OF assms(1), of r "rr_name r" "rr_type r"] assms(2) by simp

subsection \<open>Additions\<close>

definition addable :: "dns_lib \<Rightarrow> string \<Rightarrow> rr \<Rightarrow> bool" where
  "addable L origin r \<longleftrightarrow> to_lower (rr_name r) = rr_name r \<and> IsSubDomain L origin (rr_name r) \<and>
     (rr_type r = TypeSOA \<longrightarrow> is_RSOA (rr_data r))"

lemma AddRecord_ok:
  assumes "addable L (Origin z) r"
  shows "\<exists>z'. AddRecord L (Some r) z = (Inr (), z') \<and> Origin z' = Origin z \<and>
    SOA z' = (if rr_type r = TypeSOA then Some r else SOA z) \<and>
    view z' = (view z)(rr_name r := (view z (rr_name r))(rr_type r := view z (rr_name r) (rr_type r) @ [r]))"
proof -
  have r: "r\<lparr>rr_name := to_lower (rr_name r)\<rparr> = r" using assms by (simp add: addable_def)
  show ?thesis
  proof (cases rule: AddRecord_cases[of L "Some r" z])
    case (3 r' z1)
    then have z1: "Origin z1 = Origin z" "SOA z1 = SOA z" by simp_all
    define z' where "z' = (if rr_type r = TypeSOA then z1\<lparr>SOA := Some r, soa_shared := True\<rparr> else z1)"
    have add: "AddRecord L (Some r) z = (Inr (), z')"
      using 3(1,4) r assms by (auto simp: z'_def ret_def addable_def)
    from AddRecord_view[OF this] r assms z1 add show ?thesis
      by (intro exI[of _ z']) (simp add: addable_def z'_def)
  qed (use assms in \<open>simp_all add: addable_def\<close>)
qed

lemma axfr_loop_ok:
  assumes "\<forall>r \<in> set rs. rr_class r = ClassINET \<and> addable L (Origin z) r" "rr_class x = ClassINET"
  shows "\<exists>z'. axfr_loop L z (rs @ [x]) = Inr z' \<and> Origin z' = Origin z \<and>
    ((\<forall>r \<in> set rs. rr_type r \<noteq> TypeSOA) \<longrightarrow> SOA z' = SOA z) \<and>
    (\<forall>o' t. view z' o' t = view z o' t @ filter (\<lambda>r. rr_name r = o' \<and> rr_type r = t) rs)"
  using assms(1)
proof (induction rs arbitrary: z)
  case (Cons r rs)
  from Cons.prems have "addable L (Origin z) r" by simp
  from AddRecord_ok[OF this] obtain z1 where z1: "AddRecord L (Some r) z = (Inr (), z1)" "Origin z1 = Origin z"
    "SOA z1 = (if rr_type r = TypeSOA then Some r else SOA z)"
    "view z1 = (view z)(rr_name r := (view z (rr_name r))(rr_type r := view z (rr_name r) (rr_type r) @ [r]))"
    by blast
  with Cons.IH[of z1] Cons.prems obtain z' where "axfr_loop L z1 (rs @ [x]) = Inr z'" "Origin z' = Origin z"
    "(\<forall>r \<in> set rs. rr_type r \<noteq> TypeSOA) \<longrightarrow> SOA z' = SOA z1"
    "\<forall>o' t. view z' o' t = view z1 o' t @ filter (\<lambda>r. rr_name r = o' \<and> rr_type r = t) rs" by auto
  with z1 Cons.prems show ?case by auto
qed (use assms(2) in simp)

text \<open>
  A full transfer reproduces the zone. The secondary that reads the records the server streams
  for an AXFR of \<open>z\<close> builds a zone with the same SOA and, at every owner and type, the same list of
  records, and accepts it exactly when it validates.
\<close>

theorem axfr_roundtrip:
  assumes "zone_reach L z" "SOA z = Some s" "rr_name s = Origin z" "rr_class s = ClassINET"
    and "\<forall>r \<in> recs z. rr_class r = ClassINET"
    and "IsSubDomain L (Origin z) (Origin z)" "name \<noteq> []" "dotted name = Origin z"
  shows "\<exists>z'. Origin z' = Origin z \<and> SOA z' = Some s \<and> view z' (Origin z) TypeSOA = [s] \<and>
    (\<forall>o' t. t \<noteq> TypeSOA \<longrightarrow> view z' o' t = view z o' t) \<and>
    zoneFromAXFR L name (fullTransferRecords s z) =
      (case Validate L z' of Some e \<Rightarrow> Inl (ZoneError e) | None \<Rightarrow> Inr z')"
proof -
  have wf: "records_wf L (Origin z) (Records z)" "rr_type s = TypeSOA" "is_RSOA (rr_data s)"
    "to_lower (rr_name s) = rr_name s"
    using zone_reach_wf_all[OF assms(1)] assms(2) by (auto simp: zone_wf_def soa_wf_def)
  define rs where "rs = filter (\<lambda>r. rr_type r \<noteq> TypeSOA) (GetAllRecords z)"
  have set_rs: "set rs = recs z" by (auto simp: rs_def recs_def)
  obtain z0 where z0: "New name = Some z0" "Origin z0 = Origin z" "view z0 = (\<lambda>_ _. [])"
    using assms(7,8) by (auto simp: New_def dotted_def Let_def view_def type_map_of_def fun_eq_iff)
  have "addable L (Origin z0) s" using wf assms(3,6) z0 by (simp add: addable_def)
  from AddRecord_ok[OF this] obtain z1 where z1: "AddRecord L (Some s) z0 = (Inr (), z1)" "Origin z1 = Origin z"
    "SOA z1 = Some s" "view z1 = (view z0)(Origin z := (view z0 (Origin z))(TypeSOA := [s]))"
    using wf(2) z0 assms(3) by auto
  have "\<forall>r \<in> set rs. rr_class r = ClassINET \<and> addable L (Origin z1) r"
    using recs_of_wf[OF wf(1)] assms(5) z1(2) by (auto simp: set_rs addable_def recs_def)
  from axfr_loop_ok[OF this assms(4)] obtain z' where z': "axfr_loop L z1 (rs @ [s]) = Inr z'"
    "Origin z' = Origin z" "SOA z' = Some s"
    "\<forall>o' t. view z' o' t = view z1 o' t @ filter (\<lambda>r. rr_name r = o' \<and> rr_type r = t) rs"
    using z1 set_rs by (auto simp: recs_def)
  have filt: "filter (\<lambda>r. rr_name r = o' \<and> rr_type r = t) rs = (if t = TypeSOA then [] else view z o' t)" for o' t
    by (auto simp: rs_def filter_empty_conv simp flip: filter_GetAllRecords[OF wf(1)] intro!: filter_cong)
  have "axfr_loop L z0 (fullTransferRecords s z) = Inr z'"
    using z1(1) z'(1) assms(4) by (simp add: fullTransferRecords_def rs_def)
  then have "zoneFromAXFR L name (fullTransferRecords s z) =
      (case Validate L z' of Some e \<Rightarrow> Inl (ZoneError e) | None \<Rightarrow> Inr z')"
    using z0(1) wf(3) by (simp add: zoneFromAXFR_def fullTransferRecords_def)
  with z' z1(4) z0(3) filt show ?thesis by (intro exI[of _ z']) simp
qed

lemma axfr_roundtrip_witness:
  "\<exists>z'. Origin z' = ''a.'' \<and> SOA z' = Some (ex_soa 5) \<and> view z' ''a.'' TypeSOA = [ex_soa 5] \<and>
    (\<forall>o' t. t \<noteq> TypeSOA \<longrightarrow> view z' o' t = view ex_zone o' t) \<and>
    zoneFromAXFR ex_lib ''a.'' (fullTransferRecords (ex_soa 5) ex_zone) =
      (case Validate ex_lib z' of Some e \<Rightarrow> Inl (ZoneError e) | None \<Rightarrow> Inr z')"
proof -
  have z: "SOA ex_zone = Some (ex_soa 5)" "rr_name (ex_soa 5) = ''a.''" "Origin ex_zone = ''a.''"
    "rr_class (ex_soa 5) = ClassINET" "IsSubDomain ex_lib ''a.'' ''a.''" "dotted ''a.'' = ''a.''"
    by code_simp+
  have "list_all (\<lambda>r. rr_class r = ClassINET) (GetAllRecords ex_zone)" by code_simp
  then have "\<forall>r \<in> recs ex_zone. rr_class r = ClassINET" by (auto simp: recs_def list_all_iff)
  from axfr_roundtrip[OF ex_zone_reach z(1) _ z(4) this, of "''a.''"] z show ?thesis by simp
qed

subsection \<open>Deletions and additions of a delta\<close>

text \<open>
  \<open>ixfr_data\<close>: the records of all versions print differently, are data (no SOA, no meta type) and
  have normal names inside the zone. \<open>uniform\<close>: the RRsets of a zone are sets of records of one class
  and one TTL that differ in their data.
\<close>

definition ixfr_data :: "dns_lib \<Rightarrow> string \<Rightarrow> rr set \<Rightarrow> bool" where
  "ixfr_data L origin S \<longleftrightarrow> inj_on (RRString L) S \<and>
     (\<forall>r \<in> S. rr_type r \<noteq> TypeSOA \<and> rr_type r \<noteq> TypeANY \<and> \<not> is_RSOA (rr_data r) \<and>
        to_lower (rr_name r) = rr_name r \<and> dotted (rr_name r) = rr_name r \<and> Fqdn L (rr_name r) = rr_name r \<and>
        IsSubDomain L origin (rr_name r))"

definition uniform :: "dns_lib \<Rightarrow> zone \<Rightarrow> bool" where
  "uniform L z \<longleftrightarrow> (\<forall>o' t. t \<noteq> TypeSOA \<longrightarrow> distinct (map (normalizedRR L) (view z o' t)) \<and>
     (\<forall>a \<in> set (view z o' t). \<forall>b \<in> set (view z o' t). rr_ttl a = rr_ttl b \<and> rr_class a = rr_class b))"

text \<open>A zone being worked on: its RRsets are made of records of \<open>S\<close>, each under its own key.\<close>

definition good :: "rr set \<Rightarrow> zone \<Rightarrow> bool" where
  "good S w \<longleftrightarrow> (\<forall>o' t. t \<noteq> TypeSOA \<longrightarrow> distinct (view w o' t) \<and>
     (\<forall>a \<in> set (view w o' t). a \<in> S \<and> rr_name a = o' \<and> rr_type a = t) \<and>
     (\<forall>a \<in> set (view w o' t). \<forall>b \<in> set (view w o' t). rr_ttl a = rr_ttl b \<and> rr_class a = rr_class b))"

lemma recordsAt_view: "t \<noteq> TypeANY \<Longrightarrow> recordsAt z o' t = view z o' t"
  by (simp add: recordsAt_def view_def type_map_of_def split: option.split)

lemma zoneHasRR_view:
  assumes "ixfr_data L origin S" "r \<in> S"
  shows "zoneHasRR L w r \<longleftrightarrow> normalizedRR L r \<in> normalizedRR L ` set (view w (rr_name r) (rr_type r))"
proof -
  have "ExactRecords L w (rr_name r) (rr_type r) = view w (rr_name r) (rr_type r)"
    using assms by (simp add: ExactRecords_def ixfr_data_def recordsAt_view)
  then show ?thesis by (simp add: zoneHasRR_def list_ex_iff image_iff) metis
qed

lemma goodD:
  assumes "good S w" "t \<noteq> TypeSOA"
  shows "distinct (view w o' t)"
    "a \<in> set (view w o' t) \<Longrightarrow> a \<in> S \<and> rr_name a = o' \<and> rr_type a = t"
    "\<lbrakk>a \<in> set (view w o' t); b \<in> set (view w o' t)\<rbrakk> \<Longrightarrow> rr_ttl a = rr_ttl b \<and> rr_class a = rr_class b"
  using assms unfolding good_def by blast+

lemma delete_step:
  assumes good: "good S w" and data: "ixfr_data L origin S" and r: "r \<in> S" "r \<in> set (view w (rr_name r) (rr_type r))"
  shows "\<exists>w'. DeleteRecord L (Some r) w = (Inr (), w') \<and> Origin w' = Origin w \<and> SOA w' = SOA w \<and>
    view w' = (view w)(rr_name r := (view w (rr_name r))(rr_type r :=
      filter (\<lambda>x. x \<noteq> r) (view w (rr_name r) (rr_type r))))"
proof -
  let ?ex = "view w (rr_name r) (rr_type r)"
  obtain res w' where del: "DeleteRecord L (Some r) w = (res, w')" by fastforce
  have n: "rr_type r \<noteq> TypeSOA" "dotted (to_lower (rr_name r)) = rr_name r" "inj_on (RRString L) S"
    using data r(1) by (simp_all add: ixfr_data_def)
  have ex: "distinct ?ex" using goodD(1)[OF good n(1)] .
  have exS: "set ?ex \<subseteq> S" using goodD(2)[OF good n(1)] by blast
  have "?ex \<noteq> []" using r(2) by (cases ?ex) simp_all
  from goodD(3)[OF good n(1) hd_in_set[OF this] r(2)]
  have hd: "rr_ttl (hd ?ex) = rr_ttl r" "rr_class (hd ?ex) = rr_class r" by simp_all
  have "delete_target r ?ex = r"
    using hd r(2) n(2) by (cases ?ex) (simp_all add: delete_target_def)
  moreover have "delete_first (\<lambda>e. RRString L e = RRString L r) xs = filter (\<lambda>x. x \<noteq> r) xs"
    if "distinct xs" "set xs \<subseteq> S" for xs
    using that
  proof (induction xs)
    case (Cons x xs)
    then have "RRString L x = RRString L r \<longleftrightarrow> x = r" using n(3) r(1) by (auto simp: inj_on_def)
    moreover have "filter (\<lambda>y. y \<noteq> r) xs = xs" if "x = r" using Cons.prems(1) that by (auto simp: filter_id_conv)
    ultimately show ?case using Cons by simp
  qed simp
  moreover have "Origin w' = Origin w" "SOA w' = SOA w"
    using del n(1) by (cases rule: DeleteRecord_cases; simp add: Let_def)+
  ultimately show ?thesis using DeleteRecord_view[OF del] del ex exS n(2) by (intro exI[of _ w']) simp
qed

lemma good_filter:
  assumes "good S w" "\<forall>o' t. t \<noteq> TypeSOA \<longrightarrow> view w' o' t = filter (P o' t) (view w o' t)"
  shows "good S w'"
  unfolding good_def
proof (intro allI impI)
  fix o' :: string and t :: u16 assume t: "t \<noteq> TypeSOA"
  then have "view w' o' t = filter (P o' t) (view w o' t)" using assms(2) by blast
  with goodD(1)[OF assms(1) t, of o'] goodD(2)[OF assms(1) t, of _ o'] goodD(3)[OF assms(1) t, of _ o']
  show "distinct (view w' o' t) \<and>
     (\<forall>a \<in> set (view w' o' t). a \<in> S \<and> rr_name a = o' \<and> rr_type a = t) \<and>
     (\<forall>a \<in> set (view w' o' t). \<forall>b \<in> set (view w' o' t). rr_ttl a = rr_ttl b \<and> rr_class a = rr_class b)"
    by simp
qed

lemma delete_all_ok:
  assumes "good S w" "ixfr_data L origin S" "distinct D"
    and "\<forall>r \<in> set D. r \<in> S \<and> r \<in> set (view w (rr_name r) (rr_type r))"
  shows "\<exists>w'. delete_all L w D = Inr w' \<and> Origin w' = Origin w \<and> SOA w' = SOA w \<and>
    (\<forall>o' t. t \<noteq> TypeSOA \<longrightarrow> view w' o' t = filter (\<lambda>x. x \<notin> set D) (view w o' t))"
  using assms(1,3,4)
proof (induction D arbitrary: w)
  case (Cons r D)
  have r: "r \<in> S" "r \<in> set (view w (rr_name r) (rr_type r))" using Cons.prems(3) by simp_all
  from delete_step[OF Cons.prems(1) assms(2) r] obtain w1 where w1: "DeleteRecord L (Some r) w = (Inr (), w1)"
    "Origin w1 = Origin w" "SOA w1 = SOA w"
    "view w1 = (view w)(rr_name r := (view w (rr_name r))(rr_type r :=
      filter (\<lambda>x. x \<noteq> r) (view w (rr_name r) (rr_type r))))" by blast
  have v1: "view w1 o' t = filter (\<lambda>x. x \<noteq> r) (view w o' t)" if "t \<noteq> TypeSOA" for o' t
  proof (cases "o' = rr_name r \<and> t = rr_type r")
    case False
    then have "r \<notin> set (view w o' t)" using goodD(2)[OF Cons.prems(1) that] by blast
    then have "filter (\<lambda>x. x \<noteq> r) (view w o' t) = view w o' t" by (simp add: filter_id_conv) blast
    with False show ?thesis by (auto simp: w1(4))
  qed (simp add: w1(4))
  then have "good S w1" using good_filter[OF Cons.prems(1), of w1 "\<lambda>_ _ x. x \<noteq> r"] by blast
  moreover have "\<forall>x \<in> set D. x \<in> S \<and> x \<in> set (view w1 (rr_name x) (rr_type x))"
  proof
    fix x assume x: "x \<in> set D"
    then have "x \<in> S" "x \<noteq> r" "x \<in> set (view w (rr_name x) (rr_type x))" using Cons.prems(2,3) by auto
    moreover from this(1) have "rr_type x \<noteq> TypeSOA" using assms(2) by (simp add: ixfr_data_def)
    ultimately show "x \<in> S \<and> x \<in> set (view w1 (rr_name x) (rr_type x))" by (simp add: v1)
  qed
  ultimately obtain w' where "delete_all L w1 D = Inr w'" "Origin w' = Origin w1" "SOA w' = SOA w1"
    "\<forall>o' t. t \<noteq> TypeSOA \<longrightarrow> view w' o' t = filter (\<lambda>x. x \<notin> set D) (view w1 o' t)"
    using Cons.IH[of w1] Cons.prems(2) by auto
  moreover have "zoneHasRR L w r" using zoneHasRR_view[OF assms(2) r(1)] r(2) by simp
  ultimately show ?case using w1 v1 by auto
qed simp

lemma insert_all_ok:
  assumes "ixfr_data L (Origin w) S" "distinct A" "set A \<subseteq> S"
    and "\<forall>r \<in> set A. \<forall>x \<in> set (view w (rr_name r) (rr_type r)). normalizedRR L x \<noteq> normalizedRR L r"
    and "\<forall>r \<in> set A. \<forall>x \<in> set A. rr_name x = rr_name r \<and> rr_type x = rr_type r \<and> x \<noteq> r \<longrightarrow>
      normalizedRR L x \<noteq> normalizedRR L r"
  shows "\<exists>w'. insert_all L w A = Inr w' \<and> Origin w' = Origin w \<and> SOA w' = SOA w \<and>
    (\<forall>o' t. view w' o' t = view w o' t @ filter (\<lambda>r. rr_name r = o' \<and> rr_type r = t) A)"
  using assms
proof (induction A arbitrary: w)
  case (Cons r A)
  have r: "r \<in> S" "rr_type r \<noteq> TypeSOA" "addable L (Origin w) r"
    using Cons.prems(1,3) by (auto simp: ixfr_data_def addable_def)
  from AddRecord_ok[OF r(3)] r(2) obtain w1 where w1: "AddRecord L (Some r) w = (Inr (), w1)" "Origin w1 = Origin w"
    "SOA w1 = SOA w"
    "view w1 = (view w)(rr_name r := (view w (rr_name r))(rr_type r := view w (rr_name r) (rr_type r) @ [r]))" by auto
  have "\<not> zoneHasRR L w r" using zoneHasRR_view[OF Cons.prems(1) r(1)] Cons.prems(4) by fastforce
  moreover have "\<exists>w'. insert_all L w1 A = Inr w' \<and> Origin w' = Origin w1 \<and> SOA w' = SOA w1 \<and>
    (\<forall>o' t. view w' o' t = view w1 o' t @ filter (\<lambda>r. rr_name r = o' \<and> rr_type r = t) A)"
  proof (rule Cons.IH)
    show "\<forall>x \<in> set A. \<forall>y \<in> set (view w1 (rr_name x) (rr_type x)). normalizedRR L y \<noteq> normalizedRR L x"
    proof (intro ballI)
      fix x y assume x: "x \<in> set A" and y: "y \<in> set (view w1 (rr_name x) (rr_type x))"
      show "normalizedRR L y \<noteq> normalizedRR L x"
      proof (cases "y \<in> set (view w (rr_name x) (rr_type x))")
        case True
        with Cons.prems(4) x show ?thesis by simp
      next
        case False
        with y have "y = r" "rr_name x = rr_name r" "rr_type x = rr_type r"
          by (auto simp: w1(4) split: if_splits)
        moreover have "x \<noteq> r" using x Cons.prems(2) by auto
        ultimately show ?thesis using Cons.prems(5) x by fastforce
      qed
    qed
  qed (use Cons.prems w1(2) in auto)
  ultimately show ?case using w1 by auto
qed simp

subsection \<open>One delta\<close>

lemma recordSet_map:
  assumes "inj_on (RRString L) (recs z)" "\<forall>r \<in> recs z. to_lower (Fqdn L (rr_name r)) = rr_name r"
  shows "map_of (recordSet L z) k = Some v \<longleftrightarrow> v \<in> recs z \<and> RRString L v = k"
proof -
  let ?f = "\<lambda>r m. if rr_type r = TypeSOA then m
                 else let c = r\<lparr>rr_name := to_lower (Fqdn L (rr_name r))\<rparr>
                 in AList.update (RRString L c) c m"
  have "map_of (fold ?f rs []) k = Some v \<longleftrightarrow> v \<in> set rs \<and> rr_type v \<noteq> TypeSOA \<and> RRString L v = k"
    if "set rs \<subseteq> set (GetAllRecords z)" for rs
    using that
  proof (induction rs rule: rev_induct)
    case (snoc r rs)
    show ?case
    proof (cases "rr_type r = TypeSOA")
      case True
      with snoc show ?thesis by auto
    next
      case False
      then have r: "r \<in> recs z" using snoc.prems by (simp add: recs_def)
      then have "r\<lparr>rr_name := to_lower (Fqdn L (rr_name r))\<rparr> = r" using assms(2) by simp
      then have "map_of (fold ?f (rs @ [r]) []) k = (if k = RRString L r then Some r else map_of (fold ?f rs []) k)"
        using False by (simp add: update_conv')
      moreover have "v = r" if "v \<in> set rs" "rr_type v \<noteq> TypeSOA" "RRString L v = RRString L r"
        using that r assms(1) snoc.prems by (auto simp: inj_on_def recs_def)
      ultimately show ?thesis using snoc False by auto
    qed
  qed simp
  from this[of "GetAllRecords z"] show ?thesis by (auto simp: recordSet_def recs_def)
qed

lemma missing_from_set:
  assumes "inj_on (RRString L) (recs a \<union> recs b)"
    and "\<forall>r \<in> recs a \<union> recs b. to_lower (Fqdn L (rr_name r)) = rr_name r"
  shows "set (missing_from (recordSet L a) (recordSet L b)) = recs a - recs b"
    "distinct (missing_from (recordSet L a) (recordSet L b))"
proof -
  have inj: "inj_on (RRString L) (recs a)" "inj_on (RRString L) (recs b)"
    using assms(1) by (auto intro: inj_on_subset)
  note ma = recordSet_map[OF inj(1)] and mb = recordSet_map[OF inj(2)]
  let ?ks = "filter (\<lambda>k. map_of (recordSet L b) k = None) (sort (map fst (recordSet L a)))"
  have keys: "k \<in> set ?ks \<longleftrightarrow> (\<exists>v \<in> recs a. RRString L v = k \<and> map_of (recordSet L b) k = None)" for k
  proof -
    have "k \<in> fst ` set (recordSet L a) \<longleftrightarrow> (\<exists>v. map_of (recordSet L a) k = Some v)"
      by (metis map_of_eq_None_iff not_Some_eq)
    then show ?thesis using ma assms(2) by auto
  qed
  have val: "map_of (recordSet L a) (RRString L v) = Some v" if "v \<in> recs a" for v
    using ma assms(2) that by auto
  have none: "map_of (recordSet L b) (RRString L v) = None \<longleftrightarrow> v \<notin> recs b" if "v \<in> recs a" for v
  proof -
    have "(\<exists>x. x \<in> recs b \<and> RRString L x = RRString L v) \<longleftrightarrow> v \<in> recs b"
      using that assms(1) by (auto simp: inj_on_def)
    then show ?thesis using mb assms(2) by (metis UnCI not_None_eq)
  qed
  show "set (missing_from (recordSet L a) (recordSet L b)) = recs a - recs b"
  proof -
    have "set (missing_from (recordSet L a) (recordSet L b)) = (\<lambda>k. the (map_of (recordSet L a) k)) ` set ?ks"
      by (simp add: missing_from_def)
    also have "\<dots> = {v \<in> recs a. map_of (recordSet L b) (RRString L v) = None}"
      using keys val by (force simp: image_iff)
    finally show ?thesis using none by auto
  qed
  have "distinct ?ks" using recordSet_keys[of L a] by (simp add: keys_ok_def)
  moreover have "inj_on (\<lambda>k. the (map_of (recordSet L a) k)) (set ?ks)"
    using keys val by (intro inj_on_inverseI[where g = "RRString L"]) auto
  ultimately show "distinct (missing_from (recordSet L a) (recordSet L b))"
    by (simp add: missing_from_def distinct_map)
qed

text \<open>\<open>carries w z\<close>: the working zone has the RRsets of \<open>z\<close>, the SOA apart, as sets.\<close>

definition carries :: "zone \<Rightarrow> zone \<Rightarrow> bool" where
  "carries w z \<longleftrightarrow> Origin w = Origin z \<and>
     (\<forall>o' t. t \<noteq> TypeSOA \<longrightarrow> distinct (view w o' t) \<and> set (view w o' t) = set (view z o' t))"

lemma DeleteRRSet_frame [simp]: "Origin (DeleteRRSet o' t z) = Origin z"
  by (simp add: DeleteRRSet_def Let_def split: option.split)

lemma uniform_inj:
  assumes "uniform L z" "t \<noteq> TypeSOA" "a \<in> set (view z o' t)" "b \<in> set (view z o' t)"
    "normalizedRR L a = normalizedRR L b"
  shows "a = b"
  using assms unfolding uniform_def distinct_map inj_on_def by blast

lemma carries_good:
  assumes "records_wf L (Origin p) (Records p)" "uniform L p" "carries w p" "recs p \<subseteq> S"
  shows "good S w"
  unfolding good_def
proof (intro allI impI)
  fix o' :: string and t :: u16 assume t: "t \<noteq> TypeSOA"
  have c: "distinct (view w o' t)" "set (view w o' t) = set (view p o' t)"
    using assms(3) t by (simp_all add: carries_def)
  have "a \<in> S \<and> rr_name a = o' \<and> rr_type a = t" if "a \<in> set (view p o' t)" for a
    using recs_view[OF assms(1), of a] that t assms(4) by blast
  moreover have "rr_ttl a = rr_ttl b \<and> rr_class a = rr_class b"
    if "a \<in> set (view p o' t)" "b \<in> set (view p o' t)" for a b
    using assms(2) t that unfolding uniform_def by blast
  ultimately show "distinct (view w o' t) \<and> (\<forall>a \<in> set (view w o' t). a \<in> S \<and> rr_name a = o' \<and> rr_type a = t) \<and>
     (\<forall>a \<in> set (view w o' t). \<forall>b \<in> set (view w o' t). rr_ttl a = rr_ttl b \<and> rr_class a = rr_class b)"
    unfolding c(2) using c(1) by blast
qed

lemma apply_one_ok:
  assumes wf: "records_wf L (Origin p) (Records p)" "records_wf L (Origin n) (Records n)"
    and orig: "Origin n = Origin p" and unif: "uniform L p" "uniform L n"
    and data: "ixfr_data L (Origin p) S" "recs p \<union> recs n \<subseteq> S"
    and w: "carries w p" and s: "addable L (Origin p) s" "rr_type s = TypeSOA"
  shows "\<exists>w'. apply_one L w (missing_from (recordSet L p) (recordSet L n)) s
      (missing_from (recordSet L n) (recordSet L p)) = Inr w' \<and> carries w' n \<and> SOA w' = Some s"
proof -
  let ?D = "missing_from (recordSet L p) (recordSet L n)" and ?A = "missing_from (recordSet L n) (recordSet L p)"
  have S: "recs p \<subseteq> S" "recs n \<subseteq> S" using data(2) by auto
  have inj: "inj_on (RRString L) (recs p \<union> recs n)"
    using data unfolding ixfr_data_def by (blast intro: inj_on_subset)
  have low: "\<forall>r \<in> recs p \<union> recs n. to_lower (Fqdn L (rr_name r)) = rr_name r"
    using data unfolding ixfr_data_def by auto
  have D: "set ?D = recs p - recs n" "distinct ?D" using missing_from_set[OF inj low] by simp_all
  have A: "set ?A = recs n - recs p" "distinct ?A"
    using missing_from_set[of L n p] inj low by (simp_all add: Un_commute)
  have wp: "Origin w = Origin p" "t \<noteq> TypeSOA \<Longrightarrow> set (view w o' t) = set (view p o' t) \<and> distinct (view w o' t)" for o' t
    using w by (simp_all add: carries_def)
  have "\<forall>r \<in> set ?D. r \<in> S \<and> r \<in> set (view w (rr_name r) (rr_type r))"
    using D(1) S(1) recs_view(1)[OF wf(1)] wp(2) by auto
  from delete_all_ok[OF carries_good[OF wf(1) unif(1) w S(1)] data(1) D(2) this] obtain w1 where
    w1: "delete_all L w ?D = Inr w1" "Origin w1 = Origin p"
      "\<And>o' t. t \<noteq> TypeSOA \<Longrightarrow> view w1 o' t = filter (\<lambda>x. x \<notin> set ?D) (view w o' t)"
    using wp(1) by auto
  define w2 where "w2 = (DeleteRRSet (Origin w1) TypeSOA w1)\<lparr>SOA := None, soa_shared := False\<rparr>"
  have w2: "Origin w2 = Origin p" "t \<noteq> TypeSOA \<Longrightarrow> view w2 o' t = view w1 o' t" for o' t
    by (simp_all add: w2_def w1(2) DeleteRRSet_view Let_def)
  from AddRecord_ok[of L w2 s] s w2(1) obtain w3 where w3: "AddRecord L (Some s) w2 = (Inr (), w3)"
    "Origin w3 = Origin p" "SOA w3 = Some s" "\<And>o' t. t \<noteq> TypeSOA \<Longrightarrow> view w3 o' t = view w2 o' t" by auto
  have v3: "view w3 o' t = filter (\<lambda>x. x \<notin> set ?D) (view w o' t)" if "t \<noteq> TypeSOA" for o' t
    using that by (simp add: w3(4) w2(2) w1(3))
  have sub3: "x \<in> set (view n o' t) \<and> x \<in> set (view p o' t) \<and> x \<in> recs p" if "x \<in> set (view w3 o' t)" "t \<noteq> TypeSOA" for x o' t
  proof -
    have "x \<in> set (view p o' t)" "x \<notin> recs p - recs n" using that v3 wp(2) D(1) by auto
    moreover from this(1) recs_view[OF wf(1), of x] that(2) have "x \<in> recs p" "rr_name x = o'" "rr_type x = t" by blast+
    ultimately show ?thesis using recs_view(1)[OF wf(2), of x] by auto
  qed
  have An: "r \<in> set (view n (rr_name r) (rr_type r)) \<and> rr_type r \<noteq> TypeSOA \<and> r \<notin> recs p" if "r \<in> set ?A" for r
    using that A(1) recs_view(1)[OF wf(2), of r] by auto
  have "ixfr_data L (Origin w3) S" using data(1) w3(2) by simp
  moreover have "set ?A \<subseteq> S" using A(1) S(2) by auto
  moreover have "\<forall>r \<in> set ?A. \<forall>x \<in> set (view w3 (rr_name r) (rr_type r)). normalizedRR L x \<noteq> normalizedRR L r"
    using An sub3 uniform_inj[OF unif(2)] by metis
  moreover have "\<forall>r \<in> set ?A. \<forall>x \<in> set ?A. rr_name x = rr_name r \<and> rr_type x = rr_type r \<and> x \<noteq> r \<longrightarrow>
      normalizedRR L x \<noteq> normalizedRR L r"
    using An uniform_inj[OF unif(2)] by metis
  ultimately obtain w4 where w4: "insert_all L w3 ?A = Inr w4" "Origin w4 = Origin p" "SOA w4 = Some s"
    "\<forall>o' t. view w4 o' t = view w3 o' t @ filter (\<lambda>r. rr_name r = o' \<and> rr_type r = t) ?A"
    using insert_all_ok[OF _ A(2), of L w3 S] w3(2,3) by auto
  have "distinct (view w4 o' t) \<and> set (view w4 o' t) = set (view n o' t)" if t: "t \<noteq> TypeSOA" for o' t
  proof -
    have n: "x \<in> set (view n o' t) \<longleftrightarrow> x \<in> recs n \<and> rr_name x = o' \<and> rr_type x = t" for x
      using recs_view[OF wf(2), of x] t by blast
    have p: "x \<in> set (view p o' t) \<longleftrightarrow> x \<in> recs p \<and> rr_name x = o' \<and> rr_type x = t" for x
      using recs_view[OF wf(1), of x] t by blast
    have "set (view w3 o' t) = {x \<in> recs p \<inter> recs n. rr_name x = o' \<and> rr_type x = t}"
      using v3[OF t, of o'] wp(2)[OF t, of o'] D(1) p by auto
    moreover have "distinct (view w3 o' t)" using v3[OF t, of o'] wp(2)[OF t, of o'] by simp
    ultimately show ?thesis using w4(4) A n by auto
  qed
  then have "carries w4 n" using w4(2) orig by (simp add: carries_def)
  then show ?thesis using w1(1) w3(1) w4 by (simp add: apply_one_def Let_def w2_def)
qed

subsection \<open>A sequence of deltas\<close>

definition delta_records :: "delta \<Rightarrow> rr list" where
  "delta_records d = FromSOA d # Deleted d @ ToSOA d # Added d"

lemma ixfr_loop_delta:
  assumes "is_RSOA (rr_data (FromSOA d))" "is_RSOA (rr_data (ToSOA d))"
    and "\<forall>r \<in> set (Deleted d) \<union> set (Added d). \<not> is_RSOA (rr_data r)"
    and "SOA w \<noteq> None" "soa_serial (FromSOA d) = zserial w"
    and "SerialGreater (soa_serial (ToSOA d)) (soa_serial (FromSOA d))"
    and "apply_one L w (Deleted d) (ToSOA d) (Added d) = Inr w'"
    and "rest = [] \<or> is_RSOA (rr_data (hd rest))"
  shows "ixfr_loop L w (delta_records d @ rest) = ixfr_loop L w' rest"
proof -
  let ?data = "\<lambda>r. \<not> is_RSOA (rr_data r)"
  have 1: "takeWhile ?data (Deleted d @ ToSOA d # Added d @ rest) = Deleted d"
    "dropWhile ?data (Deleted d @ ToSOA d # Added d @ rest) = ToSOA d # Added d @ rest"
    using assms(2,3) by (simp_all add: takeWhile_append dropWhile_append)
  have 2: "takeWhile ?data (Added d @ rest) = Added d" "dropWhile ?data (Added d @ rest) = rest"
    using assms(3,8) by (cases rest; simp add: takeWhile_append dropWhile_append)+
  obtain y where "SOA w = Some y" using assms(4) by blast
  then show ?thesis using assms(1,5,6,7) by (simp add: delta_records_def 1 2)
qed

definition ixfr_versions :: "dns_lib \<Rightarrow> string \<Rightarrow> zone list \<Rightarrow> bool" where
  "ixfr_versions L origin zs \<longleftrightarrow> versions L zs \<and> IsSubDomain L origin origin \<and>
     ixfr_data L origin (\<Union>z \<in> set zs. recs z) \<and>
     (\<forall>z \<in> set zs. zone_reach L z \<and> uniform L z \<and> Origin z = origin \<and>
        (\<forall>s. SOA z = Some s \<longrightarrow> rr_name s = origin))"

lemma ixfr_versionsD:
  assumes "ixfr_versions L origin zs" "k < length zs"
  shows "records_wf L (Origin (zs ! k)) (Records (zs ! k))" "uniform L (zs ! k)" "Origin (zs ! k) = origin"
    "recs (zs ! k) \<subseteq> (\<Union>z \<in> set zs. recs z)"
    "\<exists>s. SOA (zs ! k) = Some s \<and> addable L origin s \<and> rr_type s = TypeSOA \<and> is_RSOA (rr_data s) \<and>
       soa_serial s = zserial (zs ! k)"
proof -
  have z: "zs ! k \<in> set zs" using assms(2) by simp
  with assms(1) have r: "zone_reach L (zs ! k)" "uniform L (zs ! k)" "Origin (zs ! k) = origin"
    "\<And>s. SOA (zs ! k) = Some s \<Longrightarrow> rr_name s = origin" "SOA (zs ! k) \<noteq> None" "IsSubDomain L origin origin"
    unfolding ixfr_versions_def versions_def by blast+
  note wf = zone_reach_wf_all[OF r(1)]
  show "records_wf L (Origin (zs ! k)) (Records (zs ! k))" "uniform L (zs ! k)" "Origin (zs ! k) = origin"
    using wf r by (simp_all add: zone_wf_def)
  show "recs (zs ! k) \<subseteq> (\<Union>z \<in> set zs. recs z)" using z by blast
  obtain s where s: "SOA (zs ! k) = Some s" using r(5) by blast
  with wf r(4)[OF s] r(6)
  show "\<exists>s. SOA (zs ! k) = Some s \<and> addable L origin s \<and> rr_type s = TypeSOA \<and> is_RSOA (rr_data s) \<and>
       soa_serial s = zserial (zs ! k)"
    by (simp add: zone_wf_def soa_wf_def addable_def zserial_def)
qed

lemma ixfr_loop_versions:
  assumes V: "ixfr_versions L origin zs" and "i \<le> j" "j < length zs"
    and "carries w (zs ! i)" "SOA w \<noteq> None" "zserial w = zserial (zs ! i)"
  shows "\<exists>w'. ixfr_loop L w (concat (map delta_records (map (delta_at L zs) [i..<j]))) = Inr w' \<and>
    carries w' (zs ! j) \<and> (i < j \<longrightarrow> SOA w' = SOA (zs ! j)) \<and> SOA w' \<noteq> None \<and> zserial w' = zserial (zs ! j)"
  using assms(2,4-6)
proof (induction "j - i" arbitrary: i w)
  case 0
  then show ?case by simp
next
  case (Suc x)
  then have ij: "i < j" "Suc i < length zs" "i < length zs" using assms(3) by simp_all
  let ?p = "zs ! i" and ?n = "zs ! Suc i" and ?S = "\<Union>z \<in> set zs. recs z"
  note p = ixfr_versionsD[OF V ij(3)] and n = ixfr_versionsD[OF V ij(2)]
  obtain a where a: "SOA ?p = Some a" "is_RSOA (rr_data a)" "soa_serial a = zserial ?p" using p(5) by blast
  obtain b where b: "SOA ?n = Some b" "addable L origin b" "rr_type b = TypeSOA" "is_RSOA (rr_data b)"
    "soa_serial b = zserial ?n" using n(5) by blast
  have d: "delta_at L zs i = \<lparr>FromSOA = a, ToSOA = b,
      Deleted = missing_from (recordSet L ?p) (recordSet L ?n),
      Added = missing_from (recordSet L ?n) (recordSet L ?p)\<rparr>"
    by (simp add: delta_at_def Diff_def Let_def a(1) b(1))
  have data: "ixfr_data L origin ?S" using V by (simp add: ixfr_versions_def)
  have sub: "recs ?p \<union> recs ?n \<subseteq> ?S" using p(4) n(4) by simp
  obtain w1 where w1: "apply_one L w (Deleted (delta_at L zs i)) b (Added (delta_at L zs i)) = Inr w1"
    "carries w1 ?n" "SOA w1 = Some b"
    using apply_one_ok[OF p(1) n(1) _ p(2) n(2) _ sub Suc.prems(2), of b] data b(2,3) p(3) n(3)
    by (auto simp: d)
  have inj: "inj_on (RRString L) (recs ?p \<union> recs ?n)" "\<forall>r \<in> recs ?p \<union> recs ?n. to_lower (Fqdn L (rr_name r)) = rr_name r"
    "\<forall>r \<in> recs ?p \<union> recs ?n. \<not> is_RSOA (rr_data r)"
    using data sub unfolding ixfr_data_def by (blast intro: inj_on_subset, auto)
  have nosoa: "\<forall>r \<in> set (Deleted (delta_at L zs i)) \<union> set (Added (delta_at L zs i)). \<not> is_RSOA (rr_data r)"
    using missing_from_set(1)[OF inj(1,2)] missing_from_set(1)[of L ?n ?p] inj by (auto simp: d Un_commute)
  have "successively (\<lambda>a b. SerialGreater (zserial b) (zserial a)) zs"
    using V by (simp add: ixfr_versions_def versions_def)
  then have gt: "SerialGreater (zserial ?n) (zserial ?p)"
    using ij(2) by (simp add: successively_conv_nth)
  let ?rest = "concat (map delta_records (map (delta_at L zs) [Suc i..<j]))"
  have rest: "?rest = [] \<or> is_RSOA (rr_data (hd ?rest))"
  proof (cases "Suc i < j")
    case True
    then have "Suc i < length zs" "Suc (Suc i) < length zs" using assms(3) by simp_all
    then obtain a' b' where "SOA ?n = Some a'" "is_RSOA (rr_data a')" "SOA (zs ! Suc (Suc i)) = Some b'"
      using ixfr_versionsD(5)[OF V] by blast
    then have "is_RSOA (rr_data (FromSOA (delta_at L zs (Suc i))))" by (simp add: delta_at_def Diff_def Let_def)
    with True show ?thesis by (simp add: upt_conv_Cons delta_records_def)
  qed simp
  have loop: "ixfr_loop L w (delta_records (delta_at L zs i) @ ?rest) = ixfr_loop L w1 ?rest"
  proof (rule ixfr_loop_delta)
    show "apply_one L w (Deleted (delta_at L zs i)) (ToSOA (delta_at L zs i)) (Added (delta_at L zs i)) = Inr w1"
      using w1(1) by (simp add: d)
  qed (use a b gt nosoa rest Suc.prems in \<open>simp_all add: d\<close>)
  have x: "x = j - Suc i" using Suc.hyps(2) by simp
  have "zserial w1 = zserial ?n" using w1(3) b(1) by (simp add: zserial_def)
  then obtain w' where w': "ixfr_loop L w1 ?rest = Inr w'" "carries w' (zs ! j)" "Suc i < j \<longrightarrow> SOA w' = SOA (zs ! j)"
    "SOA w' \<noteq> None" "zserial w' = zserial (zs ! j)"
    using Suc.hyps(1)[of "Suc i" w1] x ij(1) w1(2,3) by auto
  have "SOA w' = SOA (zs ! j)"
  proof (cases "Suc i < j")
    case False
    then have "j = Suc i" using ij(1) by simp
    with w'(1) w1(3) b(1) show ?thesis by simp
  qed (use w' in simp)
  with loop w' show ?case using ij(1) by (simp add: upt_conv_Cons)
qed

text \<open>
  C3: Incremental transfer brings a secondary from any retained version to the current one. When
  the journal of the recorded versions answers a request from version \<open>i\<close> to version \<open>j\<close>, a secondary
  that carries the records of version \<open>i\<close> and applies the records the server streams gets the SOA and
  exactly the RRsets of version \<open>j\<close>, and accepts the zone exactly when it validates. The versions
  are assumed to have RRsets of one TTL and class: \<open>DeleteRecord\<close> misses others.
\<close>

theorem ixfr_roundtrip:
  assumes "ixfr_versions L origin zs" "i < j" "j < length zs" "0 < m"
    and "zone_key L zname = zone_key L (Origin (hd zs))"
    and "Changes L zname (zserial (zs ! i)) (zserial (zs ! j)) (record_all L zs (NewJournal (int m))) = Some ds"
    and "carries cur (zs ! i)" "SOA cur = Some c" "soa_serial c = zserial (zs ! i)"
  shows "\<exists>s w. SOA (zs ! j) = Some s \<and> carries w (zs ! j) \<and> SOA w = Some s \<and>
    applyTransfer L cur name (incrementalTransferRecords s ds) =
      (case Validate L w of Some e \<Rightarrow> Inl (ZoneError e) | None \<Rightarrow> Inr (w, True))"
proof -
  have V: "versions L zs" using assms(1) by (simp add: ixfr_versions_def)
  have ds: "ds = map (delta_at L zs) [i..<j]"
    using Changes_answer[OF V assms(2-5)] assms(6) by (simp split: if_splits)
  obtain s where s: "SOA (zs ! j) = Some s" "is_RSOA (rr_data s)" "soa_serial s = zserial (zs ! j)"
    using ixfr_versionsD(5)[OF assms(1,3)] by blast
  have ij: "i < length zs" "Suc i < length zs" using assms(2,3) by simp_all
  obtain a where a: "SOA (zs ! i) = Some a" "is_RSOA (rr_data a)" using ixfr_versionsD(5)[OF assms(1) ij(1)] by blast
  obtain b where b: "SOA (zs ! Suc i) = Some b" using ixfr_versionsD(5)[OF assms(1) ij(2)] by blast
  let ?body = "concat (map delta_records ds)"
  have recs: "incrementalTransferRecords s ds = s # ?body @ [s]"
    by (simp add: incrementalTransferRecords_def delta_records_def[abs_def])
  obtain body' where body: "?body = a # body'"
    using assms(2) a(1) b by (simp add: ds upt_conv_Cons delta_records_def delta_at_def Diff_def Let_def)
  have clone: "carries (Clone cur) (zs ! i)" "SOA (Clone cur) \<noteq> None" "zserial (Clone cur) = zserial (zs ! i)"
    using assms(7-9) by (simp_all add: carries_def zserial_def)
  obtain w where w: "ixfr_loop L (Clone cur) ?body = Inr w" "carries w (zs ! j)" "SOA w = Some s"
    using ixfr_loop_versions[OF assms(1) less_imp_le[OF assms(2)] assms(3) clone] assms(2) s(1) by (auto simp: ds)
  have "zserial w = soa_serial s" using w(3) by (simp add: zserial_def)
  moreover have "butlast (?body @ [s]) = ?body" by (simp add: butlast_append)
  ultimately have "applyTransfer L cur name (s # ?body @ [s]) =
      (case Validate L w of Some e \<Rightarrow> Inl (ZoneError e) | None \<Rightarrow> Inr (w, True))"
    using w(1,3) s(2) a(2) body by (simp add: applyTransfer_def)
  with recs w s(1) show ?thesis by auto
qed

lemma singletons_uniform:
  assumes "list_all (\<lambda>(_, tm). list_all (\<lambda>(_, rrs). length rrs = 1) tm) (Records z)"
  shows "uniform L z"
proof -
  have "length (view z o' t) \<le> 1" for o' t
  proof (cases "map_of (Records z) o'")
    case (Some tm)
    then have tm: "list_all (\<lambda>(_, rrs). length rrs = 1) tm" using assms map_of_SomeD[OF Some] by (fastforce simp: list_all_iff)
    show ?thesis
    proof (cases "map_of tm t")
      case s: (Some rrs)
      then have "length rrs = 1" using tm by (auto simp: list_all_iff dest: map_of_SomeD)
      with s Some show ?thesis by (simp add: view_def type_map_of_def rrset_of_def)
    qed (simp add: view_def type_map_of_def rrset_of_def Some)
  qed (simp add: view_def type_map_of_def rrset_of_def)
  then have "view z o' t = [] \<or> (\<exists>r. view z o' t = [r])" for o' t
    by (metis One_nat_def length_0_conv length_Suc_conv le_SucE le_zero_eq)
  then show ?thesis unfolding uniform_def by (metis distinct_singleton empty_iff list.set(1) list.simps(8) list.simps(9) set_ConsD distinct.simps(1))
qed

definition ex_v0 :: zone where
  "ex_v0 = ex_add (ex_rr ''n.a.'' TypeA 60 (RA [9])) (ex_add (ex_rr ''a.'' TypeNS 60 (RNS ''n.a.''))
     (ex_add (ex_soa 5) ex_zone0))"

definition ex_v1 :: zone where
  "ex_v1 = snd (IncrementSerial 7 (ex_add (ex_rr ''v.a.'' TypeA 60 (RA [3])) (Clone ex_v0)))"

lemma ex_v0_reach: "zone_reach ex_lib ex_v0"
proof -
  have "zone_reach ex_lib ex_zone0" by (rule zone_reach.new[of "''a.''"]) (simp add: ex_zone0_def New_def Let_def)
  moreover have "fst (AddRecord ex_lib (Some (ex_soa 5)) ex_zone0) = Inr ()"
    "fst (AddRecord ex_lib (Some (ex_rr ''a.'' TypeNS 60 (RNS ''n.a.''))) (ex_add (ex_soa 5) ex_zone0)) = Inr ()"
    "fst (AddRecord ex_lib (Some (ex_rr ''n.a.'' TypeA 60 (RA [9])))
       (ex_add (ex_rr ''a.'' TypeNS 60 (RNS ''n.a.'')) (ex_add (ex_soa 5) ex_zone0))) = Inr ()"
    by code_simp+
  ultimately show ?thesis unfolding ex_v0_def by (intro ex_add_reach)
qed

lemma ex_v1_reach: "zone_reach ex_lib ex_v1"
proof -
  have "fst (AddRecord ex_lib (Some (ex_rr ''v.a.'' TypeA 60 (RA [3]))) (Clone ex_v0)) = Inr ()" by code_simp
  from ex_add_reach[OF zone_reach.clone[OF ex_v0_reach] this]
  show ?thesis unfolding ex_v1_def by (rule zone_reach.inc) (simp add: prod_eq_iff)
qed

lemma ex_versions_ixfr: "ixfr_versions ex_lib ''a.'' [ex_v0, ex_v1]"
proof -
  let ?rs = "filter (\<lambda>r. rr_type r \<noteq> TypeSOA) (GetAllRecords ex_v0 @ GetAllRecords ex_v1)"
  have s: "zserial ex_v0 = 5" "zserial ex_v1 = 7" "SOA ex_v0 = Some (ex_soa 5)" "SOA ex_v1 = Some (ex_soa 7)"
    "Origin ex_v0 = ''a.''" "Origin ex_v1 = ''a.''" "rr_name (ex_soa 5) = ''a.''" "rr_name (ex_soa 7) = ''a.''"
    "IsSubDomain ex_lib ''a.'' ''a.''"
    by code_simp+
  then have v: "versions ex_lib [ex_v0, ex_v1]" by (simp add: versions_def equal_fold_def SerialGreater_def)
  have u: "uniform ex_lib ex_v0" "uniform ex_lib ex_v1"
    by (rule singletons_uniform, code_simp)+
  have "distinct (map (RRString ex_lib) (remdups ?rs))" by code_simp
  then have inj: "inj_on (RRString ex_lib) (set ?rs)" unfolding distinct_map set_remdups by simp
  have "list_all (\<lambda>r. rr_type r \<noteq> TypeANY \<and> \<not> is_RSOA (rr_data r) \<and>
        to_lower (rr_name r) = rr_name r \<and> dotted (rr_name r) = rr_name r \<and> Fqdn ex_lib (rr_name r) = rr_name r \<and>
        IsSubDomain ex_lib ''a.'' (rr_name r)) ?rs" by code_simp
  then have "ixfr_data ex_lib ''a.'' (set ?rs)"
    using inj unfolding ixfr_data_def list_all_iff by auto
  moreover have "(\<Union>z \<in> set [ex_v0, ex_v1]. recs z) = set ?rs" by (auto simp: recs_def)
  ultimately show ?thesis using s u v ex_v0_reach ex_v1_reach by (simp add: ixfr_versions_def)
qed

lemma ixfr_roundtrip_witness:
  "\<exists>ds w. Changes ex_lib ''a.'' 5 7 (record_all ex_lib [ex_v0, ex_v1] (NewJournal 4)) = Some ds \<and>
     carries w ex_v1 \<and> SOA w = Some (ex_soa 7) \<and>
     applyTransfer ex_lib ex_v0 ''a.'' (incrementalTransferRecords (ex_soa 7) ds) =
       (case Validate ex_lib w of Some e \<Rightarrow> Inl (ZoneError e) | None \<Rightarrow> Inr (w, True))"
proof -
  note V = ex_versions_ixfr
  have s: "zserial ex_v0 = 5" "zserial ex_v1 = 7" "SOA ex_v0 = Some (ex_soa 5)" "SOA ex_v1 = Some (ex_soa 7)"
    "Origin ex_v0 = ''a.''" "soa_serial (ex_soa 5) = 5"
    by code_simp+
  have carries: "carries ex_v0 ex_v0"
    using ixfr_versionsD(2)[OF V, of 0] by (auto simp: carries_def uniform_def distinct_map)
  have v: "versions ex_lib [ex_v0, ex_v1]" using V by (simp add: ixfr_versions_def)
  have "Changes ex_lib ''a.'' (zserial ([ex_v0, ex_v1] ! 0)) (zserial ([ex_v0, ex_v1] ! 1))
      (record_all ex_lib [ex_v0, ex_v1] (NewJournal (int 4))) =
      Some (map (delta_at ex_lib [ex_v0, ex_v1]) [0..<1])"
    using Changes_answer[OF v, of 0 1 4 "''a.''"] s by simp
  moreover from ixfr_roundtrip[OF V _ _ _ _ this, of "ex_v0" "ex_soa 5" "''a.''"] carries s
  have "\<exists>w. carries w ex_v1 \<and> SOA w = Some (ex_soa 7) \<and>
     applyTransfer ex_lib ex_v0 ''a.'' (incrementalTransferRecords (ex_soa 7)
       (map (delta_at ex_lib [ex_v0, ex_v1]) [0..<1])) =
       (case Validate ex_lib w of Some e \<Rightarrow> Inl (ZoneError e) | None \<Rightarrow> Inr (w, True))"
    by simp
  ultimately show ?thesis using s by auto
qed

subsection \<open>Who gets a transfer\<close>

lemma batches_ok: "concat (batches rs) = rs \<and> (\<forall>b \<in> set (batches rs). b \<noteq> [] \<and> length b \<le> 100)"
proof (induction rs rule: batches.induct)
  case (2 r rs)
  have "take axfrBatchSize (r # rs) @ drop (axfrBatchSize - 1) rs = r # rs"
    by (simp add: axfrBatchSize_def take_Cons')
  with 2 show ?case by (auto simp: axfrBatchSize_def take_Cons')
qed simp

lemma handleAXFR_stream:
  assumes "handleAXFR L s req = AxfrStream bs"
  shows "\<exists>name qtype qclass z soa. \<not> over_udp req \<and> has_tsig req \<and> tsig_status req \<and>
    questions req = [(name, qtype, qclass)] \<and> zones s (to_lower (Fqdn L name)) = Some z \<and> qclass = Class z \<and>
    SOA z = Some soa \<and> (zone_tls_only s (to_lower (Fqdn L name)) \<longrightarrow> over_xot req) \<and>
    zone_acl_allows (zone_transfer_acls s) (to_lower (Fqdn L name)) (client_ip req) \<and>
    transfer_answer L s req name qtype z soa = AxfrStream bs"
  using assms unfolding handleAXFR_def Let_def
  by (auto split: if_splits list.splits option.splits)

lemma transfer_answer_stream:
  assumes "transfer_answer L s req name qtype z soa = AxfrStream bs"
  shows "\<exists>rs. bs = batches rs \<and> (rs = fullTransferRecords soa z \<or>
       qtype = TypeIXFR \<and> (rs = [soa] \<or>
         (\<exists>serial ds. Changes L (to_lower (Fqdn L name)) serial (soa_serial soa) (ixfr_journal s) = Some ds \<and>
            SerialGreater (soa_serial soa) serial \<and> rs = incrementalTransferRecords soa ds)))"
proof (cases "qtype = TypeIXFR")
  case False
  with assms show ?thesis by (auto simp: transfer_answer_def Let_def)
next
  case True
  then obtain n where n: "ixfrRequestSerial L req name (Class z) = Some n"
    using assms by (auto simp: transfer_answer_def Let_def split: option.splits)
  show ?thesis
  proof (cases "SerialGreater (soa_serial soa) n")
    case False
    with assms n True show ?thesis by (intro exI[of _ "[soa]"]) (simp add: transfer_answer_def Let_def)
  next
    case gt: True
    show ?thesis
    proof (cases "Changes L (to_lower (Fqdn L name)) n (soa_serial soa) (ixfr_journal s)")
      case None
      with assms n True gt show ?thesis
        by (intro exI[of _ "fullTransferRecords soa z"])
          (simp add: transfer_answer_def Let_def split: if_splits option.splits)
    next
      case (Some ds)
      have "bs = batches (incrementalTransferRecords soa ds) \<or> bs = batches (fullTransferRecords soa z)"
        using assms n True gt Some by (auto simp: transfer_answer_def Let_def split: if_splits)
      with Some gt True show ?thesis by blast
    qed
  qed
qed

text \<open>
  C25: Zone data leaves the server only over TCP (or TLS, where the zone demands it), to a client
  whose request carries a valid TSIG, asks one question of the zone's class and comes from an
  address on the zone's transfer list. The stream, in messages of at most 100 records, is the full
  zone, the current SOA alone, or a recorded chain of deltas ending at the current SOA; an AXFR
  always gets the full zone.
\<close>

theorem handleAXFR_guards:
  assumes "handleAXFR L s req = AxfrStream bs"
  shows "\<not> over_udp req \<and> has_tsig req \<and> tsig_status req \<and>
    (\<exists>name qtype qclass z soa. questions req = [(name, qtype, qclass)] \<and>
      zones s (to_lower (Fqdn L name)) = Some z \<and> qclass = Class z \<and> SOA z = Some soa \<and>
      (zone_tls_only s (to_lower (Fqdn L name)) \<longrightarrow> over_xot req) \<and>
      zone_acl_allows (zone_transfer_acls s) (to_lower (Fqdn L name)) (client_ip req) \<and>
      (\<forall>b \<in> set bs. length b \<le> 100) \<and>
      (concat bs = fullTransferRecords soa z \<or>
       qtype = TypeIXFR \<and> (concat bs = [soa] \<or>
         (\<exists>serial ds. Changes L (to_lower (Fqdn L name)) serial (soa_serial soa) (ixfr_journal s) = Some ds \<and>
            SerialGreater (soa_serial soa) serial \<and> concat bs = incrementalTransferRecords soa ds))))"
proof -
  obtain name qtype qclass z soa where g: "\<not> over_udp req" "has_tsig req" "tsig_status req"
    "questions req = [(name, qtype, qclass)]" "zones s (to_lower (Fqdn L name)) = Some z" "qclass = Class z"
    "SOA z = Some soa" "zone_tls_only s (to_lower (Fqdn L name)) \<longrightarrow> over_xot req"
    "zone_acl_allows (zone_transfer_acls s) (to_lower (Fqdn L name)) (client_ip req)"
    and a: "transfer_answer L s req name qtype z soa = AxfrStream bs"
    using handleAXFR_stream[OF assms] by blast
  from transfer_answer_stream[OF a] g batches_ok show ?thesis by auto
qed

definition ex_server :: transfer_server where
  "ex_server = \<lparr>zones = [''a.'' \<mapsto> ex_v0], zone_tls_only = (\<lambda>_. False),
     zone_transfer_acls = [''a.'' \<mapsto> \<lparr>networks = [], allowAll = True\<rparr>],
     zone_allow_fallback = Map.empty, ixfr_journal = NewJournal 4\<rparr>"

definition ex_axfr :: axfr_request where
  "ex_axfr = \<lparr>over_udp = False, over_xot = False, has_tsig = True, tsig_status = True,
     questions = [(''A'', TypeAXFR, ClassINET)], ns_section = [], client_ip = [10, 0, 0, 1]\<rparr>"

lemma handleAXFR_guards_witness:
  "\<exists>bs. handleAXFR ex_lib ex_server ex_axfr = AxfrStream bs \<and>
     concat bs = fullTransferRecords (ex_soa 5) ex_v0"
proof -
  have h: "handleAXFR ex_lib ex_server ex_axfr = AxfrStream (batches (fullTransferRecords (ex_soa 5) ex_v0))"
    by code_simp
  have k: "to_lower (Fqdn ex_lib ''A'') = ''a.''" "SOA ex_v0 = Some (ex_soa 5)" by code_simp+
  from handleAXFR_guards[OF h] k h show ?thesis
    by (auto simp: ex_axfr_def ex_server_def TypeIXFR_def TypeAXFR_def)
qed

end
