(* ===== verification/Replay.thy ===== *)
theory Replay
  imports Dns_Lib
begin

text \<open>
  The replay cache of authenticated dynamic updates, \<open>internal/server/update_replay.go\<close>. Entries
  are shared by the shard's map, its slot ring and the waiting requests, and \<open>finishUpdate\<close>
  mutates them in place, so they live in a store and are referred to by their index in it. Times
  are nanoseconds; SHA-256 is the parameter \<open>sha\<close>. A request for the shard's lock is one atomic
  step.
\<close>

subsection \<open>State\<close>

record tsig =
  T_Name :: string
  T_Algorithm :: string
  T_MAC :: string
  T_TimeSigned :: nat
  T_Fudge :: nat

record updateReplayEntry =
  digest :: bytes
  expiresAt :: int
  shard :: nat
  rcode :: int
  complete :: bool

record updateReplayShard =
  entries :: "bytes \<rightharpoonup> nat"
  slots :: "nat list"
  nextSlot :: nat
  capacity :: nat

record updateReplayCache =
  shards :: "updateReplayShard list"
  store :: "updateReplayEntry list"

definition newUpdateReplayCache :: "int \<Rightarrow> updateReplayCache option" where
  "newUpdateReplayCache cap =
     (if cap \<le> 0 then None
      else let n = nat cap; shardCount = (if n < 64 then n else 64)
      in Some \<lparr>shards = map (\<lambda>k. \<lparr>entries = Map.empty, slots = [], nextSlot = 0, capacity = k\<rparr>)
                          (split_capacity n shardCount),
               store = []\<rparr>)"

subsection \<open>Reserving and finishing a request\<close>

definition replayDigest :: "dns_lib \<Rightarrow> (string \<Rightarrow> bytes) \<Rightarrow> tsig \<Rightarrow> bytes" where
  "replayDigest L sha t =
     sha (to_lower (Fqdn L (T_Name t)) @ [CHR 0x00] @ CanonicalName L (T_Algorithm t) @ [CHR 0x00] @
          to_lower (T_MAC t))"

definition tsigExpiry :: "tsig \<Rightarrow> int" where
  "tsigExpiry t = (int (T_TimeSigned t) + int (T_Fudge t)) * 1000000000"

definition expired :: "updateReplayEntry list \<Rightarrow> int \<Rightarrow> nat \<Rightarrow> bool" where
  "expired st now e \<longleftrightarrow> now > expiresAt (st ! e)"

text \<open>The slot for a new entry: a free one, or the first expired one from \<open>nextSlot\<close> on.\<close>

definition claimSlot ::
  "updateReplayEntry list \<Rightarrow> int \<Rightarrow> nat \<Rightarrow> updateReplayShard \<Rightarrow> updateReplayShard option" where
  "claimSlot st now e sh =
     (if length (slots sh) < capacity sh then Some (sh\<lparr>slots := slots sh @ [e]\<rparr>)
      else case find (\<lambda>off. expired st now (slots sh ! ((nextSlot sh + off) mod capacity sh)))
                     [0..<capacity sh] of
        None \<Rightarrow> None
      | Some off \<Rightarrow>
          let expiredSlot = (nextSlot sh + off) mod capacity sh;
              evicted = slots sh ! expiredSlot;
              d = digest (st ! evicted)
          in Some (sh\<lparr>entries := (if entries sh d = Some evicted then (entries sh)(d := None)
                                   else entries sh),
                      slots := (slots sh)[expiredSlot := e],
                      nextSlot := (expiredSlot + 1) mod capacity sh\<rparr>))"

definition reserve ::
  "updateReplayCache \<Rightarrow> nat \<Rightarrow> updateReplayShard \<Rightarrow> bytes \<Rightarrow> int \<Rightarrow> int \<Rightarrow>
   (nat option \<times> bool \<times> bool) \<times> updateReplayCache option" where
  "reserve c i sh d expiry now =
     (let e = length (store c) in
      case claimSlot (store c) now e sh of
        None \<Rightarrow> ((None, False, True), Some (c\<lparr>shards := (shards c)[i := sh]\<rparr>))
      | Some sh' \<Rightarrow>
          ((Some e, False, False),
           Some (c\<lparr>shards := (shards c)[i := sh'\<lparr>entries := (entries sh')(d \<mapsto> e)\<rparr>],
                   store := store c @ [\<lparr>digest = d, expiresAt = expiry, shard = i, rcode = 0,
                                       complete = False\<rparr>]\<rparr>)))"

definition beginUpdate ::
  "dns_lib \<Rightarrow> (string \<Rightarrow> bytes) \<Rightarrow> tsig option \<Rightarrow> int \<Rightarrow> updateReplayCache option \<Rightarrow>
   (nat option \<times> bool \<times> bool) \<times> updateReplayCache option" where
  "beginUpdate L sha tsigRR now cache =
     (case (cache, tsigRR) of
        (Some c, Some t) \<Rightarrow>
          (if T_MAC t = [] then ((None, False, False), cache)
           else let d = replayDigest L sha t;
               i = unat (d ! 0) mod length (shards c);
               sh = shards c ! i
             in case entries sh d of
               Some e \<Rightarrow>
                 (if \<not> expired (store c) now e then ((Some e, True, False), cache)
                  else reserve c i (sh\<lparr>entries := (entries sh)(d := None)\<rparr>) d (tsigExpiry t) now)
             | None \<Rightarrow> reserve c i sh d (tsigExpiry t) now)
      | _ \<Rightarrow> ((None, False, False), cache))"

definition finishUpdate :: "nat option \<Rightarrow> int \<Rightarrow> updateReplayCache option \<Rightarrow> updateReplayCache option" where
  "finishUpdate entry rc cache =
     (case (cache, entry) of
        (Some c, Some e) \<Rightarrow>
          (if \<not> complete (store c ! e)
           then Some (c\<lparr>store := (store c)[e := (store c ! e)\<lparr>rcode := rc, complete := True\<rparr>]\<rparr>)
           else cache)
      | _ \<Rightarrow> cache)"

text \<open>\<open>wait\<close> blocks until the entry is complete: before that there is no result.\<close>

definition wait :: "updateReplayCache \<Rightarrow> nat \<Rightarrow> int option" where
  "wait c e = (if complete (store c ! e) then Some (rcode (store c ! e)) else None)"

subsection \<open>Runs\<close>

datatype event = Begin tsig int | Finish nat int

fun replay_step :: "dns_lib \<Rightarrow> (string \<Rightarrow> bytes) \<Rightarrow> updateReplayCache option \<Rightarrow> event \<Rightarrow> updateReplayCache option" where
  "replay_step L sha c (Begin t now) = snd (beginUpdate L sha (Some t) now c)"
| "replay_step L sha c (Finish e rc) = finishUpdate (Some e) rc c"

definition replay_run :: "dns_lib \<Rightarrow> (string \<Rightarrow> bytes) \<Rightarrow> updateReplayCache option \<Rightarrow> event list \<Rightarrow> updateReplayCache option" where
  "replay_run L sha = foldl (replay_step L sha)"

subsection \<open>Invariant\<close>

text \<open>
  Every shard holds at most its capacity of slots, all distinct and allocated, and its map only
  leads to entries of its own slots, under their digest and shard.
\<close>

definition shard_inv :: "updateReplayEntry list \<Rightarrow> nat \<Rightarrow> updateReplayShard \<Rightarrow> bool" where
  "shard_inv st i sh \<longleftrightarrow>
     0 < capacity sh \<and> length (slots sh) \<le> capacity sh \<and> distinct (slots sh) \<and>
     (\<forall>e \<in> set (slots sh). e < length st) \<and>
     (\<forall>d e. entries sh d = Some e \<longrightarrow> e \<in> set (slots sh) \<and> digest (st ! e) = d \<and> shard (st ! e) = i)"

definition cache_inv :: "updateReplayCache \<Rightarrow> bool" where
  "cache_inv c \<longleftrightarrow> shards c \<noteq> [] \<and> (\<forall>i < length (shards c). shard_inv (store c) i (shards c ! i))"

lemma shard_inv_store:
  assumes inv: "shard_inv st i sh" and len: "length st \<le> length st'"
    and same: "\<And>e. e < length st \<Longrightarrow> digest (st' ! e) = digest (st ! e) \<and> shard (st' ! e) = shard (st ! e)"
  shows "shard_inv st' i sh"
proof -
  have "e \<in> set (slots sh) \<and> digest (st' ! e) = d \<and> shard (st' ! e) = i" if "entries sh d = Some e" for d e
  proof -
    have e: "e \<in> set (slots sh)" "digest (st ! e) = d" "shard (st ! e) = i" "e < length st"
      using inv that by (auto simp: shard_inv_def)
    with same[OF e(4)] show ?thesis by simp
  qed
  with inv len show ?thesis by (auto simp: shard_inv_def)
qed

lemma shard_inv_delete:
  "shard_inv st i sh \<Longrightarrow> shard_inv st i (sh\<lparr>entries := (entries sh)(d := None)\<rparr>)"
  by (auto simp: shard_inv_def)

lemma claimSlot_inv:
  assumes "shard_inv st i sh" "claimSlot st now (length st) sh = Some sh'"
  shows "shard_inv (st @ [\<lparr>digest = d, expiresAt = x, shard = i, rcode = 0, complete = False\<rparr>]) i
           (sh'\<lparr>entries := (entries sh')(d \<mapsto> length st)\<rparr>)"
proof -
  note inv = assms(1)[unfolded shard_inv_def]
  show ?thesis
  proof (cases "length (slots sh) < capacity sh")
    case True
    then have "sh' = sh\<lparr>slots := slots sh @ [length st]\<rparr>"
      using assms(2) by (simp add: claimSlot_def)
    with inv True show ?thesis by (auto simp: shard_inv_def nth_append)
  next
    case False
    then have full: "length (slots sh) = capacity sh" using inv by simp
    obtain off where
      off: "find (\<lambda>off. expired st now (slots sh ! ((nextSlot sh + off) mod capacity sh)))
              [0..<capacity sh] = Some off"
      using assms(2) False
      by (cases "find (\<lambda>off. expired st now (slots sh ! ((nextSlot sh + off) mod capacity sh)))
              [0..<capacity sh]") (auto simp: claimSlot_def)
    define s where "s = (nextSlot sh + off) mod capacity sh"
    have s: "s < length (slots sh)" using inv by (simp add: s_def full)
    define ev where "ev = slots sh ! s"
    have sh': "sh' = sh\<lparr>entries := (if entries sh (digest (st ! ev)) = Some ev
           then (entries sh)(digest (st ! ev) := None) else entries sh),
         slots := (slots sh)[s := length st], nextSlot := (s + 1) mod capacity sh\<rparr>"
      using assms(2) False by (auto simp: claimSlot_def off Let_def s_def ev_def)
    have slots': "set (slots sh') = insert (length st) (set (slots sh) - {ev})"
      using s inv by (simp add: sh' ev_def set_update_distinct)
    have ent: "e \<in> set (slots sh) - {ev} \<and> digest (st ! e) = d' \<and> shard (st ! e) = i"
      if "entries sh' d' = Some e" for d' e
    proof -
      have old: "entries sh d' = Some e"
        using that by (simp add: sh' split: if_splits)
      have "e \<noteq> ev"
      proof
        assume "e = ev"
        moreover have "digest (st ! e) = d'" using inv old by simp
        ultimately show False using that old by (simp add: sh')
      qed
      with inv old show ?thesis by simp
    qed
    have bound: "e < length st" "e < Suc (length st)" if "e \<in> set (slots sh)" for e
      using that inv by (simp_all add: less_SucI)
    have "distinct ((slots sh)[s := length st])"
      using inv bound by (intro distinct_list_update) auto
    moreover have "length (slots sh') = capacity sh'" "0 < capacity sh'"
      using full inv by (simp_all add: sh')
    moreover have "slots sh' = (slots sh)[s := length st]" by (simp add: sh')
    moreover have "e \<noteq> length st" if "entries sh' d' = Some e" for d' e
      using ent[OF that] bound by blast
    ultimately show ?thesis
      using ent bound slots' by (auto simp: shard_inv_def nth_append)
  qed
qed

lemma claimSlot_capacity: "claimSlot st now e sh = Some sh' \<Longrightarrow> capacity sh' = capacity sh"
  by (auto simp: claimSlot_def Let_def split: if_splits option.splits)

lemma cache_inv_update:
  assumes "cache_inv c" "i < length (shards c)" "shard_inv st' i sh"
    and "length (store c) \<le> length st'"
    and "\<And>e. e < length (store c) \<Longrightarrow>
      digest (st' ! e) = digest (store c ! e) \<and> shard (st' ! e) = shard (store c ! e)"
  shows "cache_inv (c\<lparr>shards := (shards c)[i := sh], store := st'\<rparr>)"
proof -
  have "shard_inv st' j (shards c ! j)" if "j < length (shards c)" for j
    using assms(1) that by (intro shard_inv_store[OF _ assms(4,5)]) (simp_all add: cache_inv_def)
  with assms(1-3) show ?thesis by (simp add: cache_inv_def nth_list_update)
qed

lemma reserve_inv:
  assumes "cache_inv c" "i < length (shards c)" "shard_inv (store c) i sh"
    and "reserve c i sh d x now = (r, Some c')"
  shows "cache_inv c' \<and> map capacity (shards c') = (map capacity (shards c))[i := capacity sh]"
proof (cases "claimSlot (store c) now (length (store c)) sh")
  case None
  then have c': "c' = c\<lparr>shards := (shards c)[i := sh], store := store c\<rparr>"
    using assms(4) by (auto simp: reserve_def Let_def)
  show ?thesis unfolding c' using cache_inv_update[OF assms(1,2,3)] by (simp add: map_update)
next
  case (Some sh')
  let ?e = "\<lparr>digest = d, expiresAt = x, shard = i, rcode = 0, complete = False\<rparr>"
  let ?sh = "sh'\<lparr>entries := (entries sh')(d \<mapsto> length (store c))\<rparr>"
  have c': "c' = c\<lparr>shards := (shards c)[i := ?sh], store := store c @ [?e]\<rparr>"
    using assms(4) Some by (simp add: reserve_def Let_def)
  show ?thesis
    unfolding c' using cache_inv_update[OF assms(1,2) claimSlot_inv[OF assms(3) Some, of d x]]
    by (simp add: map_update nth_append claimSlot_capacity[OF Some])
qed

lemma beginUpdate_cases:
  assumes "beginUpdate L sha (Some t) now (Some c) = (r, oc)"
  defines "d \<equiv> replayDigest L sha t"
  defines "i \<equiv> unat (d ! 0) mod length (shards c)"
  obtains (no_mac) "T_MAC t = []" "r = (None, False, False)" "oc = Some c"
  | (replay) e where "T_MAC t \<noteq> []" "entries (shards c ! i) d = Some e"
      "\<not> expired (store c) now e" "r = (Some e, True, False)" "oc = Some c"
  | (fresh) sh where "T_MAC t \<noteq> []" "sh = (shards c ! i)\<lparr>entries := (entries (shards c ! i))(d := None)\<rparr>"
      "\<And>e. entries (shards c ! i) d = Some e \<Longrightarrow> expired (store c) now e"
      "reserve c i sh d (tsigExpiry t) now = (r, oc)"
proof (cases "T_MAC t = []")
  case True
  with assms(1) no_mac show ?thesis by (simp add: beginUpdate_def)
next
  case mac: False
  show ?thesis
  proof (cases "entries (shards c ! i) d")
    case None
    then have "(entries (shards c ! i))(d := None) = entries (shards c ! i)" by (auto simp: fun_eq_iff)
    then show ?thesis
      using fresh[OF mac refl] assms(1) mac None by (simp add: beginUpdate_def Let_def d_def i_def)
  next
    case (Some e)
    then show ?thesis
      using replay[OF mac Some] fresh[OF mac refl] assms(1) mac
      by (auto simp: beginUpdate_def Let_def d_def i_def split: if_splits)
  qed
qed

lemma reserve_Some: "\<exists>c'. snd (reserve c i sh d x now) = Some c'"
  by (simp add: reserve_def Let_def split: option.split)

lemma replay_step_inv:
  assumes "cache_inv c"
  shows "\<exists>c'. replay_step L sha (Some c) ev = Some c' \<and> cache_inv c' \<and>
    map capacity (shards c') = map capacity (shards c)"
proof (cases ev)
  case (Begin t now)
  let ?i = "unat (replayDigest L sha t ! 0) mod length (shards c)"
  have i: "?i < length (shards c)" using assms by (simp add: cache_inv_def)
  obtain r oc where b: "beginUpdate L sha (Some t) now (Some c) = (r, oc)" by fastforce
  show ?thesis
  using b proof (cases rule: beginUpdate_cases)
    case no_mac
    with assms Begin b show ?thesis by simp
  next
    case replay
    with assms Begin b show ?thesis by simp
  next
    case (fresh sh)
    then obtain c' where c': "oc = Some c'" using reserve_Some by (metis snd_conv)
    have "shard_inv (store c) ?i (shards c ! ?i)" using assms i by (simp add: cache_inv_def)
    then have "shard_inv (store c) ?i sh" unfolding fresh(2) by (rule shard_inv_delete)
    from reserve_inv[OF assms i this fresh(4)[unfolded c']]
    have "cache_inv c' \<and> map capacity (shards c') = (map capacity (shards c))[?i := capacity sh]" .
    moreover have "capacity sh = map capacity (shards c) ! ?i" using i fresh(2) by simp
    ultimately show ?thesis using Begin b c' by simp
  qed
next
  case (Finish e rc)
  let ?st = "(store c)[e := (store c ! e)\<lparr>rcode := rc, complete := True\<rparr>]"
  have "shard_inv ?st j (shards c ! j)" if "j < length (shards c)" for j
  proof (rule shard_inv_store)
    show "shard_inv (store c) j (shards c ! j)" using assms that by (simp add: cache_inv_def)
    show "digest (?st ! k) = digest (store c ! k) \<and> shard (?st ! k) = shard (store c ! k)"
      if "k < length (store c)" for k using that by (cases "k = e") simp_all
  qed simp
  with assms Finish show ?thesis by (simp add: finishUpdate_def cache_inv_def)
qed

lemma replay_run_inv:
  "cache_inv c \<Longrightarrow> \<exists>c'. replay_run L sha (Some c) evs = Some c' \<and> cache_inv c' \<and>
    map capacity (shards c') = map capacity (shards c)"
proof (induction evs arbitrary: c)
  case (Cons ev evs)
  from replay_step_inv[OF Cons.prems, of L sha ev] obtain c1 where
    "replay_step L sha (Some c) ev = Some c1" "cache_inv c1"
    "map capacity (shards c1) = map capacity (shards c)" by blast
  with Cons.IH[of c1] show ?case by (simp add: replay_run_def)
qed (simp add: replay_run_def)

lemma newUpdateReplayCache_inv:
  assumes "newUpdateReplayCache cap = Some c"
  shows "cache_inv c \<and> sum_list (map capacity (shards c)) = nat cap"
proof -
  define n where "n = nat cap"
  define k where "k = (if n < 64 then n else 64)"
  have n: "0 < n" and k: "0 < k" "k \<le> n" and
    sh: "shards c = map (\<lambda>m. \<lparr>entries = Map.empty, slots = [], nextSlot = 0, capacity = m\<rparr>)
      (split_capacity n k)" 
    using assms by (auto simp: newUpdateReplayCache_def Let_def n_def k_def split: if_splits)
  have "0 < m" if "m \<in> set (split_capacity n k)" for m
    using split_capacity_pos[OF k that] .
  then have "shard_inv (store c) j (shards c ! j)" if "j < length (shards c)" for j
    using that by (simp add: shard_inv_def sh)
  moreover have "length (shards c) = k" by (simp add: sh)
  ultimately have "cache_inv c" using k by (auto simp: cache_inv_def)
  moreover have "map capacity (shards c) = split_capacity n k" by (simp add: sh o_def)
  ultimately show ?thesis using sum_split_capacity[OF k(1), of n] by (simp add: n_def)
qed

subsection \<open>One request is applied once\<close>

text \<open>\<open>reserved c e d x\<close>: the entry \<open>e\<close> of the digest \<open>d\<close>, valid until \<open>x\<close>, is in its shard's map.\<close>

definition reserved :: "updateReplayCache \<Rightarrow> nat \<Rightarrow> bytes \<Rightarrow> int \<Rightarrow> bool" where
  "reserved c e d x \<longleftrightarrow>
     cache_inv c \<and> entries (shards c ! (unat (d ! 0) mod length (shards c))) d = Some e \<and>
     e < length (store c) \<and> expiresAt (store c ! e) = x"

lemma claimSlot_keeps:
  assumes "claimSlot st now e' sh = Some sh'" "entries sh d = Some e" "\<not> expired st now e"
    and "shard_inv st i sh"
  shows "entries sh' d = Some e"
proof (cases "length (slots sh) < capacity sh")
  case True
  with assms(1,2) show ?thesis by (auto simp: claimSlot_def)
next
  case False
  then obtain off where off: "find (\<lambda>off. expired st now (slots sh ! ((nextSlot sh + off) mod capacity sh)))
              [0..<capacity sh] = Some off"
    using assms(1)
    by (cases "find (\<lambda>off. expired st now (slots sh ! ((nextSlot sh + off) mod capacity sh)))
              [0..<capacity sh]") (auto simp: claimSlot_def)
  define ev where "ev = slots sh ! ((nextSlot sh + off) mod capacity sh)"
  have "expired st now ev" using off by (auto simp: find_Some_iff ev_def)
  with assms(3) have "e \<noteq> ev" by auto
  moreover have "entries sh' = (if entries sh (digest (st ! ev)) = Some ev
       then (entries sh)(digest (st ! ev) := None) else entries sh)"
    using assms(1) False by (auto simp: claimSlot_def off Let_def ev_def)
  ultimately show ?thesis using assms(2) by auto
qed

lemma reserve_keeps:
  assumes "reserve c i sh d' x' now = (r, Some c')" "shard_inv (store c) i sh"
    and "entries sh d = Some e" "d \<noteq> d'" "\<not> expired (store c) now e" "i < length (shards c)"
  shows "entries (shards c' ! i) d = Some e"
proof (cases "claimSlot (store c) now (length (store c)) sh")
  case None
  with assms show ?thesis by (auto simp: reserve_def Let_def)
next
  case (Some sh')
  from claimSlot_keeps[OF this assms(3,5,2)] assms(1,4,6) Some
  show ?thesis by (auto simp: reserve_def Let_def)
qed

lemma reserve_frame:
  assumes "reserve c i sh d' x' now = (r, Some c')"
  shows "length (shards c') = length (shards c)" "j \<noteq> i \<Longrightarrow> shards c' ! j = shards c ! j"
    "\<exists>new. store c' = store c @ new"
  using assms by (auto simp: reserve_def Let_def split: option.splits)

lemma beginUpdate_store:
  "beginUpdate L sha (Some t) now (Some c) = (r, Some c') \<Longrightarrow> \<exists>new. store c' = store c @ new"
  by (erule beginUpdate_cases) (auto dest: reserve_frame(3))

lemma reserved_begin:
  assumes res: "reserved c e d x" and now: "now \<le> x"
    and b: "beginUpdate L sha (Some t) now (Some c) = (r, Some c')"
  shows "reserved c' e d x"
proof -
  have inv: "cache_inv c" and ent: "entries (shards c ! (unat (d ! 0) mod length (shards c))) d = Some e"
    and e: "e < length (store c)" "expiresAt (store c ! e) = x"
    using res by (auto simp: reserved_def)
  have live: "\<not> expired (store c) now e" using now e by (simp add: expired_def)
  obtain new where new: "store c' = store c @ new" using beginUpdate_store[OF b] ..
  have inv': "cache_inv c'" using replay_step_inv[OF inv, of L sha "Begin t now"] b by auto
  let ?i = "unat (d ! 0) mod length (shards c)" and ?d' = "replayDigest L sha t"
  let ?i' = "unat (?d' ! 0) mod length (shards c)"
  have i': "?i' < length (shards c)" using inv by (simp add: cache_inv_def)
  have "length (shards c') = length (shards c) \<and> entries (shards c' ! ?i) d = Some e"
  using b proof (cases rule: beginUpdate_cases)
    case (fresh sh)
    have "?d' \<noteq> d"
    proof
      assume "?d' = d"
      then have "entries (shards c ! ?i') ?d' = Some e" using ent by simp
      from fresh(3)[OF this] live show False by simp
    qed
    have "shard_inv (store c) ?i' (shards c ! ?i')" using inv i' by (simp add: cache_inv_def)
    then have sh: "shard_inv (store c) ?i' sh" unfolding fresh(2) by (rule shard_inv_delete)
    have "entries (shards c' ! ?i) d = Some e"
    proof (cases "?i = ?i'")
      case True
      then have "entries sh d = Some e" using ent fresh(2) \<open>?d' \<noteq> d\<close> by simp
      from reserve_keeps[OF fresh(4) sh this] True \<open>?d' \<noteq> d\<close> live i' show ?thesis by simp
    next
      case False
      with reserve_frame(2)[OF fresh(4)] ent show ?thesis by simp
    qed
    with reserve_frame(1)[OF fresh(4)] show ?thesis by simp
  qed (use ent in auto)
  with inv' e new show ?thesis by (simp add: reserved_def nth_append)
qed

lemma finishUpdate_eq:
  "finishUpdate (Some e) rc (Some c) =
     Some (if complete (store c ! e) then c
           else c\<lparr>store := (store c)[e := (store c ! e)\<lparr>rcode := rc, complete := True\<rparr>]\<rparr>)"
  by (simp add: finishUpdate_def)

lemma reserved_step:
  assumes "reserved c e d x" "\<forall>t n. ev = Begin t n \<longrightarrow> n \<le> x"
  shows "\<exists>c'. replay_step L sha (Some c) ev = Some c' \<and> reserved c' e d x"
proof -
  have "cache_inv c" using assms(1) by (simp add: reserved_def)
  from replay_step_inv[OF this, of L sha ev] obtain c' where
    c': "replay_step L sha (Some c) ev = Some c'" "cache_inv c'" by blast
  moreover have "reserved c' e d x"
  proof (cases ev)
    case (Begin t n)
    with c' obtain r where "beginUpdate L sha (Some t) n (Some c) = (r, Some c')"
      by (metis prod.collapse replay_step.simps(1))
    from reserved_begin[OF assms(1) _ this] assms(2) Begin show ?thesis by simp
  next
    case (Finish k rc)
    then have "c' = (if complete (store c ! k) then c
           else c\<lparr>store := (store c)[k := (store c ! k)\<lparr>rcode := rc, complete := True\<rparr>]\<rparr>)"
      using c' by (simp add: finishUpdate_eq)
    moreover have "expiresAt ((store c)[k := (store c ! k)\<lparr>rcode := rc, complete := True\<rparr>] ! e) = x"
      using assms(1) by (cases "k = e") (simp_all add: reserved_def)
    ultimately show ?thesis using assms(1) c'(2) by (auto simp: reserved_def)
  qed
  ultimately show ?thesis by blast
qed

lemma reserved_run:
  assumes "reserved c e d x" "\<And>t n. Begin t n \<in> set evs \<Longrightarrow> n \<le> x"
  shows "\<exists>c'. replay_run L sha (Some c) evs = Some c' \<and> reserved c' e d x"
  using assms
proof (induction evs arbitrary: c)
  case (Cons ev evs)
  have "\<forall>t n. ev = Begin t n \<longrightarrow> n \<le> x" using Cons.prems(2) by auto
  from reserved_step[OF Cons.prems(1) this, where L = L and sha = sha] obtain c1 where
    c1: "replay_step L sha (Some c) ev = Some c1" "reserved c1 e d x" by blast
  have "\<exists>c'. replay_run L sha (Some c1) evs = Some c' \<and> reserved c' e d x"
    by (rule Cons.IH[OF c1(2)]) (use Cons.prems(2) in auto)
  then show ?case by (simp add: replay_run_def c1(1))
qed (simp add: replay_run_def)

lemma reserved_new:
  assumes inv: "cache_inv c" and b: "beginUpdate L sha (Some t) now (Some c) = ((Some e, False, False), oc)"
  shows "\<exists>c'. oc = Some c' \<and> reserved c' e (replayDigest L sha t) (tsigExpiry t) \<and> \<not> complete (store c' ! e)"
  using b
proof (cases rule: beginUpdate_cases)
  case (fresh sh)
  let ?d = "replayDigest L sha t"
  let ?i = "unat (?d ! 0) mod length (shards c)"
  have i: "?i < length (shards c)" using inv by (simp add: cache_inv_def)
  obtain c' where c': "oc = Some c'" using fresh(4) reserve_Some by (metis snd_conv)
  have "cache_inv c'" using replay_step_inv[OF inv, of L sha "Begin t now"] b c' by simp
  moreover have "entries (shards c' ! ?i) ?d = Some e \<and> e < length (store c') \<and>
      expiresAt (store c' ! e) = tsigExpiry t \<and> length (shards c') = length (shards c) \<and>
      \<not> complete (store c' ! e)"
    using fresh(4) c' i by (auto simp: reserve_def Let_def split: option.splits)
  ultimately show ?thesis using c' by (simp add: reserved_def)
qed simp_all

text \<open>A finished entry keeps its result.\<close>

definition finished :: "updateReplayCache \<Rightarrow> nat \<Rightarrow> int \<Rightarrow> bool" where
  "finished c e rc \<longleftrightarrow> cache_inv c \<and> e < length (store c) \<and> complete (store c ! e) \<and> rcode (store c ! e) = rc"

lemma finished_step:
  assumes "finished c e rc"
  shows "\<exists>c'. replay_step L sha (Some c) ev = Some c' \<and> finished c' e rc"
proof -
  have "cache_inv c" using assms by (simp add: finished_def)
  from replay_step_inv[OF this, of L sha ev] obtain c' where
    c': "replay_step L sha (Some c) ev = Some c'" "cache_inv c'" by blast
  have "e < length (store c') \<and> store c' ! e = store c ! e"
  proof (cases ev)
    case (Begin t n)
    with c' obtain r where "beginUpdate L sha (Some t) n (Some c) = (r, Some c')"
      by (metis prod.collapse replay_step.simps(1))
    from beginUpdate_store[OF this] assms show ?thesis by (auto simp: finished_def nth_append)
  next
    case (Finish k rc')
    with c' have "c' = (if complete (store c ! k) then c
           else c\<lparr>store := (store c)[k := (store c ! k)\<lparr>rcode := rc', complete := True\<rparr>]\<rparr>)"
      by (simp add: finishUpdate_eq)
    with assms show ?thesis by (cases "k = e") (auto simp: finished_def)
  qed
  with c' assms show ?thesis by (simp add: finished_def)
qed

lemma finished_run:
  "finished c e rc \<Longrightarrow> \<exists>c'. replay_run L sha (Some c) evs = Some c' \<and> finished c' e rc"
proof (induction evs arbitrary: c)
  case (Cons ev evs)
  from finished_step[OF Cons.prems, of L sha ev] obtain c1 where
    c1: "replay_step L sha (Some c) ev = Some c1" "finished c1 e rc" by blast
  from Cons.IH[OF c1(2)] show ?case by (simp add: replay_run_def c1(1))
qed (simp add: replay_run_def)

lemma complete_step:
  "\<lbrakk>cache_inv c; e < length (store c); \<not> complete (store c ! e); \<forall>rc. ev \<noteq> Finish e rc\<rbrakk> \<Longrightarrow>
    \<exists>c'. replay_step L sha (Some c) ev = Some c' \<and> cache_inv c' \<and> e < length (store c') \<and>
      \<not> complete (store c' ! e)"
proof -
  assume a: "cache_inv c" "e < length (store c)" "\<not> complete (store c ! e)" "\<forall>rc. ev \<noteq> Finish e rc"
  from replay_step_inv[OF a(1), of L sha ev] obtain c' where
    c': "replay_step L sha (Some c) ev = Some c'" "cache_inv c'" by blast
  have "e < length (store c') \<and> store c' ! e = store c ! e"
  proof (cases ev)
    case (Begin t n)
    with c' obtain r where "beginUpdate L sha (Some t) n (Some c) = (r, Some c')"
      by (metis prod.collapse replay_step.simps(1))
    from beginUpdate_store[OF this] a(2) show ?thesis by (auto simp: nth_append)
  next
    case (Finish k rc')
    with c' have "c' = (if complete (store c ! k) then c
           else c\<lparr>store := (store c)[k := (store c ! k)\<lparr>rcode := rc', complete := True\<rparr>]\<rparr>)"
      by (simp add: finishUpdate_eq)
    moreover have "k \<noteq> e" using a(4) Finish by blast
    ultimately show ?thesis using a(2) by simp
  qed
  with c' a(3) show ?thesis by simp
qed

lemma complete_run:
  "\<lbrakk>cache_inv c; e < length (store c); \<not> complete (store c ! e); \<forall>rc. Finish e rc \<notin> set evs\<rbrakk> \<Longrightarrow>
    \<exists>c'. replay_run L sha (Some c) evs = Some c' \<and> cache_inv c' \<and> e < length (store c') \<and>
      \<not> complete (store c' ! e)"
proof (induction evs arbitrary: c)
  case (Cons ev evs)
  have ne: "\<forall>rc. ev \<noteq> Finish e rc" "\<forall>rc. Finish e rc \<notin> set evs"
    using Cons.prems(4) by auto
  from complete_step[OF Cons.prems(1-3) ne(1), where L = L and sha = sha] obtain c1 where
    c1: "replay_step L sha (Some c) ev = Some c1" "cache_inv c1" "e < length (store c1)"
      "\<not> complete (store c1 ! e)" by blast
  from Cons.IH[OF c1(2-4) ne(2)] show ?case by (simp add: replay_run_def c1(1))
qed (simp add: replay_run_def)

lemma replay_run_append:
  "replay_run L sha c (evs @ evs') = replay_run L sha (replay_run L sha c evs) evs'"
  by (simp add: replay_run_def)

lemma reachable_inv:
  assumes "replay_run L sha (newUpdateReplayCache cap) evs = Some c"
  shows "cache_inv c \<and> sum_list (map capacity (shards c)) = nat cap"
proof (cases "newUpdateReplayCache cap")
  case None
  have "replay_run L sha None evs = None" for evs
  proof (induction evs)
    case (Cons ev evs)
    then show ?case by (cases ev) (simp_all add: replay_run_def beginUpdate_def finishUpdate_def)
  qed (simp add: replay_run_def)
  with None assms show ?thesis by simp
next
  case (Some c0)
  with replay_run_inv[of c0 L sha evs] newUpdateReplayCache_inv[OF Some] assms show ?thesis by auto
qed

lemma begin_reachable:
  assumes "beginUpdate L sha (Some t) now (replay_run L sha (newUpdateReplayCache cap) evs) =
      ((Some e, False, False), oc)"
  obtains c where "oc = Some c" "reserved c e (replayDigest L sha t) (tsigExpiry t)"
    "\<not> complete (store c ! e)"
proof (cases "replay_run L sha (newUpdateReplayCache cap) evs")
  case None
  with assms show ?thesis by (simp add: beginUpdate_def)
next
  case (Some c)
  with reserved_new[of c L sha t now e oc] reachable_inv[OF Some] assms that show ?thesis by auto
qed

text \<open>
  C4: A signed update is applied once. When \<open>beginUpdate\<close> has reserved an entry for a TSIG, in
  any reachable cache, then after any further begins and finishes within the validity window of
  that TSIG a request with the same digest is answered as a replay of the same entry and leaves
  the cache unchanged: no eviction by other requests makes the server apply it again.
\<close>

theorem replay_at_most_once:
  assumes "beginUpdate L sha (Some t) now (replay_run L sha (newUpdateReplayCache cap) evs0) =
      ((Some e, False, False), c)"
    and "\<forall>t' n. Begin t' n \<in> set evs \<longrightarrow> n \<le> tsigExpiry t"
    and "T_MAC t' \<noteq> []" "replayDigest L sha t' = replayDigest L sha t" "now' \<le> tsigExpiry t"
  shows "beginUpdate L sha (Some t') now' (replay_run L sha c evs) =
      ((Some e, True, False), replay_run L sha c evs)"
proof -
  obtain c1 where c1: "c = Some c1" "reserved c1 e (replayDigest L sha t) (tsigExpiry t)"
    using begin_reachable[OF assms(1)] .
  obtain c2 where c2: "replay_run L sha (Some c1) evs = Some c2"
      "reserved c2 e (replayDigest L sha t) (tsigExpiry t)"
    using reserved_run[OF c1(2), of evs L sha] assms(2) by blast
  then show ?thesis
    using assms(3-5) c1(1) by (auto simp: reserved_def beginUpdate_def expired_def Let_def)
qed

definition ex_tsig :: "string \<Rightarrow> nat \<Rightarrow> tsig" where
  "ex_tsig mac time = \<lparr>T_Name = ''key.'', T_Algorithm = ''hmac-sha256.'', T_MAC = mac,
     T_TimeSigned = time, T_Fudge = 300\<rparr>"

text \<open>Any function will do for the digest in the examples: this one returns the text's bytes.\<close>

definition ex_sha :: "string \<Rightarrow> bytes" where
  "ex_sha s = map (\<lambda>c. of_nat (of_char c)) s"

lemma replay_at_most_once_witness:
  "beginUpdate ex_lib ex_sha (Some (ex_tsig ''aB'' 1000)) 1200000000000
     (replay_run ex_lib ex_sha (snd (beginUpdate ex_lib ex_sha (Some (ex_tsig ''ab'' 1000)) 1000000000000
        (newUpdateReplayCache 1))) [Finish 0 0, Begin (ex_tsig ''cd'' 1100) 1100000000000]) =
   ((Some 0, True, False),
     replay_run ex_lib ex_sha (snd (beginUpdate ex_lib ex_sha (Some (ex_tsig ''ab'' 1000)) 1000000000000
        (newUpdateReplayCache 1))) [Finish 0 0, Begin (ex_tsig ''cd'' 1100) 1100000000000])"
proof (rule replay_at_most_once[of ex_lib ex_sha "ex_tsig ''ab'' 1000" 1000000000000 1 "[]"])
  show "beginUpdate ex_lib ex_sha (Some (ex_tsig ''ab'' 1000)) 1000000000000
      (replay_run ex_lib ex_sha (newUpdateReplayCache 1) []) =
    ((Some 0, False, False), snd (beginUpdate ex_lib ex_sha (Some (ex_tsig ''ab'' 1000)) 1000000000000
      (newUpdateReplayCache 1)))"
    by (simp add: replay_run_def newUpdateReplayCache_def split_capacity_def beginUpdate_def
        ex_tsig_def Let_def reserve_def claimSlot_def prod_eq_iff)
  show "replayDigest ex_lib ex_sha (ex_tsig ''aB'' 1000) = replayDigest ex_lib ex_sha (ex_tsig ''ab'' 1000)"
    by code_simp
qed (auto simp: ex_tsig_def tsigExpiry_def)

text \<open>
  The first result wins and is the one every waiter gets. Until the reserved entry is finished
  a waiting duplicate has no result; after the first finish, whatever begins and finishes follow
  (another finish of the same entry included), it gets that result code.
\<close>

theorem replay_first_result:
  assumes "beginUpdate L sha (Some t) now (replay_run L sha (newUpdateReplayCache cap) evs0) =
      ((Some e, False, False), c)"
    and "\<forall>rc. Finish e rc \<notin> set evs"
  shows "\<exists>c1 c2. replay_run L sha c evs = Some c1 \<and> wait c1 e = None \<and>
    replay_run L sha c (evs @ Finish e rc # evs') = Some c2 \<and> wait c2 e = Some rc"
proof -
  obtain c0 where c0: "c = Some c0" "reserved c0 e (replayDigest L sha t) (tsigExpiry t)"
      "\<not> complete (store c0 ! e)"
    using begin_reachable[OF assms(1)] .
  then obtain c1 where c1: "replay_run L sha c evs = Some c1" "cache_inv c1" "e < length (store c1)"
      "\<not> complete (store c1 ! e)"
    using complete_run[of c0 e evs L sha] assms(2) by (auto simp: reserved_def)
  define c' where "c' = c1\<lparr>store := (store c1)[e := (store c1 ! e)\<lparr>rcode := rc, complete := True\<rparr>]\<rparr>"
  have fin: "replay_step L sha (Some c1) (Finish e rc) = Some c'"
    using c1(4) by (simp add: finishUpdate_eq c'_def)
  have "finished c' e rc"
    using replay_step_inv[OF c1(2), of L sha "Finish e rc"] fin c1(3) by (simp add: finished_def c'_def)
  from finished_run[OF this, of L sha evs'] obtain c2 where
    "replay_run L sha (Some c') evs' = Some c2" "finished c2 e rc" by blast
  then show ?thesis
    using c1 fin by (simp add: replay_run_def wait_def finished_def)
qed

lemma replay_first_result_witness:
  "\<exists>c1 c2. replay_run ex_lib ex_sha (snd (beginUpdate ex_lib ex_sha (Some (ex_tsig ''ab'' 1000))
        1000000000000 (newUpdateReplayCache 1))) [Begin (ex_tsig ''ab'' 1000) 1100000000000] = Some c1 \<and>
     wait c1 0 = None \<and>
     replay_run ex_lib ex_sha (snd (beginUpdate ex_lib ex_sha (Some (ex_tsig ''ab'' 1000))
        1000000000000 (newUpdateReplayCache 1))) ([Begin (ex_tsig ''ab'' 1000) 1100000000000] @
          Finish 0 5 # [Finish 0 0]) = Some c2 \<and> wait c2 0 = Some 5"
proof (rule replay_first_result[of ex_lib ex_sha "ex_tsig ''ab'' 1000" 1000000000000 1 "[]"])
  show "beginUpdate ex_lib ex_sha (Some (ex_tsig ''ab'' 1000)) 1000000000000
      (replay_run ex_lib ex_sha (newUpdateReplayCache 1) []) =
    ((Some 0, False, False), snd (beginUpdate ex_lib ex_sha (Some (ex_tsig ''ab'' 1000)) 1000000000000
      (newUpdateReplayCache 1)))"
    by (simp add: replay_run_def newUpdateReplayCache_def split_capacity_def beginUpdate_def
        ex_tsig_def Let_def reserve_def claimSlot_def prod_eq_iff)
qed simp

subsection \<open>Saturation\<close>

lemma ring_scan:
  assumes "length xs = k" "0 < (k :: nat)"
  shows "find (\<lambda>off. P (xs ! ((s + off) mod k))) [0..<k] = None \<longleftrightarrow> (\<forall>x \<in> set xs. \<not> P x)"
proof -
  have "\<exists>off < k. (s + off) mod k = i" if "i < k" for i
  proof (intro exI conjI)
    show "(i + (k - s mod k)) mod k < k" using assms(2) by simp
    have "s mod k + (i + (k - s mod k)) = i + k" using mod_less_divisor[OF assms(2), of s] by linarith
    then have "(s + (i + (k - s mod k)) mod k) mod k = (i + k) mod k"
      by (metis mod_add_left_eq mod_add_right_eq)
    with that show "(s + (i + (k - s mod k)) mod k) mod k = i" by simp
  qed
  with assms show ?thesis
    by (auto simp: find_None_iff all_set_conv_all_nth)
qed

lemma claimSlot_None:
  assumes "shard_inv st i sh"
  shows "claimSlot st now e sh = None \<longleftrightarrow>
    length (slots sh) = capacity sh \<and> (\<forall>k \<in> set (slots sh). \<not> expired st now k)"
proof (cases "length (slots sh) < capacity sh")
  case True
  then show ?thesis by (simp add: claimSlot_def)
next
  case False
  with assms have full: "length (slots sh) = capacity sh" "0 < capacity sh"
    by (auto simp: shard_inv_def)
  have "claimSlot st now e sh = None \<longleftrightarrow>
      find (\<lambda>off. expired st now (slots sh ! ((nextSlot sh + off) mod capacity sh))) [0..<capacity sh] = None"
    using False by (simp add: claimSlot_def Let_def split: option.split)
  with ring_scan[OF full, of "expired st now" "nextSlot sh"] full show ?thesis by simp
qed

lemma shard_map_card:
  assumes "shard_inv st i sh"
  shows "card (dom (entries sh)) \<le> length (slots sh)"
proof -
  have "inj_on (\<lambda>d. the (entries sh d)) (dom (entries sh))"
    using assms by (intro inj_on_inverseI[where g = "\<lambda>e. digest (st ! e)"]) (auto simp: shard_inv_def)
  moreover have "(\<lambda>d. the (entries sh d)) ` dom (entries sh) \<subseteq> set (slots sh)"
    using assms by (auto simp: shard_inv_def)
  ultimately have "card (dom (entries sh)) \<le> card (set (slots sh))" by (intro card_inj_on_le) auto
  with card_length[of "slots sh"] show ?thesis by linarith
qed

lemma beginUpdate_saturated:
  fixes c t L sha
  defines "d \<equiv> replayDigest L sha t"
  defines "i \<equiv> unat (d ! 0) mod length (shards c)"
  assumes "shard_inv (store c) i (shards c ! i)" "T_MAC t \<noteq> []"
  shows "fst (beginUpdate L sha (Some t) now (Some c)) = (None, False, True) \<longleftrightarrow>
    entries (shards c ! i) d = None \<and> length (slots (shards c ! i)) = capacity (shards c ! i) \<and>
    (\<forall>e \<in> set (slots (shards c ! i)). \<not> expired (store c) now e)"
proof -
  have res: "fst (reserve c i sh d x now) = (None, False, True) \<longleftrightarrow>
      claimSlot (store c) now (length (store c)) sh = None" for sh x
    by (simp add: reserve_def Let_def split: option.split)
  show ?thesis
  proof (cases "entries (shards c ! i) d")
    case None
    with assms(4) res claimSlot_None[OF assms(3)] show ?thesis
      by (simp add: beginUpdate_def Let_def flip: d_def i_def)
  next
    case (Some e)
    have "e \<in> set (slots (shards c ! i))" using assms(3) Some by (simp add: shard_inv_def)
    with assms(4) Some res claimSlot_None[OF shard_inv_delete[OF assms(3)], of now _ d] show ?thesis
      by (auto simp: beginUpdate_def Let_def simp flip: d_def i_def)
  qed
qed

text \<open>
  The cache is bounded and fails closed. In any cache reached from a new one of size \<open>cap\<close>
  the shards hold at most \<open>cap\<close> entries in all, and every digest a shard's map knows occupies one
  of its slots. A new request is refused exactly when its digest is unknown and every slot of its
  shard holds an entry whose validity window is still open.
\<close>

theorem replay_bounded_fail_closed:
  assumes "replay_run L sha (newUpdateReplayCache cap) evs = Some c"
    and "T_MAC t \<noteq> []"
  defines "sh \<equiv> shards c ! (unat (replayDigest L sha t ! 0) mod length (shards c))"
  shows "sum_list (map (\<lambda>s. length (slots s)) (shards c)) \<le> nat cap \<and>
    (\<forall>s \<in> set (shards c). card (dom (entries s)) \<le> length (slots s)) \<and>
    (fst (beginUpdate L sha (Some t) now (Some c)) = (None, False, True) \<longleftrightarrow>
      entries sh (replayDigest L sha t) = None \<and> length (slots sh) = capacity sh \<and>
      (\<forall>e \<in> set (slots sh). \<not> expired (store c) now e))"
proof (intro conjI)
  have inv: "cache_inv c" and cap: "sum_list (map capacity (shards c)) = nat cap"
    using reachable_inv[OF assms(1)] by simp_all
  have shi: "shard_inv (store c) j (shards c ! j)" if "j < length (shards c)" for j
    using inv that by (simp add: cache_inv_def)
  have "sum_list (map (\<lambda>s. length (slots s)) (shards c)) \<le> sum_list (map capacity (shards c))"
    using shi by (intro sum_list_mono) (auto simp: shard_inv_def in_set_conv_nth)
  with cap show "sum_list (map (\<lambda>s. length (slots s)) (shards c)) \<le> nat cap" by simp
  show "\<forall>s \<in> set (shards c). card (dom (entries s)) \<le> length (slots s)"
    using shi shard_map_card by (metis in_set_conv_nth)
  let ?i = "unat (replayDigest L sha t ! 0) mod length (shards c)"
  have "?i < length (shards c)" using inv by (simp add: cache_inv_def)
  from shi[OF this] have sh: "shard_inv (store c) ?i sh" by (simp add: sh_def)
  from beginUpdate_saturated[OF sh[unfolded sh_def] assms(2)]
  show "fst (beginUpdate L sha (Some t) now (Some c)) = (None, False, True) \<longleftrightarrow>
      entries sh (replayDigest L sha t) = None \<and> length (slots sh) = capacity sh \<and>
      (\<forall>e \<in> set (slots sh). \<not> expired (store c) now e)"
    by (simp add: sh_def)
qed

lemma replay_bounded_fail_closed_witness:
  defines "c \<equiv> the (snd (beginUpdate ex_lib ex_sha (Some (ex_tsig ''ab'' 1000)) 1000000000000
      (newUpdateReplayCache 1)))"
  shows "fst (beginUpdate ex_lib ex_sha (Some (ex_tsig ''cd'' 1000)) 1100000000000 (Some c)) =
      (None, False, True) \<longleftrightarrow>
    entries (shards c ! 0) (replayDigest ex_lib ex_sha (ex_tsig ''cd'' 1000)) = None \<and>
      length (slots (shards c ! 0)) = capacity (shards c ! 0) \<and>
      (\<forall>e \<in> set (slots (shards c ! 0)). \<not> expired (store c) 1100000000000 e)"
proof -
  have run: "replay_run ex_lib ex_sha (newUpdateReplayCache 1) [Begin (ex_tsig ''ab'' 1000) 1000000000000] = Some c"
    and one: "length (shards c) = 1"
    by (simp_all add: replay_run_def newUpdateReplayCache_def split_capacity_def beginUpdate_def
        ex_tsig_def Let_def reserve_def claimSlot_def c_def)
  have "T_MAC (ex_tsig ''cd'' 1000) \<noteq> []" by (simp add: ex_tsig_def)
  from replay_bounded_fail_closed[OF run this, of 1100000000000] show ?thesis
    unfolding one by simp
qed

end
