(* ===== verification/Update.thy ===== *)
theory Update
  imports Journal_Props Acl Replay
begin

text \<open>
  Dynamic update (RFC 2136), \<open>internal/server/update.go\<close>. The handler is two steps: \<open>admit\<close> is what it
  does before it takes the server's mutation lock (guards and the reservation in the replay cache),
  \<open>commit\<close> what it does under that lock, up to the result it gives the reservation. Other requests
  may run between them. The clock is an argument, and so is \<open>persist\<close>, the outcome of writing the
  zone to disk (files are outside the model).
\<close>

subsection \<open>Prerequisites\<close>

datatype prereqType =
    prereqNameInUse | prereqNameNotInUse | prereqRRSetExists | prereqRRSetNotExists
  | prereqRRSetExistsValue | prereqFormatError

definition classifyPrereq :: "rr \<Rightarrow> u16 \<Rightarrow> prereqType" where
  "classifyPrereq r zoneClass =
     (if rr_class r = ClassANY \<and> rr_type r = TypeANY then prereqNameInUse
      else if rr_class r = ClassNONE \<and> rr_type r = TypeANY then prereqNameNotInUse
      else if rr_class r = ClassANY \<and> rr_type r \<noteq> TypeANY then prereqRRSetExists
      else if rr_class r = ClassNONE \<and> rr_type r \<noteq> TypeANY then prereqRRSetNotExists
      else if rr_class r = zoneClass then prereqRRSetExistsValue
      else prereqFormatError)"

definition normalizedRRValue :: "dns_lib \<Rightarrow> rr \<Rightarrow> u16 \<Rightarrow> string" where
  "normalizedRRValue L r zoneClass =
     RRString L (r\<lparr>rr_name := to_lower (Fqdn L (rr_name r)), rr_class := zoneClass, rr_ttl := 0\<rparr>)"

definition containsRRValue :: "dns_lib \<Rightarrow> rr list \<Rightarrow> rr \<Rightarrow> u16 \<Rightarrow> bool" where
  "containsRRValue L records candidate zoneClass =
     list_ex (\<lambda>r. normalizedRRValue L r zoneClass = normalizedRRValue L candidate zoneClass) records"

definition sameRRSetValues :: "dns_lib \<Rightarrow> rr list \<Rightarrow> rr list \<Rightarrow> u16 \<Rightarrow> bool" where
  "sameRRSetValues L left right zoneClass =
     (let leftSet = remdups (map (\<lambda>r. normalizedRRValue L r zoneClass) left);
          rightSet = remdups (map (\<lambda>r. normalizedRRValue L r zoneClass) right)
      in if length leftSet \<noteq> length rightSet then False
         else list_all (\<lambda>v. v \<in> set rightSet) leftSet)"

text \<open>
  The pass over the section. The map \<open>valueGroups\<close> is keyed by owner and type (the source joins them
  into one string with a zero byte); \<open>Inl\<close> is the failure code.
\<close>

type_synonym value_groups = "((string \<times> u16) \<times> rr list) list"

fun prereq_loop :: "dns_lib \<Rightarrow> zone \<Rightarrow> value_groups \<Rightarrow> rr list \<Rightarrow> int + value_groups" where
  "prereq_loop L z groups [] = Inr groups"
| "prereq_loop L z groups (r # rs) =
     (let owner = to_lower (rr_name r); rrtype = rr_type r in
      if rr_ttl r \<noteq> 0 then Inl RcodeFormatError
      else if (rr_class r = ClassANY \<or> rr_class r = ClassNONE) \<and> \<not> is_RAny (rr_data r)
      then Inl RcodeFormatError
      else case classifyPrereq r (Class z) of
        prereqNameInUse \<Rightarrow>
          if \<not> HasName L z owner then Inl RcodeNameError else prereq_loop L z groups rs
      | prereqNameNotInUse \<Rightarrow>
          if HasName L z owner then Inl RcodeYXDomain else prereq_loop L z groups rs
      | prereqRRSetExists \<Rightarrow>
          if length (ExactRecords L z owner rrtype) = 0 then Inl RcodeNXRrset
          else prereq_loop L z groups rs
      | prereqRRSetNotExists \<Rightarrow>
          if length (ExactRecords L z owner rrtype) > 0 then Inl RcodeYXRrset
          else prereq_loop L z groups rs
      | prereqRRSetExistsValue \<Rightarrow>
          (let g = (case map_of groups (owner, rrtype) of None \<Rightarrow> [] | Some g \<Rightarrow> g)
           in prereq_loop L z (AList.update (owner, rrtype) (g @ [r]) groups) rs)
      | prereqFormatError \<Rightarrow> Inl RcodeFormatError)"

text \<open>\<open>Inr ()\<close> is \<open>(0, true)\<close>, \<open>Inl rcode\<close> is \<open>(rcode, false)\<close>.\<close>

definition evaluatePrereqs :: "dns_lib \<Rightarrow> rr list \<Rightarrow> zone \<Rightarrow> int + unit" where
  "evaluatePrereqs L prereqs z =
     (case prereq_loop L z [] prereqs of
        Inl rc \<Rightarrow> Inl rc
      | Inr groups \<Rightarrow>
          if list_all (\<lambda>((owner, rrtype), requested).
               sameRRSetValues L requested (ExactRecords L z owner rrtype) (Class z)) groups
          then Inr () else Inl RcodeNXRrset)"

subsection \<open>The update section\<close>

text \<open>One directive applied to the clone; \<open>live\<close> is the published zone.\<close>

definition apply_update :: "dns_lib \<Rightarrow> zone \<Rightarrow> rr \<Rightarrow> zone \<Rightarrow> int + zone" where
  "apply_update L live r clone =
     (let owner = to_lower (rr_name r); rrtype = rr_type r in
      if rr_class r = Class live then
        if rrtype = TypeSOA then Inr clone
        else if rrtype = TypeCNAME \<and> list_ex (\<lambda>(t, _). t \<noteq> TypeCNAME) (GetTypeMap clone owner)
        then Inl RcodeRefused
        else if rrtype \<noteq> TypeCNAME \<and> length (GetRecords L clone owner TypeCNAME) > 0
        then Inl RcodeRefused
        else if containsRRValue L (ExactRecords L clone owner rrtype) r (Class live) then Inr clone
        else (case AddRecord L (Some r) clone of
                (Inl _, _) \<Rightarrow> Inl RcodeServerFailure | (Inr _, clone') \<Rightarrow> Inr clone')
      else if rr_class r = ClassANY then
        if rrtype = TypeANY then
          if equal_fold owner (to_lower (Origin clone)) then Inl RcodeRefused
          else Inr (DeleteName owner clone)
        else if rrtype = TypeSOA then Inl RcodeRefused
        else if rrtype = TypeNS \<and> equal_fold owner (to_lower (Origin clone)) \<and>
                length (GetRecords L live owner TypeNS) \<le> 1 then Inl RcodeRefused
        else Inr (DeleteRRSet owner rrtype clone)
      else if rr_class r = ClassNONE then
        if rrtype = TypeSOA then Inl RcodeRefused
        else if rrtype = TypeNS \<and> equal_fold owner (to_lower (Origin live)) \<and>
                length (GetRecords L live owner TypeNS) \<le> 1 then Inl RcodeRefused
        else (case DeleteRecord L (Some r) clone of
                (Inl _, _) \<Rightarrow> Inl RcodeServerFailure | (Inr _, clone') \<Rightarrow> Inr clone')
      else Inl RcodeFormatError)"

fun apply_updates :: "dns_lib \<Rightarrow> zone \<Rightarrow> rr list \<Rightarrow> zone \<Rightarrow> int + zone" where
  "apply_updates L live [] clone = Inr clone"
| "apply_updates L live (r # rs) clone =
     (case apply_update L live r clone of Inl rc \<Rightarrow> Inl rc | Inr clone' \<Rightarrow> apply_updates L live rs clone')"

subsection \<open>The handler\<close>

record update_request =
  u_tsig :: "tsig option"
  u_tsig_ok :: bool
  u_question :: "(string \<times> u16 \<times> u16) list"
  u_prereqs :: "rr list"
  u_updates :: "rr list"
  u_client :: ip

record update_server =
  u_zones :: "string \<rightharpoonup> zone"
  zoneUpdateACLs :: "string \<rightharpoonup> source_acl"
  zoneUpdateKeys :: "string \<Rightarrow> string list"
  ixfrJournal :: journal
  updateReplay :: "updateReplayCache option"

text \<open>
  What the first step ends with: a response code, the TSIG error reply, a duplicate that waits for
  the result of an entry, or the admission of the update to a zone under its reservation.
\<close>

datatype admission =
    Reject int | TsigError | Duplicate nat | Admitted string "nat option"

definition admit ::
  "dns_lib \<Rightarrow> (string \<Rightarrow> bytes) \<Rightarrow> int \<Rightarrow> update_request \<Rightarrow> update_server \<Rightarrow> admission \<times> update_server" where
  "admit L sha now req s =
     (case u_tsig req of
        None \<Rightarrow> (Reject RcodeNotAuth, s)
      | Some t \<Rightarrow>
        if \<not> u_tsig_ok req then (TsigError, s)
        else case u_question req of
          [(qname, qtype, qclass)] \<Rightarrow>
            if qtype \<noteq> TypeSOA \<or> qclass = ClassANY \<or> qclass = ClassNONE
            then (Reject RcodeFormatError, s)
            else let zoneName = to_lower (Fqdn L qname) in
            (case u_zones s zoneName of
              None \<Rightarrow> (Reject RcodeRefused, s)
            | Some z \<Rightarrow>
              if qclass \<noteq> Class z then (Reject RcodeFormatError, s)
              else if to_lower (Fqdn L (T_Name t)) \<notin> set (zoneUpdateKeys s zoneName)
              then (Reject RcodeRefused, s)
              else if \<not> zone_acl_allows (zoneUpdateACLs s) zoneName (u_client req)
              then (Reject RcodeRefused, s)
              else if \<not> list_all (\<lambda>r. IsSubDomain L zoneName (to_lower (Fqdn L (rr_name r))))
                        (u_prereqs req @ u_updates req)
              then (Reject RcodeNotZone, s)
              else (case beginUpdate L sha (Some t) now (updateReplay s) of
                ((entry, duplicate, saturated), cache) \<Rightarrow>
                  let s = s\<lparr>updateReplay := cache\<rparr> in
                  if duplicate then (Duplicate (the entry), s)
                  else if saturated then (Reject RcodeServerFailure, s)
                  else (Admitted zoneName entry, s)))
        | _ \<Rightarrow> (Reject RcodeFormatError, s))"

text \<open>The transaction under the lock: the new zone, or the failure code.\<close>

definition transaction ::
  "dns_lib \<Rightarrow> u32 \<Rightarrow> (zone \<Rightarrow> bool) \<Rightarrow> update_request \<Rightarrow> zone \<Rightarrow> int + zone" where
  "transaction L today persist req z =
     (case evaluatePrereqs L (u_prereqs req) z of
        Inl rc \<Rightarrow> Inl rc
      | Inr _ \<Rightarrow>
        (case apply_updates L z (u_updates req) (Clone z) of
           Inl rc \<Rightarrow> Inl rc
         | Inr clone \<Rightarrow>
           (case Validate L clone of
              Some _ \<Rightarrow> Inl RcodeServerFailure
            | None \<Rightarrow>
              (case IncrementSerial today clone of
                 (Inl _, _) \<Rightarrow> Inl RcodeServerFailure
               | (Inr _, clone') \<Rightarrow>
                   if \<not> persist clone' then Inl RcodeServerFailure else Inr clone'))))"

definition commit ::
  "dns_lib \<Rightarrow> u32 \<Rightarrow> (zone \<Rightarrow> bool) \<Rightarrow> update_request \<Rightarrow> string \<Rightarrow> nat option \<Rightarrow> update_server \<Rightarrow>
   int \<times> update_server" where
  "commit L today persist req zoneName entry s =
     (let done = (\<lambda>rc s. (rc, s\<lparr>updateReplay := finishUpdate entry rc (updateReplay s)\<rparr>)) in
      case u_zones s zoneName of
        None \<Rightarrow> done RcodeRefused s
      | Some z \<Rightarrow>
        (case transaction L today persist req z of
           Inl rc \<Rightarrow> done rc s
         | Inr clone \<Rightarrow>
             done RcodeSuccess
               (s\<lparr>ixfrJournal := Record L (Some z) (Some clone) (ixfrJournal s),
                  u_zones := (u_zones s)(zoneName \<mapsto> clone)\<rparr>)))"

end
