(* ===== verification/Update_Props.thy ===== *)
theory Update_Props
  imports Update
begin

text \<open>
  What a dynamic update guarantees: who may update, that a transaction is all or nothing, which
  records it can touch, and what its prerequisites mean.
\<close>

subsection \<open>The interface of a record store\<close>

text \<open>
  The handler changes a zone only through four operations. Each changes the records of one owner at
  most and keeps the store's invariant; what follows from that for a whole sequence of them is
  proved once, here.
\<close>

datatype mutation = MAdd rr | MDelRR rr | MDelSet string u16 | MDelName string

fun touched :: "mutation \<Rightarrow> string" where
  "touched (MAdd r) = to_lower (rr_name r)"
| "touched (MDelRR r) = dotted (to_lower (rr_name r))"
| "touched (MDelSet o' t) = dotted (to_lower o')"
| "touched (MDelName o') = dotted (to_lower o')"

locale record_store =
  fixes records :: "'z \<Rightarrow> string \<Rightarrow> u16 \<Rightarrow> rr list"
    and inv :: "'z \<Rightarrow> bool"
    and mutate :: "mutation \<Rightarrow> 'z \<Rightarrow> 'z option"
  assumes frame: "\<lbrakk>mutate m z = Some z'; o' \<noteq> touched m\<rbrakk> \<Longrightarrow> records z' o' = records z o'"
    and keeps: "\<lbrakk>inv z; mutate m z = Some z'\<rbrakk> \<Longrightarrow> inv z'"
begin

primrec mutate_all :: "mutation list \<Rightarrow> 'z \<Rightarrow> 'z option" where
  "mutate_all [] z = Some z"
| "mutate_all (m # ms) z = (case mutate m z of None \<Rightarrow> None | Some z' \<Rightarrow> mutate_all ms z')"

lemma mutate_all_frame:
  "\<lbrakk>mutate_all ms z = Some z'; o' \<notin> touched ` set ms\<rbrakk> \<Longrightarrow> records z' o' = records z o'"
  by (induction ms arbitrary: z) (auto simp: frame split: option.splits)

lemma mutate_all_keeps: "\<lbrakk>mutate_all ms z = Some z'; inv z\<rbrakk> \<Longrightarrow> inv z'"
  by (induction ms arbitrary: z) (auto intro: keeps split: option.splits)

lemma mutate_all_append:
  "mutate_all (ms @ ms') z = (case mutate_all ms z of None \<Rightarrow> None | Some z' \<Rightarrow> mutate_all ms' z')"
  by (induction ms arbitrary: z) (auto split: option.split)

end

text \<open>
  The zone provides the interface: its records are the view, its invariant is \<open>zone_wf\<close>. Deleting
  and adding SOA records is not part of the interface.
\<close>

fun zone_mutate :: "dns_lib \<Rightarrow> mutation \<Rightarrow> zone \<Rightarrow> zone option" where
  "zone_mutate L (MAdd r) z =
     (if rr_type r = TypeSOA then None
      else case AddRecord L (Some r) z of (Inl _, _) \<Rightarrow> None | (Inr _, z') \<Rightarrow> Some z')"
| "zone_mutate L (MDelRR r) z =
     (if rr_type r = TypeSOA then None
      else case DeleteRecord L (Some r) z of (Inl _, _) \<Rightarrow> None | (Inr _, z') \<Rightarrow> Some z')"
| "zone_mutate L (MDelSet o' t) z = (if t = TypeSOA then None else Some (DeleteRRSet o' t z))"
| "zone_mutate L (MDelName o') z = Some (DeleteName o' z)"

lemma zone_mutate_frame:
  assumes "zone_mutate L m z = Some z'" "o' \<noteq> touched m"
  shows "view z' o' = view z o'"
proof (cases m)
  case (MAdd r)
  with assms(1) have "AddRecord L (Some r) z = (Inr (), z')" by (auto split: if_splits prod.splits sum.splits)
  from AddRecord_view[OF this] assms(2) MAdd show ?thesis by simp
next
  case (MDelRR r)
  with assms(1) have "DeleteRecord L (Some r) z = (Inr (), z')" by (auto split: if_splits prod.splits sum.splits)
  from DeleteRecord_view[OF this] assms(2) MDelRR show ?thesis by simp
next
  case (MDelSet x t)
  with assms show ?thesis by (auto simp: DeleteRRSet_view Let_def split: if_splits)
next
  case (MDelName x)
  with assms show ?thesis by (auto simp: DeleteName_view)
qed

lemma zone_mutate_wf:
  assumes "zone_wf L z" "zone_mutate L m z = Some z'"
  shows "zone_wf L z'"
proof (cases m)
  case (MAdd r)
  with assms(2) have "AddRecord L (Some r) z = (Inr (), z')" by (auto split: if_splits prod.splits sum.splits)
  from AddRecord_wf[OF assms(1) this] show ?thesis by simp
next
  case (MDelRR r)
  with assms(2) have "DeleteRecord L (Some r) z = (Inr (), z')" by (auto split: if_splits prod.splits sum.splits)
  from DeleteRecord_wf[OF assms(1) this] show ?thesis .
next
  case (MDelSet x t)
  with assms show ?thesis by (auto simp: DeleteRRSet_wf split: if_splits)
next
  case (MDelName x)
  with assms show ?thesis by (auto simp: DeleteName_wf)
qed

interpretation zs: record_store view "zone_wf L" "zone_mutate L" for L
  by unfold_locales (auto intro: zone_mutate_frame zone_mutate_wf)

text \<open>The mutations leave the SOA and the name of the zone alone.\<close>

lemma zone_mutate_SOA:
  assumes "zone_mutate L m z = Some z'"
  shows "SOA z' = SOA z \<and> Origin z' = Origin z"
proof (cases m)
  case (MAdd r)
  with assms have r: "rr_type r \<noteq> TypeSOA" and add: "AddRecord L (Some r) z = (Inr (), z')"
    by (auto split: if_splits prod.splits sum.splits)
  show ?thesis by (cases rule: AddRecord_cases[of L "Some r" z]) (use add r in \<open>auto simp: fail_def ret_def\<close>)
next
  case (MDelRR r)
  with assms have r: "rr_type r \<noteq> TypeSOA" and del: "DeleteRecord L (Some r) z = (Inr (), z')"
    by (auto split: if_splits prod.splits sum.splits)
  show ?thesis using del r by (cases rule: DeleteRecord_cases) (simp_all add: Let_def)
next
  case (MDelSet x t)
  with assms show ?thesis by (auto simp: DeleteRRSet_def Let_def split: if_splits option.split)
next
  case (MDelName x)
  with assms show ?thesis by (auto simp: DeleteName_def Let_def)
qed

lemma zone_mutate_all_SOA: "zs.mutate_all L ms z = Some z' \<Longrightarrow> SOA z' = SOA z \<and> Origin z' = Origin z"
proof (induction ms arbitrary: z)
  case (Cons m ms)
  then obtain z1 where "zone_mutate L m z = Some z1" "zs.mutate_all L ms z1 = Some z'"
    by (auto split: option.splits)
  with Cons.IH[of z1] zone_mutate_SOA show ?case by fastforce
qed simp

subsection \<open>An update is a sequence of mutations\<close>

definition names_of :: "rr list \<Rightarrow> string set" where
  "names_of rs = (\<Union>r \<in> set rs. {to_lower (rr_name r), dotted (to_lower (rr_name r))})"

lemma apply_update_mutation:
  assumes "apply_update L live r clone = Inr clone'"
  shows "\<exists>ms. zs.mutate_all L ms clone = Some clone' \<and> touched ` set ms \<subseteq> names_of [r]"
proof -
  let ?one = "\<lambda>m. zone_mutate L m clone = Some clone' \<and> touched m \<in> names_of [r]"
  have "clone' = clone \<or> ?one (MAdd r) \<or> ?one (MDelRR r) \<or> ?one (MDelSet (to_lower (rr_name r)) (rr_type r)) \<or>
      ?one (MDelName (to_lower (rr_name r)))"
    using assms
    by (auto simp: apply_update_def names_of_def Let_def split: if_splits prod.splits sum.splits)
  moreover have ?thesis if "?one m" for m
    using that by (intro exI[of _ "[m]"]) simp
  moreover have "zs.mutate_all L [] clone = Some clone" by simp
  ultimately show ?thesis by (metis image_empty empty_set empty_subsetI)
qed

lemma apply_updates_mutations:
  "apply_updates L live rs clone = Inr clone' \<Longrightarrow>
    \<exists>ms. zs.mutate_all L ms clone = Some clone' \<and> touched ` set ms \<subseteq> names_of rs"
proof (induction rs arbitrary: clone)
  case Nil
  then show ?case by (intro exI[of _ "[]"]) simp
next
  case (Cons r rs)
  then obtain c1 where c1: "apply_update L live r clone = Inr c1" "apply_updates L live rs c1 = Inr clone'"
    by (auto split: sum.splits)
  obtain ms where ms: "zs.mutate_all L ms clone = Some c1" "touched ` set ms \<subseteq> names_of [r]"
    using apply_update_mutation[OF c1(1)] by blast
  obtain ms' where ms': "zs.mutate_all L ms' c1 = Some clone'" "touched ` set ms' \<subseteq> names_of rs"
    using Cons.IH[OF c1(2)] by blast
  show ?case
  proof (intro exI conjI)
    show "zs.mutate_all L (ms @ ms') clone = Some clone'" using ms(1) ms'(1) by (simp add: zs.mutate_all_append)
    show "touched ` set (ms @ ms') \<subseteq> names_of (r # rs)" using ms(2) ms'(2) by (auto simp: names_of_def)
  qed
qed

subsection \<open>Authorisation\<close>

text \<open>
  C24: Only authorised requests reach a zone. If the first step of the handler admits an update to a
  zone, the request carried a TSIG that verified, asked the single SOA question of that zone in the
  zone's class, was signed with a key listed for the zone, came from an address on the zone's update
  list, named only owners inside the zone, and its digest was not that of an open earlier request.
\<close>

theorem admit_authorised:
  assumes "admit L sha now req s = (Admitted zoneName entry, s')"
  shows "\<exists>t z qname qclass. u_tsig req = Some t \<and> u_tsig_ok req \<and>
    u_question req = [(qname, TypeSOA, qclass)] \<and> zoneName = to_lower (Fqdn L qname) \<and>
    u_zones s zoneName = Some z \<and> qclass = Class z \<and>
    to_lower (Fqdn L (T_Name t)) \<in> set (zoneUpdateKeys s zoneName) \<and>
    zone_acl_allows (zoneUpdateACLs s) zoneName (u_client req) \<and>
    (\<forall>r \<in> set (u_prereqs req) \<union> set (u_updates req).
       IsSubDomain L zoneName (to_lower (Fqdn L (rr_name r)))) \<and>
    beginUpdate L sha (Some t) now (updateReplay s) = ((entry, False, False), updateReplay s') \<and>
    u_zones s' = u_zones s"
  using assms unfolding admit_def Let_def
  by (auto simp: list_all_iff split: option.splits if_splits list.splits prod.splits)

definition ex_update :: update_request where
  "ex_update = \<lparr>u_tsig = Some (ex_tsig ''ab'' 1000), u_tsig_ok = True,
     u_question = [(''A.'', TypeSOA, ClassINET)],
     u_prereqs = [\<lparr>rr_name = ''w.a.'', rr_type = TypeA, rr_class = ClassANY, rr_ttl = 0, rr_data = RAny\<rparr>],
     u_updates = [ex_rr ''v.a.'' TypeA 60 (RA [3])], u_client = [10, 0, 0, 1]\<rparr>"

definition ex_update_server :: update_server where
  "ex_update_server = \<lparr>u_zones = [''a.'' \<mapsto> ex_zone],
     zoneUpdateACLs = [''a.'' \<mapsto> \<lparr>networks = [], allowAll = True\<rparr>],
     zoneUpdateKeys = (\<lambda>z. [''key.'']), ixfrJournal = NewJournal 4, updateReplay = newUpdateReplayCache 4\<rparr>"

lemma admit_authorised_witness:
  "\<exists>s'. admit ex_lib ex_sha 1000000000000 ex_update ex_update_server = (Admitted ''a.'' (Some 0), s') \<and>
     u_zones s' = u_zones ex_update_server"
proof -
  have "fst (admit ex_lib ex_sha 1000000000000 ex_update ex_update_server) = Admitted ''a.'' (Some 0)"
    by code_simp
  then obtain s' where s': "admit ex_lib ex_sha 1000000000000 ex_update ex_update_server = (Admitted ''a.'' (Some 0), s')"
    by (metis prod.collapse)
  with admit_authorised[OF s'] show ?thesis by blast
qed

subsection \<open>Prerequisites\<close>

text \<open>What each kind of prerequisite asks of the zone; value prerequisites are taken per RRset.\<close>

definition value_group :: "zone \<Rightarrow> rr list \<Rightarrow> string \<Rightarrow> u16 \<Rightarrow> rr list" where
  "value_group z rs owner t =
     filter (\<lambda>r. classifyPrereq r (Class z) = prereqRRSetExistsValue \<and> to_lower (rr_name r) = owner \<and> rr_type r = t) rs"

definition prereq_form :: "rr \<Rightarrow> bool" where
  "prereq_form r \<longleftrightarrow> rr_ttl r = 0 \<and> (rr_class r = ClassANY \<or> rr_class r = ClassNONE \<longrightarrow> is_RAny (rr_data r))"

definition prereq_simple :: "dns_lib \<Rightarrow> zone \<Rightarrow> rr \<Rightarrow> bool" where
  "prereq_simple L z r \<longleftrightarrow> prereq_form r \<and>
     (case classifyPrereq r (Class z) of
        prereqNameInUse \<Rightarrow> HasName L z (to_lower (rr_name r))
      | prereqNameNotInUse \<Rightarrow> \<not> HasName L z (to_lower (rr_name r))
      | prereqRRSetExists \<Rightarrow> ExactRecords L z (to_lower (rr_name r)) (rr_type r) \<noteq> []
      | prereqRRSetNotExists \<Rightarrow> ExactRecords L z (to_lower (rr_name r)) (rr_type r) = []
      | prereqRRSetExistsValue \<Rightarrow> True
      | prereqFormatError \<Rightarrow> False)"

definition add_group :: "zone \<Rightarrow> rr \<Rightarrow> value_groups \<Rightarrow> value_groups" where
  "add_group z r groups =
     (if classifyPrereq r (Class z) = prereqRRSetExistsValue
      then AList.update (to_lower (rr_name r), rr_type r)
        ((case map_of groups (to_lower (rr_name r), rr_type r) of None \<Rightarrow> [] | Some g \<Rightarrow> g) @ [r]) groups
      else groups)"

lemma prereq_loop_eq:
  "prereq_loop L z groups rs = Inr g \<longleftrightarrow> (\<forall>r \<in> set rs. prereq_simple L z r) \<and> g = fold (add_group z) rs groups"
  by (induction rs arbitrary: groups)
    (auto simp: prereq_simple_def prereq_form_def add_group_def Let_def split: prereqType.splits if_splits)

lemma add_group_lookup:
  "map_of (add_group z r g) k =
     (if classifyPrereq r (Class z) = prereqRRSetExistsValue \<and> k = (to_lower (rr_name r), rr_type r)
      then Some ((case map_of g k of None \<Rightarrow> [] | Some x \<Rightarrow> x) @ [r]) else map_of g k)"
  "distinct (map fst g) \<Longrightarrow> distinct (map fst (add_group z r g))"
  by (auto simp: add_group_def update_conv' distinct_update)

lemma value_group_snoc:
  "value_group z (rs @ [r]) owner t = value_group z rs owner t @
     (if classifyPrereq r (Class z) = prereqRRSetExistsValue \<and> (owner, t) = (to_lower (rr_name r), rr_type r)
      then [r] else [])"
  by (auto simp: value_group_def)

lemma fold_groups:
  "map_of (fold (add_group z) rs []) (owner, t) =
     (if value_group z rs owner t = [] then None else Some (value_group z rs owner t))"
proof (induction rs rule: rev_induct)
  case (snoc r rs)
  have "map_of (fold (add_group z) (rs @ [r]) []) (owner, t) =
      map_of (add_group z r (fold (add_group z) rs [])) (owner, t)" by simp
  also have "\<dots> = (if value_group z (rs @ [r]) owner t = [] then None else Some (value_group z (rs @ [r]) owner t))"
    unfolding add_group_lookup(1) value_group_snoc snoc.IH by simp
  finally show ?case .
qed (simp add: value_group_def)

lemma fold_groups_distinct: "distinct (map fst (fold (add_group z) rs []))"
  by (induction rs rule: rev_induct) (simp_all add: add_group_lookup(2))

lemma sameRRSetValues_iff:
  "sameRRSetValues L l r c \<longleftrightarrow>
     (\<lambda>x. normalizedRRValue L x c) ` set l = (\<lambda>x. normalizedRRValue L x c) ` set r"
proof -
  let ?A = "set (map (\<lambda>x. normalizedRRValue L x c) l)" and ?B = "set (map (\<lambda>x. normalizedRRValue L x c) r)"
  have "sameRRSetValues L l r c \<longleftrightarrow> card ?A = card ?B \<and> ?A \<subseteq> ?B"
    by (simp add: sameRRSetValues_def Let_def length_remdups_card_conv list_all_iff image_subset_iff)
  also have "\<dots> \<longleftrightarrow> ?A = ?B" by (metis List.finite_set card_subset_eq order_refl)
  finally show ?thesis by simp
qed

text \<open>
  The prerequisites of an update hold exactly when every record has TTL 0 and the form of its
  class, each name prerequisite agrees with the zone tree (where, unlike in RFC 2136, an empty
  non-terminal counts as a name in use), each RRset prerequisite with the exact RRset, wildcards
  left out, and the values listed for an RRset are exactly those of the RRset.
\<close>

theorem evaluatePrereqs_iff:
  "evaluatePrereqs L prereqs z = Inr () \<longleftrightarrow>
     (\<forall>r \<in> set prereqs. prereq_simple L z r) \<and>
     (\<forall>owner t. value_group z prereqs owner t \<noteq> [] \<longrightarrow>
        (\<lambda>r. normalizedRRValue L r (Class z)) ` set (value_group z prereqs owner t) =
        (\<lambda>r. normalizedRRValue L r (Class z)) ` set (ExactRecords L z owner t))"
proof (cases "\<forall>r \<in> set prereqs. prereq_simple L z r")
  case True
  let ?g = "fold (add_group z) prereqs []"
  have g: "prereq_loop L z [] prereqs = Inr ?g" using True by (simp add: prereq_loop_eq)
  have mem: "((owner, t), rs) \<in> set ?g \<longleftrightarrow> value_group z prereqs owner t \<noteq> [] \<and> rs = value_group z prereqs owner t"
    for owner t rs
    using fold_groups[of z prereqs owner t] map_of_eq_Some_iff[OF fold_groups_distinct, of z prereqs "(owner, t)" rs]
    by (auto split: if_splits)
  have "list_all (\<lambda>((owner, rrtype), requested).
       sameRRSetValues L requested (ExactRecords L z owner rrtype) (Class z)) ?g \<longleftrightarrow>
     (\<forall>owner t rs. ((owner, t), rs) \<in> set ?g \<longrightarrow>
        sameRRSetValues L rs (ExactRecords L z owner t) (Class z))"
    by (auto simp: list_all_iff)
  also have "\<dots> \<longleftrightarrow> (\<forall>owner t. value_group z prereqs owner t \<noteq> [] \<longrightarrow>
        (\<lambda>r. normalizedRRValue L r (Class z)) ` set (value_group z prereqs owner t) =
        (\<lambda>r. normalizedRRValue L r (Class z)) ` set (ExactRecords L z owner t))"
    by (simp add: mem sameRRSetValues_iff)
  finally show ?thesis using True g by (simp add: evaluatePrereqs_def)
next
  case False
  then have "\<nexists>g. prereq_loop L z [] prereqs = Inr g" by (simp add: prereq_loop_eq)
  then obtain rc where "prereq_loop L z [] prereqs = Inl rc" by (cases "prereq_loop L z [] prereqs") auto
  with False show ?thesis by (auto simp: evaluatePrereqs_def)
qed

lemma ex_zone_val: "ex_zone = \<lparr>Name = ''a.'', Origin = ''a.'', Class = ClassINET, SOA = Some (ex_soa 5), soa_shared = True,
   Records = [(''a.'', [(TypeSOA, [ex_soa 5]), (TypeNS, [ex_rr ''a.'' TypeNS 60 (RNS ''n.a.'')])]),
     (''n.a.'', [(TypeA, [ex_rr ''n.a.'' TypeA 60 (RA [9])])]),
     (''w.a.'', [(TypeA, [ex_rr ''w.a.'' TypeA 7 (RA [1]), ex_rr ''w.a.'' TypeA 9 (RA [2])])])],
   DNSSEC = None, Security = None\<rparr>"
  by code_simp

lemma evaluatePrereqs_iff_witness:
  defines "rs \<equiv> [ex_rr ''w.a.'' TypeA 0 (RA [2]), ex_rr ''w.a.'' TypeA 0 (RA [1])]"
  shows "evaluatePrereqs ex_lib rs ex_zone = Inr () \<and> value_group ex_zone rs ''w.a.'' TypeA = rs \<and>
    (\<lambda>r. normalizedRRValue ex_lib r ClassINET) ` set rs =
    (\<lambda>r. normalizedRRValue ex_lib r ClassINET) ` set (ExactRecords ex_lib ex_zone ''w.a.'' TypeA)"
proof -
  have ex: "ExactRecords ex_lib ex_zone ''w.a.'' TypeA = [ex_rr ''w.a.'' TypeA 7 (RA [1]), ex_rr ''w.a.'' TypeA 9 (RA [2])]"
    and low: "to_lower ''w.a.'' = ''w.a.''" and cl: "Class ex_zone = ClassINET"
    unfolding ex_zone_val by code_simp+
  have kind: "classifyPrereq (ex_rr n TypeA 0 d) ClassINET = prereqRRSetExistsValue" for n d
    by (simp add: classifyPrereq_def TypeA_def TypeANY_def ClassANY_def ClassNONE_def ClassINET_def)
  have group: "value_group ex_zone rs o' t = (if o' = ''w.a.'' \<and> t = TypeA then rs else [])" for o' t
    by (simp add: value_group_def rs_def kind low cl)
  have ttl: "normalizedRRValue ex_lib (ex_rr n TypeA ttl d) ClassINET = normalizedRRValue ex_lib (ex_rr n TypeA 0 d) ClassINET" for n ttl d
    by (simp add: normalizedRRValue_def ex_rr_def)
  have im: "(\<lambda>r. normalizedRRValue ex_lib r ClassINET) ` set rs =
    (\<lambda>r. normalizedRRValue ex_lib r ClassINET) ` set (ExactRecords ex_lib ex_zone ''w.a.'' TypeA)"
    unfolding ex rs_def by (simp add: ttl[of _ 7] ttl[of _ 9] insert_commute)
  have "\<forall>r \<in> set rs. prereq_simple ex_lib ex_zone r"
    by (simp add: prereq_simple_def prereq_form_def rs_def kind cl)
      (simp add: ClassANY_def ClassNONE_def ClassINET_def)
  with im evaluatePrereqs_iff[of ex_lib rs ex_zone] group cl have "evaluatePrereqs ex_lib rs ex_zone = Inr ()" by simp
  with im group show ?thesis by simp
qed

subsection \<open>The transaction\<close>

lemma prereq_codes: "prereq_loop L z groups rs = Inl rc \<Longrightarrow> rc \<noteq> RcodeSuccess"
  by (induction rs arbitrary: groups)
    (auto simp: rcode_defs Let_def split: prereqType.splits if_splits)

lemma apply_codes: "apply_updates L live rs clone = Inl rc \<Longrightarrow> rc \<noteq> RcodeSuccess"
proof (induction rs arbitrary: clone)
  case (Cons r rs)
  have "apply_update L live r clone = Inl rc \<Longrightarrow> rc \<noteq> RcodeSuccess"
    by (auto simp: apply_update_def rcode_defs Let_def split: if_splits prod.splits sum.splits)
  with Cons show ?case by (auto split: sum.splits)
qed simp

lemma transaction_codes: "transaction L today persist req z = Inl rc \<Longrightarrow> rc \<noteq> RcodeSuccess"
  by (auto simp: transaction_def evaluatePrereqs_def rcode_defs
      dest: prereq_codes[unfolded rcode_defs] apply_codes[unfolded rcode_defs]
      split: sum.splits option.splits prod.splits if_splits)

lemma set_serial_SOA: "SOA z = Some s \<Longrightarrow> SOA (set_serial n z) = Some (with_serial n s)"
  by (simp add: set_serial_def Let_def)

lemma IncrementSerial_set:
  "IncrementSerial today z = (Inr (), z') \<Longrightarrow> \<exists>n. z' = set_serial n z"
  by (auto simp: IncrementSerial_def ret_def fail_def Let_def split: option.splits if_splits)

lemma transaction_ok:
  assumes "zone_wf L z" "transaction L today persist req z = Inr z'"
  shows "\<exists>clone n. evaluatePrereqs L (u_prereqs req) z = Inr () \<and>
    apply_updates L z (u_updates req) (Clone z) = Inr clone \<and> Validate L clone = None \<and>
    IncrementSerial today clone = (Inr (), z') \<and> z' = set_serial n clone \<and> persist z' \<and>
    SOA clone = SOA z \<and> Origin clone = Origin z \<and> zone_wf L clone \<and> zone_wf L z'"
proof -
  obtain clone where c: "evaluatePrereqs L (u_prereqs req) z = Inr ()"
    "apply_updates L z (u_updates req) (Clone z) = Inr clone" "Validate L clone = None"
    "IncrementSerial today clone = (Inr (), z')" "persist z'"
    using assms(2) by (auto simp: transaction_def split: sum.splits option.splits prod.splits if_splits)
  obtain ms where ms: "zs.mutate_all L ms (Clone z) = Some clone" using apply_updates_mutations[OF c(2)] by blast
  have "zone_wf L clone" using zs.mutate_all_keeps[OF ms] Clone_wf assms(1) by blast
  moreover have "SOA clone = SOA z" "Origin clone = Origin z" using zone_mutate_all_SOA[OF ms] by simp_all
  moreover obtain n where "z' = set_serial n clone" using IncrementSerial_set[OF c(4)] by blast
  ultimately show ?thesis using c set_serial_wf by blast
qed


text \<open>The example transaction, evaluated step by step on explicit zones.\<close>

definition ex_clone :: zone where
  "ex_clone = \<lparr>Name = ''a.'', Origin = ''a.'', Class = ClassINET, SOA = Some (ex_soa 5), soa_shared = False,
   Records = [(''a.'', [(TypeSOA, [ex_soa 5]), (TypeNS, [ex_rr ''a.'' TypeNS 60 (RNS ''n.a.'')])]),
     (''n.a.'', [(TypeA, [ex_rr ''n.a.'' TypeA 60 (RA [9])])]),
     (''w.a.'', [(TypeA, [ex_rr ''w.a.'' TypeA 7 (RA [1]), ex_rr ''w.a.'' TypeA 9 (RA [2])])]),
     (''v.a.'', [(TypeA, [ex_rr ''v.a.'' TypeA 60 (RA [3])])])],
   DNSSEC = None, Security = None\<rparr>"

lemma ex_transaction:
  "transaction ex_lib 2026010100 (\<lambda>_. True) ex_update ex_zone = Inr (set_serial 2026010100 ex_clone)"
proof -
  have "ExactRecords ex_lib ex_zone ''w.a.'' TypeA \<noteq> []" "to_lower ''w.a.'' = ''w.a.''"
    unfolding ex_zone_val by code_simp+
  then have "evaluatePrereqs ex_lib (u_prereqs ex_update) ex_zone = Inr ()"
    by (simp add: evaluatePrereqs_def ex_update_def classifyPrereq_def TypeA_def TypeANY_def ClassANY_def ClassNONE_def)
  moreover have "GetRecords ex_lib (Clone ex_zone) ''v.a.'' TypeCNAME = []"
    "ExactRecords ex_lib (Clone ex_zone) ''v.a.'' TypeA = []" "Class ex_zone = ClassINET"
    "AddRecord ex_lib (Some (ex_rr ''v.a.'' TypeA 60 (RA [3]))) (Clone ex_zone) = (Inr (), ex_clone)"
    "to_lower ''v.a.'' = ''v.a.''"
    unfolding ex_zone_val by code_simp+
  then have "apply_updates ex_lib ex_zone (u_updates ex_update) (Clone ex_zone) = Inr ex_clone"
    by (simp add: ex_update_def apply_update_def containsRRValue_def Let_def)
      (simp add: TypeA_def TypeSOA_def TypeCNAME_def)
  moreover have v: "GetNameservers ex_lib ex_clone = [''n.a.'']" "check_glue ex_lib ex_clone ''n.a.'' = None"
    "first_error check_cname (Records ex_clone) = None" "SOA ex_clone = Some (ex_soa 5)" "Origin ex_clone = ''a.''"
    "first_error (check_mx ex_lib ex_clone) (Records ex_clone) = None" "rr_name (ex_soa 5) = ''a.''"
    by code_simp+
  then have "Validate ex_lib ex_clone = None" by (simp add: Validate_def)
  moreover have "soa_serial (ex_soa 5) < 2026010100" by code_simp
  then have "IncrementSerial 2026010100 ex_clone = (Inr (), set_serial 2026010100 ex_clone)"
    using v(4) by (simp add: IncrementSerial_def ret_def Let_def)
  ultimately show ?thesis by (simp add: transaction_def)
qed


subsection \<open>What an update leaves alone\<close>

lemma zone_mutate_unshared:
  assumes "zone_mutate L m z = Some z'" "\<not> soa_shared z"
  shows "\<not> soa_shared z'"
proof (cases m)
  case (MAdd r)
  with assms(1) have r: "rr_type r \<noteq> TypeSOA" and add: "AddRecord L (Some r) z = (Inr (), z')"
    by (auto split: if_splits prod.splits sum.splits)
  show ?thesis by (cases rule: AddRecord_cases[of L "Some r" z]) (use add r assms(2) in \<open>auto simp: fail_def ret_def\<close>)
next
  case (MDelRR r)
  with assms(1) have r: "rr_type r \<noteq> TypeSOA" and del: "DeleteRecord L (Some r) z = (Inr (), z')"
    by (auto split: if_splits prod.splits sum.splits)
  show ?thesis using del r assms(2) by (cases rule: DeleteRecord_cases) (simp_all add: Let_def)
next
  case (MDelSet x t)
  with assms show ?thesis
    by (auto simp: DeleteRRSet_def Let_def put_type_map_def unshare_def split: if_splits option.splits)
next
  case (MDelName x)
  with assms show ?thesis by (auto simp: DeleteName_def Let_def unshare_def split: option.splits if_splits)
qed

lemma zone_mutate_all_unshared:
  "\<lbrakk>zs.mutate_all L ms z = Some z'; \<not> soa_shared z\<rbrakk> \<Longrightarrow> \<not> soa_shared z'"
  by (induction ms arbitrary: z) (auto dest: zone_mutate_unshared split: option.splits)

text \<open>
  An update touches only the owners it names. In the zone a transaction produces, every other
  owner has exactly the RRsets it had, the SOA record stored at the apex included; and the zone
  keeps its invariant.
\<close>

theorem update_frame:
  assumes "zone_reach L z" "transaction L today persist req z = Inr z'"
    and "owner \<notin> names_of (u_updates req)"
  shows "view z' owner = view z owner \<and> records_wf L (Origin z') (Records z')"
proof -
  obtain clone n where c: "apply_updates L z (u_updates req) (Clone z) = Inr clone" "z' = set_serial n clone"
    "zone_wf L z'"
    using transaction_ok[OF zone_reach_wf_all[OF assms(1)] assms(2)] by blast
  obtain ms where ms: "zs.mutate_all L ms (Clone z) = Some clone" "touched ` set ms \<subseteq> names_of (u_updates req)"
    using apply_updates_mutations[OF c(1)] by blast
  have "view clone owner = view (Clone z) owner"
    using ms assms(3) by (intro zs.mutate_all_frame[OF ms(1)]) auto
  moreover have "\<not> soa_shared clone" by (rule zone_mutate_all_unshared[OF ms(1)]) simp
  then have "view z' = view clone" by (simp add: c(2) set_serial_def Let_def split: option.split)
  ultimately show ?thesis using c(3) by (simp add: zone_wf_def)
qed

lemma update_frame_witness:
  "\<exists>z'. transaction ex_lib 2026010100 (\<lambda>_. True) ex_update ex_zone = Inr z' \<and>
     view z' ''w.a.'' = view ex_zone ''w.a.''"
proof -
  have "list_all (\<lambda>r. ''w.a.'' \<noteq> to_lower (rr_name r) \<and> ''w.a.'' \<noteq> dotted (to_lower (rr_name r))) (u_updates ex_update)"
    by code_simp
  then have "''w.a.'' \<notin> names_of (u_updates ex_update)" by (auto simp: names_of_def list_all_iff)
  with update_frame[OF ex_zone_reach ex_transaction] ex_transaction show ?thesis by blast
qed

subsection \<open>Additions below a wildcard\<close>

text \<open>
  The CNAME test of an addition looks at wildcards. Adding a record, not a CNAME, at an owner that
  does not exist is refused whenever the wildcard that would answer for the owner holds a CNAME,
  although no CNAME is stored at the owner itself.
\<close>

theorem update_wildcard_cname_refused:
  assumes "rr_class r = Class live" "rr_type r \<noteq> TypeSOA" "rr_type r \<noteq> TypeCNAME"
    and "to_lower (rr_name r) = owner" "dotted owner = owner" "\<not> nameExists L clone owner"
    and "closest_encloser L clone owner i"
    and "recordsAt clone (''*.'' @ encloser L owner i) TypeCNAME \<noteq> []"
  shows "apply_updates L live (r # rs) clone = Inl RcodeRefused \<and> recordsAt clone owner TypeCNAME = []"
proof -
  obtain c where "c \<in> set (recordsAt clone (''*.'' @ encloser L owner i) TypeCNAME)"
    using assms(8) by (cases "recordsAt clone (''*.'' @ encloser L owner i) TypeCNAME") auto
  moreover have low: "to_lower (dotted owner) = owner" "owner \<noteq> []" using assms(4,5) by (auto simp: dotted_def)
  ultimately have "c\<lparr>rr_name := owner\<rparr> \<in> set (GetRecords L clone owner TypeCNAME)"
    using assms(6,7) unfolding GetRecords_mem[of _ L clone owner] low by auto
  then have "GetRecords L clone owner TypeCNAME \<noteq> []" by auto
  moreover have "recordsAt clone owner TypeCNAME = []"
    using assms(6) by (simp add: nameExists_def recordsAt_def)
  ultimately show ?thesis using assms(1-4) by (simp add: apply_update_def Let_def)
qed

lemma update_wildcard_cname_refused_witness:
  defines "z \<equiv> ex_add (ex_rr ''*.a.'' TypeCNAME 60 (RCNAME ''n.a.'')) ex_zone"
  shows "apply_updates ex_lib ex_zone [ex_rr ''q.a.'' TypeA 60 (RA [4])] z = Inl RcodeRefused"
proof -
  have z: "\<not> nameExists ex_lib z ''q.a.''" "nameExists ex_lib z (encloser ex_lib ''q.a.'' 1)"
    "recordsAt z (''*.'' @ encloser ex_lib ''q.a.'' 1) TypeCNAME \<noteq> []" 
    "length (SplitDomainName ex_lib ''q.a.'') = 2" "to_lower ''q.a.'' = ''q.a.''" "dotted ''q.a.'' = ''q.a.''"
    unfolding z_def by code_simp+
  then have "closest_encloser ex_lib z ''q.a.'' 1" by (simp add: closest_encloser_def)
  moreover have "Class ex_zone = ClassINET" by code_simp
  ultimately show ?thesis
    using update_wildcard_cname_refused[of "ex_rr ''q.a.'' TypeA 60 (RA [4])" ex_zone "''q.a.''" ex_lib z 1 "[]"] z
    by (simp add: ex_rr_def TypeA_def TypeSOA_def TypeCNAME_def)
qed

end
