(* ===== verification/RFC5011.thy ===== *)
theory RFC5011
  imports Dns_Lib "HOL-Library.AList" "HOL-Library.List_Lexorder" "HOL-Library.Char_ord"
begin

text \<open>
  Automatic trust anchor maintenance, \<open>internal/dnssec/rfc5011.go\<close>. Times are nanoseconds since Go's
  zero time, so \<open>IsZero\<close> is \<open>= 0\<close>. Key tags, signature checks, the hash and the text form of a
  DNSKEY are library code: the fields of \<open>key_lib\<close>. The map of key states is an association list;
  the outcome of each write of the state file is part of the event, and \<open>disk\<close> is the file's
  content. Go ranges over a map in any order; the model ranges over it in list order.
\<close>

unbundle bit_operations_syntax

subsection \<open>Data\<close>

record dnskey =
  dk_Name :: string
  dk_Ttl :: u32
  Flags :: u16
  Protocol :: byte
  Algorithm :: byte
  PublicKey :: string

record rrsig =
  sig_Name :: string
  TypeCovered :: u16
  sig_Algorithm :: byte
  sig_KeyTag :: u16
  Expiration :: u32
  Signature :: string

record key_lib =
  KeyTag :: "dnskey \<Rightarrow> u16"
  ValidityPeriod :: "rrsig \<Rightarrow> int \<Rightarrow> bool"
  Verify :: "rrsig \<Rightarrow> dnskey \<Rightarrow> dnskey list \<Rightarrow> bool"
  Sha256Hex :: "string \<Rightarrow> string"
  KeyString :: "dnskey \<Rightarrow> string"
  parseDNSKEY :: "string \<Rightarrow> dnskey option"

definition Second :: int where "Second = 1000000000"
definition Hour :: int where "Hour = 3600 * Second"
definition rfc5011AddHoldDown :: int where "rfc5011AddHoldDown = 30 * 24 * Hour"
definition rfc5011RemoveHoldDown :: int where "rfc5011RemoveHoldDown = 30 * 24 * Hour"
definition rfc5011MinRefresh :: int where "rfc5011MinRefresh = Hour"
definition rfc5011MaxRefresh :: int where "rfc5011MaxRefresh = 15 * 24 * Hour"
definition rfc5011MaxRetry :: int where "rfc5011MaxRetry = 24 * Hour"
definition dnskeyRevokeFlag :: u16 where "dnskeyRevokeFlag = 128"
definition dnskeySEPFlag :: u16 where "dnskeySEPFlag = 1"
definition dnskeyZoneFlag :: u16 where "dnskeyZoneFlag = 256"

datatype rfc5011State = Valid | AddPending | Missing | Revoked | Removed | UnknownState string

record rfc5011KeyState =
  ID :: string
  Key :: string
  State :: rfc5011State
  FirstSeen :: int
  StateSince :: int
  HoldDown :: int
  ValidatedBy :: "string list"

type_synonym key_states = "(string \<times> rfc5011KeyState) list"

record rfc5011Manager =
  keys :: key_states
  anchors :: "dnskey list"
  disk :: "rfc5011KeyState list option"
  lastRefreshDelay :: int

datatype rfc5011_error =
    InvalidEntry | DuplicateKey string | BadKey string | IdentityMismatch string | NotRootSEP
  | BadState string | NoTimestamp string | BadHoldDown string | BadVersion | NoBootstrap
  | PersistFailed | NotAuthenticated | NoMaterial

subsection \<open>Keys\<close>

definition rfc5011KeyID :: "dns_lib \<Rightarrow> key_lib \<Rightarrow> dnskey \<Rightarrow> string" where
  "rfc5011KeyID L K key =
     (let flags = Flags key AND NOT dnskeyRevokeFlag
      in Sha256Hex K (to_lower (Fqdn L (dk_Name key)) @ ''|'' @ decimal (unat flags) @ ''|'' @
           decimal (unat (Protocol key)) @ ''|'' @ decimal (unat (Algorithm key)) @ ''|'' @ PublicKey key))"

definition validRootSEP :: "dns_lib \<Rightarrow> dnskey \<Rightarrow> bool" where
  "validRootSEP L key \<longleftrightarrow>
     equal_fold (Fqdn L (dk_Name key)) ''.'' \<and> Protocol key = 3 \<and>
     Flags key AND (dnskeySEPFlag OR dnskeyZoneFlag) = dnskeySEPFlag OR dnskeyZoneFlag"

definition revoke_bit :: "dnskey \<Rightarrow> bool" where
  "revoke_bit key \<longleftrightarrow> Flags key AND dnskeyRevokeFlag \<noteq> 0"

definition sig_by :: "key_lib \<Rightarrow> int \<Rightarrow> dnskey list \<Rightarrow> dnskey \<Rightarrow> rrsig \<Rightarrow> bool" where
  "sig_by K now rrset key s \<longleftrightarrow>
     sig_KeyTag s = KeyTag K key \<and> sig_Algorithm s = Algorithm key \<and> ValidityPeriod K s now \<and>
     Verify K s key rrset"

definition selfSignedDNSKEY :: "key_lib \<Rightarrow> dnskey \<Rightarrow> dnskey list \<Rightarrow> rrsig list \<Rightarrow> int \<Rightarrow> bool" where
  "selfSignedDNSKEY K key rrset sigs now = list_ex (sig_by K now rrset key) sigs"

definition usable :: "rfc5011KeyState \<Rightarrow> bool" where
  "usable item \<longleftrightarrow> State item = Valid \<or> State item = Missing"

definition anyValidatorRemaining :: "string list \<Rightarrow> key_states \<Rightarrow> bool" where
  "anyValidatorRemaining ids states =
     list_ex (\<lambda>i. case map_of states i of None \<Rightarrow> False | Some item \<Rightarrow> usable item) ids"

definition usableAnchors :: "key_lib \<Rightarrow> key_states \<Rightarrow> dnskey list" where
  "usableAnchors K ks =
     List.map_filter (\<lambda>(_, item).
       if \<not> usable item then None
       else map_option (\<lambda>key. key\<lparr>Flags := Flags key AND NOT dnskeyRevokeFlag\<rparr>) (parseDNSKEY K (Key item))) ks"

subsection \<open>The state file\<close>

definition persist :: "bool \<Rightarrow> rfc5011Manager \<Rightarrow> bool \<times> rfc5011Manager" where
  "persist ok m = (ok, if ok then m\<lparr>disk := Some (sort_key ID (map snd (keys m)))\<rparr> else m)"

definition publishAnchors :: "key_lib \<Rightarrow> rfc5011Manager \<Rightarrow> rfc5011Manager" where
  "publishAnchors K m = m\<lparr>anchors := usableAnchors K (keys m)\<rparr>"

definition check_item :: "dns_lib \<Rightarrow> key_lib \<Rightarrow> key_states \<Rightarrow> rfc5011KeyState \<Rightarrow> rfc5011_error option" where
  "check_item L K ks item =
     (if ID item = [] then Some InvalidEntry
      else if map_of ks (ID item) \<noteq> None then Some (DuplicateKey (ID item))
      else case parseDNSKEY K (Key item) of
        None \<Rightarrow> Some (BadKey (ID item))
      | Some key \<Rightarrow>
          if rfc5011KeyID L K key \<noteq> ID item then Some (IdentityMismatch (ID item))
          else if \<not> validRootSEP L key then Some NotRootSEP
          else if (case State item of UnknownState _ \<Rightarrow> True | _ \<Rightarrow> False) then Some (BadState (ID item))
          else if StateSince item = 0 then Some (NoTimestamp (ID item))
          else if State item = AddPending \<and>
              (FirstSeen item = 0 \<or> HoldDown item < rfc5011AddHoldDown \<or> length (ValidatedBy item) = 0)
          then Some (BadHoldDown (ID item))
          else None)"

fun load_items :: "dns_lib \<Rightarrow> key_lib \<Rightarrow> key_states \<Rightarrow> rfc5011KeyState list \<Rightarrow> rfc5011_error + key_states" where
  "load_items L K ks [] = Inr ks"
| "load_items L K ks (item # items) =
     (case check_item L K ks item of
        Some e \<Rightarrow> Inl e
      | None \<Rightarrow> load_items L K (AList.update (ID item) item ks) items)"

fun bootstrap_items :: "dns_lib \<Rightarrow> key_lib \<Rightarrow> int \<Rightarrow> key_states \<Rightarrow> dnskey list \<Rightarrow> rfc5011_error + key_states" where
  "bootstrap_items L K now ks [] = Inr ks"
| "bootstrap_items L K now ks (key # rest) =
     (if \<not> validRootSEP L key then Inl NotRootSEP
      else let i = rfc5011KeyID L K key in
        bootstrap_items L K now
          (AList.update i \<lparr>ID = i, Key = KeyString K key, State = Valid, FirstSeen = 0, StateSince = now,
                           HoldDown = 0, ValidatedBy = []\<rparr> ks) rest)"

text \<open>
  \<open>file\<close> is what reading the state file gives: \<open>None\<close> when there is none, otherwise its version and
  entries. (File permissions and JSON errors are left out.)
\<close>

definition newRFC5011Manager ::
  "dns_lib \<Rightarrow> key_lib \<Rightarrow> int \<Rightarrow> (int \<times> rfc5011KeyState list) option \<Rightarrow> bool \<Rightarrow> dnskey list \<Rightarrow>
   rfc5011_error + rfc5011Manager" where
  "newRFC5011Manager L K now file ok bootstrap =
     (let m = \<lparr>keys = [], anchors = bootstrap, disk = map_option snd file,
               lastRefreshDelay = rfc5011MinRefresh\<rparr> in
      case file of
        Some (version, items) \<Rightarrow>
          if version \<noteq> 1 then Inl BadVersion
          else (case load_items L K [] items of
                  Inl e \<Rightarrow> Inl e | Inr ks \<Rightarrow> Inr (publishAnchors K (m\<lparr>keys := ks\<rparr>)))
      | None \<Rightarrow>
          if length bootstrap = 0 then Inl NoBootstrap
          else (case bootstrap_items L K now [] bootstrap of
                  Inl e \<Rightarrow> Inl e
                | Inr ks \<Rightarrow>
                    (case persist ok (m\<lparr>keys := ks\<rparr>) of
                       (False, _) \<Rightarrow> Inl PersistFailed | (True, m) \<Rightarrow> Inr (publishAnchors K m))))"

subsection \<open>Processing a DNSKEY response\<close>

record event =
  now :: int
  ev_keys :: "dnskey list"
  ev_sigs :: "rrsig list"
  persist1 :: bool
  persist2 :: bool

text \<open>The ids of the trusted keys that sign the key set.\<close>

definition validators :: "dns_lib \<Rightarrow> key_lib \<Rightarrow> rfc5011Manager \<Rightarrow> event \<Rightarrow> string list" where
  "validators L K m ev =
     remdups (map (rfc5011KeyID L K)
       (filter (\<lambda>t. list_ex (sig_by K (now ev) (ev_keys ev) t) (ev_sigs ev)) (usableAnchors K (keys m))))"

definition present :: "dns_lib \<Rightarrow> key_lib \<Rightarrow> event \<Rightarrow> (string \<times> dnskey) list" where
  "present L K ev = fold (\<lambda>key p. AList.update (rfc5011KeyID L K key) key p) (ev_keys ev) []"

text \<open>The first loop: a self-signed key with the revoke bit revokes its trusted state.\<close>

definition revoke_one ::
  "dns_lib \<Rightarrow> key_lib \<Rightarrow> event \<Rightarrow> dnskey \<Rightarrow> key_states \<times> bool \<Rightarrow> key_states \<times> bool" where
  "revoke_one L K ev key = (\<lambda>(ks, revoked).
     let i = rfc5011KeyID L K key in
     case map_of ks i of
       None \<Rightarrow> (ks, revoked)
     | Some existing \<Rightarrow>
         if usable existing \<and> revoke_bit key \<and>
            selfSignedDNSKEY K key (ev_keys ev) (ev_sigs ev) (now ev)
         then (AList.update i (existing\<lparr>Key := KeyString K key, State := Revoked, StateSince := now ev\<rparr>) ks,
               True)
         else (ks, revoked))"

definition revoke_keys :: "dns_lib \<Rightarrow> key_lib \<Rightarrow> event \<Rightarrow> key_states \<Rightarrow> key_states \<times> bool" where
  "revoke_keys L K ev ks = fold (revoke_one L K ev) (ev_keys ev) (ks, False)"

text \<open>The second loop: the state machine of one known key.\<close>

definition step_key :: "key_lib \<Rightarrow> event \<Rightarrow> (string \<times> dnskey) list \<Rightarrow> string \<Rightarrow> key_states \<Rightarrow> key_states" where
  "step_key K ev p i ks =
     (case map_of ks i of
        None \<Rightarrow> ks
      | Some item \<Rightarrow>
        (case State item of
           AddPending \<Rightarrow>
             (case map_of p i of
                None \<Rightarrow> AList.delete i ks
              | Some key \<Rightarrow>
                  if revoke_bit key \<or> \<not> anyValidatorRemaining (ValidatedBy item) ks
                  then AList.delete i ks
                  else if \<not> now ev < FirstSeen item + HoldDown item
                  then AList.update i (item\<lparr>Key := KeyString K key, State := Valid, StateSince := now ev,
                                           ValidatedBy := []\<rparr>) ks
                  else ks)
         | Valid \<Rightarrow>
             if map_of p i = None then AList.update i (item\<lparr>State := Missing, StateSince := now ev\<rparr>) ks
             else ks
         | Missing \<Rightarrow>
             (case map_of p i of
                None \<Rightarrow> ks
              | Some key \<Rightarrow> AList.update i (item\<lparr>Key := KeyString K key, State := Valid,
                                                StateSince := now ev\<rparr>) ks)
         | Revoked \<Rightarrow>
             if map_of p i = None \<and> \<not> now ev < StateSince item + rfc5011RemoveHoldDown
             then AList.update i (item\<lparr>State := Removed, StateSince := now ev\<rparr>) ks
             else ks
         | _ \<Rightarrow> ks))"

text \<open>The third loop: a new key starts its hold-down.\<close>

definition add_key ::
  "dns_lib \<Rightarrow> key_lib \<Rightarrow> (byte \<Rightarrow> bool) \<Rightarrow> event \<Rightarrow> string list \<Rightarrow> string \<times> dnskey \<Rightarrow> key_states \<Rightarrow> key_states" where
  "add_key L K disabled ev vs = (\<lambda>(i, key) ks.
     if map_of ks i \<noteq> None \<or> \<not> validRootSEP L key \<or> disabled (Algorithm key) \<or> revoke_bit key then ks
     else AList.update i
       \<lparr>ID = i, Key = KeyString K key, State = AddPending, FirstSeen = now ev, StateSince = now ev,
        HoldDown = max rfc5011AddHoldDown (int (unat (dk_Ttl key)) * Second), ValidatedBy = sort vs\<rparr> ks)"

definition process ::
  "dns_lib \<Rightarrow> key_lib \<Rightarrow> (byte \<Rightarrow> bool) \<Rightarrow> event \<Rightarrow> rfc5011Manager \<Rightarrow> rfc5011_error option \<times> rfc5011Manager" where
  "process L K disabled ev m =
     (let vs = validators L K m ev;
          p = present L K ev;
          (ks, revoked) = revoke_keys L K ev (keys m);
          m = m\<lparr>keys := ks\<rparr>;
          (ok1, m) = (if revoked then let (ok, m) = persist (persist1 ev) m in (ok, publishAnchors K m)
                      else (True, m))
      in if \<not> ok1 then (Some PersistFailed, m)
         else if vs = [] then (if \<not> revoked then Some NotAuthenticated else None, m)
         else let ks = fold (step_key K ev p) (map fst ks) ks;
                  ks = fold (add_key L K disabled ev vs) p ks;
                  (ok2, m) = persist (persist2 ev) (m\<lparr>keys := ks\<rparr>)
              in if \<not> ok2 then (Some PersistFailed, m) else (None, publishAnchors K m))"

subsection \<open>Refreshing\<close>

definition rootDNSKEYMaterial :: "dnskey list \<Rightarrow> rrsig list \<Rightarrow> dnskey list \<times> rrsig list" where
  "rootDNSKEYMaterial ks ss =
     (filter (\<lambda>k. equal_fold (dk_Name k) ''.'') ks,
      filter (\<lambda>s. equal_fold (sig_Name s) ''.'' \<and> TypeCovered s = TypeDNSKEY) ss)"

text \<open>Go's division truncates towards zero; \<open>unix0\<close> is the Unix epoch in the model's time.\<close>

definition go_div :: "int \<Rightarrow> int \<Rightarrow> int" where
  "go_div a b = sgn a * sgn b * (\<bar>a\<bar> div \<bar>b\<bar>)"

definition unix0 :: int where "unix0 = 62135596800 * Second"

definition rfc5011RefreshDelay :: "dnskey list \<Rightarrow> rrsig list \<Rightarrow> int \<Rightarrow> int" where
  "rfc5011RefreshDelay ks ss t =
     (let delay = rfc5011MaxRefresh;
          delay = (case ks of [] \<Rightarrow> delay
                   | k # _ \<Rightarrow> min (go_div (int (unat (dk_Ttl k)) * Second) 2) delay);
          delay = fold (\<lambda>s d. min (go_div (unix0 + int (unat (Expiration s)) * Second - t) 2) d) ss delay
      in if delay < rfc5011MinRefresh then rfc5011MinRefresh else delay)"

definition rfc5011RetryDelay :: "int \<Rightarrow> int" where
  "rfc5011RetryDelay d =
     (let delay = go_div d 5;
          delay = (if delay > rfc5011MaxRetry then rfc5011MaxRetry else delay)
      in if delay < rfc5011MinRefresh then rfc5011MinRefresh else delay)"

text \<open>\<open>None\<close> is a failed query. The result is the delay and the error.\<close>

definition refresh ::
  "dns_lib \<Rightarrow> key_lib \<Rightarrow> (byte \<Rightarrow> bool) \<Rightarrow> event option \<Rightarrow> rfc5011Manager \<Rightarrow>
   (int \<times> rfc5011_error option) \<times> rfc5011Manager" where
  "refresh L K disabled response m =
     (case response of
        None \<Rightarrow> ((lastRefreshDelay m, Some NoMaterial), m)
      | Some ev0 \<Rightarrow>
          let (ks, ss) = rootDNSKEYMaterial (ev_keys ev0) (ev_sigs ev0) in
          if length ks = 0 \<or> length ss = 0 then ((lastRefreshDelay m, Some NoMaterial), m)
          else let delay = rfc5011RefreshDelay ks ss (now ev0) in
            (case process L K disabled (ev0\<lparr>ev_keys := ks, ev_sigs := ss\<rparr>) m of
               (Some e, m) \<Rightarrow> ((delay, Some e), m)
             | (None, m) \<Rightarrow> ((delay, None), m\<lparr>lastRefreshDelay := delay\<rparr>)))"

text \<open>The delay until the next refresh, from the loop of \<open>start\<close>.\<close>

definition next_delay :: "int \<Rightarrow> int \<times> rfc5011_error option \<Rightarrow> int" where
  "next_delay configuredInterval = (\<lambda>(next, err).
     let next = (case err of Some _ \<Rightarrow> rfc5011RetryDelay next | None \<Rightarrow> next);
         next = (if configuredInterval > 0 \<and> configuredInterval < next then configuredInterval else next)
     in if next < rfc5011MinRefresh then rfc5011MinRefresh else next)"

end
