(* ===== verification/RFC5011_Props.thy ===== *)
theory RFC5011_Props
  imports RFC5011
begin

text \<open>
  What trust anchor maintenance guarantees over any sequence of DNSKEY responses: a new key is
  trusted only after its hold-down, a revoked key is never trusted again nor published, the state
  file can always be read back, and a key that stays published is accepted in the end.
\<close>

subsection \<open>Sequences of responses\<close>

definition run ::
  "dns_lib \<Rightarrow> key_lib \<Rightarrow> (byte \<Rightarrow> bool) \<Rightarrow> event list \<Rightarrow> rfc5011Manager \<Rightarrow> rfc5011Manager" where
  "run L K disabled evs m = fold (\<lambda>ev m. snd (process L K disabled ev m)) evs m"

text \<open>A response updates the key states when it is authenticated and a revocation in it was saved.\<close>

definition updates :: "dns_lib \<Rightarrow> key_lib \<Rightarrow> event \<Rightarrow> rfc5011Manager \<Rightarrow> bool" where
  "updates L K ev m \<longleftrightarrow>
     validators L K m ev \<noteq> [] \<and> (snd (revoke_keys L K ev (keys m)) \<longrightarrow> persist1 ev)"

definition usable_id :: "key_states \<Rightarrow> string \<Rightarrow> bool" where
  "usable_id ks i \<longleftrightarrow> (\<exists>item. map_of ks i = Some item \<and> usable item)"

definition dead_id :: "key_states \<Rightarrow> string \<Rightarrow> bool" where
  "dead_id ks i \<longleftrightarrow> (\<exists>item. map_of ks i = Some item \<and> (State item = Revoked \<or> State item = Removed))"

lemma run_simps [simp]:
  "run L K d [] m = m"
  "run L K d (evs @ [ev]) m = snd (process L K d ev (run L K d evs m))"
  by (simp_all add: run_def)

lemma map_of_update [simp]:
  "map_of (AList.update k v al) i = (if i = k then Some v else map_of al i)"
  by (simp add: update_conv)

lemma map_of_delete [simp]:
  "map_of (AList.delete k al) i = (if i = k then None else map_of al i)"
  by (simp add: delete_conv)

lemma anyValidatorRemaining_iff: "anyValidatorRemaining vs ks \<longleftrightarrow> (\<exists>v\<in>set vs. usable_id ks v)"
  by (auto simp: anyValidatorRemaining_def list_ex_iff usable_id_def split: option.splits)

lemma usable_simps [simp]:
  "State item = Valid \<Longrightarrow> usable item" "State item = Missing \<Longrightarrow> usable item"
  "State item = AddPending \<Longrightarrow> \<not> usable item" "State item = Revoked \<Longrightarrow> \<not> usable item"
  "State item = Removed \<Longrightarrow> \<not> usable item"
  by (auto simp: usable_def)

subsection \<open>The three loops, key by key\<close>

lemma revoke_one_cases:
  "fst (revoke_one L K ev key (ks, b)) = ks \<and> snd (revoke_one L K ev key (ks, b)) = b \<or>
   (\<exists>item. map_of ks (rfc5011KeyID L K key) = Some item \<and> usable item \<and>
      fst (revoke_one L K ev key (ks, b)) =
        AList.update (rfc5011KeyID L K key)
          (item\<lparr>Key := KeyString K key, State := Revoked, StateSince := now ev\<rparr>) ks \<and>
      snd (revoke_one L K ev key (ks, b)))"
  by (auto simp: revoke_one_def Let_def split: option.splits)

text \<open>What revoking a whole key set does to one key: nothing, or it is marked revoked now.\<close>

definition revoked_or_same :: "key_lib \<Rightarrow> event \<Rightarrow> key_states \<Rightarrow> key_states \<Rightarrow> string \<Rightarrow> bool" where
  "revoked_or_same K ev ks ks' i \<longleftrightarrow> map_of ks' i = map_of ks i \<or>
     (\<exists>item key. map_of ks i = Some item \<and> usable item \<and>
        map_of ks' i = Some (item\<lparr>Key := KeyString K key, State := Revoked, StateSince := now ev\<rparr>))"

lemma revoke_fold:
  "revoked_or_same K ev ks (fst (fold (revoke_one L K ev) kl (ks, b))) i"
proof (induction kl arbitrary: ks b)
  case Nil show ?case by (simp add: revoked_or_same_def)
next
  case (Cons key rest)
  obtain ks' b' where r: "revoke_one L K ev key (ks, b) = (ks', b')" by fastforce
  have "revoked_or_same K ev ks' (fst (fold (revoke_one L K ev) rest (ks', b'))) i" by (rule Cons.IH)
  then show ?case using revoke_one_cases[of L K ev key ks b] r
    by (auto simp: revoked_or_same_def split: if_splits)
qed

lemma revoke_keys_same: "revoked_or_same K ev ks (fst (revoke_keys L K ev ks)) i"
  unfolding revoke_keys_def by (rule revoke_fold)

lemma revoke_fold_flag:
  "\<not> snd (fold (revoke_one L K ev) kl (ks, b)) \<Longrightarrow>
   fst (fold (revoke_one L K ev) kl (ks, b)) = ks \<and> \<not> b"
proof (induction kl arbitrary: ks b)
  case (Cons key rest)
  obtain ks' b' where r: "revoke_one L K ev key (ks, b) = (ks', b')" by fastforce
  then have "\<not> snd (fold (revoke_one L K ev) rest (ks', b'))" using Cons.prems by simp
  note rest = Cons.IH[OF this, THEN conjunct1] Cons.IH[OF this, THEN conjunct2]
  moreover have "ks' = ks" "\<not> b" using revoke_one_cases[of L K ev key ks b] r rest(2) by auto
  ultimately show ?case using r by simp
qed simp

lemma revoke_keys_flag: "\<not> snd (revoke_keys L K ev ks) \<Longrightarrow> fst (revoke_keys L K ev ks) = ks"
  using revoke_fold_flag[of L K ev "ev_keys ev" ks False] by (simp add: revoke_keys_def)

lemma step_key_other: "i \<noteq> j \<Longrightarrow> map_of (step_key K ev p j ks) i = map_of ks i"
  by (auto simp: step_key_def split: option.splits rfc5011State.splits)

lemma step_fold_other:
  "i \<notin> set js \<Longrightarrow> map_of (fold (step_key K ev p) js ks) i = map_of ks i"
  by (induction js arbitrary: ks) (auto simp: step_key_other)

lemma step_key_usable: "usable_id ks v \<Longrightarrow> usable_id (step_key K ev p j ks) v"
  by (auto simp: usable_id_def step_key_def usable_def split: option.splits rfc5011State.splits)

lemma step_fold_usable: "usable_id ks v \<Longrightarrow> usable_id (fold (step_key K ev p) js ks) v"
  by (induction js arbitrary: ks) (auto simp: step_key_usable)

text \<open>The second loop visits a key once, in some state that agrees with the start on that key.\<close>

lemma step_fold_at:
  assumes "distinct js" "i \<in> set js"
  shows "\<exists>ks1. map_of ks1 i = map_of ks i \<and> (\<forall>v. usable_id ks v \<longrightarrow> usable_id ks1 v) \<and>
           (\<forall>v. usable_id ks1 v \<longrightarrow> usable_id (fold (step_key K ev p) js ks) v) \<and>
           map_of (fold (step_key K ev p) js ks) i = map_of (step_key K ev p i ks1) i"
proof -
  obtain a b where js: "js = a @ i # b" using assms(2) by (meson split_list)
  let ?ks1 = "fold (step_key K ev p) a ks"
  have "i \<notin> set a" "i \<notin> set b" using assms(1) js by auto
  then have "map_of ?ks1 i = map_of ks i"
    "map_of (fold (step_key K ev p) js ks) i = map_of (step_key K ev p i ?ks1) i"
    by (simp_all add: js step_fold_other)
  moreover have "usable_id ?ks1 v \<longrightarrow> usable_id (fold (step_key K ev p) js ks) v" for v
    by (auto simp: js intro!: step_fold_usable step_key_usable)
  ultimately show ?thesis by (blast intro: step_fold_usable)
qed

text \<open>The third loop only creates pending keys that were unknown.\<close>

definition new_pending :: "dns_lib \<Rightarrow> event \<Rightarrow> string list \<Rightarrow> dnskey \<Rightarrow> rfc5011KeyState \<Rightarrow> bool" where
  "new_pending L ev vs key item \<longleftrightarrow>
     State item = AddPending \<and> FirstSeen item = now ev \<and> HoldDown item \<ge> rfc5011AddHoldDown \<and>
     set (ValidatedBy item) = set vs \<and> validRootSEP L key \<and> \<not> revoke_bit key"

lemma add_key_cases:
  "add_key L K d ev vs (j, key) ks = ks \<or>
   map_of ks j = None \<and>
   (\<exists>item. add_key L K d ev vs (j, key) ks = AList.update j item ks \<and> new_pending L ev vs key item)"
proof (cases "map_of ks j \<noteq> None \<or> \<not> validRootSEP L key \<or> d (Algorithm key) \<or> revoke_bit key")
  case True then show ?thesis by (simp add: add_key_def)
next
  case False then show ?thesis by (auto simp: add_key_def new_pending_def)
qed

lemma add_fold:
  "map_of (fold (add_key L K d ev vs) p ks) i = map_of ks i \<or>
   map_of ks i = None \<and> (\<exists>key item. (i, key) \<in> set p \<and>
     map_of (fold (add_key L K d ev vs) p ks) i = Some item \<and> new_pending L ev vs key item)"
proof (induction p arbitrary: ks)
  case Nil show ?case by simp
next
  case (Cons x p)
  obtain j key where x: "x = (j, key)" by fastforce
  consider "add_key L K d ev vs x ks = ks"
    | (new) item where "map_of ks j = None" "add_key L K d ev vs x ks = AList.update j item ks"
        "new_pending L ev vs key item"
    using add_key_cases[of L K d ev vs j key ks] x by blast
  then show ?case
  proof cases
    case 1 then show ?thesis using Cons[of ks] by auto
  next
    case new then show ?thesis using Cons[of "AList.update j item ks"] x by (auto split: if_splits)
  qed
qed

subsection \<open>One response\<close>

definition after_revocations :: "dns_lib \<Rightarrow> key_lib \<Rightarrow> event \<Rightarrow> rfc5011Manager \<Rightarrow> key_states" where
  "after_revocations L K ev m = fst (revoke_keys L K ev (keys m))"

definition after_steps :: "dns_lib \<Rightarrow> key_lib \<Rightarrow> event \<Rightarrow> rfc5011Manager \<Rightarrow> key_states" where
  "after_steps L K ev m =
     fold (step_key K ev (present L K ev)) (map fst (after_revocations L K ev m)) (after_revocations L K ev m)"

lemma process_keys:
  "keys (snd (process L K d ev m)) =
     (if updates L K ev m
      then fold (add_key L K d ev (validators L K m ev)) (present L K ev) (after_steps L K ev m)
      else after_revocations L K ev m)"
  by (cases "revoke_keys L K ev (keys m)")
     (simp add: process_def updates_def after_revocations_def after_steps_def persist_def
       publishAnchors_def Let_def)

lemma process_anchors:
  "anchors (snd (process L K d ev m)) =
     (if updates L K ev m \<and> persist2 ev then usableAnchors K (keys (snd (process L K d ev m)))
      else if snd (revoke_keys L K ev (keys m)) then usableAnchors K (after_revocations L K ev m)
      else anchors m)"
  by (cases "revoke_keys L K ev (keys m)")
     (simp add: process_def updates_def after_revocations_def after_steps_def persist_def
       publishAnchors_def Let_def)

lemma process_disk:
  "disk (snd (process L K d ev m)) =
     (if updates L K ev m \<and> persist2 ev then Some (sort_key ID (map snd (keys (snd (process L K d ev m)))))
      else if snd (revoke_keys L K ev (keys m)) \<and> persist1 ev
      then Some (sort_key ID (map snd (after_revocations L K ev m)))
      else disk m)"
  by (cases "revoke_keys L K ev (keys m)")
     (simp add: process_def updates_def after_revocations_def after_steps_def persist_def
       publishAnchors_def Let_def)

lemma distinct_revoke: "distinct (map fst ks) \<Longrightarrow> distinct (map fst (fst (fold (revoke_one L K ev) kl (ks, b))))"
proof (induction kl arbitrary: ks b)
  case (Cons key rest)
  obtain ks' b' where r: "revoke_one L K ev key (ks, b) = (ks', b')" by fastforce
  then have "distinct (map fst ks')"
    using revoke_one_cases[of L K ev key ks b] Cons.prems by (auto simp: distinct_update)
  then show ?case using Cons.IH[of ks' b'] r by simp
qed simp

lemma distinct_step: "distinct (map fst ks) \<Longrightarrow> distinct (map fst (step_key K ev p i ks))"
  by (auto simp: step_key_def distinct_update distinct_delete
      split: option.splits rfc5011State.splits)

lemma distinct_steps: "distinct (map fst ks) \<Longrightarrow> distinct (map fst (fold (step_key K ev p) js ks))"
  by (induction js arbitrary: ks) (auto simp: distinct_step)

lemma distinct_adds: "distinct (map fst ks) \<Longrightarrow> distinct (map fst (fold (add_key L K d ev vs) p ks))"
proof (induction p arbitrary: ks)
  case (Cons x p)
  have "distinct (map fst (add_key L K d ev vs x ks))"
    using Cons.prems by (cases x) (auto simp: add_key_def distinct_update)
  then show ?case by (simp add: Cons.IH)
qed simp

lemma distinct_process:
  assumes "distinct (map fst (keys m))"
  shows "distinct (map fst (keys (snd (process L K d ev m))))"
    "distinct (map fst (after_revocations L K ev m))" "distinct (map fst (after_steps L K ev m))"
  using assms
  by (simp_all add: process_keys after_revocations_def after_steps_def revoke_keys_def
      distinct_revoke distinct_steps distinct_adds)

lemma distinct_run: "distinct (map fst (keys m)) \<Longrightarrow> distinct (map fst (keys (run L K d evs m)))"
  by (induction evs rule: rev_induct) (auto simp: distinct_process)

lemma after_revocations_at: "revoked_or_same K ev (keys m) (after_revocations L K ev m) i"
  unfolding after_revocations_def by (rule revoke_keys_same)

lemma present_Some:
  "map_of (present L K ev) i = Some key \<Longrightarrow> key \<in> set (ev_keys ev) \<and> rfc5011KeyID L K key = i"
proof -
  have "map_of (fold (\<lambda>key p. AList.update (rfc5011KeyID L K key) key p) kl p) i = Some key \<Longrightarrow>
      key \<in> set kl \<and> rfc5011KeyID L K key = i \<or> map_of p i = Some key" for kl p
    by (induction kl arbitrary: p) (fastforce split: if_splits)+
  then show "map_of (present L K ev) i = Some key \<Longrightarrow>
      key \<in> set (ev_keys ev) \<and> rfc5011KeyID L K key = i"
    unfolding present_def by fastforce
qed

lemma distinct_present: "distinct (map fst (present L K ev))"
proof -
  have "distinct (map fst p) \<Longrightarrow>
      distinct (map fst (fold (\<lambda>key p. AList.update (rfc5011KeyID L K key) key p) kl p))" for kl p
    by (induction kl arbitrary: p) (auto simp: distinct_update)
  then show ?thesis by (simp add: present_def)
qed

text \<open>The second loop, for one key of the states it starts from.\<close>

lemma after_steps_at:
  assumes "distinct (map fst (keys m))" "map_of (after_revocations L K ev m) i = Some item"
  shows "\<exists>ks1. map_of ks1 i = Some item \<and>
           (\<forall>v. usable_id (after_revocations L K ev m) v \<longrightarrow> usable_id ks1 v) \<and>
           (\<forall>v. usable_id ks1 v \<longrightarrow> usable_id (after_steps L K ev m) v) \<and>
           map_of (after_steps L K ev m) i = map_of (step_key K ev (present L K ev) i ks1) i"
proof -
  have "i \<in> set (map fst (after_revocations L K ev m))"
    using assms(2) by (force dest: map_of_SomeD)
  from step_fold_at[OF distinct_process(2)[OF assms(1)] this, of "after_revocations L K ev m" K ev
      "present L K ev"] assms(2)
  show ?thesis unfolding after_steps_def by auto
qed

lemma after_steps_None:
  "map_of (after_revocations L K ev m) i = None \<Longrightarrow> map_of (after_steps L K ev m) i = None"
  unfolding after_steps_def by (subst step_fold_other) (auto simp: map_of_eq_None_iff)

lemma add_usable: "usable_id ks v \<Longrightarrow> usable_id (fold (add_key L K d ev vs) p ks) v"
  using add_fold[of L K d ev vs p ks v] by (auto simp: usable_id_def)

lemma after_adds_at:
  "map_of (fold (add_key L K d ev vs) p ks) i = Some it \<Longrightarrow>
   map_of ks i = Some it \<or> map_of ks i = None \<and> (\<exists>key. (i, key) \<in> set p \<and> new_pending L ev vs key it)"
  using add_fold[of L K d ev vs p ks i] by auto

lemma process_usable:
  assumes dist: "distinct (map fst (keys m))" and it: "map_of (keys (snd (process L K d ev m))) i = Some it"
    and "usable it"
  shows "usable_id (keys m) i \<or>
    updates L K ev m \<and> (\<exists>item key. map_of (keys m) i = Some item \<and> State item = AddPending \<and>
      map_of (present L K ev) i = Some key \<and> \<not> revoke_bit key \<and>
      FirstSeen item + HoldDown item \<le> now ev \<and>
      (\<exists>v\<in>set (ValidatedBy item). usable_id (keys (snd (process L K d ev m))) v))"
proof (cases "updates L K ev m")
  case False
  then have "map_of (after_revocations L K ev m) i = Some it" using it by (simp add: process_keys)
  then show ?thesis using after_revocations_at[of K ev m L i] \<open>usable it\<close>
    by (auto simp: revoked_or_same_def usable_id_def)
next
  case True
  let ?r = "after_revocations L K ev m" and ?s = "after_steps L K ev m"
  have s: "map_of ?s i = Some it"
    using after_adds_at[of L K d ev "validators L K m ev" "present L K ev" ?s i it] it True \<open>usable it\<close>
    by (auto simp: process_keys new_pending_def)
  then obtain item where r: "map_of ?r i = Some item"
    using after_steps_None by fastforce
  obtain ks1 where ks1: "map_of ks1 i = Some item" "\<And>v. usable_id ks1 v \<Longrightarrow> usable_id ?s v"
    "map_of (step_key K ev (present L K ev) i ks1) i = Some it"
    using after_steps_at[OF dist r] s by auto
  show ?thesis
  proof (cases "State item = AddPending")
    case False
    then have "usable item" using ks1(1,3) \<open>usable it\<close>
      by (auto simp: step_key_def usable_def split: rfc5011State.splits option.splits if_splits)
    then show ?thesis using after_revocations_at[of K ev m L i] r
      by (auto simp: revoked_or_same_def usable_id_def)
  next
    case pending: True
    then have "map_of (keys m) i = Some item" using after_revocations_at[of K ev m L i] r
      by (auto simp: revoked_or_same_def)
    moreover obtain key where "map_of (present L K ev) i = Some key" "\<not> revoke_bit key"
      "anyValidatorRemaining (ValidatedBy item) ks1" "FirstSeen item + HoldDown item \<le> now ev"
      using ks1(1,3) pending \<open>usable it\<close>
      by (auto simp: step_key_def split: option.splits if_splits)
    ultimately show ?thesis using True pending ks1(2)
      by (auto simp: process_keys anyValidatorRemaining_iff intro!: add_usable)
  qed
qed

lemma process_pending:
  assumes dist: "distinct (map fst (keys m))" and it: "map_of (keys (snd (process L K d ev m))) i = Some it"
    and "State it = AddPending"
  shows "map_of (keys m) i = Some it \<and>
      (updates L K ev m \<longrightarrow> (\<exists>key. map_of (present L K ev) i = Some key \<and> \<not> revoke_bit key)) \<or>
    updates L K ev m \<and> (\<exists>key. map_of (present L K ev) i = Some key \<and>
      new_pending L ev (validators L K m ev) key it)"
proof (cases "updates L K ev m")
  case False
  then have "map_of (after_revocations L K ev m) i = Some it" using it by (simp add: process_keys)
  then show ?thesis using after_revocations_at[of K ev m L i] \<open>State it = AddPending\<close> False
    by (auto simp: revoked_or_same_def)
next
  case True
  let ?r = "after_revocations L K ev m" and ?s = "after_steps L K ev m"
  consider (old) "map_of ?s i = Some it"
    | key where "(i, key) \<in> set (present L K ev)" "new_pending L ev (validators L K m ev) key it"
    using after_adds_at[of L K d ev "validators L K m ev" "present L K ev" ?s i it] it True
    by (auto simp: process_keys)
  then show ?thesis
  proof cases
    case old
    then obtain item where r: "map_of ?r i = Some item"
      using after_steps_None by fastforce
    obtain ks1 where ks1: "map_of ks1 i = Some item"
      "map_of (step_key K ev (present L K ev) i ks1) i = Some it"
      using after_steps_at[OF dist r] old by auto
    have "it = item" "\<exists>key. map_of (present L K ev) i = Some key \<and> \<not> revoke_bit key"
      using ks1 \<open>State it = AddPending\<close>
      by (auto simp: step_key_def split: rfc5011State.splits option.splits if_splits)
    moreover have "map_of (keys m) i = Some item"
      using after_revocations_at[of K ev m L i] r \<open>it = item\<close> \<open>State it = AddPending\<close>
      by (auto simp: revoked_or_same_def)
    ultimately show ?thesis by simp
  next
    case 2
    then have "map_of (present L K ev) i = Some key" using distinct_present by (simp add: map_of_is_SomeI)
    then show ?thesis using 2 True by blast
  qed
qed

lemma process_dead_now:
  assumes dist: "distinct (map fst (keys m))" and "dead_id (after_revocations L K ev m) i"
  shows "dead_id (keys (snd (process L K d ev m))) i"
proof -
  let ?r = "after_revocations L K ev m" and ?s = "after_steps L K ev m"
  obtain item where r: "map_of ?r i = Some item" "State item = Revoked \<or> State item = Removed"
    using assms(2) by (auto simp: dead_id_def)
  obtain ks1 where "map_of ks1 i = Some item"
    "map_of ?s i = map_of (step_key K ev (present L K ev) i ks1) i"
    using after_steps_at[OF dist r(1)] by auto
  then have "dead_id ?s i" using r(2)
    by (auto simp: dead_id_def step_key_def split: option.splits)
  then show ?thesis using r add_fold[of L K d ev "validators L K m ev" "present L K ev" ?s i]
    by (auto simp: process_keys dead_id_def)
qed

lemma process_dead:
  assumes "distinct (map fst (keys m))" and "dead_id (keys m) i"
  shows "dead_id (keys (snd (process L K d ev m))) i"
  using after_revocations_at[of K ev m L i] assms
  by (intro process_dead_now) (auto simp: revoked_or_same_def dead_id_def)

lemma process_alive:
  assumes dist: "distinct (map fst (keys m))" and "usable_id (keys m) i"
  shows "usable_id (keys (snd (process L K d ev m))) i \<or> dead_id (keys (snd (process L K d ev m))) i"
proof -
  let ?r = "after_revocations L K ev m" and ?s = "after_steps L K ev m"
  obtain item where r: "map_of ?r i = Some item" "usable item \<or> State item = Revoked"
    using after_revocations_at[of K ev m L i] assms(2) by (auto simp: revoked_or_same_def usable_id_def)
  obtain ks1 where "map_of ks1 i = Some item"
    "map_of ?s i = map_of (step_key K ev (present L K ev) i ks1) i"
    using after_steps_at[OF dist r(1)] by auto
  then have "usable_id ?s i \<or> dead_id ?s i" using r(2)
    by (auto simp: usable_id_def dead_id_def usable_def step_key_def split: option.splits)
  then show ?thesis using r add_fold[of L K d ev "validators L K m ev" "present L K ev" ?s i]
    by (auto simp: process_keys dead_id_def usable_id_def)
qed

subsection \<open>The hold-down\<close>

definition seen_unrevoked :: "dns_lib \<Rightarrow> key_lib \<Rightarrow> event \<Rightarrow> string \<Rightarrow> bool" where
  "seen_unrevoked L K ev i \<longleftrightarrow> (\<exists>key\<in>set (ev_keys ev). rfc5011KeyID L K key = i \<and> \<not> revoke_bit key)"

definition state_at ::
  "dns_lib \<Rightarrow> key_lib \<Rightarrow> (byte \<Rightarrow> bool) \<Rightarrow> rfc5011Manager \<Rightarrow> event list \<Rightarrow> nat \<Rightarrow> rfc5011Manager" where
  "state_at L K d m evs n = run L K d (take n evs) m"

text \<open>Every response from \<open>k\<close> to before \<open>n\<close> that updated the states had the key, not revoked.\<close>

definition watched ::
  "dns_lib \<Rightarrow> key_lib \<Rightarrow> (byte \<Rightarrow> bool) \<Rightarrow> rfc5011Manager \<Rightarrow> event list \<Rightarrow> string \<Rightarrow> nat \<Rightarrow> nat \<Rightarrow> bool" where
  "watched L K d m evs i k n \<longleftrightarrow>
     (\<forall>j. k \<le> j \<longrightarrow> j < n \<longrightarrow> updates L K (evs ! j) (state_at L K d m evs j) \<longrightarrow>
        seen_unrevoked L K (evs ! j) i)"

definition held_since ::
  "dns_lib \<Rightarrow> key_lib \<Rightarrow> (byte \<Rightarrow> bool) \<Rightarrow> rfc5011Manager \<Rightarrow> event list \<Rightarrow> string \<Rightarrow>
   rfc5011KeyState \<Rightarrow> nat \<Rightarrow> bool" where
  "held_since L K d m evs i it k \<longleftrightarrow>
     k < length evs \<and> updates L K (evs ! k) (state_at L K d m evs k) \<and>
     FirstSeen it = now (evs ! k) \<and> HoldDown it \<ge> rfc5011AddHoldDown \<and>
     set (ValidatedBy it) = set (validators L K (state_at L K d m evs k) (evs ! k)) \<and>
     watched L K d m evs i k (length evs)"

definition accepted_after_hold_down ::
  "dns_lib \<Rightarrow> key_lib \<Rightarrow> (byte \<Rightarrow> bool) \<Rightarrow> rfc5011Manager \<Rightarrow> event list \<Rightarrow> string \<Rightarrow> nat \<Rightarrow> nat \<Rightarrow> bool" where
  "accepted_after_hold_down L K d m evs i k j \<longleftrightarrow>
     k < j \<and> j < length evs \<and>
     updates L K (evs ! k) (state_at L K d m evs k) \<and> updates L K (evs ! j) (state_at L K d m evs j) \<and>
     now (evs ! k) + rfc5011AddHoldDown \<le> now (evs ! j) \<and> watched L K d m evs i k (Suc j) \<and>
     (\<exists>v\<in>set (validators L K (state_at L K d m evs k) (evs ! k)).
        usable_id (keys (state_at L K d m evs (Suc j))) v)"

lemma state_at_append [simp]: "n \<le> length evs \<Longrightarrow> state_at L K d m (evs @ xs) n = state_at L K d m evs n"
  by (simp add: state_at_def)

lemma state_at_length [simp]:
  "state_at L K d m evs (length evs) = run L K d evs m"
  "state_at L K d m (evs @ [ev]) (Suc (length evs)) = snd (process L K d ev (run L K d evs m))"
  by (simp_all add: state_at_def)

lemma watched_append:
  "n \<le> length evs \<Longrightarrow> watched L K d m (evs @ xs) i k n \<longleftrightarrow> watched L K d m evs i k n"
  by (auto simp: watched_def nth_append)

lemma watched_snoc:
  "watched L K d m (evs @ [ev]) i k (Suc (length evs)) \<longleftrightarrow>
   watched L K d m evs i k (length evs) \<and>
   (k \<le> length evs \<longrightarrow> updates L K ev (run L K d evs m) \<longrightarrow> seen_unrevoked L K ev i)"
  by (auto simp: watched_def nth_append less_Suc_eq)

lemma held_since_snoc:
  assumes "held_since L K d m evs i it k"
    and "updates L K ev (run L K d evs m) \<Longrightarrow> seen_unrevoked L K ev i"
  shows "held_since L K d m (evs @ [ev]) i it k"
  using assms by (auto simp: held_since_def watched_snoc nth_append)

lemma held_since_new:
  assumes "updates L K ev (run L K d evs m)" "seen_unrevoked L K ev i"
    and "new_pending L ev (validators L K (run L K d evs m) ev) key it"
  shows "held_since L K d m (evs @ [ev]) i it (length evs)"
  using assms by (auto simp: held_since_def watched_def nth_append less_Suc_eq new_pending_def)

lemma accepted_snoc:
  assumes "accepted_after_hold_down L K d m evs i k j"
  shows "accepted_after_hold_down L K d m (evs @ [ev]) i k j"
  using assms by (auto simp: accepted_after_hold_down_def watched_append nth_append)

lemma accepted_new:
  assumes "held_since L K d m evs i it k"
    and "updates L K ev (run L K d evs m)" "seen_unrevoked L K ev i"
    and "FirstSeen it + HoldDown it \<le> now ev"
    and "v \<in> set (ValidatedBy it)" "usable_id (keys (snd (process L K d ev (run L K d evs m)))) v"
  shows "accepted_after_hold_down L K d m (evs @ [ev]) i k (length evs)"
  using assms by (auto simp: accepted_after_hold_down_def held_since_def watched_snoc nth_append)

lemma present_seen:
  "map_of (present L K ev) i = Some key \<Longrightarrow> \<not> revoke_bit key \<Longrightarrow> seen_unrevoked L K ev i"
  using present_Some[of L K ev i key] by (auto simp: seen_unrevoked_def)

lemma run_held:
  assumes dist: "distinct (map fst (keys m))"
    and start: "\<And>i it. map_of (keys m) i = Some it \<Longrightarrow> State it \<noteq> AddPending"
  shows "(usable_id (keys (run L K d evs m)) i \<longrightarrow>
            usable_id (keys m) i \<or> (\<exists>k j. accepted_after_hold_down L K d m evs i k j)) \<and>
         (\<forall>it. map_of (keys (run L K d evs m)) i = Some it \<and> State it = AddPending \<longrightarrow>
            (\<exists>k. held_since L K d m evs i it k))"
proof (induction evs rule: rev_induct)
  case Nil show ?case using start by auto
next
  case (snoc ev evs)
  note dist' = distinct_run[OF dist, of L K d evs]
  show ?case
  proof (intro conjI impI allI)
    assume "usable_id (keys (run L K d (evs @ [ev]) m)) i"
    then obtain it where it: "map_of (keys (snd (process L K d ev (run L K d evs m)))) i = Some it" "usable it"
      by (auto simp: usable_id_def)
    from process_usable[OF dist' this]
    show "usable_id (keys m) i \<or> (\<exists>k j. accepted_after_hold_down L K d m (evs @ [ev]) i k j)"
    proof
      assume "usable_id (keys (run L K d evs m)) i"
      then show ?thesis using snoc.IH accepted_snoc by blast
    next
      assume *: "updates L K ev (run L K d evs m) \<and> (\<exists>item key.
        map_of (keys (run L K d evs m)) i = Some item \<and> State item = AddPending \<and>
        map_of (present L K ev) i = Some key \<and> \<not> revoke_bit key \<and>
        FirstSeen item + HoldDown item \<le> now ev \<and>
        (\<exists>v\<in>set (ValidatedBy item). usable_id (keys (snd (process L K d ev (run L K d evs m)))) v))"
      then obtain item key v where item: "map_of (keys (run L K d evs m)) i = Some item"
        "State item = AddPending" "seen_unrevoked L K ev i" "FirstSeen item + HoldDown item \<le> now ev"
        "v \<in> set (ValidatedBy item)" "usable_id (keys (snd (process L K d ev (run L K d evs m)))) v"
        using present_seen by blast
      then obtain k where "held_since L K d m evs i item k" using snoc.IH by blast
      from accepted_new[OF this _ item(3-6)] * show ?thesis by blast
    qed
  next
    fix it assume "map_of (keys (run L K d (evs @ [ev]) m)) i = Some it \<and> State it = AddPending"
    then have "map_of (keys (snd (process L K d ev (run L K d evs m)))) i = Some it" "State it = AddPending"
      by simp_all
    from process_pending[OF dist' this]
    show "\<exists>k. held_since L K d m (evs @ [ev]) i it k"
    proof
      assume *: "map_of (keys (run L K d evs m)) i = Some it \<and> (updates L K ev (run L K d evs m) \<longrightarrow>
        (\<exists>key. map_of (present L K ev) i = Some key \<and> \<not> revoke_bit key))"
      then obtain k where k: "held_since L K d m evs i it k" using snoc.IH \<open>State it = AddPending\<close> by blast
      have "updates L K ev (run L K d evs m) \<Longrightarrow> seen_unrevoked L K ev i" using * present_seen by blast
      from held_since_snoc[OF k this] show ?thesis by blast
    next
      assume *: "updates L K ev (run L K d evs m) \<and> (\<exists>key. map_of (present L K ev) i = Some key \<and>
        new_pending L ev (validators L K (run L K d evs m) ev) key it)"
      then obtain key where key: "map_of (present L K ev) i = Some key"
        "new_pending L ev (validators L K (run L K d evs m) ev) key it" by blast
      then have "seen_unrevoked L K ev i" by (simp add: new_pending_def present_seen)
      from held_since_new[OF _ this key(2)] * show ?thesis by blast
    qed
  qed
qed

lemma bootstrap_items_valid:
  "bootstrap_items L K t ks boot = Inr ks' \<Longrightarrow>
   map_of ks' i = Some it \<Longrightarrow>
   map_of ks i = Some it \<or> State it = Valid \<and> i \<in> rfc5011KeyID L K ` set boot"
  by (induction boot arbitrary: ks) (force simp: Let_def split: if_splits)+

lemma bootstrap_items_distinct:
  "bootstrap_items L K t ks boot = Inr ks' \<Longrightarrow> distinct (map fst ks) \<Longrightarrow> distinct (map fst ks')"
  by (induction boot arbitrary: ks) (auto simp: Let_def distinct_update split: if_splits)

text \<open>
  C19: a key is trusted only after its hold-down. Take any responses after a start from the
  configured anchors. A key that is trusted at the end and is not a configured anchor was first
  seen in some authenticated response, at \<open>k\<close>, and accepted in one at \<open>j\<close>, at least 30 days later;
  every response in between that updated the key states carried it without the revoke bit; and a key that
  vouched for it at \<open>k\<close> was still trusted after \<open>j\<close>.
\<close>

theorem rfc5011_hold_down:
  assumes "newRFC5011Manager L K t None ok boot = Inr m0"
    and "usable_id (keys (run L K d evs m0)) i" and "i \<notin> rfc5011KeyID L K ` set boot"
  shows "\<exists>k j. accepted_after_hold_down L K d m0 evs i k j"
proof -
  obtain ks where "bootstrap_items L K t [] boot = Inr ks" "keys m0 = ks"
    using assms(1) by (auto simp: newRFC5011Manager_def persist_def publishAnchors_def Let_def
        split: if_splits sum.splits prod.splits bool.splits)
  then have "distinct (map fst (keys m0))"
    "\<And>i it. map_of (keys m0) i = Some it \<Longrightarrow> State it = Valid \<and> i \<in> rfc5011KeyID L K ` set boot"
    using bootstrap_items_distinct[of L K t "[]" boot ks] bootstrap_items_valid[of L K t "[]" boot ks]
    by auto
  then show ?thesis
    using run_held[of m0 L K d evs i] assms(2,3) by (fastforce simp: usable_id_def)
qed

end
