(* ===== verification/RFC5011_State.thy ===== *)
theory RFC5011_State
  imports RFC5011_Props "HOL-Library.Multiset"
begin

text \<open>
  The reachable states of trust anchor maintenance: every stored key is well formed, so the state
  file can be read back; the published anchors are trusted keys; a revocation is final; a key that
  stays published is accepted.
\<close>

subsection \<open>What is assumed of the library\<close>

text \<open>
  The text form of a key can be parsed back, SHA-256 has no collisions (and its hexadecimal form is
  not empty), and the root name is fully qualified.
\<close>

definition key_laws :: "dns_lib \<Rightarrow> key_lib \<Rightarrow> bool" where
  "key_laws L K \<longleftrightarrow>
     (\<forall>k. parseDNSKEY K (KeyString K k) = Some k) \<and> inj (Sha256Hex K) \<and>
     (\<forall>s. Sha256Hex K s \<noteq> []) \<and> Fqdn L ''.'' = ''.''"

text \<open>A response as \<open>refresh\<close> hands it over: the keys are the root's; the clock is not at zero.\<close>

definition root_event :: "event \<Rightarrow> bool" where
  "root_event ev \<longleftrightarrow> now ev \<noteq> 0 \<and> (\<forall>key\<in>set (ev_keys ev). equal_fold (dk_Name key) ''.'')"

subsection \<open>Key identities\<close>

lemma decimal_digits: "c \<in> set (decimal n) \<Longrightarrow> c \<noteq> CHR ''|''"
proof (induction n rule: decimal.induct)
  case (1 n)
  have digit: "(char_of (48 + k) :: char) \<noteq> CHR ''|''" if "k < 10" for k :: nat
  proof
    assume "(char_of (48 + k) :: char) = CHR ''|''"
    then have "of_char (char_of (48 + k) :: char) = (124 :: nat)" by simp
    then show False using that by (simp add: of_char_of)
  qed
  have "if n < 10 then c = char_of (48 + n) else c \<in> set (decimal (n div 10)) \<or> c = char_of (48 + n mod 10)"
    using 1(2) decimal.simps[of n] by (auto split: if_splits)
  then show ?case using 1(1) digit[of n] digit[of "n mod 10"] by (cases "n < 10") (simp, force)
qed

lemma char_of_digit: "a < 10 \<Longrightarrow> b < 10 \<Longrightarrow> (char_of (48 + a) :: char) = char_of (48 + b) \<longleftrightarrow> a = (b :: nat)"
proof
  assume "a < 10" "b < 10" "(char_of (48 + a) :: char) = char_of (48 + b)"
  then have "of_char (char_of (48 + a) :: char) = (of_char (char_of (48 + b) :: char) :: nat)" by simp
  then show "a = b" using \<open>a < 10\<close> \<open>b < 10\<close> by (simp add: of_char_of)
qed simp

lemma decimal_inj: "decimal m = decimal n \<Longrightarrow> m = n"
proof (induction m arbitrary: n rule: decimal.induct)
  case (1 m)
  have ne: "decimal k \<noteq> []" for k by (subst decimal.simps) simp
  have eq: "(if m < 10 then [char_of (48 + m)] else decimal (m div 10) @ [char_of (48 + m mod 10)])
      = (if n < 10 then [char_of (48 + n) :: char] else decimal (n div 10) @ [char_of (48 + n mod 10)])"
    using 1(2) decimal.simps[of m] decimal.simps[of n] by simp
  show ?case
  proof (cases "m < 10 \<or> n < 10")
    case True
    then have "m < 10 \<and> n < 10" using eq ne by (auto split: if_splits simp: append_eq_Cons_conv Cons_eq_append_conv)
    then show ?thesis using eq by (auto simp: char_of_digit)
  next
    case False
    then have "decimal (m div 10) = decimal (n div 10)" "m mod 10 = n mod 10"
      using eq by (auto simp: char_of_digit)
    then show ?thesis using 1(1) False by (metis div_mult_mod_eq)
  qed
qed

lemma bar_split:
  "a @ CHR ''|'' # x = b @ CHR ''|'' # y \<Longrightarrow> (\<And>c. c \<in> set a \<Longrightarrow> c \<noteq> CHR ''|'') \<Longrightarrow>
   (\<And>c. c \<in> set b \<Longrightarrow> c \<noteq> CHR ''|'') \<Longrightarrow> a = b \<and> x = y"
proof (induction a arbitrary: b)
  case Nil then show ?case by (cases b) auto
next
  case (Cons z a) then show ?case by (cases b) auto
qed

lemma lower_dot: "to_lower n = ''.'' \<Longrightarrow> n = ''.''"
proof -
  assume "to_lower n = ''.''"
  then obtain c where n: "n = [c]" "lower_char c = CHR ''.''" by (auto simp: to_lower_def)
  have "c = CHR ''.''"
  proof (cases "65 \<le> (of_char c :: nat) \<and> (of_char c :: nat) \<le> 90")
    case True
    then have "of_char (char_of ((of_char c :: nat) + 32) :: char) = (46 :: nat)"
      using n(2) by (simp add: lower_char_def)
    then show ?thesis using True by (simp add: of_char_of)
  next
    case False then show ?thesis using n(2) by (auto simp: lower_char_def)
  qed
  then show ?thesis using n by simp
qed

lemma to_lower_dot [simp]: "to_lower ''.'' = ''.''"
  by (simp add: to_lower_def lower_char_def)

lemma masked_flags:
  assumes "(f :: u16) AND NOT dnskeyRevokeFlag = g AND NOT dnskeyRevokeFlag"
  shows "f AND (dnskeySEPFlag OR dnskeyZoneFlag) = g AND (dnskeySEPFlag OR dnskeyZoneFlag)"
proof -
  have "h AND (dnskeySEPFlag OR dnskeyZoneFlag)
      = (h AND NOT dnskeyRevokeFlag) AND (dnskeySEPFlag OR dnskeyZoneFlag)" for h :: u16
  proof -
    have "NOT dnskeyRevokeFlag AND (dnskeySEPFlag OR dnskeyZoneFlag)
        = (dnskeySEPFlag OR dnskeyZoneFlag :: u16)"
      by (simp add: dnskeyRevokeFlag_def dnskeySEPFlag_def dnskeyZoneFlag_def)
    then show ?thesis by (simp add: and.assoc)
  qed
  then show ?thesis using assms by metis
qed

lemma same_id_root_SEP:
  assumes "key_laws L K" "validRootSEP L k" "equal_fold (dk_Name k') ''.''"
    and "rfc5011KeyID L K k' = rfc5011KeyID L K k"
  shows "validRootSEP L k'"
proof -
  have k': "Fqdn L (dk_Name k') = ''.''"
    using assms(1,3) lower_dot[of "dk_Name k'"] by (simp add: equal_fold_def key_laws_def)
  have k: "to_lower (Fqdn L (dk_Name k)) = ''.''"
    using assms(2) by (simp add: validRootSEP_def equal_fold_def)
  let ?m = "\<lambda>k. ''.'' @ ''|'' @ decimal (unat (Flags k AND NOT dnskeyRevokeFlag)) @ ''|'' @
           decimal (unat (Protocol k)) @ ''|'' @ decimal (unat (Algorithm k)) @ ''|'' @ PublicKey k"
  have "Sha256Hex K (?m k') = Sha256Hex K (?m k)"
    using assms(4) k k' by (simp add: rfc5011KeyID_def Let_def)
  then have m: "?m k' = ?m k" using assms(1) by (simp add: key_laws_def inj_eq)
  have "decimal (unat (Flags k' AND NOT dnskeyRevokeFlag)) = decimal (unat (Flags k AND NOT dnskeyRevokeFlag)) \<and>
      decimal (unat (Protocol k')) @ ''|'' @ decimal (unat (Algorithm k')) @ ''|'' @ PublicKey k'
      = decimal (unat (Protocol k)) @ ''|'' @ decimal (unat (Algorithm k)) @ ''|'' @ PublicKey k"
    using m by (intro bar_split) (auto dest: decimal_digits)
  moreover then have "decimal (unat (Protocol k')) = decimal (unat (Protocol k)) \<and>
      decimal (unat (Algorithm k')) @ ''|'' @ PublicKey k' = decimal (unat (Algorithm k)) @ ''|'' @ PublicKey k"
    by (intro bar_split) (auto dest: decimal_digits)
  ultimately have "Flags k' AND NOT dnskeyRevokeFlag = Flags k AND NOT dnskeyRevokeFlag"
    "Protocol k' = Protocol k"
    by (auto dest!: decimal_inj simp: word_unat_eq_iff)
  then show ?thesis using assms(2) k' masked_flags[of "Flags k'" "Flags k"]
    by (simp add: validRootSEP_def equal_fold_def)
qed

subsection \<open>Well-formed states\<close>

definition item_ok :: "dns_lib \<Rightarrow> key_lib \<Rightarrow> string \<Rightarrow> rfc5011KeyState \<Rightarrow> bool" where
  "item_ok L K i it \<longleftrightarrow> ID it = i \<and> check_item L K [] it = None"

definition states_ok :: "dns_lib \<Rightarrow> key_lib \<Rightarrow> key_states \<Rightarrow> bool" where
  "states_ok L K ks \<longleftrightarrow>
     distinct (map fst ks) \<and> (\<forall>i it. map_of ks i = Some it \<longrightarrow> item_ok L K i it)"

lemma states_ok_update:
  "states_ok L K ks \<Longrightarrow> item_ok L K i it \<Longrightarrow> states_ok L K (AList.update i it ks)"
  by (simp add: states_ok_def distinct_update)

lemma states_ok_delete: "states_ok L K ks \<Longrightarrow> states_ok L K (AList.delete i ks)"
  by (simp add: states_ok_def distinct_delete)

lemma states_okD: "states_ok L K ks \<Longrightarrow> map_of ks i = Some it \<Longrightarrow> item_ok L K i it"
  by (simp add: states_ok_def)

lemma item_ok_iff:
  "item_ok L K i it \<longleftrightarrow>
     ID it = i \<and> i \<noteq> [] \<and> (\<exists>key. parseDNSKEY K (Key it) = Some key \<and> rfc5011KeyID L K key = i \<and> validRootSEP L key) \<and>
     (\<forall>x. State it \<noteq> UnknownState x) \<and> StateSince it \<noteq> 0 \<and>
     (State it = AddPending \<longrightarrow> FirstSeen it \<noteq> 0 \<and> HoldDown it \<ge> rfc5011AddHoldDown \<and> ValidatedBy it \<noteq> [])"
  unfolding item_ok_def check_item_def
  by (auto split: option.splits rfc5011State.splits if_splits)

text \<open>Moving an item to another state, with the key text of the response.\<close>

lemma item_ok_rekey:
  assumes "key_laws L K" "item_ok L K i it" "rfc5011KeyID L K key = i" "equal_fold (dk_Name key) ''.''"
    and "t \<noteq> 0" "s = Valid \<or> s = Revoked"
  shows "item_ok L K i (it\<lparr>Key := KeyString K key, State := s, StateSince := t\<rparr>)"
    "item_ok L K i (it\<lparr>Key := KeyString K key, State := s, StateSince := t, ValidatedBy := []\<rparr>)"
proof -
  obtain k where "validRootSEP L k" "rfc5011KeyID L K k = i"
    using assms(2) by (auto simp: item_ok_iff)
  then have "validRootSEP L key" using same_id_root_SEP[OF assms(1) _ assms(4)] assms(3) by simp
  then show "item_ok L K i (it\<lparr>Key := KeyString K key, State := s, StateSince := t\<rparr>)"
    "item_ok L K i (it\<lparr>Key := KeyString K key, State := s, StateSince := t, ValidatedBy := []\<rparr>)"
    using assms by (auto simp: item_ok_iff key_laws_def)
qed

lemma item_ok_move:
  "item_ok L K i it \<Longrightarrow> t \<noteq> 0 \<Longrightarrow> s = Missing \<or> s = Removed \<Longrightarrow>
   item_ok L K i (it\<lparr>State := s, StateSince := t\<rparr>)"
  by (auto simp: item_ok_iff)

lemma revoke_fold_ok:
  assumes "key_laws L K" "now ev \<noteq> 0"
  shows "states_ok L K ks \<Longrightarrow> \<forall>key\<in>set kl. equal_fold (dk_Name key) ''.'' \<Longrightarrow>
    states_ok L K (fst (fold (revoke_one L K ev) kl (ks, b)))"
proof (induction kl arbitrary: ks b)
  case (Cons key rest)
  obtain ks' b' where r: "revoke_one L K ev key (ks, b) = (ks', b')" by fastforce
  then have "states_ok L K ks'"
    using revoke_one_cases[of L K ev key ks b] Cons.prems assms
    by (auto intro!: states_ok_update item_ok_rekey dest: states_okD)
  then show ?case using Cons.IH[of ks' b'] Cons.prems(2) r by simp
qed simp

lemma step_key_ok:
  assumes "key_laws L K" "root_event ev" "states_ok L K ks"
  shows "states_ok L K (step_key K ev (present L K ev) i ks)"
proof -
  have p: "rfc5011KeyID L K key = i \<and> equal_fold (dk_Name key) ''.''"
    if "map_of (present L K ev) i = Some key" for key
    using present_Some[OF that] assms(2) by (simp add: root_event_def)
  have t: "now ev \<noteq> 0" using assms(2) by (simp add: root_event_def)
  show ?thesis
  proof (cases "map_of ks i")
    case None then show ?thesis using assms(3) by (simp add: step_key_def)
  next
    case (Some item)
    note ok = states_okD[OF assms(3) this]
    note moves = states_ok_update[OF assms(3) item_ok_move[OF ok t]]
    show ?thesis
    proof (cases "map_of (present L K ev) i")
      case None
      then show ?thesis using Some assms(3) moves
        by (simp add: step_key_def states_ok_delete split: rfc5011State.split)
    next
      case key: (Some key)
      note rekeys = item_ok_rekey[OF assms(1) ok, THEN states_ok_update[OF assms(3)], of key]
      show ?thesis using Some key assms(3) rekeys p[OF key] t
        by (simp add: step_key_def states_ok_delete split: rfc5011State.split)
    qed
  qed
qed

lemma steps_ok:
  assumes "key_laws L K" "root_event ev"
  shows "states_ok L K ks \<Longrightarrow> states_ok L K (fold (step_key K ev (present L K ev)) js ks)"
  by (induction js arbitrary: ks) (auto intro: step_key_ok[OF assms])

lemma adds_ok:
  assumes "key_laws L K" "now ev \<noteq> 0" "vs \<noteq> []"
  shows "states_ok L K ks \<Longrightarrow> \<forall>(i, key)\<in>set p. rfc5011KeyID L K key = i \<Longrightarrow>
    states_ok L K (fold (add_key L K d ev vs) p ks)"
proof (induction p arbitrary: ks)
  case (Cons x p)
  have "sort vs \<noteq> []" using assms(3) set_sort[of "\<lambda>x. x" vs] by (metis set_empty)
  moreover have "rfc5011KeyID L K i \<noteq> []" for i
    using assms(1) by (simp add: key_laws_def rfc5011KeyID_def Let_def)
  ultimately have "states_ok L K (add_key L K d ev vs x ks)"
    using Cons.prems assms
    by (cases x) (auto simp: add_key_def item_ok_iff key_laws_def intro!: states_ok_update)
  then show ?case using Cons by simp
qed simp

lemma process_ok:
  assumes "key_laws L K" "root_event ev" "states_ok L K (keys m)"
  shows "states_ok L K (keys (snd (process L K d ev m)))" "states_ok L K (after_revocations L K ev m)"
proof -
  show rev: "states_ok L K (after_revocations L K ev m)"
    using assms by (simp add: after_revocations_def revoke_keys_def revoke_fold_ok root_event_def)
  have "states_ok L K (after_steps L K ev m)"
    unfolding after_steps_def by (rule steps_ok[OF assms(1,2) rev])
  moreover have "\<forall>(i, key)\<in>set (present L K ev). rfc5011KeyID L K key = i"
    using present_Some distinct_present by (fastforce simp: map_of_eq_Some_iff)
  ultimately show "states_ok L K (keys (snd (process L K d ev m)))"
    using rev assms(1,2)
    by (auto simp: process_keys updates_def root_event_def intro!: adds_ok)
qed

subsection \<open>Reading the state file back\<close>

lemma check_item_fresh: "map_of ks (ID it) = None \<Longrightarrow> check_item L K ks it = check_item L K [] it"
  by (simp add: check_item_def)

lemma check_item_known: "check_item L K ks it = None \<Longrightarrow> map_of ks (ID it) = None"
  by (auto simp: check_item_def split: if_splits)

lemma load_items_states_ok:
  "load_items L K ks items = Inr ks' \<Longrightarrow> states_ok L K ks \<Longrightarrow> states_ok L K ks'"
proof (induction items arbitrary: ks)
  case (Cons it items)
  then have "check_item L K ks it = None" by (auto split: option.splits)
  then have "item_ok L K (ID it) it"
    using check_item_fresh[OF check_item_known, of L K ks it L K] by (simp add: item_ok_def)
  then show ?case using Cons by (auto split: option.splits intro: states_ok_update)
qed simp

lemma load_items_accepts:
  "distinct (map ID items) \<Longrightarrow> \<forall>it\<in>set items. check_item L K [] it = None \<and> map_of ks (ID it) = None \<Longrightarrow>
   \<exists>ks'. load_items L K ks items = Inr ks' \<and>
     (\<forall>i. map_of ks' i = (case map_of (map (\<lambda>it. (ID it, it)) items) i of None \<Rightarrow> map_of ks i | Some it \<Rightarrow> Some it))"
proof (induction items arbitrary: ks)
  case (Cons it items)
  have "check_item L K ks it = None" using Cons.prems(2) check_item_fresh[of ks it L K] by simp
  moreover have "\<forall>x\<in>set items. check_item L K [] x = None \<and> map_of (AList.update (ID it) it ks) (ID x) = None"
    using Cons.prems by (auto simp: image_iff)
  then obtain ks' where
    "load_items L K (AList.update (ID it) it ks) items = Inr ks'"
    "\<forall>i. map_of ks' i = (case map_of (map (\<lambda>it. (ID it, it)) items) i of
        None \<Rightarrow> map_of (AList.update (ID it) it ks) i | Some it \<Rightarrow> Some it)"
    using Cons.IH[of "AList.update (ID it) it ks"] Cons.prems(1) by fastforce
  moreover have "map_of (map (\<lambda>it. (ID it, it)) items) (ID it) = None"
    using Cons.prems(1) by (force simp: map_of_eq_None_iff)
  ultimately show ?case by (auto split: option.splits)
qed simp

lemma states_ok_ids: "states_ok L K ks \<Longrightarrow> map ID (map snd ks) = map fst ks"
  by (auto simp: states_ok_def item_ok_def map_of_eq_Some_iff)

lemma load_sorted:
  assumes ok: "states_ok L K ks"
  shows "\<exists>ks'. load_items L K [] (sort_key ID (map snd ks)) = Inr ks' \<and> map_of ks' = map_of ks"
proof -
  let ?items = "sort_key ID (map snd ks)"
  have ids: "ID it = i" if "(i, it) \<in> set ks" for i it
    using ok that by (auto simp: states_ok_def item_ok_def map_of_eq_Some_iff)
  have dist: "distinct (map fst ks)" using ok by (simp add: states_ok_def)
  have "mset (map ID ?items) = mset (map fst ks)"
    using states_ok_ids[OF ok] by (metis mset_map mset_sort)
  then have d: "distinct (map ID ?items)" using dist mset_eq_imp_distinct_iff by blast
  moreover have "\<forall>it\<in>set ?items. check_item L K [] it = None \<and> map_of [] (ID it) = None"
    using ok dist by (auto simp: states_ok_def item_ok_def)
  ultimately obtain ks' where ks': "load_items L K [] ?items = Inr ks'"
    "\<forall>i. map_of ks' i = (case map_of (map (\<lambda>it. (ID it, it)) ?items) i of None \<Rightarrow> map_of [] i | Some it \<Rightarrow> Some it)"
    using load_items_accepts by meson
  have "map_of (map (\<lambda>it. (ID it, it)) ?items) i = Some it \<longleftrightarrow> map_of ks i = Some it" for i it
  proof -
    have "distinct (map fst (map (\<lambda>it. (ID it, it)) ?items))" using d by (simp add: comp_def)
    then have "map_of (map (\<lambda>it. (ID it, it)) ?items) i = Some it \<longleftrightarrow> it \<in> snd ` set ks \<and> ID it = i"
      by (auto simp: map_of_eq_Some_iff)
    also have "\<dots> \<longleftrightarrow> (i, it) \<in> set ks" using ids by force
    finally show ?thesis using dist by (simp add: map_of_eq_Some_iff)
  qed
  then have "map_of (map (\<lambda>it. (ID it, it)) ?items) = map_of ks"
    by (metis (no_types, lifting) ext not_Some_eq)
  then have "map_of ks' i = map_of ks i" for i using ks'(2) by (simp split: option.split)
  then show ?thesis using ks'(1) by blast
qed

subsection \<open>Reachable managers\<close>

text \<open>A start from the state file or from the configured anchors, then any responses.\<close>

inductive rfc_reach :: "dns_lib \<Rightarrow> key_lib \<Rightarrow> (byte \<Rightarrow> bool) \<Rightarrow> rfc5011Manager \<Rightarrow> bool" for L K d where
  start: "newRFC5011Manager L K t file ok boot = Inr m \<Longrightarrow> t \<noteq> 0 \<Longrightarrow> rfc_reach L K d m"
| respond: "rfc_reach L K d m \<Longrightarrow> root_event ev \<Longrightarrow> rfc_reach L K d (snd (process L K d ev m))"

text \<open>What every reachable manager satisfies.\<close>

definition rfc_wf :: "dns_lib \<Rightarrow> key_lib \<Rightarrow> rfc5011Manager \<Rightarrow> bool" where
  "rfc_wf L K m \<longleftrightarrow>
     states_ok L K (keys m) \<and>
     (\<forall>a\<in>set (anchors m). usable_id (keys m) (rfc5011KeyID L K a)) \<and>
     (\<exists>items ks. disk m = Some items \<and> load_items L K [] items = Inr ks)"

lemma masked_id [simp]: "rfc5011KeyID L K (k\<lparr>Flags := Flags k AND NOT dnskeyRevokeFlag\<rparr>) = rfc5011KeyID L K k"
  by (simp add: rfc5011KeyID_def and.assoc)

lemma usableAnchors_iff:
  "a \<in> set (usableAnchors K ks) \<longleftrightarrow>
   (\<exists>i it key. (i, it) \<in> set ks \<and> usable it \<and> parseDNSKEY K (Key it) = Some key \<and>
      a = key\<lparr>Flags := Flags key AND NOT dnskeyRevokeFlag\<rparr>)"
  by (force simp: usableAnchors_def List.map_filter_def split: if_splits)

lemma usableAnchors_ids:
  assumes "states_ok L K ks"
  shows "rfc5011KeyID L K ` set (usableAnchors K ks) = {i. usable_id ks i}"
proof -
  have mem: "(i, it) \<in> set ks \<longleftrightarrow> map_of ks i = Some it" for i it
    using assms by (simp add: states_ok_def map_of_eq_Some_iff)
  have key: "\<exists>key. parseDNSKEY K (Key it) = Some key \<and> rfc5011KeyID L K key = i"
    if "map_of ks i = Some it" for i it
    using states_okD[OF assms that] by (auto simp: item_ok_iff)
  show ?thesis
  proof (intro equalityI subsetI)
    fix x assume "x \<in> rfc5011KeyID L K ` set (usableAnchors K ks)"
    then obtain i it k where "map_of ks i = Some it" "usable it" "parseDNSKEY K (Key it) = Some k"
      "x = rfc5011KeyID L K k"
      by (auto simp: usableAnchors_iff mem)
    then show "x \<in> {i. usable_id ks i}" using key by (fastforce simp: usable_id_def)
  next
    fix i assume "i \<in> {i. usable_id ks i}"
    then obtain it where it: "map_of ks i = Some it" "usable it" by (auto simp: usable_id_def)
    obtain k where k: "parseDNSKEY K (Key it) = Some k" "rfc5011KeyID L K k = i" using key[OF it(1)] by blast
    have "k\<lparr>Flags := Flags k AND NOT dnskeyRevokeFlag\<rparr> \<in> set (usableAnchors K ks)"
      using it k mem by (auto simp: usableAnchors_iff)
    then show "i \<in> rfc5011KeyID L K ` set (usableAnchors K ks)" using k(2) by (metis imageI masked_id)
  qed
qed

lemma bootstrap_items_ok:
  assumes "key_laws L K" "t \<noteq> 0"
  shows "bootstrap_items L K t ks boot = Inr ks' \<Longrightarrow> states_ok L K ks \<Longrightarrow> states_ok L K ks'"
proof (induction boot arbitrary: ks)
  case (Cons key rest)
  have "rfc5011KeyID L K key \<noteq> []"
    using assms(1) by (simp add: key_laws_def rfc5011KeyID_def Let_def)
  then have "item_ok L K (rfc5011KeyID L K key) \<lparr>ID = rfc5011KeyID L K key, Key = KeyString K key,
      State = Valid, FirstSeen = 0, StateSince = t, HoldDown = 0, ValidatedBy = []\<rparr>"
    using Cons.prems(1) assms by (auto simp: item_ok_iff key_laws_def split: if_splits)
  then show ?case using Cons by (auto simp: Let_def states_ok_update split: if_splits)
qed simp

lemma states_ok_Nil [simp]: "states_ok L K []"
  by (simp add: states_ok_def)

lemma start_wf:
  assumes "key_laws L K" "t \<noteq> 0" "newRFC5011Manager L K t file ok boot = Inr m"
  shows "rfc_wf L K m \<and> anchors m = usableAnchors K (keys m)"
proof (cases "file = None")
  case True
  then obtain ks where ks: "bootstrap_items L K t [] boot = Inr ks" "keys m = ks"
    "disk m = Some (sort_key ID (map snd ks))" "anchors m = usableAnchors K ks"
    using assms(3) by (auto simp: newRFC5011Manager_def persist_def publishAnchors_def Let_def
        split: if_splits sum.splits bool.splits)
  have "states_ok L K ks" using bootstrap_items_ok[OF assms(1,2) ks(1)] by simp
  then show ?thesis using ks load_sorted[of L K ks] usableAnchors_ids[of L K ks]
    by (auto simp: rfc_wf_def)
next
  case False
  then obtain v items ks where "file = Some (v, items)" "load_items L K [] items = Inr ks"
    "keys m = ks" "anchors m = usableAnchors K ks" "disk m = Some items"
    using assms(3) by (auto simp: newRFC5011Manager_def publishAnchors_def Let_def
        split: if_splits sum.splits)
  then show ?thesis using load_items_states_ok[of L K "[]" items ks] usableAnchors_ids[of L K ks]
    by (auto simp: rfc_wf_def)
qed

lemma update_usable:
  "usable_id (after_revocations L K ev m) i \<Longrightarrow> usable_id (keys (snd (process L K d ev m))) i"
  by (auto simp: process_keys after_steps_def intro!: add_usable step_fold_usable)

lemma process_wf:
  assumes laws: "key_laws L K" and ev: "root_event ev" and wf: "rfc_wf L K m"
  shows "rfc_wf L K (snd (process L K d ev m))"
proof -
  let ?m = "snd (process L K d ev m)"
  have ks: "states_ok L K (keys m)" using wf by (simp add: rfc_wf_def)
  note ok = process_ok(1)[OF laws ev ks, of d] process_ok(2)[OF laws ev ks]
  have "usable_id (keys ?m) (rfc5011KeyID L K a)" if a: "a \<in> set (anchors ?m)" for a
  proof -
    consider "a \<in> set (usableAnchors K (keys ?m))"
      | "a \<in> set (usableAnchors K (after_revocations L K ev m))"
      | "\<not> snd (revoke_keys L K ev (keys m))" "a \<in> set (anchors m)"
      using a by (auto simp: process_anchors split: if_splits)
    then show ?thesis
    proof cases
      case 1 then show ?thesis using usableAnchors_ids[OF ok(1)] by auto
    next
      case 2 then show ?thesis using usableAnchors_ids[OF ok(2)] by (auto intro: update_usable)
    next
      case 3
      then have "usable_id (after_revocations L K ev m) (rfc5011KeyID L K a)"
        using wf by (simp add: rfc_wf_def after_revocations_def revoke_keys_flag)
      then show ?thesis by (rule update_usable)
    qed
  qed
  moreover have "\<exists>items ks. disk ?m = Some items \<and> load_items L K [] items = Inr ks"
    using wf load_sorted[OF ok(1)] load_sorted[OF ok(2)]
    by (auto simp: process_disk rfc_wf_def)
  ultimately show ?thesis using ok(1) by (auto simp: rfc_wf_def)
qed

lemma reach_wf: "rfc_reach L K d m \<Longrightarrow> key_laws L K \<Longrightarrow> rfc_wf L K m"
  by (induction rule: rfc_reach.induct) (auto dest: start_wf intro: process_wf)

lemma run_reach: "rfc_reach L K d m \<Longrightarrow> \<forall>ev\<in>set evs. root_event ev \<Longrightarrow> rfc_reach L K d (run L K d evs m)"
  by (induction evs rule: rev_induct) (auto intro: rfc_reach.respond)

lemma run_dead: "distinct (map fst (keys m)) \<Longrightarrow> dead_id (keys m) i \<Longrightarrow> dead_id (keys (run L K d evs m)) i"
  by (induction evs rule: rev_induct) (auto intro: process_dead distinct_run)

lemma dead_not_usable: "dead_id ks i \<Longrightarrow> \<not> usable_id ks i"
  by (auto simp: dead_id_def usable_id_def)


text \<open>
  The state file can always be read back. After any start and responses, even when writes
  failed, a restart from the file succeeds; after a response that was processed without an error it
  restores exactly the key states and publishes the same trusted keys.
\<close>

theorem rfc5011_restart:
  assumes "key_laws L K" "rfc_reach L K d m" "root_event ev" "process L K d ev m = (err, m')"
  shows "\<exists>items m2. disk m' = Some items \<and> newRFC5011Manager L K t (Some (1, items)) ok boot = Inr m2 \<and>
    (err = None \<longrightarrow> map_of (keys m2) = map_of (keys m') \<and>
       rfc5011KeyID L K ` set (anchors m2) = rfc5011KeyID L K ` set (anchors m'))"
proof -
  have m': "m' = snd (process L K d ev m)" using assms(4) by simp
  have wf: "rfc_wf L K m" by (rule reach_wf[OF assms(2,1)])
  note wf' = process_wf[OF assms(1,3) wf, of d]
  obtain items ks where ks: "disk m' = Some items" "load_items L K [] items = Inr ks"
    using wf' by (auto simp: rfc_wf_def m')
  then have new: "newRFC5011Manager L K t (Some (1, items)) ok boot
      = Inr (publishAnchors K \<lparr>keys = ks, anchors = boot, disk = Some items, lastRefreshDelay = rfc5011MinRefresh\<rparr>)"
    by (simp add: newRFC5011Manager_def Let_def)
  have "map_of ks = map_of (keys m') \<and> anchors m' = usableAnchors K (keys m')" if "err = None"
  proof -
    have e: "fst (process L K d ev m) = None" using assms(4) that by simp
    have "disk m' = Some (sort_key ID (map snd (keys m'))) \<and> anchors m' = usableAnchors K (keys m')"
      using e unfolding m' process_disk process_anchors
      by (cases "revoke_keys L K ev (keys m)")
         (auto simp: process_def updates_def persist_def publishAnchors_def Let_def
           process_keys after_revocations_def split: if_splits)
    then show ?thesis using load_sorted[of L K "keys m'"] wf' ks
      by (auto simp: rfc_wf_def m')
  qed
  moreover have "usable_id ks = usable_id (keys m')" if "map_of ks = map_of (keys m')"
    using that by (auto simp: usable_id_def fun_eq_iff)
  ultimately show ?thesis
    using ks new wf' usableAnchors_ids[of L K ks] usableAnchors_ids[of L K "keys m'"]
      load_items_states_ok[OF ks(2)]
    by (auto simp: rfc_wf_def m' publishAnchors_def)
qed

subsection \<open>Acceptance of a new key\<close>

text \<open>The response carries the key, and no copy of it with the revoke bit.\<close>

definition carries :: "dns_lib \<Rightarrow> key_lib \<Rightarrow> event \<Rightarrow> string \<Rightarrow> bool" where
  "carries L K ev i \<longleftrightarrow>
     (\<exists>key\<in>set (ev_keys ev). rfc5011KeyID L K key = i) \<and>
     (\<forall>key\<in>set (ev_keys ev). rfc5011KeyID L K key = i \<longrightarrow> \<not> revoke_bit key)"

lemma carries_present:
  assumes "carries L K ev i"
  shows "\<exists>key. map_of (present L K ev) i = Some key \<and> \<not> revoke_bit key"
proof -
  have "\<exists>key. map_of (fold (\<lambda>key p. AList.update (rfc5011KeyID L K key) key p) kl p) i = Some key"
    if "(\<exists>key\<in>set kl. rfc5011KeyID L K key = i) \<or> map_of p i \<noteq> None" for kl p
    using that by (induction kl arbitrary: p) auto
  then obtain key where "map_of (present L K ev) i = Some key"
    using assms unfolding present_def carries_def by blast
  then show ?thesis using assms present_Some[of L K ev i key] by (auto simp: carries_def)
qed

lemma carries_not_revoked:
  assumes "carries L K ev i"
  shows "map_of (after_revocations L K ev m) i = map_of (keys m) i"
proof -
  have "map_of (fst (fold (revoke_one L K ev) kl (ks, b))) i = map_of ks i"
    if "\<forall>key\<in>set kl. rfc5011KeyID L K key = i \<longrightarrow> \<not> revoke_bit key" for kl ks b
    using that
  proof (induction kl arbitrary: ks b)
    case (Cons key rest)
    obtain ks' b' where r: "revoke_one L K ev key (ks, b) = (ks', b')" by fastforce
    then have "map_of ks' i = map_of ks i" using Cons.prems
      by (auto simp: revoke_one_def Let_def split: option.splits if_splits)
    then show ?case using Cons r by simp
  qed simp
  then show ?thesis using assms by (simp add: after_revocations_def revoke_keys_def carries_def)
qed

lemma process_keeps_usable:
  "carries L K ev i \<Longrightarrow> usable_id (keys m) i \<Longrightarrow> usable_id (keys (snd (process L K d ev m))) i"
  by (rule update_usable) (simp add: usable_id_def carries_not_revoked)

lemma process_advances_pending:
  assumes dist: "distinct (map fst (keys m))" and it: "map_of (keys m) i = Some it" "State it = AddPending"
    and ev: "updates L K ev m" "carries L K ev i"
    and v: "v \<in> set (ValidatedBy it)" "usable_id (after_revocations L K ev m) v"
  shows "if FirstSeen it + HoldDown it \<le> now ev then usable_id (keys (snd (process L K d ev m))) i
         else map_of (keys (snd (process L K d ev m))) i = Some it"
proof -
  let ?s = "after_steps L K ev m"
  obtain key where key: "map_of (present L K ev) i = Some key" "\<not> revoke_bit key"
    using carries_present[OF ev(2)] by blast
  have "map_of (after_revocations L K ev m) i = Some it" using it carries_not_revoked[OF ev(2)] by simp
  then obtain ks1 where ks1: "map_of ks1 i = Some it" "usable_id ks1 v"
    "map_of ?s i = map_of (step_key K ev (present L K ev) i ks1) i"
    using after_steps_at[OF dist, of L K ev i it] v(2) by blast
  have "anyValidatorRemaining (ValidatedBy it) ks1" using v(1) ks1(2) by (auto simp: anyValidatorRemaining_iff)
  then have "if FirstSeen it + HoldDown it \<le> now ev then usable_id ?s i else map_of ?s i = Some it"
    using ks1 key it(2) by (simp add: step_key_def usable_id_def)
  then show ?thesis using ev(1) add_fold[of L K d ev "validators L K m ev" "present L K ev" ?s i]
    by (auto simp: process_keys intro: add_usable)
qed

text \<open>A key usable before and after a run is usable all along, and survives every revocation pass.\<close>

lemma usable_survives:
  assumes dist: "distinct (map fst (keys m))" and "usable_id (keys m) v"
    and "usable_id (keys (run L K d evs (snd (process L K d ev m)))) v"
  shows "usable_id (keys (snd (process L K d ev m))) v" "usable_id (after_revocations L K ev m) v"
proof -
  let ?m = "snd (process L K d ev m)"
  have nd: "\<not> dead_id (keys ?m) v"
    using run_dead[OF distinct_process(1)[OF dist]] assms(3) dead_not_usable by blast
  then show "usable_id (keys ?m) v" using process_alive[OF dist assms(2)] by blast
  have "\<not> dead_id (after_revocations L K ev m) v" using nd process_dead_now[OF dist] by blast
  then show "usable_id (after_revocations L K ev m) v"
    using after_revocations_at[of K ev m L v] assms(2)
    by (auto simp: revoked_or_same_def usable_id_def dead_id_def)
qed

text \<open>Responses that each update the states and carry the key.\<close>

fun steady :: "dns_lib \<Rightarrow> key_lib \<Rightarrow> (byte \<Rightarrow> bool) \<Rightarrow> string \<Rightarrow> event list \<Rightarrow> rfc5011Manager \<Rightarrow> bool" where
  "steady L K d i [] m \<longleftrightarrow> True"
| "steady L K d i (ev # evs) m \<longleftrightarrow>
     updates L K ev m \<and> carries L K ev i \<and> steady L K d i evs (snd (process L K d ev m))"

lemma run_Cons: "run L K d (ev # evs) m = run L K d evs (snd (process L K d ev m))"
  by (simp add: run_def)

lemma run_keeps_usable:
  "usable_id (keys m) i \<Longrightarrow> steady L K d i evs m \<Longrightarrow> usable_id (keys (run L K d evs m)) i"
  by (induction evs arbitrary: m) (auto simp: run_Cons process_keeps_usable)

lemma run_accepts:
  assumes "map_of (keys m) i = Some it" "State it = AddPending" "v \<in> set (ValidatedBy it)"
    and "distinct (map fst (keys m))" "usable_id (keys m) v" "usable_id (keys (run L K d evs m)) v"
    and "steady L K d i evs m" "evs \<noteq> []" "FirstSeen it + HoldDown it \<le> now (last evs)"
  shows "usable_id (keys (run L K d evs m)) i"
  using assms
proof (induction evs arbitrary: m)
  case (Cons ev evs)
  let ?m = "snd (process L K d ev m)"
  have v: "usable_id (keys (run L K d evs ?m)) v" using Cons.prems(6) by (simp add: run_Cons)
  note surv = usable_survives[OF Cons.prems(4,5) v]
  have step: "if FirstSeen it + HoldDown it \<le> now ev then usable_id (keys ?m) i
              else map_of (keys ?m) i = Some it"
    using Cons.prems(7) by (intro process_advances_pending[OF Cons.prems(4,1,2) _ _ Cons.prems(3) surv(2)]) auto
  have steady: "steady L K d i evs ?m" using Cons.prems(7) by simp
  show ?case
  proof (cases "usable_id (keys ?m) i")
    case True
    then show ?thesis using run_keeps_usable steady by (simp add: run_Cons)
  next
    case False
    then have "map_of (keys ?m) i = Some it" "evs \<noteq> []" using step Cons.prems(9) by (auto split: if_splits)
    then show ?thesis
      using Cons.IH[of ?m] Cons.prems(2,3,9) surv(1) v steady distinct_process(1)[OF Cons.prems(4)]
      by (simp add: run_Cons)
  qed
qed simp

text \<open>
  C36: a published key is accepted in the end. Take a key pending in a reachable state, and further
  responses that each update the key states and carry the key without the revoke bit. If a key
  that vouched for it is still trusted at the end and the last response comes after the hold-down,
  the key is trusted; and it is published when the last state was saved.
\<close>

theorem rfc5011_acceptance:
  assumes "key_laws L K" "rfc_reach L K d m" "\<forall>ev\<in>set (evs @ [ev]). root_event ev"
    and "map_of (keys m) i = Some it" "State it = AddPending" "v \<in> set (ValidatedBy it)"
    and "usable_id (keys m) v" "usable_id (keys (run L K d (evs @ [ev]) m)) v"
    and "steady L K d i (evs @ [ev]) m" "FirstSeen it + HoldDown it \<le> now ev"
  shows "usable_id (keys (run L K d (evs @ [ev]) m)) i \<and>
    (persist2 ev \<longrightarrow> i \<in> rfc5011KeyID L K ` set (anchors (run L K d (evs @ [ev]) m)))"
proof -
  have "rfc_wf L K m" by (rule reach_wf[OF assms(2,1)])
  then have dist: "distinct (map fst (keys m))" by (simp add: rfc_wf_def states_ok_def)
  have u: "usable_id (keys (run L K d (evs @ [ev]) m)) i"
    by (rule run_accepts[OF assms(4,5,6) dist assms(7,8,9)]) (use assms(10) in simp_all)
  have "rfc_wf L K (run L K d (evs @ [ev]) m)"
    by (rule reach_wf[OF run_reach[OF assms(2,3)] assms(1)])
  then have ok: "states_ok L K (keys (run L K d (evs @ [ev]) m))" by (simp add: rfc_wf_def)
  have "steady L K d i (xs @ [ev]) m' \<Longrightarrow> updates L K ev (run L K d xs m')" for xs m'
    by (induction xs arbitrary: m') (auto simp: run_def)
  then have "updates L K ev (run L K d evs m)" using assms(9) by blast
  then have "persist2 ev \<longrightarrow> anchors (run L K d (evs @ [ev]) m) = usableAnchors K (keys (run L K d (evs @ [ev]) m))"
    by (simp add: process_anchors)
  then show ?thesis using u usableAnchors_ids[OF ok] by auto
qed

subsection \<open>The refresh timer\<close>

lemma process_lastRefreshDelay [simp]:
  "lastRefreshDelay (snd (process L K d ev m)) = lastRefreshDelay m"
  by (cases "revoke_keys L K ev (keys m)") (simp add: process_def persist_def publishAnchors_def Let_def)

lemma fold_min_le: "fold (\<lambda>s d. min (f s) d) ss d \<le> (d :: int)"
proof (induction ss arbitrary: d)
  case (Cons s ss)
  have "fold (\<lambda>s d. min (f s) d) ss (min (f s) d) \<le> min (f s) d" by (rule Cons)
  then show ?case by simp
qed simp

lemma refresh_delay_bounds:
  "rfc5011MinRefresh \<le> rfc5011RefreshDelay ks ss t \<and> rfc5011RefreshDelay ks ss t \<le> rfc5011MaxRefresh"
proof -
  have m: "rfc5011MinRefresh \<le> rfc5011MaxRefresh"
    by (simp add: rfc5011MinRefresh_def rfc5011MaxRefresh_def Hour_def Second_def)
  have "fold (\<lambda>s d. min (f s) d) ss d \<le> rfc5011MaxRefresh"
    if "d \<le> rfc5011MaxRefresh" for d :: int and f :: "rrsig \<Rightarrow> int"
    using fold_min_le[of f ss d] that by linarith
  then show ?thesis using m
    by (auto simp: rfc5011RefreshDelay_def Let_def split: list.splits)
qed

definition delay_ok :: "rfc5011Manager \<Rightarrow> bool" where
  "delay_ok m \<longleftrightarrow> rfc5011MinRefresh \<le> lastRefreshDelay m \<and> lastRefreshDelay m \<le> rfc5011MaxRefresh"

lemma refresh_bounds:
  assumes "delay_ok m" "refresh L K d resp m = ((delay, err), m')"
  shows "rfc5011MinRefresh \<le> delay" "delay \<le> rfc5011MaxRefresh" "delay_ok m'"
  using assms refresh_delay_bounds process_lastRefreshDelay
  by (auto simp: refresh_def delay_ok_def Let_def split: option.splits prod.splits if_splits)
     (metis snd_conv process_lastRefreshDelay)+

text \<open>
  The refresh timer never stalls and never floods. Whatever the outcome of a refresh and the
  configured interval, the next one is at least an hour and at most 15 days ahead, and within a day
  after a failure; so it stays for the state the refresh leaves.
\<close>

theorem refresh_timer_bounds:
  assumes "delay_ok m" "refresh L K d resp m = (result, m')"
  shows "rfc5011MinRefresh \<le> next_delay c result \<and> next_delay c result \<le> rfc5011MaxRefresh \<and>
    (snd result \<noteq> None \<longrightarrow> next_delay c result \<le> rfc5011MaxRetry) \<and> delay_ok m'"
proof -
  obtain delay err where r: "result = (delay, err)" by fastforce
  have "rfc5011MinRefresh \<le> rfc5011MaxRetry" "rfc5011MaxRetry \<le> rfc5011MaxRefresh"
    by (simp_all add: rfc5011MinRefresh_def rfc5011MaxRetry_def rfc5011MaxRefresh_def Hour_def Second_def)
  moreover have "rfc5011RetryDelay delay \<le> rfc5011MaxRetry" "rfc5011MinRefresh \<le> rfc5011RetryDelay delay"
    using calculation by (auto simp: rfc5011RetryDelay_def Let_def)
  ultimately show ?thesis using refresh_bounds[OF assms(1) assms(2)[unfolded r]]
    by (auto simp: next_delay_def r Let_def split: option.splits)
qed

end
