(* ===== verification/RFC5011_Examples.thy ===== *)
theory RFC5011_Examples
  imports RFC5011_State
begin

text \<open>
  Liveness of trust anchor maintenance, the bounds of its refresh timer, and a concrete library on
  which the properties are applied: a text form of keys that can be parsed back and signatures that
  name the signing key.
\<close>

subsection \<open>A concrete library\<close>

definition ex_key_text :: "dnskey \<Rightarrow> string" where
  "ex_key_text k =
     map (\<lambda>b. char_of (unat b)) (put_be32 (dk_Ttl k) @ put_be16 (Flags k) @ [Protocol k, Algorithm k]) @
     concat (map (\<lambda>c. [CHR ''1'', c]) (dk_Name k)) @ ''0'' @ PublicKey k"

fun ex_split_name :: "string \<Rightarrow> (string \<times> string) option" where
  "ex_split_name [] = None"
| "ex_split_name [a] = (if a = CHR ''0'' then Some ([], []) else None)"
| "ex_split_name (a # c # s) =
     (if a = CHR ''0'' then Some ([], c # s)
      else map_option (\<lambda>(n, r). (c # n, r)) (ex_split_name s))"

fun ex_parse_key :: "string \<Rightarrow> dnskey option" where
  "ex_parse_key (t1 # t2 # t3 # t4 # f1 # f2 # p # a # s) =
     (let b = (\<lambda>c. of_nat (of_char c) :: byte) in
      map_option (\<lambda>(n, r). \<lparr>dk_Name = n, dk_Ttl = be32 (b t1) (b t2) (b t3) (b t4), Flags = be16 (b f1) (b f2),
                      Protocol = b p, Algorithm = b a, PublicKey = r\<rparr>) (ex_split_name s))"
| "ex_parse_key _ = None"

definition ex_key_lib :: key_lib where
  "ex_key_lib = \<lparr>KeyTag = (\<lambda>k. of_nat (length (PublicKey k))), ValidityPeriod = (\<lambda>_ _. True),
     Verify = (\<lambda>s k _. Signature s = PublicKey k), Sha256Hex = (\<lambda>s. ''h'' @ s),
     KeyString = ex_key_text, parseDNSKEY = ex_parse_key\<rparr>"

lemma ex_split_name_text: "ex_split_name (concat (map (\<lambda>c. [CHR ''1'', c]) n) @ ''0'' @ r) = Some (n, r)"
  by (induction n) (auto split: list.split, cases r, auto)

lemma byte_mod: "(word_of_nat (unat (b :: byte) mod 256) :: byte) = b"
  using unsigned_less[of b, where 'a = nat] by simp

lemma ex_key_laws: "key_laws ex_lib ex_key_lib"
  by (auto simp: key_laws_def ex_key_lib_def ex_key_text_def put_be32_def put_be16_def byte_mod
      ex_split_name_text[simplified] be32_put_be32 be16_put_be16 ex_fqdn_def inj_def)

definition ex_ksk :: "string \<Rightarrow> u16 \<Rightarrow> dnskey" where
  "ex_ksk k f = \<lparr>dk_Name = ''.'', dk_Ttl = 3600, Flags = f, Protocol = 3, Algorithm = 8, PublicKey = k\<rparr>"

definition ex_sig :: "string \<Rightarrow> rrsig" where
  "ex_sig k = \<lparr>sig_Name = ''.'', TypeCovered = TypeDNSKEY, sig_Algorithm = 8,
     sig_KeyTag = of_nat (length k), Expiration = 0, Signature = k\<rparr>"

definition ex_response :: "int \<Rightarrow> dnskey list \<Rightarrow> string \<Rightarrow> event" where
  "ex_response t ks signer = \<lparr>now = t, ev_keys = ks, ev_sigs = [ex_sig signer], persist1 = True, persist2 = True\<rparr>"

definition ex_boot :: rfc5011Manager where
  "ex_boot = projr (newRFC5011Manager ex_lib ex_key_lib 1 None True [ex_ksk ''a'' 257])"

lemma ex_boot_start: "newRFC5011Manager ex_lib ex_key_lib 1 None True [ex_ksk ''a'' 257] = Inr ex_boot"
  by code_simp

lemma usable_id_code [code]:
  "usable_id ks i = (case map_of ks i of None \<Rightarrow> False | Some item \<Rightarrow> usable item)"
  by (auto simp: usable_id_def split: option.splits)

lemma dead_id_code [code]:
  "dead_id ks i = (case map_of ks i of None \<Rightarrow> False | Some item \<Rightarrow> State item = Revoked \<or> State item = Removed)"
  by (auto simp: dead_id_def split: option.splits)

text \<open>The key \<open>b\<close> appears beside the configured \<open>a\<close> and is still there 30 days later; then \<open>a\<close> is revoked.\<close>

definition ex_seen :: event where
  "ex_seen = ex_response 10 [ex_ksk ''a'' 257, ex_ksk ''b'' 257] ''a''"

definition ex_held :: event where
  "ex_held = ex_response (10 + rfc5011AddHoldDown) [ex_ksk ''a'' 257, ex_ksk ''b'' 257] ''a''"

definition ex_revoked :: event where
  "ex_revoked = ex_response (20 + rfc5011AddHoldDown) [ex_ksk ''a'' (257 + 128), ex_ksk ''b'' 257] ''a''"

definition ex_later :: event where
  "ex_later = ex_response (30 + rfc5011AddHoldDown) [ex_ksk ''a'' 257, ex_ksk ''b'' 257] ''b''"

abbreviation ex_id :: "string \<Rightarrow> string" where
  "ex_id k \<equiv> rfc5011KeyID ex_lib ex_key_lib (ex_ksk k 257)"

abbreviation ex_run :: "event list \<Rightarrow> rfc5011Manager" where
  "ex_run evs \<equiv> run ex_lib ex_key_lib (\<lambda>_. False) evs ex_boot"

definition ex_item :: "dnskey \<Rightarrow> rfc5011State \<Rightarrow> int \<Rightarrow> int \<Rightarrow> int \<Rightarrow> string list \<Rightarrow> string \<times> rfc5011KeyState" where
  "ex_item k s first since hold vs =
     (rfc5011KeyID ex_lib ex_key_lib k,
      \<lparr>ID = rfc5011KeyID ex_lib ex_key_lib k, Key = ex_key_text k, State = s, FirstSeen = first,
       StateSince = since, HoldDown = hold, ValidatedBy = vs\<rparr>)"

definition ex_state :: "(string \<times> rfc5011KeyState) list \<Rightarrow> dnskey list \<Rightarrow> rfc5011Manager" where
  "ex_state ks as = \<lparr>keys = ks, anchors = as, disk = Some (map snd ks), lastRefreshDelay = rfc5011MinRefresh\<rparr>"

definition ex_m1 where "ex_m1 = ex_state [ex_item (ex_ksk ''a'' 257) Valid 0 1 0 [],
   ex_item (ex_ksk ''b'' 257) AddPending 10 10 rfc5011AddHoldDown [ex_id ''a'']] [ex_ksk ''a'' 257]"
definition ex_m2 where "ex_m2 = ex_state [ex_item (ex_ksk ''a'' 257) Valid 0 1 0 [],
   ex_item (ex_ksk ''b'' 257) Valid 10 (10 + rfc5011AddHoldDown) rfc5011AddHoldDown []] [ex_ksk ''a'' 257, ex_ksk ''b'' 257]"
definition ex_m3 where "ex_m3 = ex_state [ex_item (ex_ksk ''a'' (257+128)) Revoked 0 (20 + rfc5011AddHoldDown) 0 [],
   ex_item (ex_ksk ''b'' 257) Valid 10 (10 + rfc5011AddHoldDown) rfc5011AddHoldDown []] [ex_ksk ''b'' 257]"

lemma ex_step1: "process ex_lib ex_key_lib (\<lambda>_. False) ex_seen ex_boot = (None, ex_m1)" by code_simp
lemma ex_step2: "process ex_lib ex_key_lib (\<lambda>_. False) ex_held ex_m1 = (None, ex_m2)" by code_simp
lemma ex_step3: "process ex_lib ex_key_lib (\<lambda>_. False) ex_revoked ex_m2 = (None, ex_m3)" by code_simp

lemmas ex_steps = ex_step1 ex_step2 ex_step3

lemma ex_runs:
  "ex_run [ex_seen] = ex_m1" "ex_run [ex_seen, ex_held] = ex_m2" "ex_run [ex_seen, ex_held, ex_revoked] = ex_m3"
  by (simp_all add: run_def ex_steps)

lemma ex_run_usable:
  "usable_id (keys ex_m2) (ex_id ''b'')" "usable_id (keys ex_m2) (ex_id ''a'')"
  "usable_id (keys ex_m1) (ex_id ''a'')" "dead_id (keys ex_m3) (ex_id ''a'')"
  by code_simp+

lemma ex_ids: "ex_id ''b'' \<notin> rfc5011KeyID ex_lib ex_key_lib ` set [ex_ksk ''a'' 257]"
  by code_simp

lemma ex_root_event: "root_event ex_seen" "root_event ex_held" "root_event ex_revoked" "root_event ex_later"
  by code_simp+

lemma ex_reach: "rfc_reach ex_lib ex_key_lib (\<lambda>_. False) ex_m1" "rfc_reach ex_lib ex_key_lib (\<lambda>_. False) ex_m3"
proof -
  have "rfc_reach ex_lib ex_key_lib (\<lambda>_. False) ex_boot"
    using ex_boot_start by (rule rfc_reach.start) simp
  then show "rfc_reach ex_lib ex_key_lib (\<lambda>_. False) ex_m1" "rfc_reach ex_lib ex_key_lib (\<lambda>_. False) ex_m3"
    using run_reach[of ex_lib ex_key_lib "\<lambda>_. False" ex_boot "[ex_seen]"]
      run_reach[of ex_lib ex_key_lib "\<lambda>_. False" ex_boot "[ex_seen, ex_held, ex_revoked]"]
    by (simp_all add: ex_runs ex_root_event)
qed

theorem rfc5011_hold_down_witness:
  "\<exists>k j. accepted_after_hold_down ex_lib ex_key_lib (\<lambda>_. False) ex_boot [ex_seen, ex_held] (ex_id ''b'') k j"
  by (rule rfc5011_hold_down[OF ex_boot_start _ ex_ids]) (simp add: ex_runs ex_run_usable)


theorem rfc5011_restart_witness:
  "\<exists>items m2. disk ex_m2 = Some items \<and>
    newRFC5011Manager ex_lib ex_key_lib 5 (Some (1, items)) True [] = Inr m2 \<and>
    map_of (keys m2) = map_of (keys ex_m2) \<and>
    rfc5011KeyID ex_lib ex_key_lib ` set (anchors m2) = rfc5011KeyID ex_lib ex_key_lib ` set (anchors ex_m2)"
  using rfc5011_restart[OF ex_key_laws ex_reach(1) ex_root_event(2) ex_step2, of 5 True "[]"] by auto

lemma ex_pending:
  "map_of (keys ex_m1) (ex_id ''b'') =
     Some (snd (ex_item (ex_ksk ''b'' 257) AddPending 10 10 rfc5011AddHoldDown [ex_id ''a'']))"
  by code_simp

lemma ex_steady: "updates ex_lib ex_key_lib ex_held ex_m1" "carries ex_lib ex_key_lib ex_held (ex_id ''b'')"
  by code_simp+

theorem rfc5011_acceptance_witness:
  "usable_id (keys (run ex_lib ex_key_lib (\<lambda>_. False) ([] @ [ex_held]) ex_m1)) (ex_id ''b'') \<and>
   ex_id ''b'' \<in> rfc5011KeyID ex_lib ex_key_lib `
      set (anchors (run ex_lib ex_key_lib (\<lambda>_. False) ([] @ [ex_held]) ex_m1))"
proof -
  let ?run = "run ex_lib ex_key_lib (\<lambda>_. False) ([] @ [ex_held]) ex_m1"
  have "usable_id (keys ?run) (ex_id ''b'') \<and>
      (persist2 ex_held \<longrightarrow> ex_id ''b'' \<in> rfc5011KeyID ex_lib ex_key_lib ` set (anchors ?run))"
  proof (rule rfc5011_acceptance[OF ex_key_laws ex_reach(1) _ ex_pending _ _ ex_run_usable(3)])
    show "ex_id ''a'' \<in> set (ValidatedBy (snd (ex_item (ex_ksk ''b'' 257) AddPending 10 10 rfc5011AddHoldDown [ex_id ''a''])))"
      by (simp add: ex_item_def)
  qed (simp_all add: ex_root_event ex_steps run_def ex_run_usable ex_steady ex_item_def,
       simp add: ex_held_def ex_response_def)
  moreover have "persist2 ex_held" by (simp add: ex_held_def ex_response_def)
  ultimately show ?thesis by blast
qed

theorem refresh_timer_bounds_witness:
  "rfc5011MinRefresh \<le> next_delay 0 (rfc5011MinRefresh, Some NoMaterial) \<and>
   next_delay 0 (rfc5011MinRefresh, Some NoMaterial) \<le> rfc5011MaxRefresh \<and>
   (snd (rfc5011MinRefresh, Some NoMaterial) \<noteq> None \<longrightarrow>
      next_delay 0 (rfc5011MinRefresh, Some NoMaterial) \<le> rfc5011MaxRetry) \<and> delay_ok ex_m1"
  by (rule refresh_timer_bounds[of ex_m1 ex_lib ex_key_lib "\<lambda>_. False" None])
     (simp_all add: delay_ok_def refresh_def ex_m1_def ex_state_def rfc5011MinRefresh_def
       rfc5011MaxRefresh_def Hour_def Second_def)

end
