(* ===== verification/Hedge.thy ===== *)
theory Hedge
  imports Dns_Lib
begin

text \<open>
  The concurrent query of a delegation's servers, \<open>internal/resolver/hedge.go\<close>. An attempt is an
  argument: what \<open>queryNameserver\<close> returns for a server, and the world afterwards; its result is known
  to the model when it is launched and reported when the scheduler selects it. The scheduler chooses
  the branch of each \<open>select\<close>; \<open>canceled\<close> is \<open>ctx.Err() != nil\<close>.
\<close>

subsection \<open>Errors of the resolver\<close>

datatype resolver_error =
    ErrMaxIterations | ErrNoNameservers | Canceled | ExchangeError string | TCPRetryError
  | QuestionMismatch string | CaseMismatch string | RetryableRcode int
  | NameserverError string resolver_error | AllNameserversFailed resolver_error
  | AllForwardersFailed | ForwardOnlyFailed string resolver_error
  | AliasLoop string | AliasChainTooLong | Panic

type_synonym 'a result = "resolver_error + 'a"

subsection \<open>The selection loop\<close>

datatype hedge_event = Done | Tick | Report nat

record 'w scheduler =
  select :: "'w \<Rightarrow> hedge_event \<times> 'w"
  canceled :: "'w \<Rightarrow> bool"

record hedge =
  waiting :: "string list"
  active :: "(string \<times> dmsg result) list"
  armed :: bool
  lastErr :: "resolver_error option"

type_synonym 'w attempt = "'w \<Rightarrow> string \<Rightarrow> dmsg result \<times> 'w"

definition isRetryableNameserverResponse :: "dmsg \<Rightarrow> bool" where
  "isRetryableNameserverResponse m \<longleftrightarrow>
     m_rcode m = RcodeServerFailure \<or> m_rcode m = RcodeRefused \<or> m_rcode m = RcodeNotImplemented"

text \<open>What the goroutine of an attempt sends on the channel.\<close>

definition screen :: "string \<Rightarrow> dmsg result \<Rightarrow> dmsg result" where
  "screen ns r =
     (case r of
        Inl e \<Rightarrow> Inl (NameserverError ns e)
      | Inr m \<Rightarrow> if isRetryableNameserverResponse m then Inl (NameserverError ns (RetryableRcode (m_rcode m)))
                 else Inr m)"

definition launch :: "'w attempt \<Rightarrow> hedge \<times> 'w \<Rightarrow> hedge \<times> 'w" where
  "launch att = (\<lambda>(h, w).
     case waiting h of
       [] \<Rightarrow> (h, w)
     | ns # rest \<Rightarrow>
         let (r, w) = att w ns
         in (h\<lparr>waiting := rest, active := active h @ [(ns, screen ns r)]\<rparr>, w))"

lemma launch_waiting: "waiting (fst (launch att s)) = tl (waiting (fst s))"
  by (cases s) (auto simp: launch_def split: list.splits prod.splits)

text \<open>The loop of \<open>scheduleHedge\<close> when the hedge delay is 0.\<close>

function launch_all :: "nat \<Rightarrow> 'w attempt \<Rightarrow> hedge \<times> 'w \<Rightarrow> hedge \<times> 'w" where
  "launch_all parallelism att s =
     (if waiting (fst s) \<noteq> [] \<and> length (active (fst s)) < parallelism
      then launch_all parallelism att (launch att s) else s)"
  by auto
termination
  by (relation "measure (\<lambda>(_, _, s). length (waiting (fst s)))") (auto simp: launch_waiting)

declare launch_all.simps [simp del]

definition scheduleHedge :: "nat \<Rightarrow> bool \<Rightarrow> 'w attempt \<Rightarrow> hedge \<times> 'w \<Rightarrow> hedge \<times> 'w" where
  "scheduleHedge parallelism no_delay att = (\<lambda>(h, w).
     let h = h\<lparr>armed := False\<rparr> in
     if waiting h = [] \<or> length (active h) \<ge> parallelism then (h, w)
     else if no_delay then launch_all parallelism att (h, w)
     else (h\<lparr>armed := True\<rparr>, w))"

text \<open>
  One turn of the loop: a returned result or the next state. A timer event is possible only when the
  timer is armed; otherwise the select takes a report.
\<close>

definition on_report ::
  "nat \<Rightarrow> bool \<Rightarrow> 'w scheduler \<Rightarrow> 'w attempt \<Rightarrow> nat \<Rightarrow> hedge \<times> 'w \<Rightarrow> ((dmsg \<times> string) result + hedge) \<times> 'w" where
  "on_report parallelism no_delay sch att k = (\<lambda>(h, w).
     let i = k mod length (active h);
         (ns, r) = active h ! i;
         h = h\<lparr>active := take i (active h) @ drop (Suc i) (active h)\<rparr>
     in case r of
          Inr m \<Rightarrow> (Inl (Inr (m, ns)), w)
        | Inl e \<Rightarrow>
            let h = h\<lparr>lastErr := Some e\<rparr> in
            if canceled sch w then (Inl (Inl Canceled), w)
            else let (h, w) = (if waiting h \<noteq> [] then launch att (h, w) else (h, w));
                     (h, w) = scheduleHedge parallelism no_delay att (h, w)
                 in (Inr h, w))"

definition on_timer ::
  "nat \<Rightarrow> bool \<Rightarrow> 'w scheduler \<Rightarrow> 'w attempt \<Rightarrow> hedge \<times> 'w \<Rightarrow> ((dmsg \<times> string) result + hedge) \<times> 'w" where
  "on_timer parallelism no_delay sch att = (\<lambda>(h, w).
     let h = h\<lparr>armed := False\<rparr> in
     if canceled sch w then (Inl (Inl Canceled), w)
     else let (h, w) = (if waiting h \<noteq> [] \<and> length (active h) < parallelism then launch att (h, w)
                        else (h, w));
              (h, w) = scheduleHedge parallelism no_delay att (h, w)
          in (Inr h, w))"

definition hedge_step ::
  "nat \<Rightarrow> bool \<Rightarrow> 'w scheduler \<Rightarrow> 'w attempt \<Rightarrow> hedge \<times> 'w \<Rightarrow> ((dmsg \<times> string) result + hedge) \<times> 'w" where
  "hedge_step parallelism no_delay sch att = (\<lambda>(h, w).
     if active h = [] then (Inl (Inl (case lastErr h of None \<Rightarrow> ErrNoNameservers | Some e \<Rightarrow> e)), w)
     else let (ev, w) = select sch w in
       (case ev of
          Done \<Rightarrow> (Inl (Inl Canceled), w)
        | Tick \<Rightarrow> if armed h then on_timer parallelism no_delay sch att (h, w)
                  else on_report parallelism no_delay sch att 0 (h, w)
        | Report k \<Rightarrow> on_report parallelism no_delay sch att k (h, w)))"

subsection \<open>The loop ends\<close>

definition load :: "hedge \<Rightarrow> nat" where
  "load h = 2 * length (waiting h) + length (active h)"

definition hedge_measure :: "hedge \<Rightarrow> nat" where
  "hedge_measure h = 2 * load h + (if armed h then 1 else 0)"

lemma load_simps [simp]:
  "load (h\<lparr>armed := b\<rparr>) = load h" "load (h\<lparr>lastErr := e\<rparr>) = load h"
  by (simp_all add: load_def)

lemma launch_load: "waiting (fst s) \<noteq> [] \<Longrightarrow> load (fst (launch att s)) < load (fst s)"
  by (cases s) (auto simp: load_def launch_def split: list.splits prod.splits)

lemma launch_all_load: "load (fst (launch_all p att s)) \<le> load (fst s)"
proof (induction p att s rule: launch_all.induct)
  case (1 p att s)
  show ?case
  proof (cases "waiting (fst s) \<noteq> [] \<and> length (active (fst s)) < p")
    case True
    then show ?thesis using 1 launch_load[of s att] by (subst launch_all.simps) simp
  next
    case False then show ?thesis by (subst launch_all.simps) auto
  qed
qed

lemma launch_all_armed: "armed (fst (launch_all p att s)) = armed (fst s)"
proof (induction p att s rule: launch_all.induct)
  case (1 p att s)
  have "armed (fst (launch att s)) = armed (fst s)"
    by (cases s) (auto simp: launch_def split: list.splits prod.splits)
  then show ?case using 1 by (subst launch_all.simps) auto
qed

lemma schedule_measure: "hedge_measure (fst (scheduleHedge p nd att s)) \<le> 2 * load (fst s) + 1"
  using launch_all_load[of p att "((fst s)\<lparr>armed := False\<rparr>, snd s)"]
  by (cases s) (auto simp: scheduleHedge_def hedge_measure_def Let_def launch_all_armed)

lemma schedule_unarmed:
  "\<not> (waiting h \<noteq> [] \<and> length (active h) < p) \<Longrightarrow>
   scheduleHedge p nd att (h, w) = (h\<lparr>armed := False\<rparr>, w)"
  by (auto simp: scheduleHedge_def)

lemma on_report_measure:
  assumes "active h \<noteq> []" "on_report p nd sch att k (h, w) = (Inr h', w')"
  shows "hedge_measure h' < hedge_measure h"
proof -
  define i where "i = k mod length (active h)"
  have i: "i < length (active h)" using assms(1) by (simp add: i_def)
  obtain ns e where r: "active h ! i = (ns, Inl e)"
    using assms(2) by (cases "active h ! i"; cases "snd (active h ! i)") (auto simp: on_report_def i_def Let_def)
  let ?h = "h\<lparr>active := take i (active h) @ drop (Suc i) (active h), lastErr := Some e\<rparr>"
  let ?s = "if waiting h \<noteq> [] then launch att (?h, w) else (?h, w)"
  have "fst (scheduleHedge p nd att ?s) = h'"
    using assms(2) r by (auto simp: on_report_def i_def Let_def split: if_splits prod.splits)
  moreover have "load ?h < load h" using i by (auto simp: load_def)
  moreover have "load (fst ?s) \<le> load ?h" using launch_load[of "(?h, w)" att] by auto
  moreover have "hedge_measure h' \<le> 2 * load (fst ?s) + 1"
    using schedule_measure[of p nd att ?s] calculation(1) by metis
  ultimately show ?thesis unfolding hedge_measure_def[of h] by auto
qed

lemma on_timer_measure:
  assumes "armed h" "on_timer p nd sch att (h, w) = (Inr h', w')"
  shows "hedge_measure h' < hedge_measure h"
proof -
  let ?h = "h\<lparr>armed := False\<rparr>"
  show ?thesis
  proof (cases "waiting h \<noteq> [] \<and> length (active h) < p")
    case True
    then have "fst (scheduleHedge p nd att (launch att (?h, w))) = h'"
      using assms(2) by (auto simp: on_timer_def Let_def split: if_splits prod.splits)
    moreover have "load (fst (launch att (?h, w))) < load h" using launch_load[of "(?h, w)" att] True by simp
    moreover have "hedge_measure h' \<le> 2 * load (fst (launch att (?h, w))) + 1"
      using schedule_measure[of p nd att "launch att (?h, w)"] calculation(1) by metis
    ultimately show ?thesis unfolding hedge_measure_def[of h] by auto
  next
    case False
    then have "h' = ?h"
      using assms(2) schedule_unarmed[of ?h p nd att w]
      by (auto simp: on_timer_def Let_def split: if_splits prod.splits)
    then show ?thesis using assms(1) by (simp add: hedge_measure_def)
  qed
qed

lemma hedge_step_measure:
  assumes "hedge_step p nd sch att (h, w) = (Inr h', w')"
  shows "hedge_measure h' < hedge_measure h"
proof -
  obtain ev w1 where "select sch w = (ev, w1)" by fastforce
  then show ?thesis using assms on_report_measure[of h p nd sch att _ w1 h' w'] on_timer_measure[of h p nd sch att w1 h' w']
    by (auto simp: hedge_step_def split: if_splits hedge_event.splits)
qed

function hedge_loop ::
  "nat \<Rightarrow> bool \<Rightarrow> 'w scheduler \<Rightarrow> 'w attempt \<Rightarrow> hedge \<times> 'w \<Rightarrow> (dmsg \<times> string) result \<times> 'w" where
  "hedge_loop parallelism no_delay sch att s =
     (case hedge_step parallelism no_delay sch att s of
        (Inl r, w) \<Rightarrow> (r, w)
      | (Inr h, w) \<Rightarrow> hedge_loop parallelism no_delay sch att (h, w))"
  by auto
termination
  by (relation "measure (\<lambda>(_, _, _, _, s). hedge_measure (fst s))") (auto dest: hedge_step_measure[OF sym])

declare hedge_loop.simps [simp del]

definition queryNameservers ::
  "nat \<Rightarrow> bool \<Rightarrow> 'w scheduler \<Rightarrow> 'w attempt \<Rightarrow> 'w \<Rightarrow> string list \<Rightarrow> (dmsg \<times> string) result \<times> 'w" where
  "queryNameservers nameserverParallelism no_delay sch att w nameservers =
     (if length nameservers = 0 then (Inl ErrNoNameservers, w)
      else let parallelism = min nameserverParallelism (length nameservers);
               h = \<lparr>waiting = nameservers, active = [], armed = False, lastErr = None\<rparr>
           in hedge_loop parallelism no_delay sch att
                (scheduleHedge parallelism no_delay att (launch att (h, w))))"

end
