(* ===== verification/Resolver.thy ===== *)
theory Resolver
  imports Hedge Acl "HOL-Library.AList" "HOL-Library.Product_Lexorder" "HOL-Library.List_Lexorder" "HOL-Library.Char_ord"
begin

text \<open>
  The recursive resolver, \<open>internal/resolver/recursive.go\<close>, with the hardening functions of
  \<open>internal/engine/security.go\<close>. What lies outside is the world of type \<open>'w\<close> and the record \<open>network\<close> that
  acts on it: an exchange with a server over UDP or TCP, the random bits, the scheduler of
  \<open>Hedge\<close>. So the answers may depend on everything that happened before.
\<close>

subsection \<open>Hardening, \<open>internal/engine/security.go\<close>\<close>

text \<open>
  The random bits are a list, read in order; a failing source is the bit \<open>False\<close>, the code's fallback.
  Names are ASCII, so a rune is a character.
\<close>

fun Apply0x20Encoding :: "bool list \<Rightarrow> string \<Rightarrow> string" where
  "Apply0x20Encoding bits [] = []"
| "Apply0x20Encoding bits (c # cs) =
     (let n = (of_char c :: nat); bit = (bits \<noteq> [] \<and> hd bits) in
      if 97 \<le> n \<and> n \<le> 122 then (if bit then char_of (n - 32) else c) # Apply0x20Encoding (tl bits) cs
      else if 65 \<le> n \<and> n \<le> 90 then (if bit then char_of (n + 32) else c) # Apply0x20Encoding (tl bits) cs
      else c # Apply0x20Encoding bits cs)"

definition Validate0x20Response :: "string \<Rightarrow> string \<Rightarrow> bool" where
  "Validate0x20Response queryName responseName \<longleftrightarrow> queryName = responseName"

definition filterInBailiwick :: "dns_lib \<Rightarrow> rr list \<Rightarrow> string \<Rightarrow> rr list" where
  "filterInBailiwick L rrs zone =
     concat (map (\<lambda>r. (if IsSubDomain L zone (to_lower (rr_name r)) then [r] else []) @
                      (if rr_type r = TypeOPT then [r] else [])) rrs)"

definition ScrubResponse :: "dns_lib \<Rightarrow> dmsg \<Rightarrow> string \<Rightarrow> dmsg" where
  "ScrubResponse L msg zone =
     (if zone = [] then msg
      else let zone = Fqdn L (to_lower zone)
           in msg\<lparr>m_ns := filterInBailiwick L (m_ns msg) zone, m_extra := filterInBailiwick L (m_extra msg) zone\<rparr>)"

definition IsInBailiwick :: "dns_lib \<Rightarrow> string \<Rightarrow> string \<Rightarrow> bool" where
  "IsInBailiwick L name zone = IsSubDomain L (to_lower (Fqdn L zone)) (to_lower (Fqdn L name))"

definition ApplyQNAMEMinimization :: "dns_lib \<Rightarrow> string \<Rightarrow> string \<Rightarrow> string" where
  "ApplyQNAMEMinimization L fullName currentZone =
     (let fullName = Fqdn L (to_lower fullName); currentZone = Fqdn L (to_lower currentZone) in
      if \<not> IsSubDomain L currentZone fullName \<or> fullName = currentZone then fullName
      else let fullLabels = SplitDomainName L fullName; zoneLabels = SplitDomainName L currentZone in
        if length fullLabels \<le> length zoneLabels then fullName
        else let targetLabelCount = length zoneLabels + 1 in
          if targetLabelCount > length fullLabels then fullName
          else Fqdn L (join_labels (drop (length fullLabels - targetLabelCount) fullLabels)))"

definition HardenGlue :: "dns_lib \<Rightarrow> rr list \<Rightarrow> string \<Rightarrow> string list \<Rightarrow> rr list" where
  "HardenGlue L glueRecords delegatedZone nsNames =
     (let delegatedZone = Fqdn L (to_lower delegatedZone);
          nsSet = map (\<lambda>ns. to_lower (Fqdn L ns)) nsNames
      in filter (\<lambda>r. to_lower (rr_name r) \<in> set nsSet \<and> IsSubDomain L delegatedZone (to_lower (rr_name r)))
           glueRecords)"

subsection \<open>Configuration and network\<close>

record wire_query =
  wireName :: string
  wireType :: u16
  wireClass :: u16
  recursionDesired :: bool

record 'w network = "'w scheduler" +
  exchange :: "bool \<Rightarrow> 'w \<Rightarrow> string \<Rightarrow> wire_query \<Rightarrow> dmsg option \<times> 'w"
  flips :: "'w \<Rightarrow> bool list \<times> 'w"

datatype forward_mode = ForwardModeDirect | ForwardModeFirst | ForwardModeOnly

record forwardRule =
  suffix :: string
  servers :: "string list"
  fmode :: forward_mode

record config =
  MaxIterations :: nat
  NameserverParallelism :: nat
  zeroHedgeDelay :: bool
  QNAMEMinimization :: bool
  Enable0x20 :: bool
  EnableScrubbing :: bool
  forwardRules :: "forwardRule list"
  roots :: "string list"

subsection \<open>One query\<close>

text \<open>\<open>exchange tcp\<close> is \<open>ExchangeContext\<close>; \<open>None\<close> is its error.\<close>

definition check_response :: "config \<Rightarrow> string \<Rightarrow> string \<Rightarrow> u16 \<Rightarrow> u16 \<Rightarrow> string \<Rightarrow> dmsg \<Rightarrow> dmsg result" where
  "check_response cfg ns qname qtype qclass wname resp =
     (case m_question resp of
        [(name, t, c)] \<Rightarrow>
          if t \<noteq> qtype \<or> c \<noteq> qclass \<or> \<not> equal_fold name wname then Inl (QuestionMismatch ns)
          else if Enable0x20 cfg
          then (if \<not> Validate0x20Response wname name then Inl (CaseMismatch ns)
                else Inr (resp\<lparr>m_question := [(qname, t, c)]\<rparr>))
          else Inr resp
      | _ \<Rightarrow> Inl (QuestionMismatch ns))"

definition queryServer ::
  "config \<Rightarrow> 'w network \<Rightarrow> u16 \<Rightarrow> u16 \<Rightarrow> string \<Rightarrow> bool \<Rightarrow> 'w attempt" where
  "queryServer cfg net qtype qclass qname rd w ns =
     (let (bits, w) = (if Enable0x20 cfg then flips net w else ([], w));
          wname = (if Enable0x20 cfg then Apply0x20Encoding bits qname else qname);
          q = \<lparr>wireName = wname, wireType = qtype, wireClass = qclass, recursionDesired = rd\<rparr>
      in case exchange net False w ns q of
           (None, w) \<Rightarrow> (Inl (ExchangeError ns), w)
         | (Some resp, w) \<Rightarrow>
             if m_tc resp
             then (case exchange net True w ns q of
                     (None, w) \<Rightarrow> (Inl TCPRetryError, w)
                   | (Some resp, w) \<Rightarrow> (check_response cfg ns qname qtype qclass wname resp, w))
             else (check_response cfg ns qname qtype qclass wname resp, w))"

definition queryNameserver :: "config \<Rightarrow> 'w network \<Rightarrow> u16 \<Rightarrow> u16 \<Rightarrow> string \<Rightarrow> 'w attempt" where
  "queryNameserver cfg net qtype qclass qname = queryServer cfg net qtype qclass qname False"

definition query_all ::
  "config \<Rightarrow> 'w network \<Rightarrow> u16 \<Rightarrow> 'w \<Rightarrow> string list \<Rightarrow> string \<Rightarrow> u16 \<Rightarrow> (dmsg \<times> string) result \<times> 'w" where
  "query_all cfg net qclass w nameservers qname qtype =
     queryNameservers (NameserverParallelism cfg) (zeroHedgeDelay cfg) (scheduler.truncate net)
       (queryNameserver cfg net qtype qclass qname) w nameservers"

subsection \<open>Referrals\<close>

text \<open>\<open>findGlue\<close>: the first IPv4 address of the name, else its first IPv6 address in brackets.\<close>

fun find_v4 :: "rr list \<Rightarrow> string \<Rightarrow> ip option" where
  "find_v4 [] name = None"
| "find_v4 (r # rs) name =
     (case rr_data r of RA a \<Rightarrow> if rr_name r = name then Some a else find_v4 rs name | _ \<Rightarrow> find_v4 rs name)"

fun find_v6 :: "rr list \<Rightarrow> string \<Rightarrow> ip option" where
  "find_v6 [] name = None"
| "find_v6 (r # rs) name =
     (case rr_data r of RAAAA a \<Rightarrow> if rr_name r = name then Some a else find_v6 rs name | _ \<Rightarrow> find_v6 rs name)"

definition findGlue :: "rr list \<Rightarrow> string \<Rightarrow> string" where
  "findGlue extra nsName =
     (case find_v4 extra nsName of
        Some a \<Rightarrow> IP_String a
      | None \<Rightarrow> (case find_v6 extra nsName of Some a \<Rightarrow> ''['' @ IP_String a @ '']'' | None \<Rightarrow> []))"

text \<open>The NS records that may be followed: owner and server name.\<close>

definition ns_records :: "dns_lib \<Rightarrow> config \<Rightarrow> string \<Rightarrow> dmsg \<Rightarrow> (string \<times> string) list" where
  "ns_records L cfg currentZone resp =
     List.map_filter (\<lambda>r. case rr_data r of
         RNS target \<Rightarrow> if EnableScrubbing cfg \<and> \<not> IsInBailiwick L (rr_name r) currentZone then None
                       else Some (rr_name r, target)
       | _ \<Rightarrow> None) (m_ns resp)"

definition glue_servers :: "dns_lib \<Rightarrow> config \<Rightarrow> string \<Rightarrow> (string \<times> string) list \<Rightarrow> rr list \<Rightarrow> string list" where
  "glue_servers L cfg childZone nsRecords extra =
     (let glue = (if EnableScrubbing cfg then HardenGlue L extra childZone (map snd nsRecords) else extra)
      in List.map_filter (\<lambda>(_, ns). let ip = findGlue glue ns in if ip \<noteq> [] then Some (ip @ '':53'') else None) nsRecords)"

definition answer_servers :: "dmsg \<Rightarrow> string list" where
  "answer_servers resp =
     List.map_filter (\<lambda>r. case rr_data r of
         RA a \<Rightarrow> Some (IP_String a @ '':53'')
       | RAAAA a \<Rightarrow> Some (JoinHostPort (IP_String a) ''53'')
       | _ \<Rightarrow> None) (m_answer resp)"

text \<open>Resolving the addresses of name servers without glue; \<open>sub\<close> is the recursive call.\<close>

type_synonym 'w resolution = "'w \<Rightarrow> string \<Rightarrow> u16 \<Rightarrow> dmsg result \<times> 'w"

fun resolve_glue :: "'w resolution \<Rightarrow> 'w \<Rightarrow> (string \<times> string) list \<Rightarrow> string list \<times> 'w" where
  "resolve_glue sub w [] = ([], w)"
| "resolve_glue sub w ((_, ns) # rest) =
     (let (found, w) =
        (case sub w ns TypeA of
           (Inr m, w) \<Rightarrow> (answer_servers m, w)
         | (Inl _, w) \<Rightarrow>
             (case sub w ns TypeAAAA of
                (Inr m, w) \<Rightarrow> (answer_servers m, w)
              | (Inl _, w) \<Rightarrow> ([], w)));
          (more, w) = resolve_glue sub w rest
      in (found @ more, w))"

subsection \<open>Iterative resolution\<close>

datatype hop = Return "dmsg result" | Follow "string list" string

text \<open>
  The query of one iteration: with minimisation a shorter name of type A, asked again in full when the
  answer is an empty NOERROR. The result carries the name that was sent last.
\<close>

definition ask ::
  "dns_lib \<Rightarrow> config \<Rightarrow> 'w network \<Rightarrow> u16 \<Rightarrow> string list \<Rightarrow> string \<Rightarrow> 'w \<Rightarrow> string \<Rightarrow> u16 \<Rightarrow>
   (dmsg \<times> string) result \<times> 'w" where
  "ask L cfg net qclass nameservers currentZone w qname qtype =
     (let sendName = (if QNAMEMinimization cfg then ApplyQNAMEMinimization L qname currentZone else qname);
          sendType = (if QNAMEMinimization cfg \<and> sendName \<noteq> qname then TypeA else qtype)
      in case query_all cfg net qclass w nameservers sendName sendType of
           (Inl e, w) \<Rightarrow> (Inl (AllNameserversFailed e), w)
         | (Inr (resp, respondingNS), w) \<Rightarrow>
             if QNAMEMinimization cfg \<and> sendName \<noteq> qname \<and> length (m_answer resp) = 0 \<and>
                m_rcode resp = RcodeSuccess \<and> length (m_ns resp) = 0
             then (case queryNameserver cfg net qtype qclass qname w respondingNS of
                     (Inr resp, w) \<Rightarrow> (Inr (resp, qname), w)
                   | (Inl _, w) \<Rightarrow>
                       (case query_all cfg net qclass w nameservers qname qtype of
                          (Inl e, w) \<Rightarrow> (Inl (AllNameserversFailed e), w)
                        | (Inr (resp, _), w) \<Rightarrow> (Inr (resp, qname), w)))
             else (Inr (resp, sendName), w))"

text \<open>What is done with the response; \<open>remaining\<close> is \<open>budget - iterations\<close>.\<close>

definition follow ::
  "dns_lib \<Rightarrow> config \<Rightarrow> nat \<Rightarrow> 'w resolution \<Rightarrow> string list \<Rightarrow> string \<Rightarrow> 'w \<Rightarrow> string \<Rightarrow> dmsg \<Rightarrow> string \<Rightarrow> hop \<times> 'w" where
  "follow L cfg remaining sub nameservers currentZone w qname resp sendName =
     (if length (m_answer resp) > 0 \<and> sendName \<noteq> qname
      then (Follow nameservers (Fqdn L (to_lower sendName)), w)
      else if length (m_answer resp) > 0 then (Return (Inr resp), w)
      else if m_rcode resp = RcodeNameError then (Return (Inr resp), w)
      else if length (m_ns resp) > 0 then
        (case ns_records L cfg currentZone resp of
           [] \<Rightarrow> (Return (Inl ErrNoNameservers), w)
         | (owner, ns) # others \<Rightarrow>
             let nsRecords = (owner, ns) # others;
                 childZone = Fqdn L (to_lower owner);
                 glued = glue_servers L cfg childZone nsRecords (m_extra resp);
                 (newNameservers, w) =
                   (if length glued = 0 \<and> remaining > 0 then resolve_glue sub w nsRecords else (glued, w))
             in if length newNameservers = 0 then (Return (Inl ErrNoNameservers), w)
                else (Follow newNameservers childZone, w))
      else (Return (Inr resp), w))"

text \<open>
  \<open>resolveIterativeWithBudget\<close>: the first argument is what is left of the budget. A name server's
  address is resolved from the root with the rest of the budget.
\<close>

primrec iterate ::
  "nat \<Rightarrow> dns_lib \<Rightarrow> config \<Rightarrow> 'w network \<Rightarrow> u16 \<Rightarrow> string list \<Rightarrow> string \<Rightarrow> 'w resolution" where
  "iterate 0 L cfg net qclass nameservers currentZone w qname qtype = (Inl ErrMaxIterations, w)"
| "iterate (Suc n) L cfg net qclass nameservers currentZone w qname qtype =
     (case ask L cfg net qclass nameservers currentZone w qname qtype of
        (Inl e, w) \<Rightarrow> (Inl e, w)
      | (Inr (resp, sendName), w) \<Rightarrow>
          (case follow L cfg n (iterate n L cfg net qclass (roots cfg) ''.'')
                  nameservers currentZone w qname resp sendName of
             (Return r, w) \<Rightarrow> (r, w)
           | (Follow ns zone, w) \<Rightarrow> iterate n L cfg net qclass ns zone w qname qtype))"

definition resolveIterativeWithBudget ::
  "dns_lib \<Rightarrow> config \<Rightarrow> 'w network \<Rightarrow> u16 \<Rightarrow> nat \<Rightarrow> 'w resolution" where
  "resolveIterativeWithBudget L cfg net qclass budget = iterate budget L cfg net qclass (roots cfg) ''.''"

definition resolveIterative :: "dns_lib \<Rightarrow> config \<Rightarrow> 'w network \<Rightarrow> u16 \<Rightarrow> 'w resolution" where
  "resolveIterative L cfg net qclass = resolveIterativeWithBudget L cfg net qclass (MaxIterations cfg)"

subsection \<open>Forwarding\<close>

definition forwardRuleFor :: "dns_lib \<Rightarrow> config \<Rightarrow> string \<Rightarrow> forwardRule option" where
  "forwardRuleFor L cfg qname =
     List.find (\<lambda>rule. IsSubDomain L (suffix rule) (to_lower (Fqdn L qname))) (forwardRules cfg)"

text \<open>The forwarders in turn from \<open>start\<close>; the counter is part of the resolver's state.\<close>

fun try_forwarders ::
  "config \<Rightarrow> 'w network \<Rightarrow> u16 \<Rightarrow> u16 \<Rightarrow> string \<Rightarrow> string list \<Rightarrow> 'w \<Rightarrow> dmsg result \<times> 'w" where
  "try_forwarders cfg net qtype qclass qname [] w = (Inl AllForwardersFailed, w)"
| "try_forwarders cfg net qtype qclass qname (server # rest) w =
     (case queryServer cfg net qtype qclass qname True w server of
        (Inr response, w) \<Rightarrow>
          if m_rcode response \<noteq> RcodeServerFailure \<and> m_rcode response \<noteq> RcodeRefused then (Inr response, w)
          else try_forwarders cfg net qtype qclass qname rest w
      | (Inl _, w) \<Rightarrow> try_forwarders cfg net qtype qclass qname rest w)"

definition queryForwarders ::
  "config \<Rightarrow> 'w network \<Rightarrow> u16 \<Rightarrow> string list \<Rightarrow> u64 \<times> 'w \<Rightarrow> string \<Rightarrow> u16 \<Rightarrow> dmsg result \<times> u64 \<times> 'w" where
  "queryForwarders cfg net qclass upstreams = (\<lambda>(cursor, w) qname qtype.
     if length upstreams = 0 then (Inl ErrNoNameservers, cursor, w)
     else let start = unat cursor mod length upstreams;
              (r, w) = try_forwarders cfg net qtype qclass qname (rotate start upstreams) w
          in (r, cursor + 1, w))"

definition resolveUpstream ::
  "dns_lib \<Rightarrow> config \<Rightarrow> 'w network \<Rightarrow> u16 \<Rightarrow> (u64 \<times> 'w) resolution" where
  "resolveUpstream L cfg net qclass s qname qtype =
     (let direct = (\<lambda>(cursor, w). let (r, w) = resolveIterative L cfg net qclass w qname qtype in (r, cursor, w)) in
      case forwardRuleFor L cfg qname of
        None \<Rightarrow> direct s
      | Some rule \<Rightarrow>
          (case queryForwarders cfg net qclass (servers rule) s qname qtype of
             (Inr response, s) \<Rightarrow> (Inr response, s)
           | (Inl e, s) \<Rightarrow>
               if fmode rule = ForwardModeOnly then (Inl (ForwardOnlyFailed (suffix rule) e), s) else direct s))"

subsection \<open>Alias chains\<close>

definition maxAliasChain :: nat where "maxAliasChain = 16"

fun first_cname :: "rr list \<Rightarrow> string \<Rightarrow> string option" where
  "first_cname [] current = None"
| "first_cname (r # rs) current =
     (case rr_data r of
        RCNAME target \<Rightarrow> if equal_fold (rr_name r) current then Some target else first_cname rs current
      | _ \<Rightarrow> first_cname rs current)"

text \<open>The DNAME with the longest owner strictly above the name, the first one among equals.\<close>

fun best_dname :: "dns_lib \<Rightarrow> string \<Rightarrow> rr option \<Rightarrow> rr list \<Rightarrow> rr option" where
  "best_dname L current best [] = best"
| "best_dname L current best (r # rs) =
     (case rr_data r of
        RDNAME _ \<Rightarrow>
          if equal_fold (rr_name r) current \<or> \<not> IsSubDomain L (rr_name r) current
          then best_dname L current best rs
          else if (case best of None \<Rightarrow> True | Some b \<Rightarrow> length (rr_name r) > length (rr_name b))
          then best_dname L current (Some r) rs else best_dname L current best rs
      | _ \<Rightarrow> best_dname L current best rs)"

text \<open>
  The target (empty for none) and the synthesized CNAME. \<open>None\<close> is the panic of the slice when the owner
  is longer than the name.
\<close>

definition aliasTarget :: "dns_lib \<Rightarrow> rr list \<Rightarrow> string \<Rightarrow> (string \<times> rr option) option" where
  "aliasTarget L answer current =
     (case first_cname answer current of
        Some target \<Rightarrow> Some (target, None)
      | None \<Rightarrow>
          (case best_dname L current None answer of
             None \<Rightarrow> Some ([], None)
           | Some best \<Rightarrow>
               if length (rr_name best) > length current then None
               else let prefix = take (length current - length (rr_name best)) current;
                        target = prefix @ (case rr_data best of RDNAME t \<Rightarrow> t | _ \<Rightarrow> [])
                    in Some (target, Some \<lparr>rr_name = current, rr_type = TypeCNAME, rr_class = rr_class best,
                                           rr_ttl = rr_ttl best, rr_data = RCNAME target\<rparr>)))"

primrec follow_chain ::
  "nat \<Rightarrow> dns_lib \<Rightarrow> 's resolution \<Rightarrow> u16 \<Rightarrow> dmsg \<Rightarrow> string \<Rightarrow> string list \<Rightarrow> 's \<Rightarrow> dmsg result \<times> 's" where
  "follow_chain 0 L up qtype combined current seen s = (Inl AliasChainTooLong, s)"
| "follow_chain (Suc n) L up qtype combined current seen s =
     (case aliasTarget L (m_answer combined) current of
        None \<Rightarrow> (Inl Panic, s)
      | Some (target, synthesized) \<Rightarrow>
          if target = [] then (Inr combined, s)
          else
            let combined = (case synthesized of None \<Rightarrow> combined
                            | Some r \<Rightarrow> combined\<lparr>m_answer := m_answer combined @ [r]\<rparr>);
                target = Fqdn L (to_lower target)
            in if target \<in> set seen then (Inl (AliasLoop target), s)
               else (case up s target qtype of
                       (Inl e, s) \<Rightarrow> (Inl e, s)
                     | (Inr next, s) \<Rightarrow>
                         follow_chain n L up qtype
                           (combined\<lparr>m_answer := m_answer combined @ m_answer next, m_ns := m_ns next,
                                     m_extra := m_extra next, m_rcode := m_rcode next\<rparr>)
                           target (target # seen) s))"

definition followAliases ::
  "dns_lib \<Rightarrow> 's resolution \<Rightarrow> dmsg \<Rightarrow> 's resolution" where
  "followAliases L up initial s qname qtype =
     (if qtype = TypeCNAME \<or> qtype = TypeDNAME then (Inr initial, s)
      else let current = Fqdn L (to_lower qname)
           in follow_chain maxAliasChain L up qtype initial current [current] s)"

subsection \<open>Lifetimes\<close>

definition min_ttl :: "u32 \<Rightarrow> rr list \<Rightarrow> u32" where
  "min_ttl t rrs = fold (\<lambda>r t. if rr_ttl r < t then rr_ttl r else t) rrs t"

definition negative_ttl :: "rr \<Rightarrow> u32 option" where
  "negative_ttl r =
     (case rr_data r of
        RSOA soa \<Rightarrow>
          (let ttl = Minttl soa;
               ttl = (if rr_ttl r < ttl then rr_ttl r else ttl);
               ttl = (if ttl < 10 then 10 else ttl);
               ttl = (if ttl > 10800 then 10800 else ttl)
           in Some ttl)
      | _ \<Rightarrow> None)"

definition getTTL :: "dmsg \<Rightarrow> u32" where
  "getTTL msg =
     (if m_rcode msg = RcodeNameError \<or> (m_rcode msg = RcodeSuccess \<and> length (m_answer msg) = 0)
      then (case List.map_filter negative_ttl (m_ns msg) of ttl # _ \<Rightarrow> ttl | [] \<Rightarrow> 300)
      else min_ttl 3600 (m_answer msg))"

text \<open>Times in nanoseconds.\<close>

definition ageCachedTTLs :: "int \<Rightarrow> int \<Rightarrow> dmsg \<Rightarrow> dmsg" where
  "ageCachedTTLs now expiresAt msg =
     (let d = expiresAt - now;
          remaining = (if d > 0 then word_of_int (d div 1000000000) else 0 :: u32);
          age = map (\<lambda>r. if rr_type r \<noteq> TypeOPT \<and> rr_ttl r > remaining then r\<lparr>rr_ttl := remaining\<rparr> else r)
      in msg\<lparr>m_answer := age (m_answer msg), m_ns := age (m_ns msg), m_extra := age (m_extra msg)\<rparr>)"

text \<open>The SOA owner of the authority section, else the NS owner, else the root.\<close>

definition extractZoneFromResponse :: "dmsg \<Rightarrow> string" where
  "extractZoneFromResponse resp =
     (case filter (\<lambda>r. is_RSOA (rr_data r)) (m_ns resp) of
        soa # _ \<Rightarrow> rr_name soa
      | [] \<Rightarrow> (case filter (\<lambda>r. case rr_data r of RNS _ \<Rightarrow> True | _ \<Rightarrow> False) (m_ns resp) of
                 ns # _ \<Rightarrow> rr_name ns | [] \<Rightarrow> ''.''))"

subsection \<open>Forwarding rules\<close>

text \<open>\<open>net.SplitHostPort\<close> and \<open>strconv.Atoi\<close>, beside the address parsers; \<open>None\<close> is their error.\<close>

record host_parsers = parsers +
  SplitHostPort :: "string \<Rightarrow> (string \<times> string) option"
  Atoi :: "string \<Rightarrow> int option"

definition normalizeForwarderAddress :: "host_parsers \<Rightarrow> string \<Rightarrow> string option" where
  "normalizeForwarderAddress P address =
     (let address = TrimSpace address in
      case SplitHostPort P address of
        None \<Rightarrow> map_option (\<lambda>ip. JoinHostPort (IP_String ip) ''53'') (ParseIP P (trim_set {CHR ''['', CHR '']''} address))
      | Some (host, port) \<Rightarrow>
          (case ParseIP P (trim_set {CHR ''['', CHR '']''} host) of
             None \<Rightarrow> None
           | Some ip \<Rightarrow>
               (case Atoi P port of
                  None \<Rightarrow> None
                | Some n \<Rightarrow> if n < 1 \<or> n > 65535 then None else Some (JoinHostPort (IP_String ip) port))))"

definition normalizeForwardMode :: "string \<Rightarrow> forward_mode \<Rightarrow> forward_mode option" where
  "normalizeForwardMode mode fallback =
     (let mode = to_lower (TrimSpace mode) in
      if mode = [] then Some fallback
      else let mode = map (\<lambda>c. if c = CHR ''_'' then CHR ''-'' else c) mode in
        if mode = ''direct'' \<or> mode = ''iterative'' then Some ForwardModeDirect
        else if mode = ''first'' \<or> mode = ''forward-first'' then Some ForwardModeFirst
        else if mode = ''only'' \<or> mode = ''forward-only'' then Some ForwardModeOnly
        else None)"

datatype forward_error =
    BadGlobalMode | DuplicateSuffix string | NoUpstreams string | BadUpstream string | BadZoneMode string
  | DirectZoneMode string | NeedsGlobalForwarders | NeedsForwardMode

record forward_config =
  ForwardMode :: string
  Forwarders :: "string list"
  ConditionalForwarders :: "(string \<times> string list) list"
  ForwardZoneModes :: "string \<Rightarrow> string"

text \<open>
  One configured suffix. Go ranges over the map of suffixes in any order; a missing entry of
  \<open>ForwardZoneModes\<close> reads as the empty string.
\<close>

definition forward_rule ::
  "dns_lib \<Rightarrow> host_parsers \<Rightarrow> forward_config \<Rightarrow> forward_mode \<Rightarrow> string list \<Rightarrow> string \<times> string list \<Rightarrow>
   forward_error + forwardRule" where
  "forward_rule L P fc globalMode seen = (\<lambda>(configuredSuffix, configuredServers).
     let sfx = (if TrimSpace configuredSuffix \<noteq> [] then to_lower (Fqdn L (TrimSpace configuredSuffix)) else ''.'') in
     if sfx \<in> set seen then Inl (DuplicateSuffix sfx)
     else if length configuredServers = 0 then Inl (NoUpstreams sfx)
     else if None \<in> set (map (normalizeForwarderAddress P) configuredServers) then Inl (BadUpstream sfx)
     else let upstreams = map (the \<circ> normalizeForwarderAddress P) configuredServers in
       if sfx = ''.'' then Inr \<lparr>suffix = sfx, servers = upstreams, fmode = globalMode\<rparr>
       else if ForwardZoneModes fc sfx \<noteq> [] then
         (case normalizeForwardMode (ForwardZoneModes fc sfx) ForwardModeOnly of
            None \<Rightarrow> Inl (BadZoneMode sfx)
          | Some ForwardModeDirect \<Rightarrow> Inl (DirectZoneMode sfx)
          | Some mode \<Rightarrow> Inr \<lparr>suffix = sfx, servers = upstreams, fmode = mode\<rparr>)
       else Inr \<lparr>suffix = sfx, servers = upstreams, fmode = ForwardModeOnly\<rparr>)"

fun forward_rules ::
  "dns_lib \<Rightarrow> host_parsers \<Rightarrow> forward_config \<Rightarrow> forward_mode \<Rightarrow> forwardRule list \<Rightarrow> (string \<times> string list) list \<Rightarrow>
   forward_error + forwardRule list" where
  "forward_rules L P fc globalMode rules [] = Inr rules"
| "forward_rules L P fc globalMode rules (c # cs) =
     (case forward_rule L P fc globalMode (map suffix rules) c of
        Inl e \<Rightarrow> Inl e
      | Inr rule \<Rightarrow> forward_rules L P fc globalMode (rules @ [rule]) cs)"

text \<open>More labels first, then by suffix.\<close>

definition rule_key :: "dns_lib \<Rightarrow> forwardRule \<Rightarrow> int \<times> string" where
  "rule_key L rule = (- int (CountLabel L (suffix rule)), suffix rule)"

definition normalizeForwardRules ::
  "dns_lib \<Rightarrow> host_parsers \<Rightarrow> forward_config \<Rightarrow> forward_error + forwardRule list" where
  "normalizeForwardRules L P fc =
     (case normalizeForwardMode (ForwardMode fc) ForwardModeDirect of
        None \<Rightarrow> Inl BadGlobalMode
      | Some globalMode \<Rightarrow>
          let configuredRules = (if length (Forwarders fc) > 0
                then AList.update [] (Forwarders fc) (ConditionalForwarders fc) else ConditionalForwarders fc)
          in case forward_rules L P fc globalMode [] configuredRules of
               Inl e \<Rightarrow> Inl e
             | Inr rules \<Rightarrow>
                 let hasGlobal = list_ex (\<lambda>r. suffix r = ''.'') rules in
                 if globalMode \<noteq> ForwardModeDirect \<and> \<not> hasGlobal then Inl NeedsGlobalForwarders
                 else if globalMode = ForwardModeDirect \<and> hasGlobal then Inl NeedsForwardMode
                 else Inr (sort_key (rule_key L) rules))"

end
