(* ===== verification/Hedge_Props.thy ===== *)
theory Hedge_Props
  imports Hedge
begin

text \<open>
  What the hedged query guarantees whatever the scheduler does: servers are tried in order, each at
  most once and never more than the configured number at a time; the answer is that of one of them;
  a failure means that every one was tried. The locale states what is asked of an attempt: \<open>Q k\<close> holds
  of the world when the first \<open>k\<close> servers have been queried.
\<close>

lemma active_launch: "waiting (fst s) \<noteq> [] \<Longrightarrow> active (fst (launch att s)) \<noteq> []"
  by (cases s) (auto simp: launch_def split: list.splits prod.splits)

lemma active_launch_all: "active (fst s) \<noteq> [] \<Longrightarrow> active (fst (launch_all p att s)) \<noteq> []"
proof (induction p att s rule: launch_all.induct)
  case (1 p att s)
  then show ?case using active_launch[of s att] by (subst launch_all.simps) auto
qed

lemma schedule_active: "active (fst s) \<noteq> [] \<Longrightarrow> active (fst (scheduleHedge p nd att s)) \<noteq> []"
  using active_launch_all[of "((fst s)\<lparr>armed := False\<rparr>, snd s)" p att]
  by (cases s) (auto simp: scheduleHedge_def Let_def)

lemma schedule_idle: "waiting (fst s) = [] \<Longrightarrow> waiting (fst (scheduleHedge p nd att s)) = []"
  by (cases s) (simp add: scheduleHedge_def)

definition busy :: "hedge \<Rightarrow> bool" where
  "busy h \<longleftrightarrow> active h \<noteq> [] \<or> waiting h = []"

lemma screen_Inr: "screen ns r = Inr m \<Longrightarrow> r = Inr m \<and> \<not> isRetryableNameserverResponse m"
  by (auto simp: screen_def split: sum.splits if_splits)

definition hedge_inv ::
  "'w attempt \<Rightarrow> (nat \<Rightarrow> 'w \<Rightarrow> bool) \<Rightarrow> nat \<Rightarrow> string list \<Rightarrow> hedge \<times> 'w \<Rightarrow> bool" where
  "hedge_inv att Q p servers = (\<lambda>(h, w).
     \<exists>k \<le> length servers. waiting h = drop k servers \<and> Q k w \<and> length (active h) \<le> p \<and>
       (\<forall>(ns, r)\<in>set (active h). ns \<in> set servers \<and> (\<exists>w1. r = screen ns (fst (att w1 ns)))))"

text \<open>What may leave the loop: a report of some server, or an error.\<close>

definition hedge_exit ::
  "'w attempt \<Rightarrow> (nat \<Rightarrow> 'w \<Rightarrow> bool) \<Rightarrow> string list \<Rightarrow> (dmsg \<times> string) result \<Rightarrow> 'w \<Rightarrow> bool" where
  "hedge_exit att Q servers r w \<longleftrightarrow>
     (\<exists>k \<le> length servers. Q k w) \<and>
     (case r of
        Inr (m, ns) \<Rightarrow> ns \<in> set servers \<and> \<not> isRetryableNameserverResponse m \<and> (\<exists>w1. fst (att w1 ns) = Inr m)
      | Inl e \<Rightarrow> e = Canceled \<or> Q (length servers) w)"

lemma inv_fields:
  "hedge_inv att Q p servers (h, w) \<Longrightarrow> hedge_inv att Q p servers (h\<lparr>armed := b\<rparr>, w)"
  by (auto simp: hedge_inv_def)

locale hedged =
  fixes att :: "'w attempt" and sch :: "'w scheduler" and Q :: "nat \<Rightarrow> 'w \<Rightarrow> bool" and servers :: "string list"
  assumes att: "k < length servers \<Longrightarrow> Q k w \<Longrightarrow> Q (Suc k) (snd (att w (servers ! k)))"
    and sel: "Q k w \<Longrightarrow> Q k (snd (select sch w))"
begin

lemma launch_inv:
  assumes "hedge_inv att Q p servers s" "length (active (fst s)) < p"
  shows "hedge_inv att Q p servers (launch att s)"
proof (cases "waiting (fst s)")
  case Nil then show ?thesis using assms(1) by (cases s) (simp add: launch_def)
next
  case (Cons ns rest)
  obtain h w r w' where s: "s = (h, w)" "att w ns = (r, w')" by (metis surj_pair)
  obtain k where k: "k \<le> length servers" "waiting h = drop k servers" "Q k w"
    "\<forall>(ns, r)\<in>set (active h). ns \<in> set servers \<and> (\<exists>w1. r = screen ns (fst (att w1 ns)))"
    using assms(1) s by (auto simp: hedge_inv_def)
  have lt: "k < length servers" using k(1,2) Cons s by (cases "k = length servers") auto
  then have ns: "ns = servers ! k" "rest = drop (Suc k) servers"
    using k(2) Cons s by (auto simp: Cons_nth_drop_Suc[symmetric])
  then have "Q (Suc k) w'" using att[OF lt k(3)] s by simp
  moreover have "ns \<in> set servers" using ns lt by simp
  moreover have "\<exists>w1. screen ns r = screen ns (fst (att w1 ns))" using s(2) by (metis fst_conv)
  moreover have "launch att s = (h\<lparr>waiting := rest, active := active h @ [(ns, screen ns r)]\<rparr>, w')"
    using s Cons by (simp add: launch_def)
  ultimately show ?thesis using k(4) lt ns(2) assms(2) s
    by (auto simp: hedge_inv_def intro!: exI[of _ "Suc k"])
qed

lemma launch_all_inv: "hedge_inv att Q p servers s \<Longrightarrow> hedge_inv att Q p servers (launch_all p att s)"
proof (induction "length (waiting (fst s))" arbitrary: s rule: less_induct)
  case less
  show ?case
  proof (cases "waiting (fst s) \<noteq> [] \<and> length (active (fst s)) < p")
    case True
    then have "length (waiting (fst (launch att s))) < length (waiting (fst s))"
      by (simp add: launch_waiting)
    then show ?thesis using less True launch_inv by (subst launch_all.simps) simp
  next
    case False then show ?thesis using less.prems by (subst launch_all.simps) auto
  qed
qed

lemma schedule_inv:
  assumes "hedge_inv att Q p servers s"
  shows "hedge_inv att Q p servers (scheduleHedge p nd att s)"
proof (cases s)
  case (Pair h w)
  then show ?thesis using assms inv_fields[of att Q p servers h w]
    by (auto simp: scheduleHedge_def Let_def intro!: launch_all_inv)
qed

lemma continue_inv:
  assumes inv: "hedge_inv att Q p servers (h, w)"
    and room: "go \<Longrightarrow> length (active h) < p" and idle: "\<not> go \<Longrightarrow> busy h" and go: "go \<Longrightarrow> waiting h \<noteq> []"
  shows "hedge_inv att Q p servers (scheduleHedge p nd att (if go then launch att (h, w) else (h, w)))"
    "busy (fst (scheduleHedge p nd att (if go then launch att (h, w) else (h, w))))"
proof -
  have "hedge_inv att Q p servers (if go then launch att (h, w) else (h, w))"
    using launch_inv[OF inv] room inv by simp
  then show "hedge_inv att Q p servers (scheduleHedge p nd att (if go then launch att (h, w) else (h, w)))"
    by (rule schedule_inv)
  have "busy (fst (if go then launch att (h, w) else (h, w)))"
    using idle go active_launch[of "(h, w)" att] by (auto simp: busy_def)
  then show "busy (fst (scheduleHedge p nd att (if go then launch att (h, w) else (h, w))))"
    using schedule_active schedule_idle unfolding busy_def by metis
qed

lemma on_report_inv:
  assumes inv: "hedge_inv att Q p servers (h, w)" and "active h \<noteq> []"
    and step: "on_report p nd sch att k (h, w) = (r, w')"
  shows "case r of Inl res \<Rightarrow> hedge_exit att Q servers res w'
                 | Inr h' \<Rightarrow> hedge_inv att Q p servers (h', w') \<and> busy h'"
proof -
  define i where "i = k mod length (active h)"
  have i: "i < length (active h)" using assms(2) by (simp add: i_def)
  obtain ns x where x: "active h ! i = (ns, x)" by fastforce
  then have "(ns, x) \<in> set (active h)" using i by (metis nth_mem)
  then have mem: "ns \<in> set servers" "\<exists>w1. x = screen ns (fst (att w1 ns))"
    and pre: "\<exists>k \<le> length servers. Q k w"
    using inv by (auto simp: hedge_inv_def)
  show ?thesis
  proof (cases x)
    case (Inr m)
    then have "r = Inl (Inr (m, ns))" "w' = w" using step x by (auto simp: on_report_def i_def Let_def)
    then show ?thesis using mem pre Inr screen_Inr[of ns _ m] by (fastforce simp: hedge_exit_def)
  next
    case (Inl e)
    let ?h = "h\<lparr>active := take i (active h) @ drop (Suc i) (active h), lastErr := Some e\<rparr>"
    let ?s = "scheduleHedge p nd att (if waiting h \<noteq> [] then launch att (?h, w) else (?h, w))"
    show ?thesis
    proof (cases "canceled sch w")
      case True
      then show ?thesis using step x Inl pre
        by (auto simp: on_report_def i_def Let_def hedge_exit_def)
    next
      case False
      then have r: "(r, w') = (Inr (fst ?s), snd ?s)"
        using step x Inl by (auto simp: on_report_def i_def Let_def split: prod.splits)
      have "set (active ?h) \<subseteq> set (active h)"
        by (auto dest: in_set_takeD in_set_dropD)
      then have "hedge_inv att Q p servers (?h, w)"
        using inv i by (fastforce simp: hedge_inv_def)
      moreover have "length (active ?h) < p" using inv i by (auto simp: hedge_inv_def)
      ultimately show ?thesis
        using continue_inv[of p ?h w "waiting h \<noteq> []" nd] r
        by (simp add: busy_def)
    qed
  qed
qed

lemma on_timer_inv:
  assumes inv: "hedge_inv att Q p servers (h, w)" and "active h \<noteq> []"
    and step: "on_timer p nd sch att (h, w) = (r, w')"
  shows "case r of Inl res \<Rightarrow> hedge_exit att Q servers res w'
                 | Inr h' \<Rightarrow> hedge_inv att Q p servers (h', w') \<and> busy h'"
proof (cases "canceled sch w")
  case True
  then show ?thesis using step inv
    by (auto simp: on_timer_def Let_def hedge_exit_def hedge_inv_def)
next
  case False
  let ?h = "h\<lparr>armed := False\<rparr>"
  let ?go = "waiting h \<noteq> [] \<and> length (active h) < p"
  let ?s = "scheduleHedge p nd att (if ?go then launch att (?h, w) else (?h, w))"
  have r: "(r, w') = (Inr (fst ?s), snd ?s)"
    using step False by (auto simp: on_timer_def Let_def split: prod.splits)
  have "hedge_inv att Q p servers (?h, w)" using inv by (rule inv_fields)
  then show ?thesis
    using continue_inv[of p ?h w ?go nd] r assms(2) by (simp add: busy_def)
qed

lemma hedge_loop_inv:
  "hedge_inv att Q p servers s \<Longrightarrow> busy (fst s) \<Longrightarrow> hedge_loop p nd sch att s = (r, w') \<Longrightarrow>
    hedge_exit att Q servers r w'"
proof (induction "hedge_measure (fst s)" arbitrary: s rule: less_induct)
  case less
  obtain h w where s: "s = (h, w)" by fastforce
  obtain x w2 where x: "hedge_step p nd sch att (h, w) = (x, w2)" by fastforce
  have step: "case x of Inl res \<Rightarrow> hedge_exit att Q servers res w2
                      | Inr h' \<Rightarrow> hedge_inv att Q p servers (h', w2) \<and> busy h'"
  proof (cases "active h = []")
    case True
    then have "waiting h = []" using less.prems(2) s by (simp add: busy_def)
    then have "Q (length servers) w" using less.prems(1) s by (auto simp: hedge_inv_def)
    then show ?thesis using x True by (auto simp: hedge_step_def hedge_exit_def)
  next
    case False
    obtain ev w1 where ev: "select sch w = (ev, w1)" by fastforce
    then have inv: "hedge_inv att Q p servers (h, w1)"
      using less.prems(1) s sel[of _ w] by (auto simp: hedge_inv_def)
    show ?thesis
      using x False ev on_report_inv[OF inv False] on_timer_inv[OF inv False] inv
      by (auto simp: hedge_step_def hedge_exit_def hedge_inv_def split: hedge_event.splits if_splits)
  qed
  show ?case
  proof (cases x)
    case (Inl res)
    then show ?thesis using step x s less.prems(3) by (subst (asm) hedge_loop.simps) simp
  next
    case (Inr h')
    then have "hedge_loop p nd sch att (h', w2) = (r, w')"
      using less.prems(3) x s by (subst (asm) hedge_loop.simps) simp
    moreover have "hedge_measure h' < hedge_measure (fst s)" using hedge_step_measure x Inr s by simp
    ultimately show ?thesis using less.hyps[of "(h', w2)"] step Inr by simp
  qed
qed

lemma outcome:
  assumes "0 < parallelism" "Q 0 w" "queryNameservers parallelism nd sch att w servers = (r, w')"
  shows "hedge_exit att Q servers r w'"
proof (cases "servers = []")
  case True then show ?thesis using assms(2,3) by (auto simp: queryNameservers_def hedge_exit_def)
next
  case False
  let ?p = "min parallelism (length servers)"
  let ?h = "\<lparr>waiting = servers, active = [], armed = False, lastErr = None\<rparr>"
  have p: "0 < ?p" using False assms(1) by simp
  have inv: "hedge_inv att Q ?p servers (?h, w)" using assms(2) by (auto simp: hedge_inv_def)
  have "hedge_loop ?p nd sch att (scheduleHedge ?p nd att (launch att (?h, w))) = (r, w')"
    using assms(3) False by (simp add: queryNameservers_def Let_def)
  moreover have "hedge_inv att Q ?p servers (scheduleHedge ?p nd att (launch att (?h, w)))"
    "busy (fst (scheduleHedge ?p nd att (launch att (?h, w))))"
    using continue_inv[of ?p ?h w True nd] inv p False by simp_all
  ultimately show ?thesis using hedge_loop_inv by blast
qed

end

text \<open>
  C34: the hedged query of a delegation. Whatever the scheduler does, the loop returns; the servers
  are queried in list order, each at most once; an answer is the non-retryable answer of one of them;
  and an error, other than the caller's cancellation, is returned only after every one was queried.
\<close>

theorem queryNameservers_outcome:
  assumes "\<And>w ns. seen (snd (att w ns)) = seen w @ [ns]" "\<And>w. seen (snd (select sch w)) = seen w"
    and "0 < parallelism" "queryNameservers parallelism nd sch att w servers = (r, w')"
  shows "(\<exists>k \<le> length servers. seen w' = seen w @ take k servers) \<and>
    (case r of
       Inr (m, ns) \<Rightarrow> ns \<in> set servers \<and> \<not> isRetryableNameserverResponse m \<and> (\<exists>w1. fst (att w1 ns) = Inr m)
     | Inl e \<Rightarrow> e = Canceled \<or> seen w' = seen w @ servers)"
proof -
  have "hedged att sch (\<lambda>k w1. seen w1 = seen w @ take k servers) servers"
    by unfold_locales (simp_all add: assms(1,2) take_Suc_conv_app_nth)
  from hedged.outcome[OF this assms(3) _ assms(4)] show ?thesis by (auto simp: hedge_exit_def split: sum.splits)
qed

end
