(* ===== verification/Resolver_Props.thy ===== *)
theory Resolver_Props
  imports Resolver Hedge_Props
begin

text \<open>
  What iterative resolution, alias chasing and forwarding guarantee for every behaviour of the network,
  and what a hostile delegation makes the resolver do.
\<close>

subsection \<open>Single queries\<close>

lemma check_response_Inr:
  assumes "check_response cfg ns qname qtype qclass wname resp = Inr m"
  shows "\<exists>n. m_question m = [(n, qtype, qclass)] \<and> (equal_fold n wname \<or> n = qname)"
  using assms unfolding check_response_def
  by (auto split: list.splits prod.splits if_splits)

lemma check_response_answer: "check_response cfg ns n t c wname resp = Inr m \<Longrightarrow> m_answer m = m_answer resp"
  unfolding check_response_def by (auto split: list.splits prod.splits if_splits)

lemma encoding_fold: "to_lower (Apply0x20Encoding bits s) = to_lower s"
proof (induction bits s rule: Apply0x20Encoding.induct)
  case (2 bits c cs)
  let ?n = "of_char c :: nat"
  have n: "?n < 256" by simp
  have up: "lower_char (char_of (?n - 32)) = lower_char c" if "97 \<le> ?n \<and> ?n \<le> 122"
    using that n by (auto simp: lower_char_def of_char_of)
  have low: "lower_char (char_of (?n + 32)) = lower_char c" if "65 \<le> ?n \<and> ?n \<le> 90"
    using that n by (auto simp: lower_char_def of_char_of)
  show ?case using 2 up low by (auto simp: to_lower_def Let_def)
qed simp

text \<open>The message answers the question, up to the case of the name.\<close>

definition answers_to :: "string \<Rightarrow> u16 \<Rightarrow> u16 \<Rightarrow> dmsg \<Rightarrow> bool" where
  "answers_to qname qtype qclass m \<longleftrightarrow> (\<exists>n. m_question m = [(n, qtype, qclass)] \<and> equal_fold n qname)"

lemma queryServer_answers:
  assumes "queryServer cfg net qtype qclass qname rd w ns = (Inr m, w')"
  shows "answers_to qname qtype qclass m"
proof -
  obtain wname resp where "check_response cfg ns qname qtype qclass wname resp = Inr m"
    "to_lower wname = to_lower qname"
    using assms by (auto simp: queryServer_def Let_def encoding_fold split: prod.splits option.splits if_splits)
  then show ?thesis
    using check_response_Inr[of cfg ns qname qtype qclass wname resp m]
    by (auto simp: answers_to_def equal_fold_def)
qed

interpretation query: hedged "queryNameserver cfg net qtype qclass qname" "scheduler.truncate net" "\<lambda>_ _. True" nss
  for cfg net qtype qclass qname nss
  by unfold_locales simp_all

lemma query_all_answers:
  assumes "0 < NameserverParallelism cfg" "query_all cfg net qclass w nss qname qtype = (Inr (m, ns), w')"
  shows "answers_to qname qtype qclass m"
proof -
  obtain w1 where "fst (queryNameserver cfg net qtype qclass qname w1 ns) = Inr m"
    using query.outcome[OF assms(1) _ assms(2)[unfolded query_all_def]] by (auto simp: hedge_exit_def)
  then show ?thesis using queryServer_answers by (metis queryNameserver_def prod.collapse)
qed

subsection \<open>Iterative resolution\<close>

lemma ask_answers:
  assumes "0 < NameserverParallelism cfg"
    and "ask L cfg net qclass nss zone w qname qtype = (Inr (m, qname), w')"
  shows "answers_to qname qtype qclass m"
proof -
  consider w1 w2 ns where "query_all cfg net qclass w1 nss qname qtype = (Inr (m, ns), w2)"
    | w1 w2 ns where "queryNameserver cfg net qtype qclass qname w1 ns = (Inr m, w2)"
    using assms(2) by (auto simp: ask_def Let_def split: sum.splits prod.splits if_splits)
  then show ?thesis
  proof cases
    case 1 then show ?thesis by (rule query_all_answers[OF assms(1)])
  next
    case 2 then show ?thesis unfolding queryNameserver_def by (rule queryServer_answers)
  qed
qed

lemma iterate_answers:
  assumes par: "0 < NameserverParallelism cfg"
  shows "iterate n L cfg net qclass nss zone w qname qtype = (Inr m, w') \<Longrightarrow>
    (m_answer m \<noteq> [] \<longrightarrow> answers_to qname qtype qclass m) \<and>
    (m_answer m = [] \<longrightarrow> m_rcode m = RcodeNameError \<or> m_ns m = [])"
proof (induction n arbitrary: nss zone w)
  case (Suc n)
  let ?sub = "iterate n L cfg net qclass (roots cfg) ''.''"
  obtain resp sendName w1 where a: "ask L cfg net qclass nss zone w qname qtype = (Inr (resp, sendName), w1)"
    using Suc.prems by (auto split: sum.splits prod.splits)
  obtain x w2 where f: "follow L cfg n ?sub nss zone w1 qname resp sendName = (x, w2)" by fastforce
  show ?case
  proof (cases x)
    case (Follow ns z)
    then show ?thesis using Suc a f by simp
  next
    case (Return r)
    then have m: "r = Inr m" using Suc.prems a f by simp
    have "resp = m" "sendName = qname \<or> m_answer m = []"
      "m_answer m = [] \<longrightarrow> m_rcode m = RcodeNameError \<or> m_ns m = []"
      using f Return m by (auto simp: follow_def Let_def split: if_splits list.splits prod.splits)
    then show ?thesis using ask_answers[OF par, of L net qclass nss zone w qname qtype m w1] a by auto
  qed
qed simp

text \<open>
  What iterative resolution returns. Whatever the network does, a message with answers that is
  returned was received for exactly the question (name up to case, type and class), never for a
  minimised name; and a message without answers is an NXDOMAIN or has an empty authority section. In
  particular a NODATA response with an SOA record is never returned.
\<close>

theorem resolveIterative_answers:
  assumes "0 < NameserverParallelism cfg"
    and "resolveIterative L cfg net qclass w qname qtype = (Inr m, w')"
  shows "(m_answer m \<noteq> [] \<longrightarrow> answers_to qname qtype qclass m) \<and>
    (m_answer m = [] \<longrightarrow> m_rcode m = RcodeNameError \<or> m_ns m = [])"
  using assms(2) unfolding resolveIterative_def resolveIterativeWithBudget_def
  by (rule iterate_answers[OF assms(1)])

subsection \<open>Mixed-case names\<close>

text \<open>The library's name functions keep a lower-case name lower-case.\<close>

definition lower_laws :: "dns_lib \<Rightarrow> bool" where
  "lower_laws L \<longleftrightarrow>
     (\<forall>s. to_lower s = s \<longrightarrow> to_lower (Fqdn L s) = Fqdn L s \<and> (\<forall>l\<in>set (SplitDomainName L s). to_lower l = l))"

lemma to_lower_append [simp]: "to_lower (a @ b) = to_lower a @ to_lower b"
  by (simp add: to_lower_def)

lemma to_lower_join: "\<forall>l\<in>set ls. to_lower l = l \<Longrightarrow> to_lower (join_labels ls) = join_labels ls"
  by (induction ls rule: join_labels.induct) (auto simp: to_lower_def lower_char_def)

lemma minimized_lower:
  assumes "lower_laws L"
  shows "to_lower (ApplyQNAMEMinimization L s z) = ApplyQNAMEMinimization L s z"
proof -
  have f: "to_lower (Fqdn L (to_lower t)) = Fqdn L (to_lower t)" for t
    using assms by (simp add: lower_laws_def)
  have "\<forall>l\<in>set (SplitDomainName L (Fqdn L (to_lower s))). to_lower l = l"
    using f[of s] assms unfolding lower_laws_def by blast
  then have "to_lower (join_labels (drop k (SplitDomainName L (Fqdn L (to_lower s)))))
      = join_labels (drop k (SplitDomainName L (Fqdn L (to_lower s))))" for k
    by (intro to_lower_join) (auto dest: in_set_dropD)
  then show ?thesis using f assms
    by (auto simp: ApplyQNAMEMinimization_def Let_def lower_laws_def)
qed

text \<open>
  A name with an upper-case letter is never equal to its minimised form, not even at the last hop: with
  minimisation on and servers that answer every query, its resolution always fails.
\<close>

theorem mixed_case_unresolved:
  assumes "0 < NameserverParallelism cfg" "QNAMEMinimization cfg" "lower_laws L" "to_lower qname \<noteq> qname"
    and answers: "\<And>tcp w ns q m w'. exchange net tcp w ns q = (Some m, w') \<Longrightarrow> m_answer m \<noteq> []"
  shows "\<exists>e. fst (resolveIterative L cfg net qclass w qname qtype) = Inl e"
proof -
  have q: "m_answer m \<noteq> []" if "queryServer cfg net t c n rd w ns = (Inr m, w')" for t c n rd w ns m w'
  proof -
    have "\<exists>wname resp. check_response cfg ns n t c wname resp = Inr m \<and>
        (\<exists>tcp w1 q w2. exchange net tcp w1 ns q = (Some resp, w2))"
      using that by (simp add: queryServer_def Let_def split: prod.splits option.splits if_splits) metis+
    then show ?thesis using answers check_response_answer by metis
  qed
  have all: "m_answer m \<noteq> []" if "query_all cfg net c w nss n t = (Inr (m, ns), w')" for c w nss n t m ns w'
    using query.outcome[OF assms(1) _ that[unfolded query_all_def]] q
    by (auto simp: hedge_exit_def queryNameserver_def) (metis prod.collapse)
  have "\<exists>e. fst (iterate n L cfg net qclass nss zone w qname qtype) = Inl e" for n nss zone w
  proof (induction n arbitrary: nss zone w)
    case (Suc n)
    let ?send = "ApplyQNAMEMinimization L qname zone"
    have "?send \<noteq> qname" using minimized_lower[OF assms(3), of qname zone] assms(4) by metis
    then show ?case using assms(2) all Suc
      by (auto simp: ask_def Let_def follow_def split: sum.splits prod.splits)
  qed simp
  then show ?thesis by (simp add: resolveIterative_def resolveIterativeWithBudget_def)
qed

subsection \<open>Referrals without glue\<close>

text \<open>
  A network in which every server answers every query with a referral to the names \<open>ks\<close> below the root,
  without addresses. The world counts the exchanges.
\<close>

definition referral :: "string list \<Rightarrow> wire_query \<Rightarrow> dmsg" where
  "referral ks q = \<lparr>m_question = [(wireName q, wireType q, wireClass q)], m_rcode = RcodeSuccess, m_tc = False,
     m_answer = [], m_ns = map (\<lambda>k. \<lparr>rr_name = ''.'', rr_type = TypeNS, rr_class = ClassINET, rr_ttl = 0,
       rr_data = RNS k\<rparr>) ks, m_extra = [],
     m_id = 0, m_rd = False, m_cd = False, m_ra = False, m_ad = False, m_aa = False\<rparr>"

definition referral_net :: "string list \<Rightarrow> nat network" where
  "referral_net ks = \<lparr>select = (\<lambda>w. (Report 0, w)), canceled = (\<lambda>_. False),
     exchange = (\<lambda>_ w _ q. (Some (referral ks q), w + 1)), flips = (\<lambda>w. ([], w))\<rparr>"

lemma referral_server:
  "\<exists>m. queryServer cfg (referral_net ks) t c n rd w ns = (Inr m, w + 1) \<and>
     m_answer m = [] \<and> m_rcode m = RcodeSuccess \<and> m_extra m = [] \<and> m_ns m = m_ns (referral ks undefined)"
proof -
  have "to_lower (Apply0x20Encoding [] n) = to_lower n" by (rule encoding_fold)
  then show ?thesis
    by (auto simp: queryServer_def referral_net_def referral_def check_response_def equal_fold_def
        Validate0x20Response_def)
qed

lemma referral_query:
  assumes "nss \<noteq> []" "0 < NameserverParallelism cfg" "\<not> zeroHedgeDelay cfg"
  shows "\<exists>m ns. query_all cfg (referral_net ks) c w nss n t = (Inr (m, ns), w + 1) \<and>
     m_answer m = [] \<and> m_rcode m = RcodeSuccess \<and> m_extra m = [] \<and> m_ns m = m_ns (referral ks undefined)"
proof -
  obtain ns rest where nss: "nss = ns # rest" using assms(1) by (cases nss) auto
  obtain m where m: "queryNameserver cfg (referral_net ks) t c n w ns = (Inr m, w + 1)"
    "m_answer m = []" "m_rcode m = RcodeSuccess" "m_extra m = []" "m_ns m = m_ns (referral ks undefined)"
    using referral_server[of cfg ks t c n False w ns] by (auto simp: queryNameserver_def)
  have "screen ns (Inr m) = Inr m"
    using m(3) by (simp add: screen_def isRetryableNameserverResponse_def rcode_defs)
  moreover have "select (scheduler.truncate (referral_net ks)) x = (Report 0, x)" for x
    by (simp add: referral_net_def scheduler.defs)
  ultimately have "query_all cfg (referral_net ks) c w nss n t = (Inr (m, ns), w + 1)"
    using assms(2,3) m(1)
    by (simp add: query_all_def queryNameservers_def Let_def nss launch_def scheduleHedge_def
        hedge_loop.simps hedge_step_def on_report_def)
  then show ?thesis using m by blast
qed

lemma referral_glue:
  assumes "\<And>w n t. \<exists>e. sub w n t = (Inl e, w + c)"
  shows "resolve_glue sub w nsr = ([], w + 2 * length nsr * c)"
proof (induction nsr arbitrary: w)
  case (Cons x nsr)
  obtain owner ns where x: "x = (owner, ns)" by fastforce
  obtain e1 where "sub w ns TypeA = (Inl e1, w + c)" using assms by blast
  moreover obtain e2 where "sub (w + c) ns TypeAAAA = (Inl e2, w + c + c)" using assms by blast
  ultimately show ?case using Cons[of "w + c + c"] x by (simp add: algebra_simps)
qed simp

lemma referral_records:
  assumes "m_ns m = m_ns (referral ks q)"
  shows "ns_records L cfg zone m =
    (if EnableScrubbing cfg \<and> \<not> IsInBailiwick L ''.'' zone then [] else map (\<lambda>k. (''.'', k)) ks)"
  unfolding ns_records_def assms referral_def by (induction ks) (auto simp: List.map_filter_simps)

lemma no_glue: "glue_servers L cfg zone nsr [] = []"
  by (simp add: glue_servers_def HardenGlue_def findGlue_def List.map_filter_def)

lemma referral_iterate:
  assumes "0 < NameserverParallelism cfg" "\<not> zeroHedgeDelay cfg" "roots cfg \<noteq> []" "ks \<noteq> []"
    and "EnableScrubbing cfg \<Longrightarrow> IsInBailiwick L ''.'' ''.''"
  shows "\<exists>e. iterate n L cfg (referral_net ks) qclass (roots cfg) ''.'' w qname qtype
    = (Inl e, w + (\<Sum>i<n. (2 * length ks) ^ i))"
proof (induction n arbitrary: w qname qtype)
  case (Suc n)
  let ?c = "\<Sum>i<n. (2 * length ks) ^ i"
  let ?sub = "iterate n L cfg (referral_net ks) qclass (roots cfg) ''.''"
  define sn where "sn = (if QNAMEMinimization cfg then ApplyQNAMEMinimization L qname ''.'' else qname)"
  define st where "st = (if QNAMEMinimization cfg \<and> sn \<noteq> qname then TypeA else qtype)"
  obtain m ns where q: "query_all cfg (referral_net ks) qclass w (roots cfg) sn st = (Inr (m, ns), w + 1)"
    and m: "m_answer m = []" "m_rcode m = RcodeSuccess" "m_extra m = []" "m_ns m = m_ns (referral ks undefined)"
    using referral_query[OF assms(3,1,2)] by blast
  have "m_ns m \<noteq> []" using m(4) assms(4) by (simp add: referral_def)
  then have a: "ask L cfg (referral_net ks) qclass (roots cfg) ''.'' w qname qtype = (Inr (m, sn), w + 1)"
    using q by (simp add: ask_def Let_def sn_def[symmetric] st_def[symmetric])
  obtain k rest where ks: "ks = k # rest" using assms(4) by (cases ks) auto
  have nsr: "ns_records L cfg ''.'' m = map (\<lambda>k. (''.'', k)) ks"
    using referral_records[OF m(4), of L cfg "''.''"] assms(5) by auto
  have glue: "resolve_glue ?sub (w + 1) (map (\<lambda>k. (''.'', k)) ks) = ([], w + 1 + 2 * length ks * ?c)"
    using referral_glue[of ?sub ?c "w + 1" "map (\<lambda>k. (''.'', k)) ks"] Suc by simp
  have "follow L cfg n ?sub (roots cfg) ''.'' (w + 1) qname m sn = (Return (Inl ErrNoNameservers), w + 1 + 2 * length ks * ?c)"
  proof (cases n)
    case 0 then show ?thesis using m nsr ks
      by (simp add: follow_def no_glue rcode_defs referral_def)
  next
    case (Suc n')
    then show ?thesis using m nsr ks glue
      by (simp add: follow_def no_glue rcode_defs referral_def)
  qed
  moreover have "(\<Sum>i<Suc n. (2 * length ks) ^ i) = 1 + 2 * length ks * ?c"
    by (simp add: sum.lessThan_Suc_shift sum_distrib_left mult.assoc mult.left_commute del: sum.lessThan_Suc)
  ultimately show ?case using a by simp
qed simp

text \<open>
  The cost of referrals without glue. Against servers that answer every query with a referral to \<open>k\<close>
  name servers without addresses, one question makes the resolver send exactly
  \<open>1 + 2k + (2k)^2 + ... + (2k)^(n-1)\<close> queries, where \<open>n\<close> is the iteration budget: the budget bounds the
  depth of the recursion, not its size.
\<close>

theorem glueless_amplification:
  assumes "0 < NameserverParallelism cfg" "\<not> zeroHedgeDelay cfg" "roots cfg \<noteq> []" "ks \<noteq> []"
    and "EnableScrubbing cfg \<Longrightarrow> IsInBailiwick L ''.'' ''.''"
  shows "snd (resolveIterative L cfg (referral_net ks) qclass sent qname qtype)
    = sent + (\<Sum>i<MaxIterations cfg. (2 * length ks) ^ i)"
  using referral_iterate[OF assms, of "MaxIterations cfg" qclass sent qname qtype]
  by (auto simp: resolveIterative_def resolveIterativeWithBudget_def)

subsection \<open>Alias chains\<close>

definition linked :: "dns_lib \<Rightarrow> rr list \<Rightarrow> string \<Rightarrow> string \<Rightarrow> bool" where
  "linked L answers a b \<longleftrightarrow>
     (\<exists>k t syn. aliasTarget L (take k answers) a = Some (t, syn) \<and> t \<noteq> [] \<and> b = Fqdn L (to_lower t))"

text \<open>A chain of names from \<open>a\<close>, justified by the answers, whose last name has no alias in them.\<close>

definition alias_chain :: "dns_lib \<Rightarrow> rr list \<Rightarrow> string \<Rightarrow> string list \<Rightarrow> bool" where
  "alias_chain L answers a chain \<longleftrightarrow>
     chain \<noteq> [] \<and> hd chain = a \<and> distinct chain \<and>
     (\<forall>i. Suc i < length chain \<longrightarrow> linked L answers (chain ! i) (chain ! Suc i)) \<and>
     (\<exists>syn. aliasTarget L answers (last chain) = Some ([], syn))"

lemma alias_chain_Cons:
  assumes "alias_chain L answers b chain" "a \<notin> set chain" "linked L answers a b"
  shows "alias_chain L answers a (a # chain)"
proof -
  have "linked L answers ((a # chain) ! i) ((a # chain) ! Suc i)" if "Suc i < length (a # chain)" for i
    using that assms by (cases i) (auto simp: alias_chain_def hd_conv_nth)
  then show ?thesis using assms by (auto simp: alias_chain_def)
qed

lemma follow_chain_sound:
  "follow_chain n L up qtype combined current seen s = (Inr m, s') \<Longrightarrow> current \<in> set seen \<Longrightarrow>
   (\<exists>more. m_answer m = m_answer combined @ more) \<and>
   (\<exists>chain. alias_chain L (m_answer m) current chain \<and> length chain \<le> n \<and>
      set (tl chain) \<inter> set seen = {} \<and> s' = fold (\<lambda>c s. snd (up s c qtype)) (tl chain) s)"
proof (induction n arbitrary: combined current seen s)
  case (Suc n)
  obtain t syn where t: "aliasTarget L (m_answer combined) current = Some (t, syn)"
    using Suc.prems(1) by (auto split: option.splits)
  show ?case
  proof (cases "t = []")
    case True
    then have "m = combined" "s' = s" using Suc.prems(1) t by auto
    then show ?thesis using t True by (auto simp: alias_chain_def intro!: exI[of _ "[current]"])
  next
    case False
    let ?c = "case syn of None \<Rightarrow> combined | Some r \<Rightarrow> combined\<lparr>m_answer := m_answer combined @ [r]\<rparr>"
    let ?t = "Fqdn L (to_lower t)"
    obtain nx s1 where up: "up s ?t qtype = (Inr nx, s1)" and fresh: "?t \<notin> set seen"
      using Suc.prems(1) t False by (auto simp: Let_def split: if_splits sum.splits prod.splits)
    let ?n = "?c\<lparr>m_answer := m_answer ?c @ m_answer nx, m_ns := m_ns nx, m_extra := m_extra nx, m_rcode := m_rcode nx\<rparr>"
    have "follow_chain n L up qtype ?n ?t (?t # seen) s1 = (Inr m, s')"
      using Suc.prems(1) t False up fresh by (simp add: Let_def)
    from Suc.IH[OF this] obtain more chain where more: "m_answer m = m_answer ?n @ more"
      and chain: "alias_chain L (m_answer m) ?t chain" "length chain \<le> n" "set (tl chain) \<inter> set (?t # seen) = {}"
        "s' = fold (\<lambda>c s. snd (up s c qtype)) (tl chain) s1"
      by auto
    obtain more' where more': "m_answer m = m_answer combined @ more'"
      using more by (cases syn) auto
    then have "linked L (m_answer m) current ?t"
      using t False unfolding linked_def by (intro exI[of _ "length (m_answer combined)"]) auto
    moreover have tl: "chain = ?t # tl chain" using chain(1) by (cases chain) (auto simp: alias_chain_def)
    moreover have "current \<notin> set chain" using chain(3) fresh Suc.prems(2) tl by (metis Int_iff empty_iff list.set_intros(2) set_ConsD)
    ultimately have "alias_chain L (m_answer m) current (current # chain)"
      using chain(1) by (intro alias_chain_Cons) auto
    moreover have "set chain \<inter> set seen = {}" using chain(3) fresh tl by (metis Int_insert_left_if0 disjoint_insert(2) list.simps(15))
    moreover have "s' = fold (\<lambda>c s. snd (up s c qtype)) chain s"
      using chain(4) up by (subst tl) simp
    ultimately show ?thesis using more' chain(2) by (intro conjI exI[of _ "current # chain"]) auto
  qed
qed simp

text \<open>
  C29: alias chasing. A successful answer extends the first response; its records justify a chain of
  distinct names, CNAME by CNAME or DNAME by DNAME, from the question to a name without an alias; the
  chain has at most 16 names, and each of them but the first was resolved exactly once, in order.
\<close>

theorem followAliases_sound:
  assumes "followAliases L up initial s qname qtype = (Inr m, s')" "qtype \<noteq> TypeCNAME" "qtype \<noteq> TypeDNAME"
  shows "(\<exists>more. m_answer m = m_answer initial @ more) \<and>
    (\<exists>chain. alias_chain L (m_answer m) (Fqdn L (to_lower qname)) chain \<and> length chain \<le> maxAliasChain \<and>
       s' = fold (\<lambda>c s. snd (up s c qtype)) (tl chain) s)"
  using follow_chain_sound[of maxAliasChain L up qtype initial "Fqdn L (to_lower qname)" "[Fqdn L (to_lower qname)]" s m s']
    assms by (auto simp: followAliases_def Let_def)

subsection \<open>Forwarding\<close>

lemma queryServer_contacts:
  assumes "\<And>tcp w ns q. contacted (snd (exchange net tcp w ns q)) = contacted w @ [ns]"
    and "\<And>w. contacted (snd (flips net w)) = contacted w"
  shows "\<exists>k. contacted (snd (queryServer cfg net t c n rd w ns)) = contacted w @ replicate k ns"
proof -
  obtain bits w1 where b: "(if Enable0x20 cfg then flips net w else ([], w)) = (bits, w1)" by fastforce
  then have w1: "contacted w1 = contacted w" using assms(2)[of w] by (auto split: if_splits)
  let ?wn = "if Enable0x20 cfg then Apply0x20Encoding bits n else n"
  let ?q = "\<lparr>wireName = ?wn, wireType = t, wireClass = c, recursionDesired = rd\<rparr>"
  obtain r w2 where e1: "exchange net False w1 ns ?q = (r, w2)" by fastforce
  obtain r2 w3 where e2: "exchange net True w2 ns ?q = (r2, w3)" by fastforce
  have "contacted w2 = contacted w @ replicate 1 ns" "contacted w3 = contacted w @ replicate 2 ns"
    using assms(1)[of False w1 ns ?q] assms(1)[of True w2 ns ?q] e1 e2 w1 by (simp_all add: numeral_2_eq_2)
  moreover have "snd (queryServer cfg net t c n rd w ns) \<in> {w2, w3}"
    using b e1 e2 by (auto simp: queryServer_def Let_def split: option.splits)
  ultimately show ?thesis by (auto simp del: replicate.simps)
qed

lemma try_forwarders_contacts:
  assumes "\<And>tcp w ns q. contacted (snd (exchange net tcp w ns q)) = contacted w @ [ns]"
    and "\<And>w. contacted (snd (flips net w)) = contacted w"
  shows "\<exists>ss. contacted (snd (try_forwarders cfg net t c n upstreams w)) = contacted w @ ss \<and> set ss \<subseteq> set upstreams"
proof (induction upstreams arbitrary: w)
  case (Cons u us)
  obtain r w1 where q: "queryServer cfg net t c n True w u = (r, w1)" by fastforce
  obtain k where k: "contacted w1 = contacted w @ replicate k u"
    using queryServer_contacts[of contacted net cfg t c n True w u] assms q by auto
  obtain ss where ss: "contacted (snd (try_forwarders cfg net t c n us w1)) = contacted w1 @ ss" "set ss \<subseteq> set us"
    using Cons by blast
  have "snd (try_forwarders cfg net t c n (u # us) w) \<in> {w1, snd (try_forwarders cfg net t c n us w1)}"
    using q by (auto split: sum.splits)
  then consider "snd (try_forwarders cfg net t c n (u # us) w) = w1"
    | "snd (try_forwarders cfg net t c n (u # us) w) = snd (try_forwarders cfg net t c n us w1)" by blast
  then show ?case
  proof cases
    case 1 then show ?thesis using k by (intro exI[of _ "replicate k u"]) auto
  next
    case 2 then show ?thesis using k ss by (intro exI[of _ "replicate k u @ ss"]) auto
  qed
qed simp

lemma normalized_rules:
  assumes "normalizeForwardRules L P fc = Inr rules"
  shows "sorted (map (rule_key L) rules)"
  using assms by (auto simp: normalizeForwardRules_def Let_def split: option.splits sum.splits if_splits)

lemma find_least:
  assumes "sorted (map f xs)" "x \<in> set xs" "P x"
  shows "\<exists>y. List.find P xs = Some y \<and> f y \<le> f x"
  using assms by (induction xs) auto

lemma forwardRuleFor_most_specific:
  assumes "normalizeForwardRules L P fc = Inr (forwardRules cfg)" "rule \<in> set (forwardRules cfg)"
    and "IsSubDomain L (suffix rule) (to_lower (Fqdn L qname))"
  shows "\<exists>chosen. forwardRuleFor L cfg qname = Some chosen \<and>
    CountLabel L (suffix rule) \<le> CountLabel L (suffix chosen)"
proof -
  obtain chosen where "forwardRuleFor L cfg qname = Some chosen" "rule_key L chosen \<le> rule_key L rule"
    using find_least[OF normalized_rules[OF assms(1)] assms(2),
        of "\<lambda>rule. IsSubDomain L (suffix rule) (to_lower (Fqdn L qname))"] assms(3)
    by (auto simp: forwardRuleFor_def)
  then show ?thesis by (auto simp: rule_key_def less_eq_prod_def)
qed

lemma queryForwarders_contacts:
  assumes "\<And>tcp w ns q. contacted (snd (exchange net tcp w ns q)) = contacted w @ [ns]"
    and "\<And>w. contacted (snd (flips net w)) = contacted w"
  shows "\<exists>ss. contacted (snd (snd (queryForwarders cfg net qclass us (cursor, w) qname qtype))) = contacted w @ ss \<and>
    set ss \<subseteq> set us"
  using try_forwarders_contacts[of contacted net cfg qtype qclass qname "rotate (unat cursor mod length us) us" w, OF assms]
  by (auto simp: queryForwarders_def Let_def split: prod.splits)

lemma resolveUpstream_only:
  assumes "forwardRuleFor L cfg qname = Some chosen" "fmode chosen = ForwardModeOnly"
  shows "snd (resolveUpstream L cfg net qclass s qname qtype) = snd (queryForwarders cfg net qclass (servers chosen) s qname qtype)"
  using assms by (simp add: resolveUpstream_def Let_def split: prod.split sum.split)


end
