(* ===== verification/Resolver_Examples.thy ===== *)
theory Resolver_Examples
  imports Resolver_Props
begin

text \<open>
  The resolver's properties applied: a network that answers \<open>www.example.com.\<close> with an alias and
  everything else with an address, and logs the servers it is asked through.
\<close>

definition ex_rec :: "string \<Rightarrow> rdata \<Rightarrow> rr" where
  "ex_rec n d = \<lparr>rr_name = n, rr_type = (case d of RCNAME _ \<Rightarrow> TypeCNAME | _ \<Rightarrow> TypeA), rr_class = ClassINET,
     rr_ttl = 300, rr_data = d\<rparr>"

definition ex_reply :: "wire_query \<Rightarrow> dmsg" where
  "ex_reply q = \<lparr>m_question = [(wireName q, wireType q, wireClass q)], m_rcode = RcodeSuccess, m_tc = False,
     m_answer = [if wireName q = ''www.example.com.'' then ex_rec (wireName q) (RCNAME ''Web.example.com.'')
                 else ex_rec (wireName q) (RA [192, 0, 2, 7])], m_ns = [], m_extra = [],
     m_id = 0, m_rd = False, m_cd = False, m_ra = False, m_ad = False, m_aa = False\<rparr>"

definition ex_network :: "string list network" where
  "ex_network = \<lparr>select = (\<lambda>w. (Report 0, w)), canceled = (\<lambda>_. False),
     exchange = (\<lambda>_ w s q. (Some (ex_reply q), w @ [s])), flips = (\<lambda>w. ([], w))\<rparr>"

definition ex_parsers :: host_parsers where
  "ex_parsers = \<lparr>ParseCIDR = (\<lambda>_. None), ParseIP = (\<lambda>s. if s = ''10.0.0.1'' then Some [10, 0, 0, 1] else None),
     SplitHostPort = (\<lambda>_. None), Atoi = (\<lambda>_. None)\<rparr>"

definition ex_forward :: forward_config where
  "ex_forward = \<lparr>ForwardMode = [], Forwarders = [],
     ConditionalForwarders = [(''Corp.example'', [''10.0.0.1''])], ForwardZoneModes = (\<lambda>_. [])\<rparr>"

definition ex_rule :: forwardRule where
  "ex_rule = \<lparr>suffix = ''corp.example.'', servers = [''10.0.0.1:53''], fmode = ForwardModeOnly\<rparr>"

definition ex_config :: config where
  "ex_config = \<lparr>MaxIterations = 3, NameserverParallelism = 1, zeroHedgeDelay = False, QNAMEMinimization = False,
     Enable0x20 = True, EnableScrubbing = True, forwardRules = [ex_rule], roots = [''198.41.0.4:53'']\<rparr>"

text \<open>\<open>www.example.com.\<close> and its alias, resolved at the root server.\<close>

definition ex_alias_msg :: dmsg where
  "ex_alias_msg = ex_reply \<lparr>wireName = ''www.example.com.'', wireType = TypeA, wireClass = 1, recursionDesired = False\<rparr>"

lemma ex_resolve:
  "resolveIterative ex_lib ex_config ex_network 1 [] ''www.example.com.'' TypeA
     = (Inr ex_alias_msg, [''198.41.0.4:53''])"
  by code_simp

lemma ex_rules: "normalizeForwardRules ex_lib ex_parsers ex_forward = Inr (forwardRules ex_config)"
  by code_simp

definition ex_chased :: dmsg where
  "ex_chased = ex_alias_msg\<lparr>m_answer := m_answer ex_alias_msg @ [ex_rec ''web.example.com.'' (RA [192, 0, 2, 7])]\<rparr>"

lemma ex_chase:
  "followAliases ex_lib (resolveUpstream ex_lib ex_config ex_network 1) ex_alias_msg (0, []) ''WWW.example.com.'' TypeA
     = (Inr ex_chased, (0, [''198.41.0.4:53'']))"
  by code_simp

lemma ex_forwarded:
  "resolveUpstream ex_lib ex_config ex_network 1 (0, []) ''db.corp.example.'' TypeA
     = (Inr (ex_reply \<lparr>wireName = ''db.corp.example.'', wireType = TypeA, wireClass = 1, recursionDesired = True\<rparr>),
        1, [''10.0.0.1:53''])"
  by code_simp

definition ex_failing :: "string list attempt" where
  "ex_failing w ns = (Inl (ExchangeError ns), w @ [ns])"

lemma ex_hedge:
  "queryNameservers 2 False (scheduler.truncate ex_network) ex_failing [] [''a'', ''b'', ''c'']
     = (Inl (NameserverError ''c'' (ExchangeError ''c'')), [''a'', ''b'', ''c''])"
  by code_simp

theorem queryNameservers_outcome_witness:
  "\<exists>k \<le> length [''a'', ''b'', ''c'']. id [''a'', ''b'', ''c''] = id [] @ take k [''a'', ''b'', ''c'']"
  by (rule queryNameservers_outcome[OF _ _ _ ex_hedge, of id, THEN conjunct1])
     (simp_all add: ex_failing_def ex_network_def scheduler.defs)

theorem resolveIterative_answers_witness: "answers_to ''www.example.com.'' TypeA 1 ex_alias_msg"
proof -
  have "0 < NameserverParallelism ex_config" by (simp add: ex_config_def)
  from resolveIterative_answers[OF this ex_resolve] show ?thesis
    by (simp add: ex_alias_msg_def ex_reply_def)
qed

theorem glueless_amplification_witness:
  "snd (resolveIterative ex_lib ex_config (referral_net [''ns1.'', ''ns2.'']) 1 0 ''www.example.com.'' TypeA)
     = 0 + (\<Sum>i<MaxIterations ex_config. (2 * length [''ns1.'', ''ns2.'']) ^ i)"
  by (rule glueless_amplification) (simp_all add: ex_config_def IsInBailiwick_def ex_fqdn_def ex_subdomain_def)

theorem followAliases_sound_witness:
  "(\<exists>more. m_answer ex_chased = m_answer ex_alias_msg @ more) \<and>
   (\<exists>chain. alias_chain ex_lib (m_answer ex_chased) (Fqdn ex_lib (to_lower ''WWW.example.com.'')) chain \<and>
      length chain \<le> maxAliasChain \<and>
      (0, [''198.41.0.4:53'']) =
        fold (\<lambda>c s. snd (resolveUpstream ex_lib ex_config ex_network 1 s c TypeA)) (tl chain) (0, []))"
  by (rule followAliases_sound[OF ex_chase]) (simp_all add: rr_consts)

lemma ex_rule_chosen: "forwardRuleFor ex_lib ex_config ''db.corp.example.'' = Some ex_rule"
  by code_simp


end
