(* ===== verification/Validator.thy ===== *)
theory Validator
  imports Dns_Lib "HOL-Library.List_Lexorder" "HOL-Library.Char_ord"
begin

text \<open>
  The DNSSEC validator, \<open>internal/dnssec/validator.go\<close>. Cryptography, key tags, digests, NSEC3 hashing and the
  packing of a name are library code: the fields of \<open>sec_lib\<close>. The network behind the resolver has a state
  of type \<open>'w\<close>; it answers queries and holds the clock, in seconds since the Unix epoch. A typed record
  is the pair of the record and its data.
\<close>

subsection \<open>Library and data\<close>

type_synonym key_rr = "rr \<times> dnskey_rd"
type_synonym sig_rr = "rr \<times> rrsig_rd"
type_synonym ds_rr = "rr \<times> ds_rd"
type_synonym nsec_rr = "rr \<times> string \<times> u16 list"
type_synonym nsec3_rr = "rr \<times> nsec3_rd"

record sec_lib = dns_lib +
  dnskeyTag :: "dnskey_rd \<Rightarrow> u16"
  ToDS :: "key_rr \<Rightarrow> byte \<Rightarrow> string option"
  VerifyRRSIG :: "sig_rr \<Rightarrow> key_rr \<Rightarrow> rr list \<Rightarrow> bool"
  N3Match :: "nsec3_rr \<Rightarrow> string \<Rightarrow> bool"
  N3Cover :: "nsec3_rr \<Rightarrow> string \<Rightarrow> bool"
  PackDomainName :: "string \<Rightarrow> bytes option"

record 'w chain_net =
  Query :: "'w \<Rightarrow> string \<Rightarrow> u16 \<Rightarrow> dmsg option \<times> 'w"
  clock :: "'w \<Rightarrow> int"

record validator_config =
  MaxChainDepth :: int
  FailOnMissing :: bool
  NSEC3MaxIterations :: u16
  DisabledAlgorithms :: "byte \<Rightarrow> bool"

record validator =
  vcfg :: validator_config
  trustAnchors :: "key_rr list"
  negativeTrustAnchors :: "string list"

record trust_link =
  ta_Name :: string
  ta_DNSKEY :: key_rr
  ta_DS :: "ds_rr option"

record validation_result =
  Secure :: bool
  Bogus :: bool
  Insecure :: bool
  Indeterminate :: bool
  ChainDepth :: int
  TrustChain :: "trust_link list"
  DSRecords :: "ds_rr list"
  DNSKEYs :: "key_rr list"
  Signatures :: "sig_rr list"
  ValidFrom :: "int option"
  ValidUntil :: "int option"

datatype validation_error =
    DnssecMissing | NoSignatures | RootLookup | NoAnchorMatch | ChainTooDeep | DSLookupFailed string
  | InsecureDelegation string | KeyLookupFailed string | NoKeyForDS string
  | Unauthenticated string u16 | NoRRset | DisabledAlgorithm byte | OutsideValidity | NoKeyFor u16
  | BadSignature u16 | NoSignedAuthority | MixedProofs | MissingProof | NotNoData | WrongRcode int
  | NotCovered string | NoClosestEncloser | WildcardNotDenied string | AnchorFileError nat | AnchorFileEmpty
  | NoStateFile | ManagerError

definition no_result :: validation_result where
  "no_result = \<lparr>Secure = False, Bogus = False, Insecure = False, Indeterminate = False, ChainDepth = 0,
     TrustChain = [], DSRecords = [], DNSKEYs = [], Signatures = [], ValidFrom = None, ValidUntil = None\<rparr>"

definition DefaultValidatorConfig :: validator_config where
  "DefaultValidatorConfig = \<lparr>MaxChainDepth = 20, FailOnMissing = False, NSEC3MaxIterations = 150,
     DisabledAlgorithms = (\<lambda>a. a \<in> {1, 3, 6})\<rparr>"

subsection \<open>Trust anchors\<close>

definition AddTrustAnchor :: "key_rr \<Rightarrow> validator \<Rightarrow> validator" where
  "AddTrustAnchor key v = v\<lparr>trustAnchors := trustAnchors v @ [key]\<rparr>"

definition AddNegativeTrustAnchor :: "sec_lib \<Rightarrow> string \<Rightarrow> validator \<Rightarrow> validator" where
  "AddNegativeTrustAnchor L domain v =
     v\<lparr>negativeTrustAnchors := List.insert (to_lower (Fqdn L domain)) (negativeTrustAnchors v)\<rparr>"

definition replaceTrustAnchors :: "key_rr list \<Rightarrow> validator \<Rightarrow> validator" where
  "replaceTrustAnchors anchors v = v\<lparr>trustAnchors := anchors\<rparr>"

text \<open>
  The lines of an anchor file; \<open>NewRR\<close> is \<open>dns.NewRR\<close>. An error carries the number of its line.
\<close>

fun anchor_lines ::
  "sec_lib \<Rightarrow> (string \<Rightarrow> rr option) \<Rightarrow> nat \<Rightarrow> key_rr list \<Rightarrow> string list \<Rightarrow> validation_error + key_rr list" where
  "anchor_lines L NewRR line anchors [] = Inr anchors"
| "anchor_lines L NewRR line anchors (l # ls) =
     (let text = TrimSpace l in
      if text = [] \<or> hd text = CHR '';'' \<or> hd text = CHR ''#'' then anchor_lines L NewRR (line + 1) anchors ls
      else case NewRR text of
        None \<Rightarrow> Inl (AnchorFileError line)
      | Some r \<Rightarrow>
          (case rr_data r of
             RDNSKEY k \<Rightarrow> anchor_lines L NewRR (line + 1) (anchors @ [(r\<lparr>rr_name := to_lower (Fqdn L (rr_name r))\<rparr>, k)]) ls
           | _ \<Rightarrow> Inl (AnchorFileError line)))"

definition LoadTrustAnchorsFromFile ::
  "sec_lib \<Rightarrow> (string \<Rightarrow> rr option) \<Rightarrow> string list \<Rightarrow> validator \<Rightarrow> validation_error + validator" where
  "LoadTrustAnchorsFromFile L NewRR lines v =
     (case anchor_lines L NewRR 1 [] lines of
        Inl e \<Rightarrow> Inl e
      | Inr anchors \<Rightarrow> if length anchors = 0 then Inl AnchorFileEmpty
                       else Inr (v\<lparr>trustAnchors := trustAnchors v @ anchors\<rparr>))"

text \<open>
  \<open>NewValidator\<close>: \<open>file\<close> is the content of the anchor file when one is configured, \<open>auto\<close> the start of the
  RFC 5011 manager, from the static anchors to the published ones, when it is enabled.
\<close>

definition NewValidator ::
  "sec_lib \<Rightarrow> (string \<Rightarrow> rr option) \<Rightarrow> validator_config \<Rightarrow> string list option \<Rightarrow>
   (key_rr list \<Rightarrow> validation_error + key_rr list) option \<Rightarrow> validation_error + validator" where
  "NewValidator L NewRR cfg file auto =
     (let cfg = (if MaxChainDepth cfg = 0 then cfg\<lparr>MaxChainDepth := 20\<rparr> else cfg);
          v = \<lparr>vcfg = cfg, trustAnchors = [], negativeTrustAnchors = []\<rparr>
      in case (case file of None \<Rightarrow> Inr v | Some lines \<Rightarrow> LoadTrustAnchorsFromFile L NewRR lines v) of
           Inl e \<Rightarrow> Inl e
         | Inr v \<Rightarrow>
             (case auto of
                None \<Rightarrow> Inr v
              | Some start \<Rightarrow>
                  (case start (trustAnchors v) of Inl e \<Rightarrow> Inl e | Inr anchors \<Rightarrow> Inr (replaceTrustAnchors anchors v))))"

definition isNegativeTrustAnchor :: "sec_lib \<Rightarrow> validator \<Rightarrow> string \<Rightarrow> bool" where
  "isNegativeTrustAnchor L v qname =
     (let labels = SplitDomainName L (Fqdn L (to_lower qname)) in
      list_ex (\<lambda>i. Fqdn L (join_labels (drop i labels)) \<in> set (negativeTrustAnchors v)) [0..<length labels])"

subsection \<open>Selecting records\<close>

definition hasDNSSECRecords :: "dmsg \<Rightarrow> bool" where
  "hasDNSSECRecords msg \<longleftrightarrow>
     list_ex (\<lambda>r. rr_type r = TypeRRSIG) (m_answer msg) \<or>
     list_ex (\<lambda>r. rr_type r = TypeRRSIG \<or> rr_type r = TypeDS) (m_ns msg)"

definition nsec3IterationsOverCap :: "dmsg \<Rightarrow> u16 \<Rightarrow> bool" where
  "nsec3IterationsOverCap msg maxIterations =
     list_ex (\<lambda>r. case rr_data r of RNSEC3 n \<Rightarrow> n3_Iterations n > maxIterations | _ \<Rightarrow> False)
       (m_answer msg @ m_ns msg)"

definition hasAnswerData :: "dmsg \<Rightarrow> bool" where
  "hasAnswerData msg = list_ex (\<lambda>r. rr_type r \<noteq> TypeRRSIG) (m_answer msg)"

definition extractAuthorityRRSIGs :: "dmsg \<Rightarrow> sig_rr list" where
  "extractAuthorityRRSIGs msg =
     List.map_filter (\<lambda>r. case rr_data r of RRRSIG s \<Rightarrow> Some (r, s) | _ \<Rightarrow> None) (m_ns msg)"

definition extractRRSIGs :: "dmsg \<Rightarrow> string \<Rightarrow> u16 \<Rightarrow> sig_rr list" where
  "extractRRSIGs msg qname qtype =
     List.map_filter (\<lambda>r. case rr_data r of
         RRRSIG s \<Rightarrow> if rs_TypeCovered s = qtype \<and> equal_fold (rr_name r) qname then Some (r, s) else None
       | _ \<Rightarrow> None) (m_answer msg)"

definition extractRRset :: "dmsg \<Rightarrow> string \<Rightarrow> u16 \<Rightarrow> rr list" where
  "extractRRset msg qname qtype = filter (\<lambda>r. rr_type r = qtype \<and> equal_fold (rr_name r) qname) (m_answer msg)"

definition findDNSKEY :: "sec_lib \<Rightarrow> key_rr list \<Rightarrow> string \<Rightarrow> u16 \<Rightarrow> key_rr option" where
  "findDNSKEY L dnskeys signerName keyTag =
     List.find (\<lambda>(r, k). equal_fold (rr_name r) signerName \<and> dnskeyTag L k = keyTag) dnskeys"

definition extractDNSKEYs :: "sec_lib \<Rightarrow> dmsg \<Rightarrow> string \<Rightarrow> (byte \<Rightarrow> bool) \<Rightarrow> key_rr list" where
  "extractDNSKEYs L msg owner disabled =
     (let owner = Fqdn L (to_lower owner) in
      List.map_filter (\<lambda>r. case rr_data r of
          RDNSKEY k \<Rightarrow> if equal_fold (rr_name r) owner \<and> \<not> disabled (ky_Algorithm k) then Some (r, k) else None
        | _ \<Rightarrow> None) (m_answer msg))"

definition extractDSRecords :: "sec_lib \<Rightarrow> dmsg \<Rightarrow> string \<Rightarrow> ds_rr list" where
  "extractDSRecords L msg owner =
     (let owner = Fqdn L (to_lower owner) in
      List.map_filter (\<lambda>r. case rr_data r of
          RDS d \<Rightarrow> if equal_fold (rr_name r) owner then Some (r, d) else None
        | _ \<Rightarrow> None) (m_answer msg @ m_ns msg))"

definition extractSignaturesFor :: "sec_lib \<Rightarrow> dmsg \<Rightarrow> string \<Rightarrow> u16 \<Rightarrow> sig_rr list" where
  "extractSignaturesFor L msg owner covered =
     (let owner = Fqdn L (to_lower owner) in
      List.map_filter (\<lambda>r. case rr_data r of
          RRRSIG s \<Rightarrow> if rs_TypeCovered s = covered \<and> equal_fold (rr_name r) owner then Some (r, s) else None
        | _ \<Rightarrow> None) (m_answer msg @ m_ns msg))"

text \<open>The first key of the set, in the order of the anchors, that is an anchor.\<close>

definition same_key :: "sec_lib \<Rightarrow> key_rr \<Rightarrow> key_rr \<Rightarrow> bool" where
  "same_key L a k \<longleftrightarrow>
     equal_fold (rr_name (fst a)) (rr_name (fst k)) \<and> dnskeyTag L (snd a) = dnskeyTag L (snd k) \<and>
     ky_Algorithm (snd a) = ky_Algorithm (snd k) \<and> ky_PublicKey (snd a) = ky_PublicKey (snd k)"

fun matchingTrustAnchor :: "sec_lib \<Rightarrow> key_rr list \<Rightarrow> key_rr list \<Rightarrow> key_rr option" where
  "matchingTrustAnchor L [] ks = None"
| "matchingTrustAnchor L (a # anchors) ks =
     (case List.find (same_key L a) ks of Some k \<Rightarrow> Some k | None \<Rightarrow> matchingTrustAnchor L anchors ks)"

definition ds_matches :: "sec_lib \<Rightarrow> key_rr \<Rightarrow> ds_rr \<Rightarrow> bool" where
  "ds_matches L key ds \<longleftrightarrow>
     ds_KeyTag (snd ds) = dnskeyTag L (snd key) \<and> ds_Algorithm (snd ds) = ky_Algorithm (snd key) \<and>
     (case ToDS L key (ds_DigestType (snd ds)) of None \<Rightarrow> False | Some digest \<Rightarrow> equal_fold digest (ds_Digest (snd ds)))"

definition match_step :: "sec_lib \<Rightarrow> key_rr \<Rightarrow> ds_rr \<Rightarrow> u16 list \<times> key_rr list \<Rightarrow> u16 list \<times> key_rr list" where
  "match_step L key ds = (\<lambda>(seen, matched).
     if ds_matches L key ds \<and> dnskeyTag L (snd key) \<notin> set seen
     then (dnskeyTag L (snd key) # seen, matched @ [key]) else (seen, matched))"

definition matchDSKeys :: "sec_lib \<Rightarrow> ds_rr list \<Rightarrow> key_rr list \<Rightarrow> key_rr list" where
  "matchDSKeys L dsRecords ks = snd (fold (\<lambda>key. fold (match_step L key) dsRecords) ks ([], []))"

subsection \<open>Signatures\<close>

definition sig_current :: "int \<Rightarrow> rrsig_rd \<Rightarrow> bool" where
  "sig_current now s \<longleftrightarrow> \<not> now < int (unat (rs_Inception s)) \<and> \<not> now > int (unat (rs_Expiration s))"

definition key_signs :: "sec_lib \<Rightarrow> rr list \<Rightarrow> sig_rr \<Rightarrow> key_rr \<Rightarrow> bool" where
  "key_signs L rrset sig key \<longleftrightarrow>
     dnskeyTag L (snd key) = rs_KeyTag (snd sig) \<and> ky_Algorithm (snd key) = rs_Algorithm (snd sig) \<and>
     equal_fold (rr_name (fst key)) (rs_SignerName (snd sig)) \<and> VerifyRRSIG L sig key rrset"

text \<open>\<open>True\<close> when some current signature of an enabled algorithm verifies under some of the keys.\<close>

definition verifyRRSetWithKeys ::
  "sec_lib \<Rightarrow> int \<Rightarrow> rr list \<Rightarrow> sig_rr list \<Rightarrow> key_rr list \<Rightarrow> (byte \<Rightarrow> bool) \<Rightarrow> bool" where
  "verifyRRSetWithKeys L now rrset sigs ks disabled \<longleftrightarrow>
     length rrset \<noteq> 0 \<and> length sigs \<noteq> 0 \<and> length ks \<noteq> 0 \<and>
     list_ex (\<lambda>sig. \<not> disabled (rs_Algorithm (snd sig)) \<and> sig_current now (snd sig) \<and>
                    list_ex (key_signs L rrset sig) ks) sigs"

text \<open>The loop of \<open>verifySignatures\<close>: every signature must verify; the result collects the validity times.\<close>

fun verify_each ::
  "sec_lib \<Rightarrow> (byte \<Rightarrow> bool) \<Rightarrow> int \<Rightarrow> rr list \<Rightarrow> sig_rr list \<Rightarrow> validation_result \<Rightarrow>
   validation_error option \<times> validation_result" where
  "verify_each L disabled now rrset [] result = (None, result)"
| "verify_each L disabled now rrset (sig # sigs) result =
     (let s = snd sig in
      if disabled (rs_Algorithm s) then (Some (DisabledAlgorithm (rs_Algorithm s)), result)
      else if \<not> sig_current now s then (Some OutsideValidity, result)
      else
        let inception = int (unat (rs_Inception s)); expiration = int (unat (rs_Expiration s));
            result = (if ValidFrom result = None \<or> inception < the (ValidFrom result)
                      then result\<lparr>ValidFrom := Some inception\<rparr> else result);
            result = (if ValidUntil result = None \<or> expiration > the (ValidUntil result)
                      then result\<lparr>ValidUntil := Some expiration\<rparr> else result)
        in case findDNSKEY L (DNSKEYs result) (rs_SignerName s) (rs_KeyTag s) of
             None \<Rightarrow> (Some (NoKeyFor (rs_KeyTag s)), result)
           | Some key \<Rightarrow>
               if VerifyRRSIG L sig key rrset then verify_each L disabled now rrset sigs result
               else (Some (BadSignature (rs_KeyTag s)), result))"

definition verifySignatures ::
  "sec_lib \<Rightarrow> validator \<Rightarrow> int \<Rightarrow> dmsg \<Rightarrow> string \<Rightarrow> u16 \<Rightarrow> validation_result \<Rightarrow>
   validation_error option \<times> validation_result" where
  "verifySignatures L v now msg qname qtype result =
     (let rrset = extractRRset msg qname qtype in
      if length rrset = 0 then (Some NoRRset, result)
      else verify_each L (DisabledAlgorithms (vcfg v)) now rrset (Signatures result) result)"

subsection \<open>Denial of existence\<close>

text \<open>The labels of a packed name.\<close>

fun wire_labels :: "bytes \<Rightarrow> bytes list option" where
  "wire_labels [] = None"
| "wire_labels (n # rest) =
     (if n = 0 then Some []
      else if unat n > length rest then None
      else map_option ((#) (take (unat n) rest)) (wire_labels (drop (unat n) rest)))"

definition canonicalLabels :: "sec_lib \<Rightarrow> string \<Rightarrow> bytes list option" where
  "canonicalLabels L name = Option.bind (PackDomainName L (to_lower (Fqdn L name))) wire_labels"

text \<open>\<open>bytes.Compare\<close> and \<open>strings.Compare\<close>.\<close>

definition compare3 :: "'a::linorder \<Rightarrow> 'a \<Rightarrow> int" where
  "compare3 a b = (if a < b then - 1 else if a = b then 0 else 1)"

fun compare_labels :: "bytes list \<Rightarrow> bytes list \<Rightarrow> int" where
  "compare_labels (x # xs) (y # ys) = (if compare3 x y \<noteq> 0 then compare3 x y else compare_labels xs ys)"
| "compare_labels [] [] = 0"
| "compare_labels [] (y # ys) = - 1"
| "compare_labels (x # xs) [] = 1"

definition canonicalNameCompare :: "sec_lib \<Rightarrow> string \<Rightarrow> string \<Rightarrow> int" where
  "canonicalNameCompare L a b =
     (case (canonicalLabels L a, canonicalLabels L b) of
        (Some la, Some lb) \<Rightarrow> compare_labels (rev la) (rev lb)
      | _ \<Rightarrow> compare3 (to_lower a) (to_lower b))"

definition nsecCovers :: "sec_lib \<Rightarrow> nsec_rr \<Rightarrow> string \<Rightarrow> bool" where
  "nsecCovers L nsec name =
     (let owner = to_lower (Fqdn L (rr_name (fst nsec)));
          next = to_lower (Fqdn L (fst (snd nsec)));
          name = to_lower (Fqdn L name)
      in if name = owner \<or> name = next then False
         else let ownerToName = canonicalNameCompare L owner name; nameToNext = canonicalNameCompare L name next in
           if canonicalNameCompare L owner next < 0 then ownerToName < 0 \<and> nameToNext < 0
           else ownerToName < 0 \<or> nameToNext < 0)"

definition anyNSECCovers :: "sec_lib \<Rightarrow> nsec_rr list \<Rightarrow> string \<Rightarrow> bool" where
  "anyNSECCovers L records name = list_ex (\<lambda>nsec. nsecCovers L nsec name) records"

definition nameSuffixes :: "sec_lib \<Rightarrow> string \<Rightarrow> string list" where
  "nameSuffixes L name =
     (let labels = SplitDomainName L name
      in map (\<lambda>i. Fqdn L (join_labels (drop i labels))) [0..<length labels] @ [''.''])"

definition closestNSECEncloser :: "sec_lib \<Rightarrow> nsec_rr list \<Rightarrow> string \<Rightarrow> string option" where
  "closestNSECEncloser L records qname =
     List.find (\<lambda>sfx. list_ex (\<lambda>nsec. equal_fold (rr_name (fst nsec)) sfx) records) (nameSuffixes L qname)"

definition closestNSEC3Encloser :: "sec_lib \<Rightarrow> nsec3_rr list \<Rightarrow> string \<Rightarrow> string option" where
  "closestNSEC3Encloser L records qname =
     List.find (\<lambda>sfx. list_ex (\<lambda>nsec3. N3Match L nsec3 sfx) records) (nameSuffixes L qname)"

definition nextCloserName :: "sec_lib \<Rightarrow> string \<Rightarrow> string \<Rightarrow> string" where
  "nextCloserName L qname closest =
     (let qLabels = SplitDomainName L qname; cLabels = SplitDomainName L closest in
      if length qLabels \<le> length cLabels then []
      else Fqdn L (join_labels (drop (length qLabels - length cLabels - 1) qLabels)))"

definition anyNSEC3Covers :: "sec_lib \<Rightarrow> nsec3_rr list \<Rightarrow> string \<Rightarrow> bool" where
  "anyNSEC3Covers L records name = list_ex (\<lambda>nsec3. N3Cover L nsec3 name) records"

definition typePresent :: "u16 list \<Rightarrow> u16 \<Rightarrow> bool" where
  "typePresent bitmap qtype = list_ex ((=) qtype) bitmap"

text \<open>The suffix search returns a non-empty name, so \<open>None\<close> is the empty string of the source.\<close>

definition validateNSECProof :: "sec_lib \<Rightarrow> int \<Rightarrow> nsec_rr list \<Rightarrow> string \<Rightarrow> u16 \<Rightarrow> validation_error option" where
  "validateNSECProof L rcode records qname qtype =
     (let qname = to_lower (Fqdn L qname) in
      if rcode = RcodeSuccess then
        (if list_ex (\<lambda>nsec. equal_fold (rr_name (fst nsec)) qname \<and> \<not> typePresent (snd (snd nsec)) qtype \<and>
                            \<not> typePresent (snd (snd nsec)) TypeCNAME) records
         then None else Some NotNoData)
      else if rcode \<noteq> RcodeNameError then Some (WrongRcode rcode)
      else if \<not> anyNSECCovers L records qname then Some (NotCovered qname)
      else case closestNSECEncloser L records qname of
        None \<Rightarrow> Some NoClosestEncloser
      | Some closest \<Rightarrow>
          if anyNSECCovers L records (''*.'' @ closest) then None else Some (WildcardNotDenied (''*.'' @ closest)))"

definition validateNSEC3Proof :: "sec_lib \<Rightarrow> int \<Rightarrow> nsec3_rr list \<Rightarrow> string \<Rightarrow> u16 \<Rightarrow> validation_error option" where
  "validateNSEC3Proof L rcode records qname qtype =
     (let qname = to_lower (Fqdn L qname) in
      if rcode = RcodeSuccess then
        (if list_ex (\<lambda>nsec3. N3Match L nsec3 qname \<and> \<not> typePresent (n3_TypeBitMap (snd nsec3)) qtype \<and>
                             \<not> typePresent (n3_TypeBitMap (snd nsec3)) TypeCNAME) records
         then None else Some NotNoData)
      else if rcode \<noteq> RcodeNameError then Some (WrongRcode rcode)
      else case closestNSEC3Encloser L records qname of
        None \<Rightarrow> Some NoClosestEncloser
      | Some closest \<Rightarrow>
          let nextCloser = nextCloserName L qname closest in
          if nextCloser = [] \<or> \<not> anyNSEC3Covers L records nextCloser then Some (NotCovered nextCloser)
          else if anyNSEC3Covers L records (''*.'' @ closest) then None
          else Some (WildcardNotDenied (''*.'' @ closest)))"

definition nsecs_of :: "rr list \<Rightarrow> nsec_rr list" where
  "nsecs_of = List.map_filter (\<lambda>r. case rr_data r of RNSEC next ts \<Rightarrow> Some (r, next, ts) | _ \<Rightarrow> None)"

definition nsec3s_of :: "rr list \<Rightarrow> nsec3_rr list" where
  "nsec3s_of = List.map_filter (\<lambda>r. case rr_data r of RNSEC3 n \<Rightarrow> Some (r, n) | _ \<Rightarrow> None)"

definition validateDenialProof :: "sec_lib \<Rightarrow> dmsg \<Rightarrow> string \<Rightarrow> u16 \<Rightarrow> validation_error option" where
  "validateDenialProof L msg qname qtype =
     (let nsecs = nsecs_of (m_ns msg); nsec3s = nsec3s_of (m_ns msg) in
      if length nsecs > 0 \<and> length nsec3s > 0 then Some MixedProofs
      else if length nsecs > 0 then validateNSECProof L (m_rcode msg) nsecs qname qtype
      else if length nsec3s > 0 then validateNSEC3Proof L (m_rcode msg) nsec3s qname qtype
      else Some MissingProof)"

text \<open>
  The RRsets of the authority section, by lower-case owner and type. Go ranges over them in any order,
  which only decides which error is reported.
\<close>

definition authority_sets :: "dmsg \<Rightarrow> ((string \<times> u16) \<times> rr list) list" where
  "authority_sets msg =
     (let rrs = filter (\<lambda>r. rr_type r \<noteq> TypeRRSIG \<and> rr_type r \<noteq> TypeOPT) (m_ns msg);
          key = (\<lambda>r. (to_lower (rr_name r), rr_type r))
      in map (\<lambda>k. (k, filter (\<lambda>r. key r = k) rrs)) (remdups (map key rrs)))"

definition verifyNegativeResponse ::
  "sec_lib \<Rightarrow> validator \<Rightarrow> int \<Rightarrow> dmsg \<Rightarrow> string \<Rightarrow> u16 \<Rightarrow> validation_result \<Rightarrow> validation_error option" where
  "verifyNegativeResponse L v now msg qname qtype result =
     (let sets = authority_sets msg in
      if length sets = 0 then Some NoSignedAuthority
      else case List.find (\<lambda>((name, t), rrset). \<not> verifyRRSetWithKeys L now rrset
                  (extractSignaturesFor L msg name t) (DNSKEYs result) (DisabledAlgorithms (vcfg v))) sets of
        Some ((name, t), _) \<Rightarrow> Some (Unauthenticated name t)
      | None \<Rightarrow> validateDenialProof L msg qname qtype)"

subsection \<open>The chain of trust\<close>

text \<open>
  One zone of the chain after the other, from the top: \<open>currentKeys\<close> are the authenticated keys of the
  parent. On an error the result keeps what was collected.
\<close>

fun chain_links ::
  "sec_lib \<Rightarrow> validator \<Rightarrow> 'w chain_net \<Rightarrow> string list \<Rightarrow> key_rr list \<Rightarrow> validation_result \<Rightarrow> 'w \<Rightarrow>
   validation_error option \<times> validation_result \<times> 'w" where
  "chain_links L v net [] currentKeys result w = (None, result, w)"
| "chain_links L v net (child # children) currentKeys result w =
     (let disabled = DisabledAlgorithms (vcfg v) in
      if ChainDepth result \<ge> MaxChainDepth (vcfg v) then (Some ChainTooDeep, result, w)
      else case Query net w child TypeDS of
        (None, w) \<Rightarrow> (Some (DSLookupFailed child), result, w)
      | (Some dsMsg, w) \<Rightarrow>
          let dsRecords = extractDSRecords L dsMsg child in
          if length dsRecords = 0 then (Some (InsecureDelegation child), result, w)
          else if \<not> verifyRRSetWithKeys L (clock net w) (map fst dsRecords)
                      (extractSignaturesFor L dsMsg child TypeDS) currentKeys disabled
          then (Some (Unauthenticated child TypeDS), result, w)
          else case Query net w child TypeDNSKEY of
            (None, w) \<Rightarrow> (Some (KeyLookupFailed child), result, w)
          | (Some keyMsg, w) \<Rightarrow>
              let childKeys = extractDNSKEYs L keyMsg child disabled;
                  matchedKeys = matchDSKeys L dsRecords childKeys
              in if length matchedKeys = 0 then (Some (NoKeyForDS child), result, w)
                 else if \<not> verifyRRSetWithKeys L (clock net w) (map fst childKeys)
                             (extractSignaturesFor L keyMsg child TypeDNSKEY) matchedKeys disabled
                 then (Some (Unauthenticated child TypeDNSKEY), result, w)
                 else chain_links L v net children childKeys
                        (result\<lparr>DSRecords := DSRecords result @ dsRecords, DNSKEYs := DNSKEYs result @ childKeys,
                                TrustChain := TrustChain result @
                                  [\<lparr>ta_Name = child, ta_DNSKEY = hd matchedKeys, ta_DS = Some (hd dsRecords)\<rparr>],
                                ChainDepth := ChainDepth result + 1\<rparr>) w)"

text \<open>The zones from the top-level domain down to the signer.\<close>

definition chain_zones :: "sec_lib \<Rightarrow> string \<Rightarrow> string list" where
  "chain_zones L signerZone =
     (let labels = SplitDomainName L signerZone
      in map (\<lambda>i. Fqdn L (join_labels (drop i labels))) (rev [0..<length labels]))"

definition buildTrustChain ::
  "sec_lib \<Rightarrow> validator \<Rightarrow> 'w chain_net \<Rightarrow> validation_result \<Rightarrow> 'w \<Rightarrow>
   validation_error option \<times> validation_result \<times> 'w" where
  "buildTrustChain L v net result w =
     (let signerZone = Fqdn L (to_lower (rs_SignerName (snd (hd (Signatures result)))));
          disabled = DisabledAlgorithms (vcfg v)
      in case Query net w ''.'' TypeDNSKEY of
           (None, w) \<Rightarrow> (Some RootLookup, result, w)
         | (Some rootMsg, w) \<Rightarrow>
             let currentKeys = extractDNSKEYs L rootMsg ''.'' disabled;
                 rootSigs = extractSignaturesFor L rootMsg ''.'' TypeDNSKEY
             in case matchingTrustAnchor L (trustAnchors v) currentKeys of
                  None \<Rightarrow> (Some NoAnchorMatch, result, w)
                | Some anchor \<Rightarrow>
                    if \<not> verifyRRSetWithKeys L (clock net w) (map fst currentKeys) rootSigs [anchor] disabled
                    then (Some (Unauthenticated ''.'' TypeDNSKEY), result, w)
                    else let result = result\<lparr>DNSKEYs := DNSKEYs result @ currentKeys,
                               TrustChain := TrustChain result @ [\<lparr>ta_Name = ''.'', ta_DNSKEY = anchor, ta_DS = None\<rparr>],
                               ChainDepth := 1\<rparr>
                      in if signerZone = ''.'' then (None, result, w)
                         else chain_links L v net (chain_zones L signerZone) currentKeys result w)"

subsection \<open>Validation\<close>

definition validateResponse ::
  "sec_lib \<Rightarrow> validator \<Rightarrow> 'w chain_net \<Rightarrow> dmsg \<Rightarrow> string \<Rightarrow> u16 \<Rightarrow> 'w \<Rightarrow>
   (validation_result \<times> validation_error option) \<times> 'w" where
  "validateResponse L v net msg qname qtype w =
     (let negative = (m_rcode msg = RcodeNameError \<or> (m_rcode msg = RcodeSuccess \<and> \<not> hasAnswerData msg));
          rrsigs = (if negative then extractAuthorityRRSIGs msg else extractRRSIGs msg qname qtype)
      in if length rrsigs = 0 then ((no_result\<lparr>Bogus := True\<rparr>, Some NoSignatures), w)
         else case buildTrustChain L v net (no_result\<lparr>Signatures := rrsigs\<rparr>) w of
           (Some (InsecureDelegation z), result, w) \<Rightarrow> ((result\<lparr>Insecure := True\<rparr>, None), w)
         | (Some e, result, w) \<Rightarrow> ((result\<lparr>Bogus := True\<rparr>, Some e), w)
         | (None, result, w) \<Rightarrow>
             let (err, result) = (if negative
                   then (verifyNegativeResponse L v (clock net w) msg qname qtype result, result)
                   else verifySignatures L v (clock net w) msg qname qtype result)
             in case err of
                  Some e \<Rightarrow> ((result\<lparr>Bogus := True\<rparr>, Some e), w)
                | None \<Rightarrow> ((result\<lparr>Secure := True\<rparr>, None), w))"

definition Validate ::
  "sec_lib \<Rightarrow> validator \<Rightarrow> 'w chain_net \<Rightarrow> dmsg \<Rightarrow> string \<Rightarrow> u16 \<Rightarrow> 'w \<Rightarrow>
   (validation_result \<times> validation_error option) \<times> 'w" where
  "Validate L v net msg qname qtype w =
     (let qname = Fqdn L (to_lower qname) in
      if isNegativeTrustAnchor L v qname then ((no_result\<lparr>Insecure := True\<rparr>, None), w)
      else if NSEC3MaxIterations (vcfg v) > 0 \<and> nsec3IterationsOverCap msg (NSEC3MaxIterations (vcfg v))
      then ((no_result\<lparr>Bogus := True\<rparr>, None), w)
      else if length (trustAnchors v) = 0 then ((no_result\<lparr>Indeterminate := True\<rparr>, None), w)
      else if \<not> hasDNSSECRecords msg
      then (if FailOnMissing (vcfg v) then ((no_result\<lparr>Bogus := True\<rparr>, Some DnssecMissing), w)
            else ((no_result\<lparr>Insecure := True\<rparr>, None), w))
      else validateResponse L v net msg qname qtype w)"

end
