(* ===== verification/Validator_Props.thy ===== *)
theory Validator_Props
  imports Validator
begin

text \<open>What a verdict of the DNSSEC validator means.\<close>

subsection \<open>Authenticated keys\<close>

text \<open>
  A set of records is signed by some of the keys between two instants; a key set is trusted for a path
  of zones when the root set is signed by a configured anchor and every further set by a key that a signed
  DS record of the parent names.
\<close>

definition signed_by :: "sec_lib \<Rightarrow> validator \<Rightarrow> int \<Rightarrow> int \<Rightarrow> rr list \<Rightarrow> key_rr list \<Rightarrow> bool" where
  "signed_by L v lo hi rrset ks \<longleftrightarrow>
     (\<exists>sig key t. lo \<le> t \<and> t \<le> hi \<and> key \<in> set ks \<and> \<not> DisabledAlgorithms (vcfg v) (rs_Algorithm (snd sig)) \<and>
        sig_current t (snd sig) \<and> key_signs L rrset sig key)"

inductive trusted :: "sec_lib \<Rightarrow> validator \<Rightarrow> int \<Rightarrow> int \<Rightarrow> string list \<Rightarrow> key_rr list \<Rightarrow> bool" for L v lo hi where
  anchored: "a \<in> set (trustAnchors v) \<Longrightarrow> k \<in> set ks \<Longrightarrow> same_key L a k \<Longrightarrow> signed_by L v lo hi (map fst ks) [k] \<Longrightarrow>
    trusted L v lo hi [''.''] ks"
| delegated: "trusted L v lo hi path pks \<Longrightarrow> signed_by L v lo hi (map fst dss) pks \<Longrightarrow> d \<in> set dss \<Longrightarrow>
    k \<in> set ks \<Longrightarrow> ds_matches L k d \<Longrightarrow> signed_by L v lo hi (map fst ks) [k] \<Longrightarrow>
    trusted L v lo hi (path @ [child]) ks"

text \<open>A key of a trusted set for one of the zones of a path.\<close>

definition authentic :: "sec_lib \<Rightarrow> validator \<Rightarrow> int \<Rightarrow> int \<Rightarrow> string list \<Rightarrow> key_rr \<Rightarrow> bool" where
  "authentic L v lo hi zones k \<longleftrightarrow>
     (\<exists>path below ks. zones = path @ below \<and> trusted L v lo hi path ks \<and> k \<in> set ks)"

lemma verified_signed_by:
  assumes "verifyRRSetWithKeys L now rrset sigs ks (DisabledAlgorithms (vcfg v))" "lo \<le> now" "now \<le> hi"
  shows "signed_by L v lo hi rrset ks"
proof -
  obtain sig key where "key \<in> set ks" "\<not> DisabledAlgorithms (vcfg v) (rs_Algorithm (snd sig))"
    "sig_current now (snd sig)" "key_signs L rrset sig key"
    using assms(1) by (auto simp: verifyRRSetWithKeys_def list_ex_iff)
  then show ?thesis using assms(2,3) unfolding signed_by_def by blast
qed

text \<open>The keys that \<open>matchDSKeys\<close> selects are keys of the set that a DS record names.\<close>

lemma match_fold:
  assumes "\<forall>k \<in> set (snd acc). k \<in> S \<and> (\<exists>d \<in> D. ds_matches L k d)" "key \<in> S" "set dss \<subseteq> D"
  shows "\<forall>k \<in> set (snd (fold (match_step L key) dss acc)). k \<in> S \<and> (\<exists>d \<in> D. ds_matches L k d)"
  using assms
proof (induction dss arbitrary: acc)
  case (Cons d dss)
  show ?case
    unfolding fold_simps
  proof (rule Cons.IH)
    show "\<forall>k \<in> set (snd (match_step L key d acc)). k \<in> S \<and> (\<exists>d \<in> D. ds_matches L k d)"
      using Cons.prems by (cases acc) (auto simp: match_step_def)
  qed (use Cons.prems in auto)
qed simp

lemma match_folds:
  assumes "\<forall>k \<in> set (snd acc). k \<in> S \<and> (\<exists>d \<in> set dss. ds_matches L k d)" "set ks \<subseteq> S"
  shows "\<forall>k \<in> set (snd (fold (\<lambda>key. fold (match_step L key) dss) ks acc)). k \<in> S \<and> (\<exists>d \<in> set dss. ds_matches L k d)"
  using assms
proof (induction ks arbitrary: acc)
  case (Cons key ks)
  have "key \<in> S" "set ks \<subseteq> S" using Cons.prems(2) by simp_all
  then show ?case
    unfolding fold_simps using Cons.IH[OF match_fold[OF Cons.prems(1) _ order_refl]] by simp
qed simp

lemma matchDSKeys_sound:
  "k \<in> set (matchDSKeys L dss ks) \<Longrightarrow> k \<in> set ks \<and> (\<exists>d \<in> set dss. ds_matches L k d)"
  using match_folds[of "([], [])" "set ks" dss L ks] by (simp add: matchDSKeys_def)

lemma signed_by_one: "signed_by L v lo hi rrset ks \<Longrightarrow> \<exists>k \<in> set ks. signed_by L v lo hi rrset [k]"
  unfolding signed_by_def by force

lemma matchingTrustAnchor_Some:
  "matchingTrustAnchor L anchors ks = Some k \<Longrightarrow> k \<in> set ks \<and> (\<exists>a \<in> set anchors. same_key L a k)"
proof (induction anchors)
  case (Cons a anchors)
  then show ?case by (auto simp: find_Some_iff split: option.splits)
qed simp

subsection \<open>Building the chain\<close>

definition steady_clock :: "'w chain_net \<Rightarrow> bool" where
  "steady_clock net \<longleftrightarrow> (\<forall>w n t. clock net w \<le> clock net (snd (Query net w n t)))"

lemma query_clock: "steady_clock net \<Longrightarrow> Query net w n t = (r, w') \<Longrightarrow> clock net w \<le> clock net w'"
  unfolding steady_clock_def by (metis snd_conv)

text \<open>What one link of a complete chain has checked.\<close>

lemma chain_links_step:
  assumes "chain_links L v net (child # children) cur res w = (None, res', w')"
  obtains dsMsg w1 keyMsg w2 dss ks where
    "ChainDepth res < MaxChainDepth (vcfg v)"
    "Query net w child TypeDS = (Some dsMsg, w1)" "Query net w1 child TypeDNSKEY = (Some keyMsg, w2)"
    "dss = extractDSRecords L dsMsg child" "ks = extractDNSKEYs L keyMsg child (DisabledAlgorithms (vcfg v))"
    "verifyRRSetWithKeys L (clock net w1) (map fst dss) (extractSignaturesFor L dsMsg child TypeDS) cur
       (DisabledAlgorithms (vcfg v))"
    "verifyRRSetWithKeys L (clock net w2) (map fst ks) (extractSignaturesFor L keyMsg child TypeDNSKEY)
       (matchDSKeys L dss ks) (DisabledAlgorithms (vcfg v))"
    "chain_links L v net children ks
       (res\<lparr>DSRecords := DSRecords res @ dss, DNSKEYs := DNSKEYs res @ ks,
            TrustChain := TrustChain res @ [\<lparr>ta_Name = child, ta_DNSKEY = hd (matchDSKeys L dss ks), ta_DS = Some (hd dss)\<rparr>],
            ChainDepth := ChainDepth res + 1\<rparr>) w2 = (None, res', w')"
proof -
  let ?dis = "DisabledAlgorithms (vcfg v)"
  have depth: "\<not> ChainDepth res \<ge> MaxChainDepth (vcfg v)" by (rule notI) (use assms in simp)
  obtain r1 w1 where q1: "Query net w child TypeDS = (r1, w1)" by (cases "Query net w child TypeDS")
  obtain dsMsg where r1: "r1 = Some dsMsg" using assms q1 depth by (cases r1) (simp_all add: Let_def)
  define dss where "dss = extractDSRecords L dsMsg child"
  have ne: "dss \<noteq> []" by (rule notI) (use assms q1 r1 depth dss_def in \<open>simp add: Let_def\<close>)
  have vds: "verifyRRSetWithKeys L (clock net w1) (map fst dss) (extractSignaturesFor L dsMsg child TypeDS) cur ?dis"
    by (rule ccontr) (use assms q1 r1 depth ne dss_def in \<open>simp add: Let_def\<close>)
  obtain r2 w2 where q2: "Query net w1 child TypeDNSKEY = (r2, w2)" by (cases "Query net w1 child TypeDNSKEY")
  obtain keyMsg where r2: "r2 = Some keyMsg"
    using assms q1 r1 q2 depth ne vds dss_def by (cases r2) (simp_all add: Let_def)
  define ks where "ks = extractDNSKEYs L keyMsg child ?dis"
  define ms where "ms = matchDSKeys L dss ks"
  note known = q1 r1 q2 r2 depth ne vds dss_def[symmetric] ks_def[symmetric] ms_def[symmetric] Let_def
  have m: "ms \<noteq> []" by (rule notI) (use assms in \<open>simp add: known\<close>)
  have vks: "verifyRRSetWithKeys L (clock net w2) (map fst ks) (extractSignaturesFor L keyMsg child TypeDNSKEY) ms ?dis"
    by (rule ccontr) (use assms m in \<open>simp add: known\<close>)
  have "chain_links L v net children ks
       (res\<lparr>DSRecords := DSRecords res @ dss, DNSKEYs := DNSKEYs res @ ks,
            TrustChain := TrustChain res @ [\<lparr>ta_Name = child, ta_DNSKEY = hd ms, ta_DS = Some (hd dss)\<rparr>],
            ChainDepth := ChainDepth res + 1\<rparr>) w2 = (None, res', w')"
    using assms m vks by (simp add: known)
  then show thesis
    using that[OF _ q1[unfolded r1] q2[unfolded r2] dss_def ks_def vds vks[unfolded ms_def]] depth
    by (simp add: ms_def)
qed

lemma chain_links_clock:
  "steady_clock net \<Longrightarrow> chain_links L v net zs cur res w = (None, res', w') \<Longrightarrow> clock net w \<le> clock net w'"
proof (induction zs arbitrary: cur res w)
  case (Cons z zs)
  from Cons.prems(2) show ?case
  proof (rule chain_links_step)
    fix w1 w2 dsMsg keyMsg ks res2
    assume "Query net w z TypeDS = (Some dsMsg, w1)" "Query net w1 z TypeDNSKEY = (Some keyMsg, w2)"
      and "chain_links L v net zs ks res2 w2 = (None, res', w')"
    then show "clock net w \<le> clock net w'"
      using query_clock[OF Cons.prems(1)] Cons.IH[OF Cons.prems(1)] by (meson order_trans)
  qed
qed simp

lemma authentic_I: "trusted L v lo hi path ks \<Longrightarrow> k \<in> set ks \<Longrightarrow> authentic L v lo hi (path @ below) k"
  unfolding authentic_def by blast

lemma chain_links_sound:
  assumes "steady_clock net" "chain_links L v net zs cur res w = (None, res', w')" "trusted L v lo hi path cur"
    "lo \<le> clock net w" "clock net w' \<le> hi" "\<forall>k \<in> set (DNSKEYs res). authentic L v lo hi (path @ zs) k"
    "ChainDepth res \<le> MaxChainDepth (vcfg v)"
  shows "(\<forall>k \<in> set (DNSKEYs res'). authentic L v lo hi (path @ zs) k) \<and>
    map ta_Name (TrustChain res') = map ta_Name (TrustChain res) @ zs \<and>
    ChainDepth res' = ChainDepth res + int (length zs) \<and> ChainDepth res' \<le> MaxChainDepth (vcfg v) \<and>
    Signatures res' = Signatures res"
  using assms(2-)
proof (induction zs arbitrary: cur res w path)
  case (Cons child zs)
  note clk = query_clock[OF assms(1)]
  from Cons.prems(1) obtain dsMsg w1 keyMsg w2 dss ks where
    st: "ChainDepth res < MaxChainDepth (vcfg v)"
      "Query net w child TypeDS = (Some dsMsg, w1)" "Query net w1 child TypeDNSKEY = (Some keyMsg, w2)"
    and vds: "verifyRRSetWithKeys L (clock net w1) (map fst dss) (extractSignaturesFor L dsMsg child TypeDS) cur
       (DisabledAlgorithms (vcfg v))"
    and vks: "verifyRRSetWithKeys L (clock net w2) (map fst ks) (extractSignaturesFor L keyMsg child TypeDNSKEY)
       (matchDSKeys L dss ks) (DisabledAlgorithms (vcfg v))"
    and rest: "chain_links L v net zs ks
       (res\<lparr>DSRecords := DSRecords res @ dss, DNSKEYs := DNSKEYs res @ ks,
            TrustChain := TrustChain res @ [\<lparr>ta_Name = child, ta_DNSKEY = hd (matchDSKeys L dss ks), ta_DS = Some (hd dss)\<rparr>],
            ChainDepth := ChainDepth res + 1\<rparr>) w2 = (None, res', w')"
    by (rule chain_links_step)
  have t: "lo \<le> clock net w1" "lo \<le> clock net w2" "clock net w1 \<le> hi" "clock net w2 \<le> hi"
    using clk[OF st(2)] clk[OF st(3)] chain_links_clock[OF assms(1) rest] Cons.prems(3,4) by linarith+
  obtain k where k: "k \<in> set (matchDSKeys L dss ks)" "signed_by L v lo hi (map fst ks) [k]"
    using signed_by_one[OF verified_signed_by[OF vks t(2,4)]] by blast
  then obtain d where "k \<in> set ks" "d \<in> set dss" "ds_matches L k d" using matchDSKeys_sound by blast
  then have tr: "trusted L v lo hi (path @ [child]) ks"
    using trusted.delegated[OF Cons.prems(2) verified_signed_by[OF vds t(1,3)]] k(2) by blast
  then have "\<forall>k \<in> set ks. authentic L v lo hi ((path @ [child]) @ zs) k" using authentic_I[OF tr] by blast
  then show ?case
    using Cons.IH[OF rest tr t(2) Cons.prems(4)] Cons.prems(5) st(1) by (simp add: ball_Un algebra_simps)
qed simp

lemma buildTrustChain_sound:
  assumes "steady_clock net" "buildTrustChain L v net res w = (None, res', w')" "lo \<le> clock net w" "clock net w' \<le> hi"
    "DNSKEYs res = []" "TrustChain res = []" "1 \<le> MaxChainDepth (vcfg v)"
  defines "signer \<equiv> Fqdn L (to_lower (rs_SignerName (snd (hd (Signatures res)))))"
  defines "zones \<equiv> ''.'' # (if signer = ''.'' then [] else chain_zones L signer)"
  shows "(\<forall>k \<in> set (DNSKEYs res'). authentic L v lo hi zones k) \<and> map ta_Name (TrustChain res') = zones \<and>
    ChainDepth res' = int (length zones) \<and> ChainDepth res' \<le> MaxChainDepth (vcfg v) \<and>
    Signatures res' = Signatures res \<and> clock net w \<le> clock net w'"
proof -
  let ?dis = "DisabledAlgorithms (vcfg v)"
  obtain r1 w1 where q: "Query net w ''.'' TypeDNSKEY = (r1, w1)" by (cases "Query net w ''.'' TypeDNSKEY")
  obtain rootMsg where r1: "r1 = Some rootMsg"
    using assms(2) q by (cases r1) (auto simp: buildTrustChain_def Let_def)
  let ?ks = "extractDNSKEYs L rootMsg ''.'' ?dis"
  obtain anchor where a: "matchingTrustAnchor L (trustAnchors v) ?ks = Some anchor"
    using assms(2) q r1 by (cases "matchingTrustAnchor L (trustAnchors v) ?ks") (auto simp: buildTrustChain_def Let_def)
  let ?res = "res\<lparr>DNSKEYs := DNSKEYs res @ ?ks,
      TrustChain := TrustChain res @ [\<lparr>ta_Name = ''.'', ta_DNSKEY = anchor, ta_DS = None\<rparr>], ChainDepth := 1\<rparr>"
  have vr: "verifyRRSetWithKeys L (clock net w1) (map fst ?ks) (extractSignaturesFor L rootMsg ''.'' TypeDNSKEY) [anchor] ?dis"
    and run: "(if signer = ''.'' then (None, ?res, w1) else chain_links L v net (chain_zones L signer) ?ks ?res w1)
       = (None, res', w')"
    using assms(2) q r1 a unfolding buildTrustChain_def signer_def by (simp_all add: Let_def split: if_splits)
  have run': "chain_links L v net (if signer = ''.'' then [] else chain_zones L signer) ?ks ?res w1 = (None, res', w')"
    using run by (simp split: if_splits)
  note clk = query_clock[OF assms(1) q] chain_links_clock[OF assms(1) run']
  have tr: "trusted L v lo hi [''.''] ?ks"
    using matchingTrustAnchor_Some[OF a] verified_signed_by[OF vr, of lo hi] clk assms(3,4)
    by (auto intro: trusted.anchored)
  then have "\<forall>k \<in> set (DNSKEYs ?res). authentic L v lo hi ([''.''] @ (if signer = ''.'' then [] else chain_zones L signer)) k"
    using authentic_I[OF tr] assms(5) by simp
  from chain_links_sound[OF assms(1) run' tr _ assms(4) this] assms(3,6,7) clk show ?thesis
    by (simp add: zones_def)
qed

lemma verify_each_ok:
  "verify_each L disabled now rrset sigs res = (None, res') \<Longrightarrow>
     \<forall>sig \<in> set sigs. \<not> disabled (rs_Algorithm (snd sig)) \<and> sig_current now (snd sig) \<and>
       (\<exists>key \<in> set (DNSKEYs res). VerifyRRSIG L sig key rrset \<and> dnskeyTag L (snd key) = rs_KeyTag (snd sig) \<and>
          equal_fold (rr_name (fst key)) (rs_SignerName (snd sig)))"
proof (induction sigs arbitrary: res)
  case (Cons sig sigs)
  define r1 where "r1 = (if ValidFrom res = None \<or> int (unat (rs_Inception (snd sig))) < the (ValidFrom res)
     then res\<lparr>ValidFrom := Some (int (unat (rs_Inception (snd sig))))\<rparr> else res)"
  define r2 where "r2 = (if ValidUntil r1 = None \<or> int (unat (rs_Expiration (snd sig))) > the (ValidUntil r1)
     then r1\<lparr>ValidUntil := Some (int (unat (rs_Expiration (snd sig))))\<rparr> else r1)"
  have ks: "DNSKEYs r2 = DNSKEYs res" by (simp add: r2_def r1_def)
  have ok: "\<not> disabled (rs_Algorithm (snd sig))" "sig_current now (snd sig)"
    using Cons.prems by (auto simp: Let_def split: if_splits)
  from Cons.prems ok have step: "(case findDNSKEY L (DNSKEYs r2) (rs_SignerName (snd sig)) (rs_KeyTag (snd sig)) of
      None \<Rightarrow> (Some (NoKeyFor (rs_KeyTag (snd sig))), r2)
    | Some key \<Rightarrow> if VerifyRRSIG L sig key rrset then verify_each L disabled now rrset sigs r2
        else (Some (BadSignature (rs_KeyTag (snd sig))), r2)) = (None, res')"
    unfolding r2_def r1_def by (simp only: verify_each.simps Let_def if_False not_False_eq_True simp_thms)
  then obtain key where key: "findDNSKEY L (DNSKEYs res) (rs_SignerName (snd sig)) (rs_KeyTag (snd sig)) = Some key"
    "VerifyRRSIG L sig key rrset" "verify_each L disabled now rrset sigs r2 = (None, res')"
    by (auto simp: ks split: option.splits if_splits)
  from key(1) have "key \<in> set (DNSKEYs res)" "dnskeyTag L (snd key) = rs_KeyTag (snd sig)"
    "equal_fold (rr_name (fst key)) (rs_SignerName (snd sig))"
    unfolding findDNSKEY_def find_Some_iff by (auto dest: nth_mem)
  then show ?case using Cons.IH[OF key(3)] ok key(2) by (auto simp: ks)
qed simp

subsection \<open>What Secure means\<close>

definition denial :: "dmsg \<Rightarrow> bool" where
  "denial msg \<longleftrightarrow> m_rcode msg = RcodeNameError \<or> (m_rcode msg = RcodeSuccess \<and> \<not> hasAnswerData msg)"

definition response_sigs :: "dmsg \<Rightarrow> string \<Rightarrow> u16 \<Rightarrow> sig_rr list" where
  "response_sigs msg q qtype = (if denial msg then extractAuthorityRRSIGs msg else extractRRSIGs msg q qtype)"

text \<open>The zones from the root to the signer of the first signature.\<close>

definition signer_path :: "sec_lib \<Rightarrow> dmsg \<Rightarrow> string \<Rightarrow> u16 \<Rightarrow> string list" where
  "signer_path L msg q qtype =
     (let signer = Fqdn L (to_lower (rs_SignerName (snd (hd (response_sigs msg q qtype)))))
      in ''.'' # (if signer = ''.'' then [] else chain_zones L signer))"

lemma chain_links_Secure:
  "Secure (fst (snd (chain_links L v net zs cur res w))) = Secure res"
proof (induction zs arbitrary: cur res w)
  case (Cons child zs)
  show ?case
    by (auto simp: Let_def Cons.IH split: option.split prod.split)
qed simp

lemma buildTrustChain_Secure:
  "Secure (fst (snd (buildTrustChain L v net res w))) = Secure res"
  by (auto simp: buildTrustChain_def Let_def chain_links_Secure simp del: chain_links.simps split: option.split prod.split)

lemma verify_each_frame:
  "(let r = snd (verify_each L disabled now rrset sigs res) in
      Secure r = Secure res \<and> ChainDepth r = ChainDepth res \<and> TrustChain r = TrustChain res)"
proof (induction sigs arbitrary: res)
  case (Cons sig sigs)
  then show ?case by (simp add: Let_def split: option.split)
qed simp
lemma validateResponse_secure:
  assumes "validateResponse L v net msg q qtype w = ((r, err), w')" "Secure r"
  obtains res where "response_sigs msg q qtype \<noteq> []" "err = None"
    "buildTrustChain L v net (no_result\<lparr>Signatures := response_sigs msg q qtype\<rparr>) w = (None, res, w')"
    "denial msg \<longrightarrow> verifyNegativeResponse L v (clock net w') msg q qtype res = None"
    "\<not> denial msg \<longrightarrow> (\<exists>res'. verifySignatures L v (clock net w') msg q qtype res = (None, res'))"
    "ChainDepth r = ChainDepth res" "TrustChain r = TrustChain res"
proof -
  let ?sigs = "response_sigs msg q qtype"
  obtain e res w1 where b: "buildTrustChain L v net (no_result\<lparr>Signatures := ?sigs\<rparr>) w = (e, res, w1)"
    by (cases "buildTrustChain L v net (no_result\<lparr>Signatures := ?sigs\<rparr>) w") auto
  have ns: "\<not> Secure res" using buildTrustChain_Secure[of L v net "no_result\<lparr>Signatures := ?sigs\<rparr>" w] b
    by (simp add: no_result_def)
  have step: "validateResponse L v net msg q qtype w =
    (if length ?sigs = 0 then ((no_result\<lparr>Bogus := True\<rparr>, Some NoSignatures), w)
     else case e of
        Some (InsecureDelegation z) \<Rightarrow> ((res\<lparr>Insecure := True\<rparr>, None), w1)
      | Some e \<Rightarrow> ((res\<lparr>Bogus := True\<rparr>, Some e), w1)
      | None \<Rightarrow>
          let (err, result) = (if denial msg then (verifyNegativeResponse L v (clock net w1) msg q qtype res, res)
                else verifySignatures L v (clock net w1) msg q qtype res)
          in case err of Some e \<Rightarrow> ((result\<lparr>Bogus := True\<rparr>, Some e), w1)
             | None \<Rightarrow> ((result\<lparr>Secure := True\<rparr>, None), w1))"
    by (simp only: validateResponse_def Let_def denial_def[symmetric] response_sigs_def[symmetric] b prod.case
          split: option.split validation_error.split prod.split)
  have sig: "?sigs \<noteq> []" using assms step by (auto simp: no_result_def)
  have e: "e = None"
    using assms step sig ns by (cases e) (auto split: validation_error.splits)
  obtain err1 res1 where v: "verifySignatures L v (clock net w1) msg q qtype res = (err1, res1)"
    by (cases "verifySignatures L v (clock net w1) msg q qtype res")
  have fr: "Secure res1 = Secure res \<and> ChainDepth res1 = ChainDepth res \<and> TrustChain res1 = TrustChain res"
    using v verify_each_frame[of L "DisabledAlgorithms (vcfg v)" "clock net w1" "extractRRset msg q qtype" "Signatures res" res]
    by (auto simp: verifySignatures_def Let_def split: if_splits)
  show thesis
  proof (cases "denial msg")
    case True
    then have "verifyNegativeResponse L v (clock net w1) msg q qtype res = None \<and> err = None \<and> w' = w1 \<and>
       ChainDepth r = ChainDepth res \<and> TrustChain r = TrustChain res"
      using assms step sig e ns by (auto split: option.splits)
    then show thesis using that[of res] sig b e True by simp
  next
    case False
    then have "err1 = None \<and> err = None \<and> w' = w1 \<and> ChainDepth r = ChainDepth res \<and> TrustChain r = TrustChain res"
      using assms step sig e ns v fr by (auto split: option.splits)
    then show thesis using that[of res] sig b e False v by simp
  qed
qed

lemma verifyNegativeResponse_ok:
  assumes "verifyNegativeResponse L v now msg q qtype res = None" "((name, t), rrset) \<in> set (authority_sets msg)"
  shows "verifyRRSetWithKeys L now rrset (extractSignaturesFor L msg name t) (DNSKEYs res) (DisabledAlgorithms (vcfg v))"
    "validateDenialProof L msg q qtype = None"
proof -
  have f: "List.find (\<lambda>((name, t), rrset). \<not> verifyRRSetWithKeys L now rrset
      (extractSignaturesFor L msg name t) (DNSKEYs res) (DisabledAlgorithms (vcfg v))) (authority_sets msg) = None"
    and d: "validateDenialProof L msg q qtype = None"
    using assms(1) by (auto simp: verifyNegativeResponse_def Let_def split: if_splits option.splits)
  show "validateDenialProof L msg q qtype = None" by (rule d)
  show "verifyRRSetWithKeys L now rrset (extractSignaturesFor L msg name t) (DNSKEYs res) (DisabledAlgorithms (vcfg v))"
    using f assms(2) unfolding find_None_iff by fastforce
qed

definition answer_proved :: "sec_lib \<Rightarrow> validator \<Rightarrow> int \<Rightarrow> int \<Rightarrow> dmsg \<Rightarrow> string \<Rightarrow> u16 \<Rightarrow> bool" where
  "answer_proved L v lo hi msg q qtype \<longleftrightarrow>
     (let rrset = extractRRset msg q qtype; sigs = extractRRSIGs msg q qtype in
      rrset \<noteq> [] \<and> sigs \<noteq> [] \<and>
      (\<forall>sig \<in> set sigs. \<not> DisabledAlgorithms (vcfg v) (rs_Algorithm (snd sig)) \<and>
         (\<exists>t k. lo \<le> t \<and> t \<le> hi \<and> sig_current t (snd sig) \<and> authentic L v lo hi (signer_path L msg q qtype) k \<and>
            dnskeyTag L (snd k) = rs_KeyTag (snd sig) \<and> equal_fold (rr_name (fst k)) (rs_SignerName (snd sig)) \<and>
            VerifyRRSIG L sig k rrset)))"

definition denial_proved :: "sec_lib \<Rightarrow> validator \<Rightarrow> int \<Rightarrow> int \<Rightarrow> dmsg \<Rightarrow> string \<Rightarrow> u16 \<Rightarrow> bool" where
  "denial_proved L v lo hi msg q qtype \<longleftrightarrow>
     authority_sets msg \<noteq> [] \<and> validateDenialProof L msg q qtype = None \<and>
     (\<forall>((name, t), rrset) \<in> set (authority_sets msg). \<exists>ks.
        (\<forall>k \<in> set ks. authentic L v lo hi (signer_path L msg q qtype) k) \<and> signed_by L v lo hi rrset ks)"


subsection \<open>What an attacker can do\<close>

text \<open>Removing the DNSSEC records from a response.\<close>

fun is_RNSEC3 :: "rdata \<Rightarrow> bool" where
  "is_RNSEC3 (RNSEC3 n) = True"
| "is_RNSEC3 _ = False"

definition strip_dnssec :: "dmsg \<Rightarrow> dmsg" where
  "strip_dnssec msg = msg\<lparr>
     m_answer := filter (\<lambda>r. rr_type r \<noteq> TypeRRSIG \<and> \<not> is_RNSEC3 (rr_data r)) (m_answer msg),
     m_ns := filter (\<lambda>r. rr_type r \<noteq> TypeRRSIG \<and> rr_type r \<noteq> TypeDS \<and> \<not> is_RNSEC3 (rr_data r)) (m_ns msg)\<rparr>"

lemma not_RNSEC3: "\<not> is_RNSEC3 d \<Longrightarrow> (case d of RNSEC3 n \<Rightarrow> P n | _ \<Rightarrow> False) = False"
  by (cases d) simp_all

lemma strip_hides: "\<not> hasDNSSECRecords (strip_dnssec msg)" "\<not> nsec3IterationsOverCap (strip_dnssec msg) n"
  by (auto simp: hasDNSSECRecords_def nsec3IterationsOverCap_def strip_dnssec_def list_ex_iff not_RNSEC3)

text \<open>The root keys are authentic, and the reply for the DS records of the zone holds none.\<close>

definition forged_ds :: "sec_lib \<Rightarrow> validator \<Rightarrow> 'w chain_net \<Rightarrow> 'w \<Rightarrow> string \<Rightarrow> bool" where
  "forged_ds L v net w zone \<longleftrightarrow>
     (case Query net w ''.'' TypeDNSKEY of
        (None, _) \<Rightarrow> False
      | (Some rootMsg, w) \<Rightarrow>
          let ks = extractDNSKEYs L rootMsg ''.'' (DisabledAlgorithms (vcfg v)) in
          (case matchingTrustAnchor L (trustAnchors v) ks of
             None \<Rightarrow> False
           | Some anchor \<Rightarrow>
               verifyRRSetWithKeys L (clock net w) (map fst ks) (extractSignaturesFor L rootMsg ''.'' TypeDNSKEY) [anchor]
                 (DisabledAlgorithms (vcfg v)) \<and>
               (case Query net w zone TypeDS of
                  (None, _) \<Rightarrow> False
                | (Some dsMsg, _) \<Rightarrow> extractDSRecords L dsMsg zone = [])))"

lemma forged_ds_insecure:
  assumes "forged_ds L v net w tld" "1 < MaxChainDepth (vcfg v)"
    "Fqdn L (to_lower (rs_SignerName (snd (hd (Signatures res))))) = signer" "signer \<noteq> ''.''"
    "chain_zones L signer = tld # zones"
  shows "\<exists>r w'. buildTrustChain L v net res w = (Some (InsecureDelegation tld), r, w') \<and> Bogus r = Bogus res"
  using assms
  by (auto simp: forged_ds_def buildTrustChain_def Let_def split: prod.splits option.splits)

text \<open>
  The two downgrades. Whatever a response would be judged, the same response without its
  DNSSEC records is judged insecure, and no query is sent to learn whether the zone is signed. A signed
  response is judged insecure when the reply to the first DS query of the chain holds no DS record, and
  nothing in that reply has to be signed. So whoever can alter the traffic can switch validation off
  for any zone.
\<close>

theorem dnssec_downgrade:
  assumes "trustAnchors v \<noteq> []" "\<not> FailOnMissing (vcfg v)" "\<not> isNegativeTrustAnchor L v (Fqdn L (to_lower qname))"
    "\<not> nsec3IterationsOverCap msg (NSEC3MaxIterations (vcfg v))" "1 < MaxChainDepth (vcfg v)"
    "hasDNSSECRecords msg" "response_sigs msg (Fqdn L (to_lower qname)) qtype \<noteq> []"
    "signer_path L msg (Fqdn L (to_lower qname)) qtype = ''.'' # tld # zones" "forged_ds L v net w tld"
  shows "Validate L v net' (strip_dnssec anything) qname qtype w' = ((no_result\<lparr>Insecure := True\<rparr>, None), w') \<and>
    (\<exists>r w2. Validate L v net msg qname qtype w = ((r, None), w2) \<and> Insecure r \<and> \<not> Bogus r)"
proof (rule conjI)
  show "Validate L v net' (strip_dnssec anything) qname qtype w' = ((no_result\<lparr>Insecure := True\<rparr>, None), w')"
    using assms(1-3) strip_hides by (simp add: Validate_def)
  let ?q = "Fqdn L (to_lower qname)"
  define signer where "signer = Fqdn L (to_lower (rs_SignerName (snd (hd (response_sigs msg ?q qtype)))))"
  have s: "signer \<noteq> ''.''" "chain_zones L signer = tld # zones"
    using assms(8) by (auto simp: signer_path_def Let_def signer_def split: if_splits)
  obtain r w2 where b: "buildTrustChain L v net (no_result\<lparr>Signatures := response_sigs msg ?q qtype\<rparr>) w
      = (Some (InsecureDelegation tld), r, w2)" "\<not> Bogus r"
    using forged_ds_insecure[OF assms(9,5) _ s, of "no_result\<lparr>Signatures := response_sigs msg ?q qtype\<rparr>"]
    by (auto simp: signer_def no_result_def)
  have "validateResponse L v net msg ?q qtype w = ((r\<lparr>Insecure := True\<rparr>, None), w2)"
    using assms(7) b(1) by (simp add: validateResponse_def denial_def[symmetric] response_sigs_def[symmetric])
  then have "Validate L v net msg qname qtype w = ((r\<lparr>Insecure := True\<rparr>, None), w2)"
    using assms(1,3,4,6) by (simp add: Validate_def)
  then show "\<exists>r w2. Validate L v net msg qname qtype w = ((r, None), w2) \<and> Insecure r \<and> \<not> Bogus r" using b(2) by simp
qed

text \<open>The last NSEC of a zone: its next name, the apex, does not come after its owner.\<close>

definition last_nsec :: "sec_lib \<Rightarrow> nsec_rr \<Rightarrow> bool" where
  "last_nsec L nsec \<longleftrightarrow>
     \<not> canonicalNameCompare L (to_lower (Fqdn L (rr_name (fst nsec)))) (to_lower (Fqdn L (fst (snd nsec)))) < 0"

definition outside_zone :: "sec_lib \<Rightarrow> nsec_rr \<Rightarrow> string \<Rightarrow> bool" where
  "outside_zone L nsec name \<longleftrightarrow>
     (let n = to_lower (Fqdn L name); apex = to_lower (Fqdn L (fst (snd nsec)));
          owner = to_lower (Fqdn L (rr_name (fst nsec)))
      in n \<noteq> owner \<and> n \<noteq> apex \<and> (canonicalNameCompare L n apex < 0 \<or> canonicalNameCompare L owner n < 0))"

text \<open>
  A zone can deny its siblings. The last NSEC record of any zone covers every name outside the zone's
  own range, and nothing ties an NSEC record to the zone of the question: together with one NSEC record
  owned by an ancestor of the name, it proves NXDOMAIN for the name. The keys accepted for the
  authority section are those of the whole chain, so the signatures of a delegated child suffice; the
  witness runs the validator on such a response.
\<close>

theorem sibling_denial:
  assumes "nsec \<in> set records" "last_nsec L nsec" "closestNSECEncloser L records (to_lower (Fqdn L qname)) = Some ancestor"
    "outside_zone L nsec (to_lower (Fqdn L qname))" "outside_zone L nsec (''*.'' @ ancestor)"
  shows "validateNSECProof L RcodeNameError records qname qtype = None"
proof -
  have "nsecCovers L nsec n" if "outside_zone L nsec n" for n
    using assms(2) that by (auto simp: nsecCovers_def outside_zone_def last_nsec_def Let_def)
  then have "anyNSECCovers L records n" if "outside_zone L nsec n" for n
    using assms(1) that by (auto simp: anyNSECCovers_def list_ex_iff)
  then show ?thesis using assms(3-5) by (simp add: validateNSECProof_def Let_def rcode_defs)
qed

end
