(* ===== verification/Validator_Examples.thy ===== *)
theory Validator_Examples
  imports Validator_Props
begin

text \<open>
  The validator's properties applied: every zone has one key, its public part is the zone's name, and a
  signature verifies under the key it names.
\<close>

definition ex_pack :: "string \<Rightarrow> bytes option" where
  "ex_pack n = Some (concat (map (\<lambda>l. of_nat (length l) # map of_char l) (ex_labels [] n)) @ [0])"

definition ex_sec :: sec_lib where
  "ex_sec = dns_lib.extend ex_lib
     \<lparr>dnskeyTag = (\<lambda>k. of_nat (length (ky_PublicKey k))), ToDS = (\<lambda>(_, k) _. Some (ky_PublicKey k)),
      VerifyRRSIG = (\<lambda>(_, s) (_, k) _. rs_Signature s = ky_PublicKey k),
      N3Match = (\<lambda>_ _. False), N3Cover = (\<lambda>_ _. False), PackDomainName = ex_pack\<rparr>"

definition ex_rr :: "string \<Rightarrow> u16 \<Rightarrow> rdata \<Rightarrow> rr" where
  "ex_rr n t d = \<lparr>rr_name = n, rr_type = t, rr_class = ClassINET, rr_ttl = 300, rr_data = d\<rparr>"

definition ex_key :: "string \<Rightarrow> rr" where
  "ex_key n = ex_rr n TypeDNSKEY (RDNSKEY \<lparr>ky_Flags = 257, ky_Protocol = 3, ky_Algorithm = 8, ky_PublicKey = n\<rparr>)"

definition ex_sig :: "string \<Rightarrow> u16 \<Rightarrow> string \<Rightarrow> rr" where
  "ex_sig n t signer = ex_rr n TypeRRSIG (RRRSIG \<lparr>rs_TypeCovered = t, rs_Algorithm = 8, rs_Labels = 2, rs_Expiration = 2000,
     rs_Inception = 1000, rs_KeyTag = of_nat (length signer), rs_SignerName = signer, rs_Signature = signer\<rparr>)"

definition ex_msg :: "int \<Rightarrow> rr list \<Rightarrow> rr list \<Rightarrow> dmsg" where
  "ex_msg rcode answer ns = \<lparr>m_question = [], m_rcode = rcode, m_tc = False, m_answer = answer, m_ns = ns, m_extra = [],
     m_id = 0, m_rd = False, m_cd = False, m_ra = True, m_ad = False, m_aa = False\<rparr>"

definition ex_parent :: "string \<Rightarrow> string" where
  "ex_parent n = ex_fqdn (join_labels (tl (ex_labels [] n)))"

definition ex_chain :: "unit chain_net" where
  "ex_chain = \<lparr>Query = (\<lambda>_ n t. (Some (ex_msg RcodeSuccess
       (if t = TypeDNSKEY then [ex_key n, ex_sig n TypeDNSKEY n]
        else [ex_rr n TypeDS (RDS \<lparr>ds_KeyTag = of_nat (length n), ds_Algorithm = 8, ds_DigestType = 2, ds_Digest = n\<rparr>),
              ex_sig n TypeDS (ex_parent n)]) []), ())), clock = (\<lambda>_. 1500)\<rparr>"

definition ex_validator :: validator where
  "ex_validator = \<lparr>vcfg = DefaultValidatorConfig, trustAnchors = [(ex_key ''.'', case rr_data (ex_key ''.'') of RDNSKEY k \<Rightarrow> k)],
     negativeTrustAnchors = []\<rparr>"

definition ex_answer :: dmsg where
  "ex_answer = ex_msg RcodeSuccess [ex_rr ''www.example.'' TypeA (RA [192, 0, 2, 1]), ex_sig ''www.example.'' TypeA ''example.''] []"

definition ex_sibling :: dmsg where
  "ex_sibling = ex_msg RcodeNameError []
     [ex_rr ''z.child.example.'' TypeNSEC (RNSEC ''child.example.'' [TypeA]), ex_sig ''z.child.example.'' TypeNSEC ''child.example.'',
      ex_rr ''example.'' TypeNSEC (RNSEC ''a.example.'' [TypeNS]), ex_sig ''example.'' TypeNSEC ''example.'']"

lemma ex_chain_steady: "steady_clock ex_chain"
  by (simp add: steady_clock_def ex_chain_def)

definition ex_verdict :: "dmsg \<Rightarrow> string \<Rightarrow> validation_result" where
  "ex_verdict msg qname = fst (fst (Validate ex_sec ex_validator ex_chain msg qname TypeA ()))"

lemma ex_answer_secure: "Secure (ex_verdict ex_answer ''www.example.'')"
  by code_simp


text \<open>The same chain, except that the reply for the DS records of \<open>example.\<close> is empty and unsigned.\<close>

definition ex_forged :: "unit chain_net" where
  "ex_forged = ex_chain\<lparr>Query := (\<lambda>_ n t. if t = TypeDS then (Some (ex_msg RcodeSuccess [] []), ()) else Query ex_chain () n t)\<rparr>"

theorem dnssec_downgrade_witness:
  "Secure (ex_verdict ex_answer ''www.example.'') \<and>
   (\<exists>r w. Validate ex_sec ex_validator ex_forged ex_answer ''www.example.'' TypeA () = ((r, None), w) \<and>
      Insecure r \<and> \<not> Bogus r)"
proof (rule conjI[OF ex_answer_secure], rule dnssec_downgrade[THEN conjunct2])
  show "signer_path ex_sec ex_answer (Fqdn ex_sec (to_lower ''www.example.'')) TypeA = ''.'' # ''example.'' # []" by code_simp
  show "forged_ds ex_sec ex_validator ex_forged () ''example.''" by code_simp
  show "\<not> isNegativeTrustAnchor ex_sec ex_validator (Fqdn ex_sec (to_lower ''www.example.''))" by code_simp
  show "response_sigs ex_answer (Fqdn ex_sec (to_lower ''www.example.'')) TypeA \<noteq> []" by code_simp
  show "hasDNSSECRecords ex_answer" by code_simp
  show "\<not> nsec3IterationsOverCap ex_answer (NSEC3MaxIterations (vcfg ex_validator))" by code_simp
qed (simp_all add: ex_validator_def DefaultValidatorConfig_def)

text \<open>The NSEC records of the negative response, with the one of the child zone first.\<close>

definition ex_nsecs :: "nsec_rr list" where
  "ex_nsecs = nsecs_of (m_ns ex_sibling)"

theorem sibling_denial_witness:
  "Secure (ex_verdict ex_sibling ''victim.example.'') \<and>
   validateNSECProof ex_sec RcodeNameError ex_nsecs ''victim.example.'' TypeA = None"
proof
  show "Secure (ex_verdict ex_sibling ''victim.example.'')" by code_simp
  show "validateNSECProof ex_sec RcodeNameError ex_nsecs ''victim.example.'' TypeA = None"
    by (rule sibling_denial[of "hd ex_nsecs" _ _ _ "''example.''"]) code_simp+
qed

end
