(* ===== verification/Nsec.thy ===== *)
theory Nsec
  imports Validator
begin

text \<open>
  Aggressive use of cached NSEC and NSEC3 records (RFC 8198), \<open>internal/cache/nsec.go\<close>. Times are nanoseconds.
  \<open>dns.Split\<close>, the positions of a name's labels, is library code beside that of \<open>Validator\<close>.
\<close>

record nsec_lib = sec_lib +
  SplitPositions :: "string \<Rightarrow> nat list"

record nsecRecord =
  ns_Owner :: string
  ns_Next :: string
  ns_TypeMap :: "u16 list"
  ns_ExpiresAt :: int
  ns_Zone :: string

record nsec3Record =
  ns3_OwnerHash :: string
  ns3_NextHash :: string
  ns3_Zone :: string
  ns3_Hash :: byte
  ns3_Iterations :: u16
  ns3_Salt :: string
  ns3_Flags :: byte
  ns3_TypeMap :: "u16 list"
  ns3_ExpiresAt :: int

record nsecCache =
  nsec_records :: "nsecRecord list"
  nsec3_records :: "nsec3Record list"

definition NewNSECCache :: nsecCache where
  "NewNSECCache = \<lparr>nsec_records = [], nsec3_records = []\<rparr>"

text \<open>\<open>strings.ToUpper\<close>, on ASCII.\<close>

definition to_upper :: "string \<Rightarrow> string" where
  "to_upper s = map (\<lambda>c. if 97 \<le> (of_char c :: nat) \<and> (of_char c :: nat) \<le> 122 then char_of ((of_char c :: nat) - 32) else c) s"

text \<open>Replacing the first record that satisfies the predicate, or appending.\<close>

fun replace_or_append :: "('a \<Rightarrow> bool) \<Rightarrow> 'a \<Rightarrow> 'a list \<Rightarrow> 'a list" where
  "replace_or_append P x [] = [x]"
| "replace_or_append P x (y # ys) = (if P y then x # ys else y # replace_or_append P x ys)"

definition seconds :: "u32 \<Rightarrow> int" where
  "seconds ttl = int (unat ttl) * 1000000000"

text \<open>The record that \<open>Store\<close> makes of an NSEC or NSEC3 record of the authority section.\<close>

definition new_nsec :: "nsec_lib \<Rightarrow> int \<Rightarrow> string \<Rightarrow> rr \<Rightarrow> nsecRecord option" where
  "new_nsec L now zone r =
     (case rr_data r of
        RNSEC next types \<Rightarrow>
          Some \<lparr>ns_Owner = to_lower (Fqdn L (rr_name r)), ns_Next = to_lower (Fqdn L next), ns_TypeMap = types,
                ns_ExpiresAt = now + seconds (rr_ttl r), ns_Zone = to_lower (Fqdn L zone)\<rparr>
      | _ \<Rightarrow> None)"

definition new_nsec3 :: "nsec_lib \<Rightarrow> int \<Rightarrow> rr \<Rightarrow> nsec3Record option" where
  "new_nsec3 L now r =
     (case rr_data r of
        RNSEC3 n \<Rightarrow>
          if n3_Hash n \<noteq> 1 then None
          else if n3_Flags n AND 1 \<noteq> 0 then None
          else let owner = to_upper (rr_name r); labelIdx = SplitPositions L owner in
            if length labelIdx < 2 then None
            else Some \<lparr>ns3_OwnerHash = take (labelIdx ! 1 - 1) owner, ns3_NextHash = to_upper (n3_NextDomain n),
                       ns3_Zone = to_lower (Fqdn L (drop (labelIdx ! 1) owner)), ns3_Hash = n3_Hash n,
                       ns3_Iterations = n3_Iterations n, ns3_Salt = n3_Salt n, ns3_Flags = n3_Flags n,
                       ns3_TypeMap = n3_TypeBitMap n, ns3_ExpiresAt = now + seconds (rr_ttl r)\<rparr>
      | _ \<Rightarrow> None)"

definition store_nsec :: "nsec_lib \<Rightarrow> int \<Rightarrow> string \<Rightarrow> rr \<Rightarrow> nsecRecord list \<Rightarrow> nsecRecord list" where
  "store_nsec L now zone r recs =
     (case new_nsec L now zone r of
        None \<Rightarrow> recs
      | Some rec \<Rightarrow> replace_or_append (\<lambda>e. ns_Owner e = ns_Owner rec) rec recs)"

definition store_nsec3 :: "nsec_lib \<Rightarrow> int \<Rightarrow> rr \<Rightarrow> nsec3Record list \<Rightarrow> nsec3Record list" where
  "store_nsec3 L now r recs =
     (case new_nsec3 L now r of
        None \<Rightarrow> recs
      | Some rec \<Rightarrow>
          replace_or_append (\<lambda>e. ns3_OwnerHash e = ns3_OwnerHash rec \<and> ns3_Zone e = ns3_Zone rec) rec recs)"

definition nsec_Store :: "nsec_lib \<Rightarrow> int \<Rightarrow> dmsg \<Rightarrow> string \<Rightarrow> nsecCache \<Rightarrow> nsecCache" where
  "nsec_Store L now msg zone c =
     \<lparr>nsec_records = fold (store_nsec L now zone) (m_ns msg) (nsec_records c),
      nsec3_records = fold (store_nsec3 L now) (m_ns msg) (nsec3_records c)\<rparr>"

subsection \<open>The canonical order\<close>

definition trim_final_dot :: "string \<Rightarrow> string" where
  "trim_final_dot s = (if s \<noteq> [] \<and> last s = CHR ''.'' then butlast s else s)"

text \<open>\<open>strings.Split(s, ".")\<close>.\<close>

fun split_dots :: "string \<Rightarrow> string list" where
  "split_dots [] = [[]]"
| "split_dots (c # cs) =
     (if c = CHR ''.'' then [] # split_dots cs
      else case split_dots cs of l # ls \<Rightarrow> (c # l) # ls | [] \<Rightarrow> [[c]])"

definition reverseLabels :: "string list \<Rightarrow> string list" where
  "reverseLabels = rev"

fun labels_less :: "string list \<Rightarrow> string list \<Rightarrow> bool" where
  "labels_less (a # as) (b # bs) = (if a < b then True else if a > b then False else labels_less as bs)"
| "labels_less as bs = (length as < length bs)"

definition canonicalLess :: "string \<Rightarrow> string \<Rightarrow> bool" where
  "canonicalLess a b =
     labels_less (reverseLabels (split_dots (to_lower (trim_final_dot a))))
       (reverseLabels (split_dots (to_lower (trim_final_dot b))))"

subsection \<open>Synthesis\<close>

definition until_seconds :: "int \<Rightarrow> int \<Rightarrow> u32" where
  "until_seconds expires now = word_of_int ((expires - now) div 1000000000)"

definition synthetic :: "string \<Rightarrow> u16 \<Rightarrow> u16 \<Rightarrow> u16 \<Rightarrow> rr \<Rightarrow> dmsg" where
  "synthetic qname qtype qclass queryID proof_rr =
     \<lparr>m_question = [(qname, qtype, qclass)], m_rcode = RcodeNameError, m_tc = False, m_answer = [], m_ns = [proof_rr],
      m_extra = [], m_id = queryID, m_rd = False, m_cd = False, m_ra = True, m_ad = False, m_aa = False\<rparr>"

definition buildSyntheticNXDOMAIN :: "int \<Rightarrow> string \<Rightarrow> u16 \<Rightarrow> u16 \<Rightarrow> u16 \<Rightarrow> nsecRecord \<Rightarrow> dmsg" where
  "buildSyntheticNXDOMAIN now qname qtype qclass queryID r =
     synthetic qname qtype qclass queryID
       \<lparr>rr_name = ns_Owner r, rr_type = TypeNSEC, rr_class = ClassINET, rr_ttl = until_seconds (ns_ExpiresAt r) now,
        rr_data = RNSEC (ns_Next r) (ns_TypeMap r)\<rparr>"

definition nsec3_data :: "nsec3Record \<Rightarrow> nsec3_rd" where
  "nsec3_data r = \<lparr>n3_Hash = ns3_Hash r, n3_Flags = ns3_Flags r, n3_Iterations = ns3_Iterations r, n3_Salt = ns3_Salt r,
     n3_NextDomain = ns3_NextHash r, n3_TypeBitMap = ns3_TypeMap r\<rparr>"

definition nsec3_rr_of :: "u16 \<Rightarrow> u16 \<Rightarrow> u32 \<Rightarrow> nsec3Record \<Rightarrow> rr" where
  "nsec3_rr_of t cls ttl r = \<lparr>rr_name = ns3_OwnerHash r @ ''.'' @ ns3_Zone r, rr_type = t, rr_class = cls, rr_ttl = ttl,
     rr_data = RNSEC3 (nsec3_data r)\<rparr>"

definition buildSyntheticNXDOMAIN_NSEC3 :: "int \<Rightarrow> string \<Rightarrow> u16 \<Rightarrow> u16 \<Rightarrow> u16 \<Rightarrow> nsec3Record \<Rightarrow> dmsg" where
  "buildSyntheticNXDOMAIN_NSEC3 now qname qtype qclass queryID r =
     synthetic qname qtype qclass queryID (nsec3_rr_of TypeNSEC3 ClassINET (until_seconds (ns3_ExpiresAt r) now) r)"

definition nsec_denies :: "nsec_lib \<Rightarrow> int \<Rightarrow> string \<Rightarrow> nsecRecord \<Rightarrow> bool" where
  "nsec_denies L now qname r \<longleftrightarrow>
     \<not> ns_ExpiresAt r < now \<and> IsSubDomain L (ns_Zone r) qname \<and>
     (canonicalLess (ns_Owner r) qname \<and> canonicalLess qname (ns_Next r) \<or>
      canonicalLess (ns_Owner r) qname \<and> canonicalLess (ns_Next r) (ns_Owner r))"

definition nsec3_denies :: "nsec_lib \<Rightarrow> int \<Rightarrow> string \<Rightarrow> nsec3Record \<Rightarrow> bool" where
  "nsec3_denies L now qname r \<longleftrightarrow>
     \<not> ns3_ExpiresAt r < now \<and> IsSubDomain L (ns3_Zone r) qname \<and>
     N3Cover L (nsec3_rr_of 0 0 0 r, nsec3_data r) qname"

definition synthesizeFromNSEC3 ::
  "nsec_lib \<Rightarrow> int \<Rightarrow> nsecCache \<Rightarrow> string \<Rightarrow> u16 \<Rightarrow> u16 \<Rightarrow> u16 \<Rightarrow> dmsg option" where
  "synthesizeFromNSEC3 L now c qname qtype qclass queryID =
     (let qname = to_lower (Fqdn L qname) in
      map_option (buildSyntheticNXDOMAIN_NSEC3 now qname qtype qclass queryID)
        (List.find (nsec3_denies L now qname) (nsec3_records c)))"

definition SynthesizeNXDOMAIN ::
  "nsec_lib \<Rightarrow> int \<Rightarrow> nsecCache \<Rightarrow> string \<Rightarrow> u16 \<Rightarrow> u16 \<Rightarrow> u16 \<Rightarrow> dmsg option" where
  "SynthesizeNXDOMAIN L now c qname qtype qclass queryID =
     (let qname = to_lower (Fqdn L qname) in
      case List.find (nsec_denies L now qname) (nsec_records c) of
        Some r \<Rightarrow> Some (buildSyntheticNXDOMAIN now qname qtype qclass queryID r)
      | None \<Rightarrow> synthesizeFromNSEC3 L now c qname qtype qclass queryID)"

definition nsec_Flush :: "int \<Rightarrow> nsecCache \<Rightarrow> nsecCache" where
  "nsec_Flush now c =
     \<lparr>nsec_records = filter (\<lambda>r. ns_ExpiresAt r > now) (nsec_records c),
      nsec3_records = filter (\<lambda>r. ns3_ExpiresAt r > now) (nsec3_records c)\<rparr>"

end
