(* ===== verification/Expiry_Queue.thy ===== *)
theory Expiry_Queue
  imports Prelude "HOL-Library.Product_Lexorder"
begin

text \<open>
  The indexed min-heap of \<open>internal/cache/sharded.go\<close> that orders the entries of a shard by the time
  they may be removed, and its contract: a finite map from hash to time with extraction of the
  earliest. Times are integers (nanoseconds).
\<close>

subsection \<open>The heap\<close>

record expiryItem =
  item_hash :: u64
  item_removeAfter :: int

record expiryQueue =
  items :: "expiryItem list"
  indices :: "u64 \<Rightarrow> nat option"

definition newExpiryQueue :: expiryQueue where
  "newExpiryQueue = \<lparr>items = [], indices = (\<lambda>_. None)\<rparr>"

definition queue_less :: "expiryQueue \<Rightarrow> nat \<Rightarrow> nat \<Rightarrow> bool" where
  "queue_less q i j =
     (let a = items q ! i; b = items q ! j in
      if item_removeAfter a = item_removeAfter b then item_hash a < item_hash b
      else item_removeAfter a < item_removeAfter b)"

definition queue_swap :: "expiryQueue \<Rightarrow> nat \<Rightarrow> nat \<Rightarrow> expiryQueue" where
  "queue_swap q i j =
     (let xs = (items q)[i := items q ! j, j := items q ! i]
      in \<lparr>items = xs, indices = (indices q)(item_hash (xs ! i) := Some i, item_hash (xs ! j) := Some j)\<rparr>)"

function queue_up :: "expiryQueue \<Rightarrow> nat \<Rightarrow> expiryQueue" where
  "queue_up q index =
     (if index = 0 then q
      else let parent = (index - 1) div 2 in
        if \<not> queue_less q index parent then q else queue_up (queue_swap q index parent) parent)"
  by auto
termination by (relation "measure (\<lambda>(q, index). index)") auto

lemma length_swap [simp]: "length (items (queue_swap q i j)) = length (items q)"
  by (simp add: queue_swap_def Let_def)

text \<open>The smaller of the two children, given the left one.\<close>

definition smallest_child :: "expiryQueue \<Rightarrow> nat \<Rightarrow> nat" where
  "smallest_child q left =
     (if left + 1 < length (items q) \<and> queue_less q (left + 1) left then left + 1 else left)"

function queue_down :: "expiryQueue \<Rightarrow> nat \<Rightarrow> expiryQueue" where
  "queue_down q index =
     (let left = index * 2 + 1 in
      if left \<ge> length (items q) then q
      else let smallest = smallest_child q left in
        if \<not> queue_less q smallest index then q else queue_down (queue_swap q index smallest) smallest)"
  by auto
termination
  by (relation "measure (\<lambda>(q, index). length (items q) - index)") (auto simp: smallest_child_def Let_def)

declare queue_up.simps [simp del] queue_down.simps [simp del]

definition queue_set :: "u64 \<Rightarrow> int \<Rightarrow> expiryQueue \<Rightarrow> expiryQueue" where
  "queue_set hash t q =
     (case indices q hash of
        Some index \<Rightarrow>
          let old = item_removeAfter (items q ! index);
              q = q\<lparr>items := (items q)[index := (items q ! index)\<lparr>item_removeAfter := t\<rparr>]\<rparr>
          in if t < old then queue_up q index else queue_down q index
      | None \<Rightarrow>
          let q = q\<lparr>items := items q @ [\<lparr>item_hash = hash, item_removeAfter = t\<rparr>],
                    indices := (indices q)(hash := Some (length (items q)))\<rparr>
          in queue_up q (length (items q) - 1))"

definition queue_peek :: "expiryQueue \<Rightarrow> expiryItem option" where
  "queue_peek q = (case items q of [] \<Rightarrow> None | x # _ \<Rightarrow> Some x)"

definition queue_remove :: "u64 \<Rightarrow> expiryQueue \<Rightarrow> bool \<times> expiryQueue" where
  "queue_remove hash q =
     (case indices q hash of
        None \<Rightarrow> (False, q)
      | Some index \<Rightarrow>
          let last = length (items q) - 1;
              q = q\<lparr>indices := (indices q)(hash := None)\<rparr>
          in if index = last then (True, q\<lparr>items := take last (items q)\<rparr>)
             else let xs = take last ((items q)[index := items q ! last]);
                      q = q\<lparr>items := xs, indices := (indices q)(item_hash (xs ! index) := Some index)\<rparr>
                  in (True, if index > 0 \<and> queue_less q index ((index - 1) div 2)
                            then queue_up q index else queue_down q index))"

definition queue_pop :: "expiryQueue \<Rightarrow> expiryItem option \<times> expiryQueue" where
  "queue_pop q =
     (case items q of
        [] \<Rightarrow> (None, q)
      | item # _ \<Rightarrow> (Some item, snd (queue_remove (item_hash item) q)))"

subsection \<open>The heap order\<close>

definition item_key :: "expiryItem \<Rightarrow> int \<times> u64" where
  "item_key x = (item_removeAfter x, item_hash x)"

lemma queue_less_key: "queue_less q i j \<longleftrightarrow> item_key (items q ! i) < item_key (items q ! j)"
  by (auto simp: queue_less_def item_key_def Let_def less_prod_def)

definition par :: "nat \<Rightarrow> nat" where "par j = (j - 1) div 2"

lemma par_less: "0 < j \<Longrightarrow> par j < j"
  by (simp add: par_def)

lemma par_child: "0 < j \<Longrightarrow> par j = i \<longleftrightarrow> j = 2 * i + 1 \<or> j = 2 * i + 2"
  by (auto simp: par_def)

definition ordered_at :: "('a \<Rightarrow> 'k::linorder) \<Rightarrow> 'a list \<Rightarrow> nat \<Rightarrow> bool" where
  "ordered_at key xs j \<longleftrightarrow> (0 < j \<longrightarrow> key (xs ! par j) \<le> key (xs ! j))"

definition is_heap :: "('a \<Rightarrow> 'k::linorder) \<Rightarrow> 'a list \<Rightarrow> bool" where
  "is_heap key xs \<longleftrightarrow> (\<forall>j < length xs. ordered_at key xs j)"

text \<open>A grandparent below every child of \<open>i\<close>: what a move at \<open>i\<close> needs.\<close>

definition bridged :: "('a \<Rightarrow> 'k::linorder) \<Rightarrow> 'a list \<Rightarrow> nat \<Rightarrow> bool" where
  "bridged key xs i \<longleftrightarrow> (\<forall>c < length xs. 0 < i \<and> 0 < c \<and> par c = i \<longrightarrow> key (xs ! par i) \<le> key (xs ! c))"

definition up_hole :: "('a \<Rightarrow> 'k::linorder) \<Rightarrow> 'a list \<Rightarrow> nat \<Rightarrow> bool" where
  "up_hole key xs i \<longleftrightarrow> (\<forall>j < length xs. j \<noteq> i \<longrightarrow> ordered_at key xs j) \<and> bridged key xs i"

definition down_hole :: "('a \<Rightarrow> 'k::linorder) \<Rightarrow> 'a list \<Rightarrow> nat \<Rightarrow> bool" where
  "down_hole key xs i \<longleftrightarrow>
     (\<forall>j < length xs. 0 < j \<longrightarrow> par j \<noteq> i \<longrightarrow> ordered_at key xs j) \<and> bridged key xs i"

lemma up_hole_done: "up_hole key xs i \<Longrightarrow> ordered_at key xs i \<Longrightarrow> is_heap key xs"
  by (auto simp: up_hole_def is_heap_def)

lemma up_hole_step:
  assumes "up_hole key xs i" "0 < i" "i < length xs" "key (xs ! i) < key (xs ! par i)"
  shows "up_hole key (xs[i := xs ! par i, par i := xs ! i]) (par i)"
proof -
  let ?p = "par i" and ?ys = "xs[i := xs ! par i, par i := xs ! i]"
  have p: "?p < i" using assms(2) by (rule par_less)
  have y: "?ys ! j = (if j = ?p then xs ! i else if j = i then xs ! ?p else xs ! j)" if "j < length xs" for j
    using that p assms(3) by (auto simp: nth_list_update)
  have ord: "0 < j \<Longrightarrow> j < length xs \<Longrightarrow> j \<noteq> i \<Longrightarrow> key (xs ! par j) \<le> key (xs ! j)" for j
    using assms(1) by (auto simp: up_hole_def ordered_at_def)
  have bri: "c < length xs \<Longrightarrow> 0 < c \<Longrightarrow> par c = i \<Longrightarrow> key (xs ! ?p) \<le> key (xs ! c)" for c
    using assms(1,2) by (auto simp: up_hole_def bridged_def)
  have "ordered_at key ?ys j" if "j < length ?ys" "j \<noteq> ?p" for j
  proof -
    consider "j = 0" | "0 < j" "j = i" | "0 < j" "j \<noteq> i" "par j = i" | "0 < j" "j \<noteq> i" "par j = ?p"
      | "0 < j" "j \<noteq> i" "par j \<noteq> i" "par j \<noteq> ?p" by blast
    then show ?thesis
    proof cases
      case 4
      then have "key (xs ! ?p) \<le> key (xs ! j)" using ord[of j] that by simp
      then show ?thesis using 4 that assms(3,4) p y[of j] y[of ?p] by (auto simp: ordered_at_def)
    qed (use that assms(3,4) p y par_less[of j] ord[of j] bri[of j] in \<open>auto simp: ordered_at_def\<close>)
  qed
  moreover have "bridged key ?ys ?p"
  proof -
    have "key (?ys ! par ?p) \<le> key (?ys ! c)" if "c < length xs" "0 < ?p" "0 < c" "par c = ?p" for c
    proof -
      have q: "par ?p < ?p" using that(2) by (rule par_less)
      have "key (xs ! par ?p) \<le> key (xs ! ?p)" using ord[of ?p] that p assms(3) by simp
      moreover have "c \<noteq> ?p" using that par_less[of c] by auto
      ultimately show ?thesis using that q p assms(3) y[of c] y[of "par ?p"] ord[of c]
        by (auto split: if_splits intro: order_trans)
    qed
    then show ?thesis by (simp add: bridged_def)
  qed
  ultimately show ?thesis by (simp add: up_hole_def)
qed

lemma down_hole_done:
  assumes "down_hole key xs i"
    and "\<And>c. c < length xs \<Longrightarrow> c = 2 * i + 1 \<or> c = 2 * i + 2 \<Longrightarrow> key (xs ! i) \<le> key (xs ! c)"
  shows "is_heap key xs"
proof -
  have "ordered_at key xs j" if "j < length xs" for j
  proof (cases "0 < j \<and> par j = i")
    case True then show ?thesis using assms(2)[of j] that par_child[of j i] by (auto simp: ordered_at_def)
  next
    case False then show ?thesis using assms(1) that by (auto simp: down_hole_def ordered_at_def)
  qed
  then show ?thesis by (simp add: is_heap_def)
qed

lemma down_hole_step:
  assumes "down_hole key xs i" "s < length xs" "0 < s" "par s = i" "key (xs ! s) < key (xs ! i)"
    and least: "\<And>c. c < length xs \<Longrightarrow> 0 < c \<Longrightarrow> par c = i \<Longrightarrow> key (xs ! s) \<le> key (xs ! c)"
  shows "down_hole key (xs[i := xs ! s, s := xs ! i]) s"
proof -
  let ?ys = "xs[i := xs ! s, s := xs ! i]"
  have i: "i < s" using assms(3,4) par_less by blast
  have y: "?ys ! j = (if j = s then xs ! i else if j = i then xs ! s else xs ! j)" if "j < length xs" for j
    using that i assms(2) by (auto simp: nth_list_update)
  have ord: "0 < j \<Longrightarrow> j < length xs \<Longrightarrow> par j \<noteq> i \<Longrightarrow> key (xs ! par j) \<le> key (xs ! j)" for j
    using assms(1) by (auto simp: down_hole_def ordered_at_def)
  have bri: "0 < i \<Longrightarrow> key (xs ! par i) \<le> key (xs ! s)"
    using assms(1-4) by (auto simp: down_hole_def bridged_def)
  have "ordered_at key ?ys j" if "j < length ?ys" "0 < j" "par j \<noteq> s" for j
  proof -
    have pj: "par j < j" using that(2) by (rule par_less)
    consider "j = s" | "j \<noteq> s" "par j = i" | "j = i" | "j \<noteq> s" "j \<noteq> i" "par j \<noteq> i" by blast
    then show ?thesis
    proof cases
      case 1 then show ?thesis using that y[of s] y[of i] assms i by (auto simp: ordered_at_def)
    next
      case 2
      then have "j \<noteq> i" using pj by auto
      then show ?thesis using 2 that y[of j] y[of i] least[of j] assms(2) i by (auto simp: ordered_at_def)
    next
      case 3
      then have "par i \<noteq> s" "par i \<noteq> i" using pj i by auto
      then show ?thesis using 3 that y[of i] y[of "par i"] bri i assms(2) pj by (auto simp: ordered_at_def)
    next
      case 4 then show ?thesis using that y[of j] y[of "par j"] ord[of j] pj by (auto simp: ordered_at_def)
    qed
  qed
  moreover have "bridged key ?ys s"
  proof -
    have "key (?ys ! par s) \<le> key (?ys ! c)" if "c < length xs" "0 < c" "par c = s" for c
    proof -
      have c: "s < c" using that par_less by blast
      then have "key (xs ! s) \<le> key (xs ! c)" using ord[of c] that i by simp
      then show ?thesis using y[of i] y[of c] c i that assms(2,4) by auto
    qed
    then show ?thesis by (simp add: bridged_def)
  qed
  ultimately show ?thesis by (simp add: down_hole_def)
qed

lemma replaced_hole:
  assumes "is_heap key xs" "i < n" "n \<le> length xs"
  shows "key x \<le> key (xs ! i) \<Longrightarrow> up_hole key (take n (xs[i := x])) i"
    "0 < i \<longrightarrow> key (xs ! par i) \<le> key x \<Longrightarrow> down_hole key (take n (xs[i := x])) i"
proof -
  let ?ys = "take n (xs[i := x])"
  have y: "?ys ! j = (if j = i then x else xs ! j)" if "j < n" for j
    using that assms(2,3) by simp
  have len: "length ?ys = n" using assms(3) by simp
  have ord: "0 < j \<Longrightarrow> j < n \<Longrightarrow> key (xs ! par j) \<le> key (xs ! j)" for j
    using assms(1,3) by (auto simp: is_heap_def ordered_at_def)
  have bri: "bridged key ?ys i"
  proof -
    have "key (?ys ! par i) \<le> key (?ys ! c)" if "c < n" "0 < i" "0 < c" "par c = i" for c
    proof -
      have "i < c" "par i < i" using that par_less by blast+
      then show ?thesis using that y[of c] y[of "par i"] ord[of c] ord[of i] assms(2) by (auto intro: order_trans)
    qed
    then show ?thesis using len by (simp add: bridged_def)
  qed
  show "up_hole key ?ys i" if x: "key x \<le> key (xs ! i)"
  proof -
    have "ordered_at key ?ys j" if "j < n" "j \<noteq> i" for j
    proof (cases "0 < j")
      case True
      then have "par j < j" by (rule par_less)
      then show ?thesis using that True y[of j] y[of "par j"] ord[of j] x by (auto simp: ordered_at_def intro: order_trans)
    qed (simp add: ordered_at_def)
    then show ?thesis using bri len by (simp add: up_hole_def)
  qed
  show "down_hole key ?ys i" if x: "0 < i \<longrightarrow> key (xs ! par i) \<le> key x"
  proof -
    have "ordered_at key ?ys j" if "j < n" "0 < j" "par j \<noteq> i" for j
    proof -
      have "par j < j" using that(2) by (rule par_less)
      then show ?thesis using that y[of j] y[of "par j"] ord[of j] x by (auto simp: ordered_at_def)
    qed
    then show ?thesis using bri len by (simp add: down_hole_def)
  qed
qed

lemma heap_min: "is_heap key xs \<Longrightarrow> j < length xs \<Longrightarrow> key (xs ! 0) \<le> key (xs ! j)"
proof (induction j rule: less_induct)
  case (less j)
  show ?case
  proof (cases "j = 0")
    case False
    then have "par j < j" using par_less by simp
    moreover have "key (xs ! par j) \<le> key (xs ! j)" using less.prems False by (auto simp: is_heap_def ordered_at_def)
    ultimately show ?thesis using less.IH[of "par j"] less.prems by auto
  qed simp
qed

subsection \<open>The index and the contents\<close>

definition index_ok :: "expiryQueue \<Rightarrow> bool" where
  "index_ok q \<longleftrightarrow> (\<forall>h i. indices q h = Some i \<longleftrightarrow> i < length (items q) \<and> item_hash (items q ! i) = h)"

definition queue_ok :: "expiryQueue \<Rightarrow> bool" where
  "queue_ok q \<longleftrightarrow> index_ok q \<and> is_heap item_key (items q)"

text \<open>The map that a queue stands for.\<close>

definition queue_map :: "expiryQueue \<Rightarrow> u64 \<Rightarrow> int option" where
  "queue_map q h = map_option (\<lambda>i. item_removeAfter (items q ! i)) (indices q h)"

lemma queue_map_Some:
  "index_ok q \<Longrightarrow> queue_map q h = Some t \<longleftrightarrow> \<lparr>item_hash = h, item_removeAfter = t\<rparr> \<in> set (items q)"
proof -
  assume ok: "index_ok q"
  have "queue_map q h = Some t \<longleftrightarrow> (\<exists>i < length (items q). item_hash (items q ! i) = h \<and> item_removeAfter (items q ! i) = t)"
    using ok by (auto simp: queue_map_def index_ok_def)
  also have "\<dots> \<longleftrightarrow> (\<exists>i < length (items q). items q ! i = \<lparr>item_hash = h, item_removeAfter = t\<rparr>)"
    by (metis (full_types) expiryItem.select_convs expiryItem.surjective old.unit.exhaust)
  finally show ?thesis by (simp add: in_set_conv_nth)
qed

lemma queue_map_cong:
  assumes "index_ok q" "index_ok q'" "set (items q) = set (items q')"
  shows "queue_map q = queue_map q'"
proof
  fix h
  have "queue_map q h = Some t \<longleftrightarrow> queue_map q' h = Some t" for t
    using assms by (simp add: queue_map_Some)
  then show "queue_map q h = queue_map q' h" by (metis not_Some_eq)
qed

lemma index_ok_distinct: "index_ok q \<Longrightarrow> distinct (map item_hash (items q))"
  by (auto simp: distinct_conv_nth index_ok_def) (metis option.inject)

lemma swap_ok:
  assumes "index_ok q" "i < length (items q)" "j < length (items q)"
  shows "index_ok (queue_swap q i j)" "set (items (queue_swap q i j)) = set (items q)"
proof -
  let ?xs = "(items q)[i := items q ! j, j := items q ! i]"
  have nth: "?xs ! k = (if k = j then items q ! i else if k = i then items q ! j else items q ! k)"
    if "k < length (items q)" for k
    using that assms(2,3) by (auto simp: nth_list_update)
  have ix: "indices q h = Some k \<longleftrightarrow> k < length (items q) \<and> item_hash (items q ! k) = h" for h k
    using assms(1) by (simp add: index_ok_def)
  have uniq: "k = l" if "k < length (items q)" "l < length (items q)" "item_hash (items q ! k) = item_hash (items q ! l)" for k l
    using ix[of "item_hash (items q ! l)" k] ix[of "item_hash (items q ! l)" l] that by simp
  let ?hi = "item_hash (items q ! i)" and ?hj = "item_hash (items q ! j)"
  have "?xs ! i = items q ! j" "?xs ! j = items q ! i"
    using assms(2,3) by (cases "i = j"; simp add: nth_list_update)+
  then have ind: "indices (queue_swap q i j) h = (if h = ?hi then Some j else if h = ?hj then Some i else indices q h)" for h
    by (simp add: queue_swap_def Let_def)
  have "(if h = ?hi then Some j else if h = ?hj then Some i else indices q h) = Some k \<longleftrightarrow>
      k < length (items q) \<and> item_hash (?xs ! k) = h" for h k
  proof (cases "k < length (items q)")
    case False then show ?thesis using assms(2,3) ix[of h k] by auto
  next
    case True
    consider "k = j" | "k \<noteq> j" "k = i" | "k \<noteq> j" "k \<noteq> i" by blast
    then show ?thesis
    proof cases
      case 1 then show ?thesis using True nth[of k] uniq[of i j] ix[of h k] assms(2,3) by (auto split: if_splits)
    next
      case 2 then show ?thesis using True nth[of k] uniq[of i j] ix[of h k] assms(2,3) by (auto split: if_splits)
    next
      case 3
      then have "item_hash (items q ! k) \<noteq> ?hi" "item_hash (items q ! k) \<noteq> ?hj"
        using True uniq[of k i] uniq[of k j] assms(2,3) by auto
      then show ?thesis using 3 True nth[of k] ix[of h k] by auto
    qed
  qed
  then have "indices (queue_swap q i j) h = Some k \<longleftrightarrow> k < length (items q) \<and> item_hash (?xs ! k) = h" for h k
    by (simp only: ind)
  then show "index_ok (queue_swap q i j)"
    unfolding index_ok_def by (simp add: queue_swap_def Let_def)
  show "set (items (queue_swap q i j)) = set (items q)"
    using assms(2,3) by (simp add: queue_swap_def Let_def set_swap)
qed

subsection \<open>Every operation keeps the order and the index\<close>

lemma items_swap: "items (queue_swap q i j) = (items q)[i := items q ! j, j := items q ! i]"
  by (simp add: queue_swap_def Let_def)

lemma queue_up_ok:
  "index_ok q \<Longrightarrow> i < length (items q) \<Longrightarrow> up_hole item_key (items q) i \<Longrightarrow>
   queue_ok (queue_up q i) \<and> set (items (queue_up q i)) = set (items q)"
proof (induction q i rule: queue_up.induct)
  case (1 q i)
  show ?case
  proof (cases "0 < i \<and> queue_less q i (par i)")
    case False
    then have "queue_up q i = q" by (subst queue_up.simps) (auto simp: Let_def par_def)
    moreover have "ordered_at item_key (items q) i"
      using False by (auto simp: ordered_at_def queue_less_key)
    ultimately show ?thesis using 1 up_hole_done by (auto simp: queue_ok_def)
  next
    case True
    then have up: "queue_up q i = queue_up (queue_swap q i (par i)) (par i)"
      by (subst queue_up.simps) (auto simp: Let_def par_def)
    have p: "par i < length (items q)" using par_less[of i] True "1.prems"(2) by simp
    note sw = swap_ok[OF "1.prems"(1,2) p]
    have "up_hole item_key (items (queue_swap q i (par i))) (par i)"
      unfolding items_swap using True 1 by (intro up_hole_step) (auto simp: queue_less_key)
    moreover have "\<not> \<not> queue_less q i ((i - 1) div 2)" using True by (simp add: par_def)
    ultimately show ?thesis using "1.IH"[OF _ refl] True sw p up by (simp add: par_def)
  qed
qed

lemma queue_down_ok:
  "index_ok q \<Longrightarrow> i < length (items q) \<Longrightarrow> down_hole item_key (items q) i \<Longrightarrow>
   queue_ok (queue_down q i) \<and> set (items (queue_down q i)) = set (items q)"
proof (induction q i rule: queue_down.induct)
  case (1 q i)
  let ?l = "i * 2 + 1" let ?s = "smallest_child q ?l"
  show ?case
  proof (cases "?l < length (items q) \<and> queue_less q ?s i")
    case False
    then have q: "queue_down q i = q" by (subst queue_down.simps) (auto simp: Let_def)
    have "item_key (items q ! i) \<le> item_key (items q ! c)"
      if "c < length (items q)" "c = 2 * i + 1 \<or> c = 2 * i + 2" for c
    proof -
      have "\<not> queue_less q ?s i" "?l < length (items q)" using False that by auto
      then show ?thesis using that
        by (auto simp: smallest_child_def queue_less_key mult.commute split: if_splits)
    qed
    then show ?thesis using q 1 down_hole_done[of item_key "items q" i] by (auto simp: queue_ok_def)
  next
    case True
    then have dn: "queue_down q i = queue_down (queue_swap q i ?s) ?s"
      by (subst queue_down.simps) (simp add: Let_def)
    have s: "?s < length (items q)" "0 < ?s" "par ?s = i"
      using True by (auto simp: smallest_child_def par_def)
    have least: "item_key (items q ! ?s) \<le> item_key (items q ! c)"
      if "c < length (items q)" "0 < c" "par c = i" for c
      using that par_child[of c i] by (auto simp: smallest_child_def queue_less_key mult.commute)
    note sw = swap_ok[OF "1.prems"(1,2) s(1)]
    have "down_hole item_key (items (queue_swap q i ?s)) ?s"
      unfolding items_swap using True 1 s least by (intro down_hole_step) (auto simp: queue_less_key)
    then show ?thesis using "1.IH"[OF refl _ refl] True sw s dn by simp
  qed
qed

lemma newExpiryQueue_ok: "queue_ok newExpiryQueue \<and> queue_map newExpiryQueue = Map.empty"
  by (auto simp: queue_ok_def index_ok_def is_heap_def newExpiryQueue_def queue_map_def)

lemma queue_set_ok:
  assumes "queue_ok q"
  shows "queue_ok (queue_set hash t q)" "queue_map (queue_set hash t q) = (queue_map q)(hash \<mapsto> t)"
proof -
  have ix: "index_ok q" and heap: "is_heap item_key (items q)" using assms by (simp_all add: queue_ok_def)
  obtain q1 where q1: "queue_ok (queue_set hash t q)" "index_ok q1"
    "set (items (queue_set hash t q)) = set (items q1)" "queue_map q1 = (queue_map q)(hash \<mapsto> t)"
  proof (cases "indices q hash")
    case (Some i)
    then have i: "i < length (items q)" "item_hash (items q ! i) = hash" using ix by (auto simp: index_ok_def)
    define x where "x = (items q ! i)\<lparr>item_removeAfter := t\<rparr>"
    define q1 where "q1 = q\<lparr>items := (items q)[i := x]\<rparr>"
    have set: "queue_set hash t q = (if t < item_removeAfter (items q ! i) then queue_up q1 i else queue_down q1 i)"
      using Some by (simp add: queue_set_def Let_def q1_def x_def)
    have ok1: "index_ok q1" using ix i unfolding index_ok_def q1_def x_def
      by (auto simp: nth_list_update)
    have x: "item_key x = (t, hash)" "item_key (items q ! i) = (item_removeAfter (items q ! i), hash)"
      using i by (simp_all add: x_def item_key_def)
    have "queue_ok (queue_set hash t q) \<and> set (items (queue_set hash t q)) = set (items q1)"
    proof (cases "t < item_removeAfter (items q ! i)")
      case True
      then have "up_hole item_key (items q1) i"
        using replaced_hole(1)[OF heap i(1) order_refl, of x] x by (simp add: q1_def less_eq_prod_def)
      then show ?thesis using queue_up_ok[OF ok1, of i] i set True by (simp add: q1_def)
    next
      case False
      have "0 < i \<longrightarrow> item_key (items q ! par i) \<le> item_key x"
        using heap i False x by (auto simp: is_heap_def ordered_at_def less_eq_prod_def)
      then have "down_hole item_key (items q1) i"
        using replaced_hole(2)[OF heap i(1) order_refl, of x] by (simp add: q1_def)
      then show ?thesis using queue_down_ok[OF ok1, of i] i set False by (simp add: q1_def)
    qed
    moreover have "queue_map q1 = (queue_map q)(hash \<mapsto> t)"
    proof
      fix h
      have "indices q h = Some a \<Longrightarrow> h \<noteq> hash \<Longrightarrow> a \<noteq> i" for a using ix i(2) by (auto simp: index_ok_def)
      then show "queue_map q1 h = ((queue_map q)(hash \<mapsto> t)) h"
        using Some i by (cases "h = hash"; cases "indices q h") (auto simp: queue_map_def q1_def x_def)
    qed
    ultimately show ?thesis using that ok1 by blast
  next
    case None
    let ?n = "length (items q)"
    define q1 where "q1 = q\<lparr>items := items q @ [\<lparr>item_hash = hash, item_removeAfter = t\<rparr>],
                    indices := (indices q)(hash := Some ?n)\<rparr>"
    have set: "queue_set hash t q = queue_up q1 ?n"
      using None by (simp add: queue_set_def Let_def q1_def)
    have fresh: "item_hash (items q ! k) \<noteq> hash" if "k < ?n" for k
      using None ix that unfolding index_ok_def by (metis option.distinct(1))
    have ok1: "index_ok q1" using ix fresh unfolding index_ok_def q1_def
      by (auto simp: nth_append less_Suc_eq)
    have "ordered_at item_key (items q1) j" if "j < ?n" for j
      using heap that par_less[of j] by (auto simp: q1_def is_heap_def ordered_at_def nth_append)
    moreover have "par c \<noteq> ?n" if "0 < c" "c < Suc ?n" for c using par_less[of c] that by simp
    then have "bridged item_key (items q1) ?n" by (auto simp: bridged_def q1_def)
    ultimately have "up_hole item_key (items q1) ?n" by (auto simp: up_hole_def q1_def)
    then have "queue_ok (queue_set hash t q) \<and> set (items (queue_set hash t q)) = set (items q1)"
      using queue_up_ok[OF ok1, of ?n] set by (simp add: q1_def)
    moreover have "queue_map q1 = (queue_map q)(hash \<mapsto> t)"
    proof
      fix h show "queue_map q1 h = ((queue_map q)(hash \<mapsto> t)) h"
        using ix[unfolded index_ok_def, rule_format, of h] None
        by (cases "indices q h") (auto simp: queue_map_def q1_def nth_append)
    qed
    ultimately show ?thesis using that ok1 by blast
  qed
  show "queue_ok (queue_set hash t q)" by (rule q1(1))
  then show "queue_map (queue_set hash t q) = (queue_map q)(hash \<mapsto> t)"
    using queue_map_cong[OF _ q1(2,3)] q1(4) by (simp add: queue_ok_def)
qed

lemma queue_remove_ok:
  assumes "queue_ok q"
  shows "queue_ok (snd (queue_remove hash q))"
    "queue_map (snd (queue_remove hash q)) = (queue_map q)(hash := None)"
    "fst (queue_remove hash q) \<longleftrightarrow> queue_map q hash \<noteq> None"
    "length (items (snd (queue_remove hash q))) = length (items q) - (if queue_map q hash = None then 0 else 1)"
proof -
  have ix: "index_ok q" and heap: "is_heap item_key (items q)" using assms by (simp_all add: queue_ok_def)
  have uniq: "k = l" if "k < length (items q)" "l < length (items q)" "item_hash (items q ! k) = item_hash (items q ! l)" for k l
    using ix that unfolding index_ok_def by (metis option.inject)
  have main: "queue_ok (snd (queue_remove hash q)) \<and> queue_map (snd (queue_remove hash q)) = (queue_map q)(hash := None) \<and>
      fst (queue_remove hash q) = (queue_map q hash \<noteq> None) \<and>
      length (items (snd (queue_remove hash q))) = length (items q) - (if queue_map q hash = None then 0 else 1)"
  proof (cases "indices q hash")
    case None
    then show ?thesis using assms by (auto simp: queue_remove_def queue_map_def)
  next
    case (Some i)
    then have i: "i < length (items q)" "item_hash (items q ! i) = hash" using ix by (auto simp: index_ok_def)
    let ?n = "length (items q) - 1"
    have mapq: "queue_map q hash \<noteq> None" using Some by (simp add: queue_map_def)
    show ?thesis
    proof (cases "i = ?n")
      case True
      define q1 where "q1 = q\<lparr>indices := (indices q)(hash := None), items := take ?n (items q)\<rparr>"
      have rem: "queue_remove hash q = (True, q1)" using Some True by (simp add: queue_remove_def Let_def q1_def)
      have "indices q1 h = Some k \<longleftrightarrow> k < ?n \<and> item_hash (items q ! k) = h" for h k
        using ix[unfolded index_ok_def, rule_format, of h k] i True uniq[of k i]
        by (cases "k = ?n") (auto simp: q1_def)
      then have ix1: "index_ok q1" by (auto simp: index_ok_def q1_def)
      have "ordered_at item_key (items q1) j" if "j < ?n" for j
        using heap that par_less[of j] by (auto simp: q1_def is_heap_def ordered_at_def)
      then have "is_heap item_key (items q1)" by (simp add: is_heap_def q1_def)
      moreover have "queue_map q1 = (queue_map q)(hash := None)"
      proof
        fix h
        have "indices q h = Some a \<Longrightarrow> h \<noteq> hash \<Longrightarrow> a < ?n" for a
          using ix[unfolded index_ok_def, rule_format, of h a] i True by (cases "a = ?n") auto
        then show "queue_map q1 h = ((queue_map q)(hash := None)) h"
          by (cases "indices q h") (auto simp: queue_map_def q1_def)
      qed
      ultimately show ?thesis using rem ix1 mapq by (auto simp: queue_ok_def q1_def)
    next
      case False
      then have lt: "i < ?n" "?n < length (items q)" using i by auto
      let ?xs = "take ?n ((items q)[i := items q ! ?n])"
      define q1 where "q1 = q\<lparr>items := ?xs, indices := (indices q)(hash := None, item_hash (?xs ! i) := Some i)\<rparr>"
      define q2 where "q2 = (if i > 0 \<and> queue_less q1 i ((i - 1) div 2) then queue_up q1 i else queue_down q1 i)"
      have rem: "queue_remove hash q = (True, q2)"
        using Some False by (simp add: queue_remove_def Let_def q1_def q2_def)
      have y: "?xs ! k = (if k = i then items q ! ?n else items q ! k)" if "k < ?n" for k
        using that lt by simp
      have ne: "item_hash (items q ! ?n) \<noteq> hash" using uniq[of ?n i] lt i by auto
      have len: "length ?xs = ?n" using lt by simp
      have ind: "indices q1 h = (if h = item_hash (items q ! ?n) then Some i else if h = hash then None else indices q h)" for h
        using y[OF lt(1)] by (simp add: q1_def)
      have ixq: "indices q h = Some k \<longleftrightarrow> k < length (items q) \<and> item_hash (items q ! k) = h" for h k
        using ix by (simp add: index_ok_def)
      have ix1: "index_ok q1"
      proof -
        have "indices q1 h = Some k \<longleftrightarrow> k < ?n \<and> item_hash (?xs ! k) = h" for h k
        proof (cases "k < ?n")
          case True
          then show ?thesis using ind ixq[of h k] ne y[OF True] uniq[of k ?n] uniq[of k i] i lt
            by (cases "k = i") auto
        next
          case False
          then show ?thesis using ind ixq[of h k] lt uniq[of k ?n] by (cases "k = ?n") auto
        qed
        moreover have "items q1 = ?xs" by (simp add: q1_def)
        ultimately show ?thesis using len by (simp add: index_ok_def)
      qed
      have it: "items q1 = take ?n ((items q)[i := items q ! ?n])" by (simp add: q1_def)
      have q2: "queue_ok q2 \<and> set (items q2) = set (items q1)"
      proof (cases "i > 0 \<and> queue_less q1 i (par i)")
        case True
        then have "item_key (items q ! ?n) < item_key (items q ! par i)"
          using y[of i] y[of "par i"] lt par_less[of i] by (simp add: queue_less_key it)
        moreover have "item_key (items q ! par i) \<le> item_key (items q ! i)"
          using heap i True by (auto simp: is_heap_def ordered_at_def)
        ultimately have "up_hole item_key (items q1) i"
          unfolding it using lt by (intro replaced_hole(1)[OF heap]) auto
        then show ?thesis using queue_up_ok[OF ix1, of i] True lt len it by (simp add: q2_def par_def)
      next
        case False
        have "0 < i \<longrightarrow> item_key (items q ! par i) \<le> item_key (items q ! ?n)"
          using False y[of i] y[of "par i"] lt par_less[of i] by (auto simp: queue_less_key it)
        then have "down_hole item_key (items q1) i"
          unfolding it using lt by (intro replaced_hole(2)[OF heap]) auto
        then show ?thesis using queue_down_ok[OF ix1, of i] False lt len it by (auto simp: q2_def par_def)
      qed
      have "queue_map q1 = (queue_map q)(hash := None)"
      proof
        fix h
        consider "h = item_hash (items q ! ?n)" | "h = hash" | "h \<noteq> item_hash (items q ! ?n)" "h \<noteq> hash" by blast
        then show "queue_map q1 h = ((queue_map q)(hash := None)) h"
        proof cases
          case 1
          moreover have "indices q (item_hash (items q ! ?n)) = Some ?n" using ixq lt by simp
          ultimately show ?thesis using ne y[OF lt(1)] by (simp add: queue_map_def ind it)
        next
          case 2 then show ?thesis using ne by (simp add: queue_map_def ind)
        next
          case 3
          show ?thesis
          proof (cases "indices q h")
            case None then show ?thesis using 3 by (simp add: queue_map_def ind)
          next
            case (Some a)
            then have "a \<noteq> ?n" "a \<noteq> i" "a < length (items q)" using ixq[of h a] i 3 by auto
            then have "a < ?n" "a \<noteq> i" by simp_all
            then show ?thesis using 3 Some y[of a] by (simp add: queue_map_def ind it)
          qed
        qed
      qed
      moreover have "queue_map q2 = queue_map q1"
        using q2 ix1 queue_map_cong[of q2 q1] by (simp add: queue_ok_def)
      moreover have "length (items q2) = ?n"
      proof -
        have "distinct (map item_hash (items q2))" "distinct (map item_hash (items q1))"
          using q2 ix1 by (simp_all add: queue_ok_def index_ok_distinct)
        then have "distinct (items q2)" "distinct (items q1)" by (simp_all add: distinct_map)
        then show ?thesis using q2 len it by (metis distinct_card)
      qed
      ultimately show ?thesis using rem q2 mapq by auto
    qed
  qed
  then show "queue_ok (snd (queue_remove hash q))"
    "queue_map (snd (queue_remove hash q)) = (queue_map q)(hash := None)"
    "fst (queue_remove hash q) \<longleftrightarrow> queue_map q hash \<noteq> None"
    "length (items (snd (queue_remove hash q))) = length (items q) - (if queue_map q hash = None then 0 else 1)"
    by blast+
qed

lemma queue_empty: "index_ok q \<Longrightarrow> items q = [] \<longleftrightarrow> queue_map q = Map.empty"
proof
  assume "index_ok q" "queue_map q = Map.empty"
  then have "\<lparr>item_hash = h, item_removeAfter = t\<rparr> \<notin> set (items q)" for h t
    by (metis option.distinct(1) queue_map_Some)
  then show "items q = []" by (metis expiryItem.surjective last_in_set old.unit.exhaust)
next
  assume "index_ok q" "items q = []"
  then show "queue_map q = Map.empty" by (auto simp: fun_eq_iff queue_map_Some simp flip: not_Some_eq)
qed

text \<open>The item that would leave first.\<close>

definition is_earliest :: "(u64 \<Rightarrow> int option) \<Rightarrow> expiryItem \<Rightarrow> bool" where
  "is_earliest m x \<longleftrightarrow> m (item_hash x) = Some (item_removeAfter x) \<and>
     (\<forall>h t. m h = Some t \<longrightarrow> item_key x \<le> (t, h))"

lemma queue_head:
  assumes "queue_ok q" "items q = x # xs"
  shows "is_earliest (queue_map q) x"
proof -
  have ix: "index_ok q" and heap: "is_heap item_key (items q)" using assms by (simp_all add: queue_ok_def)
  have "queue_map q (item_hash x) = Some (item_removeAfter x)"
    using queue_map_Some[OF ix, of "item_hash x" "item_removeAfter x"] assms(2) by (cases x) simp
  moreover have "item_key x \<le> (t, h)" if "queue_map q h = Some t" for h t
  proof -
    have "\<lparr>item_hash = h, item_removeAfter = t\<rparr> \<in> set (items q)" using that ix queue_map_Some by blast
    then obtain j where "j < length (items q)" "items q ! j = \<lparr>item_hash = h, item_removeAfter = t\<rparr>"
      by (auto simp: in_set_conv_nth)
    then show ?thesis using heap_min[OF heap, of j] assms(2) by (simp add: item_key_def)
  qed
  ultimately show ?thesis by (simp add: is_earliest_def)
qed

lemma queue_pop_ok:
  assumes "queue_ok q" "queue_pop q = (r, q')"
  shows "case r of None \<Rightarrow> q' = q \<and> queue_map q = Map.empty
         | Some x \<Rightarrow> queue_ok q' \<and> is_earliest (queue_map q) x \<and> queue_map q' = (queue_map q)(item_hash x := None) \<and>
             length (items q') < length (items q)"
proof (cases "items q")
  case Nil
  then show ?thesis using assms queue_empty[of q] by (auto simp: queue_pop_def queue_ok_def)
next
  case (Cons x xs)
  then have r: "r = Some x" "q' = snd (queue_remove (item_hash x) q)" using assms(2) by (auto simp: queue_pop_def)
  have e: "is_earliest (queue_map q) x" by (rule queue_head[OF assms(1) Cons])
  then have "queue_map q (item_hash x) \<noteq> None" by (simp add: is_earliest_def)
  then show ?thesis using r e queue_remove_ok[OF assms(1), of "item_hash x"] Cons by simp
qed

text \<open>
  C33: the expiry queue. It is a finite map from hash to time with extraction of the earliest: from
  the new queue on, \<open>set\<close>, \<open>remove\<close>, \<open>peek\<close> and \<open>pop\<close> keep the heap and its index consistent and do to
  the map what they promise; \<open>peek\<close> and \<open>pop\<close> give the entry with the least time, ties broken by the hash.
\<close>

theorem expiry_queue_refines_map:
  "queue_ok newExpiryQueue \<and> queue_map newExpiryQueue = Map.empty \<and>
   (queue_ok q \<longrightarrow>
      queue_ok (queue_set hash t q) \<and> queue_map (queue_set hash t q) = (queue_map q)(hash \<mapsto> t) \<and>
      queue_ok (snd (queue_remove hash q)) \<and>
      queue_map (snd (queue_remove hash q)) = (queue_map q)(hash := None) \<and>
      fst (queue_remove hash q) = (queue_map q hash \<noteq> None) \<and>
      (case queue_peek q of None \<Rightarrow> queue_map q = Map.empty | Some x \<Rightarrow> is_earliest (queue_map q) x) \<and>
      fst (queue_pop q) = queue_peek q \<and>
      (case queue_pop q of
         (None, q') \<Rightarrow> q' = q
       | (Some x, q') \<Rightarrow> queue_ok q' \<and> queue_map q' = (queue_map q)(item_hash x := None)))"
proof (intro conjI impI)
  assume q: "queue_ok q"
  show "case queue_peek q of None \<Rightarrow> queue_map q = Map.empty | Some x \<Rightarrow> is_earliest (queue_map q) x"
    using q queue_empty[of q] queue_head[OF q] by (auto simp: queue_peek_def queue_ok_def split: list.split)
  show "fst (queue_pop q) = queue_peek q" by (simp add: queue_pop_def queue_peek_def split: list.split)
  show "case queue_pop q of (None, q') \<Rightarrow> q' = q
        | (Some x, q') \<Rightarrow> queue_ok q' \<and> queue_map q' = (queue_map q)(item_hash x := None)"
    using queue_pop_ok[OF q] by (auto split: prod.split option.split)
qed (use newExpiryQueue_ok queue_set_ok queue_remove_ok in auto)

definition ex_queue :: expiryQueue where
  "ex_queue = queue_set 9 30 (queue_set 5 10 (queue_set 7 20 newExpiryQueue))"

theorem expiry_queue_refines_map_witness:
  "queue_ok newExpiryQueue \<and> queue_ok ex_queue \<and> fst (queue_pop ex_queue) = queue_peek ex_queue"
proof -
  have "queue_ok ex_queue" by (simp add: ex_queue_def newExpiryQueue_ok queue_set_ok(1))
  then show ?thesis using expiry_queue_refines_map[of ex_queue 5 10] by simp
qed

end
