(* ===== verification/Cache.thy ===== *)
theory Cache
  imports Expiry_Queue Dns_Lib Go_Net "HOL-Library.AList"
begin

text \<open>
  The response cache: \<open>internal/cache/sharded.go\<close> on top of the expiry queue, \<open>negative.go\<close> and
  \<open>rebinding.go\<close>. Times and durations are nanoseconds; a shard's map is an association list; each
  operation on a shard is atomic, as under its lock. Broadcast events, prefetching (a background
  refresh), the per-entry hit counter and the log lines are left out.
\<close>

subsection \<open>Entries\<close>

datatype validation_mode = ValidationModePass | ValidationModeLogOnly | ValidationModeEnforced

record centry =
  Data :: bytes
  ExpiresAt :: int
  OrigTTL :: u32
  DNSSECValidated :: bool
  DNSSECBogus :: bool
  QName :: string
  QType :: u16
  QClass :: u16
  IsNegative :: bool
  NegType :: string
  ThreatScore :: int
  Categories :: "string list"
  Reputation :: string
  FirstSeen :: int
  LastSeen :: int
  ThreatSource :: string

definition IsExpired :: "int \<Rightarrow> centry \<Rightarrow> bool" where
  "IsExpired now e \<longleftrightarrow> now > ExpiresAt e"

definition IsStale :: "int \<Rightarrow> centry \<Rightarrow> int \<Rightarrow> bool" where
  "IsStale now e maxStale \<longleftrightarrow> IsExpired now e \<and> now - ExpiresAt e < maxStale"

definition estimateSize :: "centry \<Rightarrow> int" where
  "estimateSize e =
     int (length (Data e)) + 8 + 4 + 8 + 1 + 1 + 2 + 2 +
     int (length (QName e)) + int (length (Reputation e)) + int (length (ThreatSource e)) +
     int (length (Categories e) * 16) + int (sum_list (map length (Categories e))) + 4 + 16 + 16 + (8 + 8)"

text \<open>
  \<open>EnrichEntry\<close> of \<open>enrichment.go\<close>; the provider's answer (score, categories, source) for a domain is an
  argument, \<open>None\<close> for no provider or an error.
\<close>

definition trim_dot :: "string \<Rightarrow> string" where
  "trim_dot s = (if s \<noteq> [] \<and> last s = CHR ''.'' then butlast s else s)"

definition EnrichEntry ::
  "(string \<Rightarrow> (int \<times> string list \<times> string) option) \<Rightarrow> int \<Rightarrow> centry \<Rightarrow> centry" where
  "EnrichEntry lookup now e =
     (let e = e\<lparr>ThreatScore := 0, Reputation := ''benign'', ThreatSource := ''dnsscienced-internal'',
                FirstSeen := now, LastSeen := now\<rparr> in
      case lookup (trim_dot (to_lower (QName e))) of
        Some (score, cats, source) \<Rightarrow>
          if score > 0
          then e\<lparr>ThreatScore := score, Categories := cats, ThreatSource := source,
                 Reputation := (if score > 80 then ''malicious'' else if score > 50 then ''suspicious''
                                else Reputation e)\<rparr>
          else e
      | None \<Rightarrow> e)"

subsection \<open>Shards\<close>

record shard =
  entries :: "(u64 \<times> centry) list"
  expiry :: expiryQueue
  maxSize :: nat
  memoryUsed :: int
  maxMemory :: int

definition evictNext :: "shard \<Rightarrow> centry option \<times> shard" where
  "evictNext s =
     (case queue_pop (expiry s) of
        (None, q) \<Rightarrow> (None, s\<lparr>expiry := q\<rparr>)
      | (Some item, q) \<Rightarrow>
          (case map_of (entries s) (item_hash item) of
             None \<Rightarrow> (None, s\<lparr>expiry := q\<rparr>)
           | Some e \<Rightarrow> (Some e, s\<lparr>expiry := q, memoryUsed := memoryUsed s - estimateSize e,
                                entries := AList.delete (item_hash item) (entries s)\<rparr>)))"

lemma length_delete_less: "map_of al k \<noteq> None \<Longrightarrow> length (AList.delete k al) < length al"
proof (induction al)
  case (Cons x al)
  have "length (AList.delete k al) \<le> length al" by (rule length_delete_le)
  then show ?case using Cons by (cases x) (auto split: if_splits)
qed simp

lemma evictNext_shrinks: "evictNext s = (Some e, s') \<Longrightarrow> length (entries s') < length (entries s)"
  by (auto simp: evictNext_def length_delete_less split: prod.splits option.splits)

text \<open>The eviction loop of \<open>Set\<close>, with the evicted entries in order.\<close>

definition over_budget :: "int \<Rightarrow> shard \<Rightarrow> bool" where
  "over_budget entrySize s \<longleftrightarrow>
     length (entries s) \<ge> maxSize s \<or> (maxMemory s > 0 \<and> memoryUsed s + entrySize > maxMemory s)"

function evict_for :: "int \<Rightarrow> shard \<Rightarrow> centry list \<times> shard" where
  "evict_for entrySize s =
     (if over_budget entrySize s
      then (case evictNext s of
              (None, s) \<Rightarrow> ([], s)
            | (Some e, s) \<Rightarrow> (let (es, s) = evict_for entrySize s in (e # es, s)))
      else ([], s))"
  by auto
termination
  by (relation "measure (\<lambda>(_, s). length (entries s))") (auto dest: evictNext_shrinks[OF sym])

declare evict_for.simps [simp del]

definition shard_delete :: "u64 \<Rightarrow> shard \<Rightarrow> shard" where
  "shard_delete hash s =
     (case map_of (entries s) hash of
        None \<Rightarrow> s
      | Some e \<Rightarrow> s\<lparr>memoryUsed := memoryUsed s - estimateSize e, entries := AList.delete hash (entries s),
                    expiry := snd (queue_remove hash (expiry s))\<rparr>)"

text \<open>The locked part of \<open>Set\<close>: the evicted entries and the shard.\<close>

definition shard_set :: "u64 \<Rightarrow> int \<Rightarrow> centry \<Rightarrow> shard \<Rightarrow> centry list \<times> shard" where
  "shard_set hash expires e s =
     (let entrySize = estimateSize e in
      if maxMemory s > 0 \<and> entrySize > maxMemory s then ([], s)
      else let s = shard_delete hash s;
               (evicted, s) = evict_for entrySize s
           in (evicted, s\<lparr>entries := AList.update hash e (entries s), expiry := queue_set hash expires (expiry s),
                         memoryUsed := memoryUsed s + entrySize\<rparr>))"

text \<open>The loop of \<open>performCleanup\<close> on one shard; \<open>None\<close> would be a loop that never ends.\<close>

partial_function (option) shard_cleanup :: "int \<Rightarrow> shard \<Rightarrow> (centry list \<times> shard) option" where
  "shard_cleanup now s =
     (case queue_peek (expiry s) of
        None \<Rightarrow> Some ([], s)
      | Some next \<Rightarrow>
          if item_removeAfter next > now then Some ([], s)
          else let s = s\<lparr>expiry := snd (queue_pop (expiry s))\<rparr> in
            (case map_of (entries s) (item_hash next) of
               None \<Rightarrow> shard_cleanup now s
             | Some e \<Rightarrow>
                 Option.bind
                   (shard_cleanup now (s\<lparr>entries := AList.delete (item_hash next) (entries s),
                                         memoryUsed := memoryUsed s - estimateSize e\<rparr>))
                   (\<lambda>(es, s). Some (e # es, s))))"

subsection \<open>Rebinding protection, \<open>rebinding.go\<close>\<close>

record rebindingGuard =
  privateRanges :: "ipnet list"
  privateDomains :: "string list"

definition defaultPrivateRanges :: "string list" where
  "defaultPrivateRanges =
     [''10.0.0.0/8'', ''172.16.0.0/12'', ''192.168.0.0/16'', ''169.254.0.0/16'', ''127.0.0.0/8'', ''0.0.0.0/8'',
      ''::1/128'', ''fd00::/8'', ''fe80::/10'']"

text \<open>\<open>parse\<close> is \<open>net.ParseCIDR\<close>; ranges that do not parse are skipped.\<close>

definition NewRebindingGuard :: "(string \<Rightarrow> ipnet option) \<Rightarrow> string list \<Rightarrow> string list \<Rightarrow> rebindingGuard" where
  "NewRebindingGuard parse privateAddresses domains =
     \<lparr>privateRanges = List.map_filter parse (if length privateAddresses = 0 then defaultPrivateRanges else privateAddresses),
      privateDomains = domains\<rparr>"

definition has_suffix :: "string \<Rightarrow> string \<Rightarrow> bool" where
  "has_suffix s t \<longleftrightarrow> length t \<le> length s \<and> drop (length s - length t) s = t"

definition isExemptDomain :: "rebindingGuard \<Rightarrow> string \<Rightarrow> bool" where
  "isExemptDomain g qname =
     (let qname = to_lower (trim_dot qname) in
      list_ex (\<lambda>d. let d = to_lower (trim_dot d) in qname = d \<or> has_suffix qname (''.'' @ d)) (privateDomains g))"

definition isPrivateIP :: "rebindingGuard \<Rightarrow> ip \<Rightarrow> bool" where
  "isPrivateIP g ip = list_ex (\<lambda>r. net_Contains r ip) (privateRanges g)"

definition IsSafe :: "rebindingGuard \<Rightarrow> dmsg \<Rightarrow> string \<Rightarrow> bool" where
  "IsSafe g msg qname \<longleftrightarrow>
     isExemptDomain g qname \<or>
     list_all (\<lambda>r. case rr_data r of RA a \<Rightarrow> \<not> isPrivateIP g a | RAAAA a \<Rightarrow> \<not> isPrivateIP g a | _ \<Rightarrow> True)
       (m_answer msg)"

subsection \<open>The cache\<close>

record shardedCache =
  shards :: "shard list"
  shardMask :: u64
  serveStale :: bool
  maxStaleTTL :: int
  minTTL :: int
  maxTTL :: int
  minNegativeTTL :: int
  maxNegativeTTL :: int
  bogusTTL :: int
  rebinding :: "rebindingGuard option"
  unwantedReplies :: u64
  unwantedThreshold :: u64
  validationMode :: validation_mode
  hits :: u64
  misses :: u64
  evictions :: u64
  expirations :: u64

text \<open>
  \<open>Config\<close> as far as it sizes and parametrises the cache. The prefetch ratio (a float), the threat feeds and
  the rebinding guard are values the caller has already built.
\<close>

record cache_config =
  MaxEntries :: int
  ShardCount :: int
  MaxMemoryMB :: int
  ServeStale :: bool
  MaxStaleTTL :: int
  ValidationMode :: "validation_mode option"
  MinTTL :: int
  MaxTTL :: int
  MinNegativeTTL :: int
  MaxNegativeTTL :: int
  BogusTTL :: int
  RebindingProtection :: "rebindingGuard option"
  UnwantedReplyThreshold :: u64

datatype cache_config_error =
    BadShardCount | BadMaxEntries | BadMaxMemory | BadPrefetchRatio | BadThreatFeeds | TooFewEntries

definition defaultShardCount :: int where "defaultShardCount = 256"
definition defaultShardSize :: int where "defaultShardSize = 10000"

text \<open>The doubling loop: the least power of two times \<open>n\<close> that reaches \<open>count\<close>.\<close>

function double_until :: "int \<Rightarrow> int \<Rightarrow> int" where
  "double_until count n = (if 0 < n \<and> n < count then double_until count (2 * n) else n)"
  by auto
termination by (relation "measure (\<lambda>(count, n). nat (count - n))") auto

declare double_until.simps [simp del]

text \<open>\<open>ratio_ok\<close>: the prefetch ratio is not outside \<open>[0, 1]\<close>; \<open>feeds_ok\<close>: \<open>ValidateThreatFeeds\<close> succeeds.\<close>

definition Validate_config :: "bool \<Rightarrow> bool \<Rightarrow> cache_config \<Rightarrow> cache_config_error option" where
  "Validate_config ratio_ok feeds_ok cfg =
     (if ShardCount cfg < 0 \<or> ShardCount cfg > 65536 then Some BadShardCount
      else if MaxEntries cfg < 0 then Some BadMaxEntries
      else if MaxMemoryMB cfg < 0 \<or> MaxMemoryMB cfg > (2 ^ 63 - 1) div (1024 * 1024) then Some BadMaxMemory
      else if \<not> ratio_ok then Some BadPrefetchRatio
      else if \<not> feeds_ok then Some BadThreatFeeds
      else let count = (if ShardCount cfg = 0 then defaultShardCount else ShardCount cfg);
               effectiveShards = double_until count 1;
               total = (if MaxEntries cfg = 0 then defaultShardSize * effectiveShards else MaxEntries cfg)
           in if total < effectiveShards then Some TooFewEntries else None)"

definition new_shard :: "nat \<Rightarrow> int \<Rightarrow> shard" where
  "new_shard sz mem = \<lparr>entries = [], expiry = newExpiryQueue, maxSize = sz, memoryUsed = 0, maxMemory = mem\<rparr>"

definition NewShardedCache :: "cache_config \<Rightarrow> shardedCache" where
  "NewShardedCache cfg =
     (let count = (if ShardCount cfg = 0 then defaultShardCount else ShardCount cfg);
          total = (if MaxEntries cfg = 0 then defaultShardSize * count else MaxEntries cfg);
          count = (if count AND (count - 1) \<noteq> 0 then double_until count 1 else count);
          shardSize = total div count;
          mem = (if MaxMemoryMB cfg > 0 then MaxMemoryMB cfg * 1024 * 1024 div count else 0)
      in \<lparr>shards = replicate (nat count) (new_shard (nat shardSize) mem), shardMask = word_of_int (count - 1),
          serveStale = ServeStale cfg, maxStaleTTL = MaxStaleTTL cfg, minTTL = MinTTL cfg, maxTTL = MaxTTL cfg,
          minNegativeTTL = MinNegativeTTL cfg,
          maxNegativeTTL = (if MaxNegativeTTL cfg = 0 then 3600 * 1000000000 else MaxNegativeTTL cfg),
          bogusTTL = (if BogusTTL cfg = 0 then 60 * 1000000000 else BogusTTL cfg),
          rebinding = RebindingProtection cfg, unwantedReplies = 0, unwantedThreshold = UnwantedReplyThreshold cfg,
          validationMode = (case ValidationMode cfg of None \<Rightarrow> ValidationModePass | Some m \<Rightarrow> m),
          hits = 0, misses = 0, evictions = 0, expirations = 0\<rparr>)"

definition HashKey :: "bytes \<Rightarrow> u16 \<Rightarrow> u16 \<Rightarrow> u64" where
  "HashKey qname qtype qclass =
     fnv1a (qname @ [ucast (drop_bit 8 qtype), ucast qtype] @ [ucast (drop_bit 8 qclass), ucast qclass])"

definition shard_index :: "shardedCache \<Rightarrow> u64 \<Rightarrow> nat" where
  "shard_index c hash = unat (hash AND shardMask c)"

definition getShard :: "shardedCache \<Rightarrow> u64 \<Rightarrow> shard" where
  "getShard c hash = shards c ! shard_index c hash"

definition putShard :: "u64 \<Rightarrow> shard \<Rightarrow> shardedCache \<Rightarrow> shardedCache" where
  "putShard hash s c = c\<lparr>shards := (shards c)[shard_index c hash := s]\<rparr>"

definition cache_get :: "int \<Rightarrow> u64 \<Rightarrow> shardedCache \<Rightarrow> centry option \<times> shardedCache" where
  "cache_get now hash c =
     (let miss = c\<lparr>misses := misses c + 1\<rparr> in
      case map_of (entries (getShard c hash)) hash of
        None \<Rightarrow> (None, miss)
      | Some e \<Rightarrow>
          if IsExpired now e
          then (if \<not> serveStale c then (None, miss)
                else if \<not> IsStale now e (maxStaleTTL c) then (None, miss)
                else (Some e, miss))
          else (Some e, c\<lparr>hits := hits c + 1\<rparr>))"

definition applyTTLPolicy :: "int \<Rightarrow> shardedCache \<Rightarrow> centry \<Rightarrow> centry" where
  "applyTTLPolicy now c e =
     (let remaining = ExpiresAt e - now;
          clamp = (\<lambda>lo hi e.
            let e = (if lo > 0 \<and> remaining < lo then e\<lparr>ExpiresAt := now + lo\<rparr> else e)
            in if hi > 0 \<and> remaining > hi then e\<lparr>ExpiresAt := now + hi\<rparr> else e)
      in if DNSSECBogus e \<and> bogusTTL c > 0 then e\<lparr>ExpiresAt := now + bogusTTL c\<rparr>
         else if IsNegative e then clamp (minNegativeTTL c) (maxNegativeTTL c) e
         else clamp (minTTL c) (maxTTL c) e)"

definition cache_removeAfter :: "shardedCache \<Rightarrow> centry \<Rightarrow> int" where
  "cache_removeAfter c e = (if serveStale c then ExpiresAt e + maxStaleTTL c else ExpiresAt e)"

definition cache_set ::
  "(string \<Rightarrow> (int \<times> string list \<times> string) option) \<Rightarrow> int \<Rightarrow> u64 \<Rightarrow> centry \<Rightarrow> shardedCache \<Rightarrow> shardedCache" where
  "cache_set lookup now hash e c =
     (if \<not> DNSSECValidated e \<and> validationMode c = ValidationModeEnforced then c
      else let e = EnrichEntry lookup now (applyTTLPolicy now c e);
               (evicted, s) = shard_set hash (cache_removeAfter c e) e (getShard c hash)
           in (putShard hash s c)\<lparr>evictions := evictions c + of_nat (length evicted)\<rparr>)"

definition cache_delete :: "u64 \<Rightarrow> shardedCache \<Rightarrow> shardedCache" where
  "cache_delete hash c = putShard hash (shard_delete hash (getShard c hash)) c"

definition cache_flush :: "shardedCache \<Rightarrow> shardedCache" where
  "cache_flush c = c\<lparr>shards := map (\<lambda>s. s\<lparr>entries := [], expiry := newExpiryQueue, memoryUsed := 0\<rparr>) (shards c)\<rparr>"

fun cleanup_shards :: "int \<Rightarrow> shard list \<Rightarrow> (nat \<times> shard list) option" where
  "cleanup_shards now [] = Some (0, [])"
| "cleanup_shards now (s # ss) =
     (case shard_cleanup now s of
        None \<Rightarrow> None
      | Some (es, s) \<Rightarrow> map_option (\<lambda>(n, ss). (length es + n, s # ss)) (cleanup_shards now ss))"

definition performCleanup :: "int \<Rightarrow> shardedCache \<Rightarrow> shardedCache option" where
  "performCleanup now c =
     map_option (\<lambda>(n, ss). c\<lparr>shards := ss, expirations := expirations c + of_nat n\<rparr>) (cleanup_shards now (shards c))"

definition RecordUnwantedReply :: "shardedCache \<Rightarrow> shardedCache" where
  "RecordUnwantedReply c =
     (if unwantedThreshold c = 0 then c
      else let count = unwantedReplies c + 1 in
        if count \<ge> unwantedThreshold c then cache_flush (c\<lparr>unwantedReplies := 0\<rparr>)
        else c\<lparr>unwantedReplies := count\<rparr>)"

definition IsSafeResponse :: "shardedCache \<Rightarrow> dmsg \<Rightarrow> string \<Rightarrow> bool" where
  "IsSafeResponse c msg qname = (case rebinding c of None \<Rightarrow> True | Some g \<Rightarrow> IsSafe g msg qname)"

text \<open>The totals of \<open>GetStats\<close>: entries, memory in use and memory allowed (the hit rate, a float, is left out).\<close>

definition GetStats :: "shardedCache \<Rightarrow> nat \<times> int \<times> int" where
  "GetStats c =
     (sum_list (map (\<lambda>s. length (entries s)) (shards c)), sum_list (map memoryUsed (shards c)),
      sum_list (map maxMemory (shards c)))"

subsection \<open>Negative responses, \<open>negative.go\<close>\<close>

definition soa_ttl :: "rr \<Rightarrow> u32 option" where
  "soa_ttl r = (case rr_data r of RSOA s \<Rightarrow> Some (if rr_ttl r < Minttl s then rr_ttl r else Minttl s) | _ \<Rightarrow> None)"

definition first_soa_ttl :: "rr list \<Rightarrow> u32 option" where
  "first_soa_ttl rrs = (case List.map_filter soa_ttl rrs of [] \<Rightarrow> None | ttl # _ \<Rightarrow> Some ttl)"

definition GetNegativeCacheTTL :: "dmsg \<Rightarrow> u32" where
  "GetNegativeCacheTTL msg = (case first_soa_ttl (m_ns msg) of None \<Rightarrow> 0 | Some ttl \<Rightarrow> ttl)"

definition new_entry :: "bytes \<Rightarrow> int \<Rightarrow> u32 \<Rightarrow> string \<times> u16 \<times> u16 \<Rightarrow> centry" where
  "new_entry wireData expires ttl q =
     \<lparr>Data = wireData, ExpiresAt = expires, OrigTTL = ttl, DNSSECValidated = False, DNSSECBogus = False,
      QName = fst q, QType = fst (snd q), QClass = snd (snd q), IsNegative = False, NegType = [], ThreatScore = 0,
      Categories = [], Reputation = [], FirstSeen = 0, LastSeen = 0, ThreatSource = []\<rparr>"

definition CreateNegativeCacheEntry :: "int \<Rightarrow> dmsg \<Rightarrow> bytes \<Rightarrow> centry option" where
  "CreateNegativeCacheEntry now msg wireData =
     (case m_question msg of
        [] \<Rightarrow> None
      | q # _ \<Rightarrow>
          let negType = (if m_rcode msg = RcodeNameError then ''NXDOMAIN''
                         else if m_rcode msg = RcodeSuccess \<and> length (m_answer msg) = 0 then ''NODATA'' else [])
          in if negType = [] then None
             else let ttl = (case first_soa_ttl (m_ns msg) of None \<Rightarrow> 300 | Some t \<Rightarrow> t);
                      ttl = (if ttl < 10 then 10 else ttl);
                      ttl = (if ttl > 10800 then 10800 else ttl)
                  in Some ((new_entry wireData (now + int (unat ttl) * 1000000000) ttl q)
                             \<lparr>IsNegative := True, NegType := negType\<rparr>))"

end
