(* ===== verification/Cached_Resolver.thy ===== *)
theory Cached_Resolver
  imports Packet Resolver Nsec Cache
begin

text \<open>
  The resolver's outer operations, \<open>internal/resolver/recursive.go\<close>: \<open>Resolve\<close> and what it calls, which
  join the upstream side (\<open>Resolver\<close>) with the response cache (\<open>Cache\<close>), the NSEC cache (\<open>Nsec\<close>) and the
  validator (\<open>Validator\<close>), and the constructor \<open>NewRecursive\<close>. One call is modelled at a time: what
  \<open>singleflight\<close> shares between concurrent callers is the result of one such call.
\<close>

subsection \<open>What lies outside\<close>

text \<open>
  The wire codec and \<open>SetRcode\<close> of \<open>miekg/dns\<close>, the clock, the threat feeds, and the worker pool: a lookup
  is run, rejected because the queue is full or closed, or run for a caller that no longer waits.
\<close>

datatype submission = Run | Reject | Abandon

record 'w deps =
  wire :: "'w network"
  time :: "'w \<Rightarrow> int"
  Pack :: "dmsg \<Rightarrow> bytes option"
  Unpack :: "bytes \<Rightarrow> dmsg option"
  SetRcode :: "dmsg \<Rightarrow> int \<Rightarrow> dmsg"
  threat :: "string \<Rightarrow> (int \<times> string list \<times> string) option"
  submit :: "'w \<Rightarrow> submission \<times> 'w"

record resolver =
  rcfg :: config
  aggressive :: bool
  stale_fallback :: bool
  rvalidator :: "validator option"

text \<open>The caches, the forwarders' cursor and the world.\<close>

record 'w rstate =
  rcache :: shardedCache
  rnsec :: "nsecCache option"
  upstream :: "u64 \<times> 'w"

datatype resolve_error = NoQuestion | Rejected | Abandoned | Upstream resolver_error

type_synonym quest = "string \<times> u16 \<times> u16"

subsection \<open>Answers from the cache\<close>

definition query_key :: "quest \<Rightarrow> u64" where
  "query_key = (\<lambda>(name, qtype, qclass). HashQuery (map of_char name) qtype qclass)"

definition applyRequestMetadata :: "dmsg \<Rightarrow> dmsg \<Rightarrow> dmsg" where
  "applyRequestMetadata resp q =
     resp\<lparr>m_id := m_id q, m_question := m_question q, m_rd := m_rd q, m_cd := m_cd q, m_ra := True\<rparr>"

definition from_cache :: "'w deps \<Rightarrow> int \<Rightarrow> dmsg \<Rightarrow> centry \<Rightarrow> dmsg option" where
  "from_cache d now q e =
     (if DNSSECBogus e then Some (SetRcode d q RcodeServerFailure)
      else map_option (\<lambda>resp.
             ageCachedTTLs now (ExpiresAt e)
               ((applyRequestMetadata resp q)\<lparr>m_ad := m_ad resp \<or> DNSSECValidated e\<rparr>)) (Unpack d (Data e)))"

text \<open>The stale answer after an upstream failure.\<close>

definition stale_answer :: "'w deps \<Rightarrow> dmsg \<Rightarrow> centry \<Rightarrow> dmsg option" where
  "stale_answer d q e =
     map_option (\<lambda>resp. resp\<lparr>m_id := m_id q, m_ra := True, m_answer := map (\<lambda>r. r\<lparr>rr_ttl := 0\<rparr>) (m_answer resp),
         m_ns := map (\<lambda>r. r\<lparr>rr_ttl := 0\<rparr>) (m_ns resp),
         m_extra := map (\<lambda>r. if rr_type r \<noteq> TypeOPT then r\<lparr>rr_ttl := 0\<rparr> else r) (m_extra resp)\<rparr>)
       (Unpack d (Data e))"

subsection \<open>A fresh lookup\<close>

definition fresh_meta :: "quest \<Rightarrow> dmsg \<Rightarrow> dmsg" where
  "fresh_meta question resp = resp\<lparr>m_id := 0, m_question := [question], m_ra := True\<rparr>"

definition baseQuery :: "quest \<Rightarrow> dmsg" where
  "baseQuery question =
     \<lparr>m_question = [question], m_rcode = RcodeSuccess, m_tc = False, m_answer = [], m_ns = [], m_extra = [],
      m_id = 0, m_rd = False, m_cd = False, m_ra = False, m_ad = False, m_aa = False\<rparr>"

text \<open>\<open>validationResolver.Query\<close>: the validator's lookups go upstream, past the cache.\<close>

definition validation_net :: "dns_lib \<Rightarrow> 'w deps \<Rightarrow> resolver \<Rightarrow> (u64 \<times> 'w) chain_net" where
  "validation_net L d r =
     \<lparr>Query = (\<lambda>s name qtype.
        case resolveUpstream L (rcfg r) (wire d) ClassINET s (Fqdn L name) qtype of
          (Inl e, s) \<Rightarrow> (None, s) | (Inr m, s) \<Rightarrow> (Some m, s)),
      clock = (\<lambda>s. time d (snd s))\<rparr>"

text \<open>Validated and bogus; \<open>None\<close> is a validation error.\<close>

definition judge ::
  "nsec_lib \<Rightarrow> 'w deps \<Rightarrow> resolver \<Rightarrow> dmsg \<Rightarrow> quest \<Rightarrow> u64 \<times> 'w \<Rightarrow> (bool \<times> bool) option \<times> u64 \<times> 'w" where
  "judge L d r resp question s =
     (case rvalidator r of
        None \<Rightarrow> (Some (False, False), s)
      | Some v \<Rightarrow>
          (case Validate (sec_lib.truncate L) v (validation_net (dns_lib.truncate L) d r) resp
                  (fst question) (fst (snd question)) s of
             ((result, Some e), s) \<Rightarrow> (None, s)
           | ((result, None), s) \<Rightarrow> (Some (Secure result, Bogus result), s)))"

definition fresh_entry :: "int \<Rightarrow> dmsg \<Rightarrow> bytes \<Rightarrow> quest \<Rightarrow> bool \<Rightarrow> bool \<Rightarrow> centry" where
  "fresh_entry now resp packed question validated bogus =
     (let ttl = getTTL resp;
          e = (new_entry packed (now + int (unat ttl) * 1000000000) ttl question)
                \<lparr>DNSSECValidated := validated, DNSSECBogus := bogus\<rparr>
      in if m_rcode resp = RcodeNameError then e\<lparr>IsNegative := True, NegType := ''NXDOMAIN''\<rparr>
         else if m_rcode resp = RcodeSuccess \<and> length (m_answer resp) = 0
         then e\<lparr>IsNegative := True, NegType := ''NODATA''\<rparr> else e)"

definition store_fresh ::
  "nsec_lib \<Rightarrow> 'w deps \<Rightarrow> dmsg \<Rightarrow> quest \<Rightarrow> bool \<Rightarrow> bool \<Rightarrow> 'w rstate \<Rightarrow> 'w rstate" where
  "store_fresh L d resp question validated bogus st =
     (let now = time d (snd (upstream st)) in
      case Pack d resp of
        None \<Rightarrow> st
      | Some packed \<Rightarrow>
          let e = fresh_entry now resp packed question validated bogus;
              st = st\<lparr>rcache := cache_set (threat d) now (query_key question) e (rcache st)\<rparr>
          in if validated \<and> IsNegative e
             then st\<lparr>rnsec := map_option (nsec_Store L now resp (extractZoneFromResponse resp)) (rnsec st)\<rparr>
             else st)"

definition resolveFresh ::
  "nsec_lib \<Rightarrow> 'w deps \<Rightarrow> resolver \<Rightarrow> 'w rstate \<Rightarrow> quest \<Rightarrow> dmsg result \<times> 'w rstate" where
  "resolveFresh L d r st = (\<lambda>(qname, qtype, qclass).
     let question = (qname, qtype, qclass);
         up = resolveUpstream (dns_lib.truncate L) (rcfg r) (wire d) qclass
     in case up (upstream st) qname qtype of
          (Inl e, s) \<Rightarrow> (Inl e, st\<lparr>upstream := s\<rparr>)
        | (Inr resp, s) \<Rightarrow>
            (case followAliases (dns_lib.truncate L) up (fresh_meta question resp) s qname qtype of
               (Inl e, s) \<Rightarrow> (Inl e, st\<lparr>upstream := s\<rparr>)
             | (Inr resp, s) \<Rightarrow>
                 let resp = fresh_meta question resp in
                 if \<not> IsSafeResponse (rcache st) resp qname
                 then (Inr (SetRcode d (baseQuery question) RcodeServerFailure), st\<lparr>upstream := s\<rparr>)
                 else (case judge L d r resp question s of
                         (None, s) \<Rightarrow> (Inr (SetRcode d (baseQuery question) RcodeServerFailure), st\<lparr>upstream := s\<rparr>)
                       | (Some (validated, bogus), s) \<Rightarrow>
                           let resp = (if validated then resp\<lparr>m_ad := True\<rparr> else resp)
                           in (Inr resp, store_fresh L d resp question validated bogus (st\<lparr>upstream := s\<rparr>)))))"

definition resolveCoalesced ::
  "nsec_lib \<Rightarrow> 'w deps \<Rightarrow> resolver \<Rightarrow> 'w rstate \<Rightarrow> quest \<Rightarrow> (resolve_error + dmsg) \<times> 'w rstate" where
  "resolveCoalesced L d r st question =
     (let (cursor, w) = upstream st; (outcome, w) = submit d w; st = st\<lparr>upstream := (cursor, w)\<rparr> in
      case outcome of
        Reject \<Rightarrow> (Inl Rejected, st)
      | Abandon \<Rightarrow> (Inl Abandoned, snd (resolveFresh L d r st question))
      | Run \<Rightarrow> (case resolveFresh L d r st question of
                 (Inl e, st) \<Rightarrow> (Inl (Upstream e), st)
               | (Inr m, st) \<Rightarrow> (Inr m, st)))"

definition Prefetch ::
  "nsec_lib \<Rightarrow> 'w deps \<Rightarrow> resolver \<Rightarrow> 'w rstate \<Rightarrow> quest \<Rightarrow> resolve_error option \<times> 'w rstate" where
  "Prefetch L d r st = (\<lambda>(name, qtype, qclass).
     case resolveCoalesced L d r st (Fqdn L name, qtype, qclass) of
       (Inl e, st) \<Rightarrow> (Some e, st) | (Inr _, st) \<Rightarrow> (None, st))"

subsection \<open>\<open>Resolve\<close>\<close>

text \<open>The first step, and what follows an upstream failure.\<close>

definition try_cache :: "'w deps \<Rightarrow> 'w rstate \<Rightarrow> dmsg \<Rightarrow> quest \<Rightarrow> dmsg option \<times> 'w rstate" where
  "try_cache d st q question =
     (let now = time d (snd (upstream st)); (found, c) = cache_get now (query_key question) (rcache st)
      in (Option.bind found (from_cache d now q), st\<lparr>rcache := c\<rparr>))"

definition try_synthesis :: "nsec_lib \<Rightarrow> 'w deps \<Rightarrow> resolver \<Rightarrow> 'w rstate \<Rightarrow> dmsg \<Rightarrow> quest \<Rightarrow> dmsg option" where
  "try_synthesis L d r st q = (\<lambda>(qname, qtype, qclass).
     if aggressive r
     then Option.bind (rnsec st) (\<lambda>c. SynthesizeNXDOMAIN L (time d (snd (upstream st))) c qname qtype qclass (m_id q))
     else None)"

definition try_stale :: "'w deps \<Rightarrow> resolver \<Rightarrow> 'w rstate \<Rightarrow> dmsg \<Rightarrow> quest \<Rightarrow> dmsg option \<times> 'w rstate" where
  "try_stale d r st q question =
     (if stale_fallback r
      then let (found, c) = cache_get (time d (snd (upstream st))) (query_key question) (rcache st)
           in (Option.bind found (stale_answer d q), st\<lparr>rcache := c\<rparr>)
      else (None, st))"

definition Resolve ::
  "nsec_lib \<Rightarrow> 'w deps \<Rightarrow> resolver \<Rightarrow> 'w rstate \<Rightarrow> dmsg \<Rightarrow> (resolve_error + dmsg) \<times> 'w rstate" where
  "Resolve L d r st q =
     (case m_question q of
        [] \<Rightarrow> (Inl NoQuestion, st)
      | question # _ \<Rightarrow>
          (case try_cache d st q question of
             (Some resp, st) \<Rightarrow> (Inr resp, st)
           | (None, st) \<Rightarrow>
               (case try_synthesis L d r st q question of
                  Some synth \<Rightarrow> (Inr synth, st)
                | None \<Rightarrow>
                    (case resolveCoalesced L d r st question of
                       (Inr resp, st) \<Rightarrow> (Inr (applyRequestMetadata resp q), st)
                     | (Inl e, st) \<Rightarrow>
                         (case try_stale d r st q question of
                            (Some stale, st) \<Rightarrow> (Inr stale, st)
                          | (None, st) \<Rightarrow> (Inl e, st))))))"

subsection \<open>\<open>NewRecursive\<close>\<close>

record settings =
  CacheConfig :: cache_config
  CacheAggressive :: bool
  Workers :: int
  WorkerQueueSize :: int
  s_MaxIterations :: int
  s_NameserverParallelism :: int
  NameserverHedgeDelay :: int
  EnableDNSSEC :: bool
  TrustAnchorFile :: string
  EnableCookies :: bool
  s_QNAMEMinimization :: bool
  s_Enable0x20 :: bool
  s_EnableScrubbing :: bool
  AggressiveNSEC :: bool
  s_ServeStale :: bool
  StaleTTL :: int
  Forward :: forward_config

datatype new_error =
    CacheInvalid cache_config_error | BadParallelism | BadHedgeDelay | BadWorkers | BadQueueSize
  | ForwardInvalid forward_error | CookiesFailed | AnchorFileRequired | ValidatorFailed

definition or_default :: "int \<Rightarrow> int \<Rightarrow> int" where
  "or_default dflt n = (if n = 0 then dflt else n)"

text \<open>The cache's configuration with the resolver's stale-serving settings wired in.\<close>

definition wired_cache :: "settings \<Rightarrow> cache_config" where
  "wired_cache cfg =
     (if s_ServeStale cfg
      then (CacheConfig cfg)\<lparr>cache_config.ServeStale := True,
              cache_config.MaxStaleTTL := (if StaleTTL cfg > 0 then StaleTTL cfg else 24 * 3600 * 1000000000)\<rparr>
      else CacheConfig cfg)"

text \<open>
  \<open>cookies\<close> and \<open>validator\<close> are the results of \<open>NewManager\<close> and \<open>NewValidator\<close>; \<open>rootServers\<close> is the list
  of hints. The result carries the sizes of the worker pool.
\<close>

definition NewRecursive ::
  "dns_lib \<Rightarrow> host_parsers \<Rightarrow> bool \<Rightarrow> bool \<Rightarrow> bool \<Rightarrow> validator option \<Rightarrow> string list \<Rightarrow> settings \<Rightarrow>
   new_error + resolver \<times> shardedCache \<times> nsecCache option \<times> int \<times> int" where
  "NewRecursive L P ratio_ok feeds_ok cookies_ok newv rootServers cfg =
     (case Validate_config ratio_ok feeds_ok (CacheConfig cfg) of
        Some e \<Rightarrow> Inl (CacheInvalid e)
      | None \<Rightarrow>
          let iterations = or_default 20 (s_MaxIterations cfg);
              parallel = or_default 2 (s_NameserverParallelism cfg);
              delay = or_default 25000000 (NameserverHedgeDelay cfg);
              workers = or_default 100 (Workers cfg);
              queue = or_default (workers * 10) (WorkerQueueSize cfg) in
          if parallel < 1 \<or> parallel > 32 then Inl BadParallelism
          else if delay < 0 then Inl BadHedgeDelay
          else if workers < 1 \<or> workers > 65536 then Inl BadWorkers
          else if queue < 1 \<or> queue > 1000000 then Inl BadQueueSize
          else (case normalizeForwardRules L P (Forward cfg) of
                  Inl e \<Rightarrow> Inl (ForwardInvalid e)
                | Inr rules \<Rightarrow>
                    if EnableCookies cfg \<and> \<not> cookies_ok then Inl CookiesFailed
                    else if EnableDNSSEC cfg \<and> TrustAnchorFile cfg = [] then Inl AnchorFileRequired
                    else if EnableDNSSEC cfg \<and> newv = None then Inl ValidatorFailed
                    else Inr (\<lparr>rcfg = \<lparr>MaxIterations = nat iterations, NameserverParallelism = nat parallel,
                                 zeroHedgeDelay = (delay = 0), QNAMEMinimization = s_QNAMEMinimization cfg,
                                 Enable0x20 = s_Enable0x20 cfg, EnableScrubbing = s_EnableScrubbing cfg,
                                 forwardRules = rules, roots = rootServers\<rparr>,
                               aggressive = AggressiveNSEC cfg, stale_fallback = s_ServeStale cfg,
                               rvalidator = (if EnableDNSSEC cfg then newv else None)\<rparr>,
                              NewShardedCache (wired_cache cfg),
                              (if AggressiveNSEC cfg \<or> CacheAggressive cfg then Some NewNSECCache else None),
                              workers, queue)))"

end
