(* ===== verification/Cache_Props.thy ===== *)
theory Cache_Props
  imports Cache
begin

text \<open>The invariant of the sharded cache, what a lookup returns after a store, and the cleanup.\<close>

subsection \<open>Association lists with sizes\<close>

definition total_size :: "(u64 \<times> centry) list \<Rightarrow> int" where
  "total_size es = sum_list (map (estimateSize \<circ> snd) es)"

lemma estimateSize_pos: "0 < estimateSize e"
proof -
  have "0 \<le> int (sum_list (map length (Categories e)))" "0 \<le> int (length (Categories e) * 16)" by simp_all
  then show ?thesis unfolding estimateSize_def by linarith
qed

lemma total_size_nonneg: "0 \<le> total_size es"
  unfolding total_size_def by (rule sum_list_nonneg) (auto intro: less_imp_le[OF estimateSize_pos])

lemma total_size_simps [simp]: "total_size [] = 0" "total_size (x # es) = estimateSize (snd x) + total_size es"
  by (simp_all add: total_size_def)

lemma total_size_delete:
  "distinct (map fst es) \<Longrightarrow> map_of es h = Some e \<Longrightarrow> total_size (AList.delete h es) = total_size es - estimateSize e"
proof (induction es)
  case (Cons x es)
  show ?case
  proof (cases "fst x = h")
    case True
    then have "h \<notin> fst ` set es" using Cons.prems(1) by auto
    then have "AList.delete h es = es" by (simp add: delete_idem)
    then show ?thesis using Cons.prems(2) True by (cases x) simp
  next
    case False
    then show ?thesis using Cons by (cases x) simp
  qed
qed simp

lemma total_size_update:
  "map_of es h = None \<Longrightarrow> total_size (AList.update h e es) = total_size es + estimateSize e"
  by (induction es) (auto split: if_splits)

lemma length_update_new: "map_of es h = None \<Longrightarrow> length (AList.update h e es) = Suc (length es)"
  by (induction es) (auto split: if_splits)

subsection \<open>The invariant of a shard\<close>

text \<open>
  The expiry queue is a heap with a consistent index and holds exactly the hashes of the entries, each
  with the time after which the entry may go; the memory counter is the sum of the entries' sizes.
\<close>

definition shard_ok :: "(centry \<Rightarrow> int) \<Rightarrow> shard \<Rightarrow> bool" where
  "shard_ok rem s \<longleftrightarrow>
     distinct (map fst (entries s)) \<and> queue_ok (expiry s) \<and>
     queue_map (expiry s) = map_option rem \<circ> map_of (entries s) \<and> memoryUsed s = total_size (entries s)"

definition within_limits :: "shard \<Rightarrow> bool" where
  "within_limits s \<longleftrightarrow> 0 < maxSize s \<and> length (entries s) \<le> maxSize s \<and>
     (0 < maxMemory s \<longrightarrow> memoryUsed s \<le> maxMemory s)"

lemma map_comp_upd: "(map_option f \<circ> m)(h := map_option f v) = map_option f \<circ> (m(h := v))"
  by auto

lemma shard_remove_ok:
  assumes "shard_ok rem s" "map_of (entries s) h = Some e" "queue_ok q" "queue_map q = (queue_map (expiry s))(h := None)"
    "entries s' = AList.delete h (entries s)" "expiry s' = q" "memoryUsed s' = memoryUsed s - estimateSize e"
  shows "shard_ok rem s'"
  using assms map_comp_upd[of rem "map_of (entries s)" h None]
  by (simp add: shard_ok_def total_size_delete distinct_delete delete_conv fun_eq_iff)

lemma shard_delete_ok:
  assumes "shard_ok rem s"
  shows "shard_ok rem (shard_delete h s)" "map_of (entries (shard_delete h s)) = (map_of (entries s))(h := None)"
    "maxSize (shard_delete h s) = maxSize s" "maxMemory (shard_delete h s) = maxMemory s"
    "length (entries (shard_delete h s)) \<le> length (entries s)" "memoryUsed (shard_delete h s) \<le> memoryUsed s"
proof -
  have q: "queue_ok (expiry s)" using assms by (simp add: shard_ok_def)
  show "shard_ok rem (shard_delete h s)"
  proof (cases "map_of (entries s) h")
    case (Some e)
    show ?thesis
      by (rule shard_remove_ok[OF assms Some queue_remove_ok(1,2)[OF q]]) (simp_all add: shard_delete_def Some)
  qed (simp add: shard_delete_def assms)
  show "map_of (entries (shard_delete h s)) = (map_of (entries s))(h := None)"
    by (auto simp: shard_delete_def delete_conv split: option.split)
  show "maxSize (shard_delete h s) = maxSize s" "maxMemory (shard_delete h s) = maxMemory s"
    by (simp_all add: shard_delete_def split: option.split)
  show "length (entries (shard_delete h s)) \<le> length (entries s)"
    by (simp add: shard_delete_def length_delete_le split: option.split)
  show "memoryUsed (shard_delete h s) \<le> memoryUsed s"
    using estimateSize_pos by (auto simp: shard_delete_def less_imp_le split: option.split)
qed

text \<open>Evicting: the entry that leaves is the earliest.\<close>

lemma evictNext_ok:
  assumes "shard_ok rem s" "evictNext s = (r, s')"
  shows "case r of None \<Rightarrow> entries s = [] \<and> s' = s
    | Some e \<Rightarrow> shard_ok rem s' \<and> maxSize s' = maxSize s \<and> maxMemory s' = maxMemory s \<and>
        (\<exists>h. map_of (entries s) h = Some e \<and> map_of (entries s') = (map_of (entries s))(h := None)) \<and>
        (\<forall>h' e'. map_of (entries s) h' = Some e' \<longrightarrow> rem e \<le> rem e') \<and> memoryUsed s' < memoryUsed s"
proof -
  have q: "queue_ok (expiry s)" and qm: "queue_map (expiry s) = map_option rem \<circ> map_of (entries s)"
    using assms(1) by (simp_all add: shard_ok_def)
  obtain x q' where pop: "queue_pop (expiry s) = (x, q')" by (cases "queue_pop (expiry s)")
  note ok = queue_pop_ok[OF q pop]
  show ?thesis
  proof (cases x)
    case None
    then have "q' = expiry s" "queue_map (expiry s) = Map.empty" using ok by simp_all
    then have "map_of (entries s) = Map.empty" using qm by (auto simp: fun_eq_iff)
    then have "entries s = []" by (simp add: map_of_eq_empty_iff)
    then show ?thesis using assms(2) pop None \<open>q' = expiry s\<close> by (auto simp: evictNext_def)
  next
    case (Some item)
    then have q': "queue_ok q'" "queue_map q' = (queue_map (expiry s))(item_hash item := None)"
      and early: "is_earliest (queue_map (expiry s)) item" using ok by simp_all
    obtain e where e: "map_of (entries s) (item_hash item) = Some e" "rem e = item_removeAfter item"
      using early qm by (auto simp: is_earliest_def)
    have le: "rem e \<le> rem e'" if "map_of (entries s) h' = Some e'" for h' e'
      using early that e(2) unfolding is_earliest_def qm item_key_def by (force simp: less_eq_prod_def)
    have r: "r = Some e" and s': "s' = s\<lparr>expiry := q', memoryUsed := memoryUsed s - estimateSize e,
        entries := AList.delete (item_hash item) (entries s)\<rparr>"
      using assms(2) pop Some e(1) by (simp_all add: evictNext_def)
    have "shard_ok rem s'" by (rule shard_remove_ok[OF assms(1) e(1) q']) (simp_all add: s')
    then show ?thesis using e(1) le estimateSize_pos[of e] by (auto simp: r s' delete_conv' intro: exI[of _ "item_hash item"])
  qed
qed

text \<open>
  The eviction loop: what is left fits, nothing but evicted entries is missing, and no evicted entry
  was due later than one that stays.
\<close>

definition evicted_ok :: "(centry \<Rightarrow> int) \<Rightarrow> shard \<Rightarrow> centry list \<Rightarrow> shard \<Rightarrow> bool" where
  "evicted_ok rem s es s' \<longleftrightarrow>
     map_of (entries s') \<subseteq>\<^sub>m map_of (entries s) \<and>
     (\<forall>h e. map_of (entries s) h = Some e \<and> map_of (entries s') h = None \<longrightarrow> e \<in> set es) \<and>
     (\<forall>v \<in> set es. \<forall>h e. map_of (entries s') h = Some e \<longrightarrow> rem v \<le> rem e)"

lemma evicted_ok_refl [simp]: "evicted_ok rem s [] s"
  by (simp add: evicted_ok_def)

lemma evicted_ok_step:
  assumes "map_of (entries s) h = Some e" "map_of (entries s1) = (map_of (entries s))(h := None)"
    "\<forall>h' e'. map_of (entries s) h' = Some e' \<longrightarrow> rem e \<le> rem e'" "evicted_ok rem s1 es s'"
  shows "evicted_ok rem s (e # es) s'"
proof -
  have sub: "map_of (entries s') \<subseteq>\<^sub>m map_of (entries s1)" using assms(4) by (simp add: evicted_ok_def)
  then have keep: "map_of (entries s) k = Some x" if "map_of (entries s') k = Some x" for k x
    using that sub assms(2) by (metis domI fun_upd_other fun_upd_same map_le_def option.distinct(1))
  have "e' \<in> set (e # es)" if "map_of (entries s) k = Some e'" "map_of (entries s') k = None" for k e'
  proof (cases "k = h")
    case False
    then have "map_of (entries s1) k = Some e'" using that(1) assms(2) by simp
    then show ?thesis using assms(4) that(2) by (auto simp: evicted_ok_def)
  qed (use assms(1) that(1) in simp)
  moreover have "rem v \<le> rem x" if "v \<in> set (e # es)" "map_of (entries s') k = Some x" for v k x
    using that assms(3)[rule_format, OF keep[OF that(2)]] assms(4) by (auto simp: evicted_ok_def)
  ultimately show ?thesis using keep unfolding evicted_ok_def map_le_def dom_def by auto
qed

lemma evict_for_ok:
  assumes "shard_ok rem s" "evict_for n s = (es, s')"
  shows "shard_ok rem s' \<and> maxSize s' = maxSize s \<and> maxMemory s' = maxMemory s \<and>
    (over_budget n s' \<longrightarrow> entries s' = []) \<and> (es \<noteq> [] \<longrightarrow> over_budget n s) \<and> evicted_ok rem s es s'"
  using assms
proof (induction n s arbitrary: es s' rule: evict_for.induct)
  case (1 n s)
  obtain r s1 where ev: "evictNext s = (r, s1)" by (cases "evictNext s")
  note ok = evictNext_ok[OF "1.prems"(1) ev]
  show ?case
  proof (cases "over_budget n s")
    case False
    then show ?thesis using "1.prems" by (simp add: evict_for.simps)
  next
    case over: True
    show ?thesis
    proof (cases r)
      case None
      then show ?thesis using ok "1.prems" ev over by (simp add: evict_for.simps)
    next
      case (Some e)
      obtain es1 s2 where rec: "evict_for n s1 = (es1, s2)" by (cases "evict_for n s1")
      have res: "es = e # es1" "s' = s2" using "1.prems"(2) ev Some over rec by (simp_all add: evict_for.simps[of n s])
      have s1: "shard_ok rem s1" "maxSize s1 = maxSize s" "maxMemory s1 = maxMemory s"
        and hd: "\<exists>h. map_of (entries s) h = Some e \<and> map_of (entries s1) = (map_of (entries s))(h := None)"
        and le: "\<forall>h' e'. map_of (entries s) h' = Some e' \<longrightarrow> rem e \<le> rem e'"
        using ok Some by simp_all
      note IH = "1.IH"[OF over ev[symmetric] Some s1(1) rec]
      have "evicted_ok rem s (e # es1) s2" using hd evicted_ok_step[OF _ _ le] IH by blast
      then show ?thesis using IH over by (simp add: res s1)
    qed
  qed
qed

text \<open>Storing: the limits hold again, the new value is there, the others are kept or were evicted.\<close>

lemma shard_set_ok:
  assumes "shard_ok rem s" "within_limits s" "shard_set h (rem e) e s = (es, s')"
  shows "shard_ok rem s'" "within_limits s'" "maxSize s' = maxSize s" "maxMemory s' = maxMemory s"
    "if 0 < maxMemory s \<and> maxMemory s < estimateSize e then s' = s \<and> es = []
     else map_of (entries s') h = Some e \<and>
       (\<forall>k. k \<noteq> h \<longrightarrow> (map_of (entries s') k = map_of (entries s) k \<or>
          (\<exists>v \<in> set es. map_of (entries s) k = Some v \<and> map_of (entries s') k = None \<and>
             (\<forall>k' e'. k' \<noteq> h \<and> map_of (entries s') k' = Some e' \<longrightarrow> rem v \<le> rem e'))))"
    "es \<noteq> [] \<Longrightarrow> over_budget (estimateSize e) (shard_delete h s)"
proof -
  let ?n = "estimateSize e"
  define s1 where "s1 = shard_delete h s"
  note d = shard_delete_ok[OF assms(1), of h, folded s1_def]
  obtain es2 s2 where ev: "evict_for ?n s1 = (es2, s2)" by (cases "evict_for ?n s1")
  note e = evict_for_ok[OF d(1) ev]
  let ?big = "0 < maxMemory s \<and> maxMemory s < ?n"
  have big: "es = [] \<and> s' = s" if ?big using assms(3) that by (simp add: shard_set_def Let_def)
  define s3 where "s3 = s2\<lparr>entries := AList.update h e (entries s2), expiry := queue_set h (rem e) (expiry s2),
                          memoryUsed := memoryUsed s2 + ?n\<rparr>"
  have small: "es = es2 \<and> s' = s3" if "\<not> ?big"
    using assms(3) that ev by (simp add: shard_set_def Let_def s1_def s3_def)
  have sub: "map_of (entries s2) \<subseteq>\<^sub>m map_of (entries s1)" using e by (simp add: evicted_ok_def)
  have fresh: "map_of (entries s2) h = None" using sub d(2) by (auto simp: map_le_def dom_def)
  have q2: "queue_ok (expiry s2)" using e by (simp add: shard_ok_def)
  have ok3: "shard_ok rem s3"
  proof -
    have "shard_ok rem s2" using e by blast
    then show ?thesis
      using fresh queue_set_ok[OF q2, of h "rem e"] map_comp_upd[of rem "map_of (entries s2)" h "Some e"]
      by (simp add: shard_ok_def s3_def distinct_update update_conv' total_size_update)
  qed
  have lim: "0 < maxSize s" using assms(2) by (simp add: within_limits_def)
  have fits: "\<not> over_budget ?n s2" if "\<not> ?big"
  proof
    assume o: "over_budget ?n s2"
    then have "entries s2 = []" using e by simp
    moreover have "memoryUsed s2 = total_size (entries s2)" using e by (simp add: shard_ok_def)
    moreover have "maxSize s2 = maxSize s" "maxMemory s2 = maxMemory s" using e d(3,4) by simp_all
    ultimately show False using o that lim by (auto simp: over_budget_def)
  qed
  have lim3: "within_limits s3" if "\<not> ?big"
  proof -
    have "maxSize s2 = maxSize s" "maxMemory s2 = maxMemory s" using e d(3,4) by simp_all
    then show ?thesis using fits[OF that] fresh lim
      by (auto simp: within_limits_def s3_def over_budget_def length_update_new)
  qed
  have sz: "maxSize s3 = maxSize s" "maxMemory s3 = maxMemory s" using e d(3,4) by (simp_all add: s3_def)
  have over: "es2 \<noteq> [] \<longrightarrow> over_budget ?n (shard_delete h s)" using e by (simp add: s1_def)
  have cs: "es = [] \<and> s' = s \<or> es = es2 \<and> s' = s3 \<and> \<not> ?big" using big small by blast
  show "shard_ok rem s'" using cs ok3 assms(1) by blast
  show "within_limits s'" using cs lim3 assms(2) by blast
  show "maxSize s' = maxSize s" "maxMemory s' = maxMemory s" using cs sz by fastforce+
  show "es \<noteq> [] \<Longrightarrow> over_budget ?n (shard_delete h s)" using cs over by blast
  have others: "map_of (entries s3) k = map_of (entries s) k \<or>
          (\<exists>v \<in> set es2. map_of (entries s) k = Some v \<and> map_of (entries s3) k = None \<and>
             (\<forall>k' e'. k' \<noteq> h \<and> map_of (entries s3) k' = Some e' \<longrightarrow> rem v \<le> rem e'))" if "k \<noteq> h" for k
  proof -
    have k: "map_of (entries s3) k' = map_of (entries s2) k'" if "k' \<noteq> h" for k'
      using that by (simp add: s3_def update_conv')
    have k1: "map_of (entries s1) k = map_of (entries s) k" using that d(2) by simp
    show ?thesis
    proof (cases "map_of (entries s2) k")
      case (Some x)
      then have "map_of (entries s1) k = Some x" using sub by (metis domI map_le_def)
      then show ?thesis using Some k[OF that] k1 by simp
    next
      case None
      then have none: "map_of (entries s3) k = None" by (simp add: k that)
      show ?thesis
      proof (cases "map_of (entries s) k")
        case (Some v)
        have ek: "\<forall>h e. map_of (entries s1) h = Some e \<and> map_of (entries s2) h = None \<longrightarrow> e \<in> set es2"
          and le: "\<forall>v \<in> set es2. \<forall>h e. map_of (entries s2) h = Some e \<longrightarrow> rem v \<le> rem e"
          using e by (simp_all add: evicted_ok_def)
        have "v \<in> set es2" using ek None k1 Some by simp
        moreover have "\<forall>k' e'. k' \<noteq> h \<and> map_of (entries s3) k' = Some e' \<longrightarrow> rem v \<le> rem e'"
          using le \<open>v \<in> set es2\<close> k by metis
        ultimately show ?thesis using none Some by blast
      qed (simp add: none)
    qed
  qed
  show "if ?big then s' = s \<and> es = []
     else map_of (entries s') h = Some e \<and>
       (\<forall>k. k \<noteq> h \<longrightarrow> (map_of (entries s') k = map_of (entries s) k \<or>
          (\<exists>v \<in> set es. map_of (entries s) k = Some v \<and> map_of (entries s') k = None \<and>
             (\<forall>k' e'. k' \<noteq> h \<and> map_of (entries s') k' = Some e' \<longrightarrow> rem v \<le> rem e'))))"
  proof (cases ?big)
    case False
    then have "es = es2" "s' = s3" "map_of (entries s3) h = Some e" using small by (simp_all add: s3_def update_conv')
    then show ?thesis unfolding if_not_P[OF False] using others by blast
  qed (use big in simp)
qed

subsection \<open>Cleanup\<close>

text \<open>What cleanup must leave: the entries that are not due.\<close>

definition not_due :: "(centry \<Rightarrow> int) \<Rightarrow> int \<Rightarrow> (u64 \<Rightarrow> centry option) \<Rightarrow> u64 \<Rightarrow> centry option" where
  "not_due rem now m h = (case m h of None \<Rightarrow> None | Some e \<Rightarrow> if now < rem e then Some e else None)"

lemma length_delete_Suc: "distinct (map fst es) \<Longrightarrow> map_of es h = Some e \<Longrightarrow> Suc (length (AList.delete h es)) = length es"
proof (induction es)
  case (Cons x es)
  then show ?case
    by (cases x; cases "fst x = h") (auto simp: delete_idem)
qed simp

lemma shard_cleanup_ok:
  assumes "shard_ok rem s"
  shows "\<exists>es s'. shard_cleanup now s = Some (es, s') \<and> shard_ok rem s' \<and> maxSize s' = maxSize s \<and> maxMemory s' = maxMemory s \<and>
    map_of (entries s') = not_due rem now (map_of (entries s)) \<and> length es + length (entries s') = length (entries s) \<and>
    memoryUsed s' \<le> memoryUsed s"
  using assms
proof (induction "length (items (expiry s))" arbitrary: s rule: less_induct)
  case less
  have q: "queue_ok (expiry s)" and qm: "queue_map (expiry s) = map_option rem \<circ> map_of (entries s)"
    and dist: "distinct (map fst (entries s))"
    using less.prems by (simp_all add: shard_ok_def)
  obtain r q' where pop: "queue_pop (expiry s) = (r, q')" by (cases "queue_pop (expiry s)")
  have peek: "queue_peek (expiry s) = r" using pop by (simp add: queue_pop_def queue_peek_def split: list.splits)
  note ok = queue_pop_ok[OF q pop]
  show ?case
  proof (cases r)
    case None
    then have "map_of (entries s) h = None" for h using ok qm by (simp add: fun_eq_iff)
    then have "entries s = []" using map_of_eq_empty_iff[of "entries s"] by (simp add: fun_eq_iff)
    then show ?thesis using less.prems peek None by (auto simp: shard_cleanup.simps[of now s] not_due_def fun_eq_iff)
  next
    case (Some item)
    have q': "queue_ok q'" "queue_map q' = (queue_map (expiry s))(item_hash item := None)" "length (items q') < length (items (expiry s))"
      and early: "is_earliest (queue_map (expiry s)) item"
      using ok Some by simp_all
    obtain e where e: "map_of (entries s) (item_hash item) = Some e" "rem e = item_removeAfter item"
      using early qm by (auto simp: is_earliest_def)
    have le: "rem e \<le> rem e'" if "map_of (entries s) h' = Some e'" for h' e'
      using early that e(2) unfolding is_earliest_def qm item_key_def by (force simp: less_eq_prod_def)
    show ?thesis
    proof (cases "now < item_removeAfter item")
      case True
      then have "not_due rem now (map_of (entries s)) = map_of (entries s)"
        using le e(2) by (force simp: not_due_def fun_eq_iff split: option.split)
      then show ?thesis using less.prems peek Some True by (auto simp: shard_cleanup.simps[of now s])
    next
      case False
      define s1 where "s1 = s\<lparr>expiry := q', entries := AList.delete (item_hash item) (entries s), memoryUsed := memoryUsed s - estimateSize e\<rparr>"
      have s1: "shard_ok rem s1" by (rule shard_remove_ok[OF less.prems e(1) q'(1,2)]) (simp_all add: s1_def)
      have m1: "map_of (entries s1) = (map_of (entries s))(item_hash item := None)" by (simp add: s1_def delete_conv')
      have "not_due rem now (map_of (entries s1)) = not_due rem now (map_of (entries s))"
        using False e by (auto simp: m1 not_due_def fun_eq_iff)
      moreover obtain es s' where rec: "shard_cleanup now s1 = Some (es, s')" "shard_ok rem s'" "maxSize s' = maxSize s1"
        "maxMemory s' = maxMemory s1" "map_of (entries s') = not_due rem now (map_of (entries s1))"
        "length es + length (entries s') = length (entries s1)" "memoryUsed s' \<le> memoryUsed s1"
        using less.hyps[OF _ s1] q'(3) by (auto simp: s1_def)
      moreover have "shard_cleanup now s = Some (e # es, s')"
        using rec(1) peek Some False pop e(1) by (simp add: shard_cleanup.simps[of now s] s1_def)
      ultimately show ?thesis
        using length_delete_Suc[OF dist e(1)] estimateSize_pos[of e] by (auto simp: s1_def)
    qed
  qed
qed

lemma shard_new_ok: "shard_ok rem (new_shard n mem)"
  using newExpiryQueue_ok by (simp add: shard_ok_def new_shard_def fun_eq_iff)

subsection \<open>The cache\<close>

definition routed :: "shardedCache \<Rightarrow> nat \<Rightarrow> shard \<Rightarrow> bool" where
  "routed c i s \<longleftrightarrow> (\<forall>h e. map_of (entries s) h = Some e \<longrightarrow> shard_index c h = i)"

definition cache_ok :: "shardedCache \<Rightarrow> bool" where
  "cache_ok c \<longleftrightarrow> length (shards c) = Suc (unat (shardMask c)) \<and>
     (\<forall>i < length (shards c). shard_ok (cache_removeAfter c) (shards c ! i) \<and> within_limits (shards c ! i) \<and>
        routed c i (shards c ! i))"

text \<open>What no operation changes.\<close>

definition shape :: "shardedCache \<Rightarrow> u64 \<times> bool \<times> int \<times> (nat \<times> int) list" where
  "shape c = (shardMask c, serveStale c, maxStaleTTL c, map (\<lambda>s. (maxSize s, maxMemory s)) (shards c))"

lemma shape_cong:
  assumes "shape c' = shape c"
  shows "cache_removeAfter c' = cache_removeAfter c" "shard_index c' = shard_index c" "shardMask c' = shardMask c"
    "length (shards c') = length (shards c)"
  using assms by (auto simp: shape_def cache_removeAfter_def shard_index_def fun_eq_iff dest: map_eq_imp_length_eq)

lemma shard_index_less: "cache_ok c \<Longrightarrow> shard_index c h < length (shards c)"
  using word_and_le1[of h "shardMask c"]
  by (simp add: cache_ok_def shard_index_def word_le_nat_alt less_Suc_eq_le and.commute)

lemma getShard_ok:
  "cache_ok c \<Longrightarrow> shard_ok (cache_removeAfter c) (getShard c h) \<and> within_limits (getShard c h) \<and>
     routed c (shard_index c h) (getShard c h)"
  using shard_index_less[of c h] by (simp add: cache_ok_def getShard_def)

lemma putShard_ok:
  assumes "cache_ok c" "shard_ok (cache_removeAfter c) s" "within_limits s" "routed c (shard_index c h) s"
    "maxSize s = maxSize (getShard c h)" "maxMemory s = maxMemory (getShard c h)"
  shows "cache_ok (putShard h s c)" "shape (putShard h s c) = shape c" "getShard (putShard h s c) h = s"
    "shard_index c k \<noteq> shard_index c h \<Longrightarrow> getShard (putShard h s c) k = getShard c k"
proof -
  note ix = shard_index_less[OF assms(1), of h]
  show sh: "shape (putShard h s c) = shape c"
    using ix assms(5,6) by (auto simp: shape_def putShard_def getShard_def map_update intro!: nth_equalityI simp: nth_list_update)
  note cg = shape_cong[OF sh]
  have nth: "shards (putShard h s c) ! i = (if i = shard_index c h then s else shards c ! i)" if "i < length (shards c)" for i
    using that by (simp add: putShard_def)
  have rt: "routed (putShard h s c) = routed c" by (intro ext) (simp add: routed_def cg)
  show "cache_ok (putShard h s c)"
    unfolding cache_ok_def cg rt using assms(1-4) nth by (simp add: cache_ok_def)
  show "getShard (putShard h s c) h = s" using ix by (simp add: getShard_def cg) (simp add: putShard_def)
  show "shard_index c k \<noteq> shard_index c h \<Longrightarrow> getShard (putShard h s c) k = getShard c k"
    by (simp add: getShard_def cg) (simp add: putShard_def)
qed

lemma cache_ok_cong: "shards c' = shards c \<Longrightarrow> shape c' = shape c \<Longrightarrow> cache_ok c' = cache_ok c"
  using shape_cong[of c' c] by (simp add: cache_ok_def routed_def)

lemma cache_get_ok: "cache_ok c \<Longrightarrow> cache_ok (snd (cache_get now h c)) \<and> shape (snd (cache_get now h c)) = shape c"
proof -
  have "shards (snd (cache_get now h c)) = shards c" "shape (snd (cache_get now h c)) = shape c"
    by (simp_all add: cache_get_def Let_def shape_def split: option.split)
  then show "cache_ok c \<Longrightarrow> ?thesis" using cache_ok_cong by blast
qed

lemma cache_delete_ok:
  assumes "cache_ok c"
  shows "cache_ok (cache_delete h c) \<and> shape (cache_delete h c) = shape c"
proof -
  note g = getShard_ok[OF assms, of h]
  note d = shard_delete_ok[of "cache_removeAfter c" "getShard c h" h]
  have "within_limits (shard_delete h (getShard c h))" using g d by (auto simp: within_limits_def)
  moreover have "routed c (shard_index c h) (shard_delete h (getShard c h))" using g d(2) by (simp add: routed_def)
  ultimately show ?thesis using putShard_ok(1,2)[OF assms] d g unfolding cache_delete_def by blast
qed

lemma cache_flush_ok: "cache_ok c \<Longrightarrow> cache_ok (cache_flush c) \<and> shape (cache_flush c) = shape c"
proof -
  assume c: "cache_ok c"
  have sh: "shape (cache_flush c) = shape c" by (simp add: shape_def cache_flush_def)
  have "shard_ok rem (s\<lparr>entries := [], expiry := newExpiryQueue, memoryUsed := 0\<rparr>)" for rem s
    using newExpiryQueue_ok by (simp add: shard_ok_def fun_eq_iff)
  moreover have "routed (cache_flush c) i (s\<lparr>entries := [], expiry := newExpiryQueue, memoryUsed := 0\<rparr>)" for i s
    by (simp add: routed_def)
  ultimately have "cache_ok (cache_flush c)"
    using c unfolding cache_ok_def shape_cong[OF sh] by (simp add: cache_flush_def within_limits_def)
  then show ?thesis using sh by blast
qed

lemma unwanted_ok: "cache_ok c \<Longrightarrow> cache_ok (RecordUnwantedReply c) \<and> shape (RecordUnwantedReply c) = shape c"
proof -
  assume c: "cache_ok c"
  have "cache_ok (c\<lparr>unwantedReplies := n\<rparr>) \<and> shape (c\<lparr>unwantedReplies := n\<rparr>) = shape c" for n
    using c cache_ok_cong[of "c\<lparr>unwantedReplies := n\<rparr>" c] by (simp add: shape_def)
  then show ?thesis using cache_flush_ok c by (simp add: RecordUnwantedReply_def Let_def)
qed

text \<open>The entry that \<open>Set\<close> stores, and whether it stores one.\<close>

definition stored ::
  "(string \<Rightarrow> (int \<times> string list \<times> string) option) \<Rightarrow> int \<Rightarrow> shardedCache \<Rightarrow> centry \<Rightarrow> centry" where
  "stored lookup now c e = EnrichEntry lookup now (applyTTLPolicy now c e)"

definition admitted :: "shardedCache \<Rightarrow> u64 \<Rightarrow> centry \<Rightarrow> centry \<Rightarrow> bool" where
  "admitted c h e e' \<longleftrightarrow>
     (DNSSECValidated e \<or> validationMode c \<noteq> ValidationModeEnforced) \<and>
     (0 < maxMemory (getShard c h) \<longrightarrow> estimateSize e' \<le> maxMemory (getShard c h))"

definition lookup_entry :: "shardedCache \<Rightarrow> u64 \<Rightarrow> centry option" where
  "lookup_entry c h = map_of (entries (getShard c h)) h"

lemma lookup_index: "shard_index c k = shard_index c h \<Longrightarrow> getShard c k = getShard c h"
  by (simp add: getShard_def)

lemma cache_set_ok:
  assumes "cache_ok c" "e' = stored lookup now c e" and c'_def: "c' = cache_set lookup now h e c"
  shows "cache_ok c'" "shape c' = shape c"
    "if admitted c h e e' then lookup_entry c' h = Some e' \<and>
       (\<forall>k. k \<noteq> h \<longrightarrow> (lookup_entry c' k = lookup_entry c k \<or>
          (\<exists>v. shard_index c k = shard_index c h \<and> lookup_entry c k = Some v \<and> lookup_entry c' k = None \<and>
             (\<forall>k' x. k' \<noteq> h \<and> shard_index c k' = shard_index c h \<and> lookup_entry c' k' = Some x \<longrightarrow>
                cache_removeAfter c v \<le> cache_removeAfter c x))))
     else lookup_entry c' = lookup_entry c"
proof -
  let ?g = "getShard c h" and ?rem = "cache_removeAfter c"
  obtain es s' where set: "shard_set h (?rem e') e' ?g = (es, s')" by (cases "shard_set h (?rem e') e' ?g")
  note g = getShard_ok[OF assms(1), of h]
  have g1: "shard_ok ?rem ?g" "within_limits ?g" using g by blast+
  note ok = shard_set_ok(1-4)[where rem = ?rem, OF g1 set]
  have spec: "if 0 < maxMemory ?g \<and> maxMemory ?g < estimateSize e' then s' = ?g \<and> es = []
     else map_of (entries s') h = Some e' \<and>
       (\<forall>k. k \<noteq> h \<longrightarrow> (map_of (entries s') k = map_of (entries ?g) k \<or>
          (\<exists>v \<in> set es. map_of (entries ?g) k = Some v \<and> map_of (entries s') k = None \<and>
             (\<forall>k' x. k' \<noteq> h \<and> map_of (entries s') k' = Some x \<longrightarrow> ?rem v \<le> ?rem x))))"
    by (rule shard_set_ok(5)[where rem = ?rem, OF g1 set])
  have rt: "routed c (shard_index c h) s'"
    unfolding routed_def
  proof (intro allI impI)
    fix k x assume k: "map_of (entries s') k = Some x"
    show "shard_index c k = shard_index c h"
    proof (cases "k = h")
      case False
      then have "map_of (entries ?g) k = Some x" using spec k by (auto split: if_splits)
      then show ?thesis using g by (auto simp: routed_def)
    qed simp
  qed
  note p = putShard_ok[OF assms(1) ok(1,2) rt ok(3,4)]
  define c1 where "c1 = (putShard h s' c)\<lparr>evictions := evictions c + of_nat (length es)\<rparr>"
  have c1: "cache_ok c1" "shape c1 = shape c" "\<And>k. getShard c1 k = getShard (putShard h s' c) k"
    using p(1,2) cache_ok_cong[of c1 "putShard h s' c"]
    by (simp_all add: c1_def shape_def getShard_def shard_index_def)
  let ?drop = "\<not> DNSSECValidated e \<and> validationMode c = ValidationModeEnforced"
  have c': "c' = (if ?drop then c else c1)"
    using set unfolding c'_def c1_def cache_set_def assms(2) stored_def by (simp add: Let_def)
  show "cache_ok c'" "shape c' = shape c" using c' c1(1,2) assms(1) by simp_all
  have same: "lookup_entry c1 k = map_of (entries s') k" if "shard_index c k = shard_index c h" for k
  proof -
    have "getShard c1 k = s'" using c1(3)[of k] p(3) lookup_index[of "putShard h s' c" k h] shape_cong(2)[OF p(2)] that by simp
    then show ?thesis by (simp add: lookup_entry_def)
  qed
  have other: "lookup_entry c1 k = lookup_entry c k" if "shard_index c k \<noteq> shard_index c h" for k
    using c1(3)[of k] p(4)[OF that] by (simp add: lookup_entry_def)
  have here: "map_of (entries ?g) k = lookup_entry c k" if "shard_index c k = shard_index c h" for k
    using lookup_index[OF that] by (simp add: lookup_entry_def)
  show "if admitted c h e e' then lookup_entry c' h = Some e' \<and>
       (\<forall>k. k \<noteq> h \<longrightarrow> (lookup_entry c' k = lookup_entry c k \<or>
          (\<exists>v. shard_index c k = shard_index c h \<and> lookup_entry c k = Some v \<and> lookup_entry c' k = None \<and>
             (\<forall>k' x. k' \<noteq> h \<and> shard_index c k' = shard_index c h \<and> lookup_entry c' k' = Some x \<longrightarrow> ?rem v \<le> ?rem x))))
     else lookup_entry c' = lookup_entry c"
  proof (cases "admitted c h e e'")
    case False
    then have "?drop \<or> (0 < maxMemory ?g \<and> maxMemory ?g < estimateSize e')" by (auto simp: admitted_def)
    moreover have "lookup_entry c1 = lookup_entry c" if "s' = ?g"
      using that same here other by (metis ext)
    ultimately show ?thesis using False spec c' by auto
  next
    case True
    then have nd: "\<not> ?drop" and fit: "\<not> (0 < maxMemory ?g \<and> maxMemory ?g < estimateSize e')"
      by (auto simp: admitted_def)
    have cc: "c' = c1" using c' unfolding if_not_P[OF nd] .
    have s: "map_of (entries s') h = Some e'"
      "\<And>k. k \<noteq> h \<Longrightarrow> (map_of (entries s') k = map_of (entries ?g) k \<or>
          (\<exists>v \<in> set es. map_of (entries ?g) k = Some v \<and> map_of (entries s') k = None \<and>
             (\<forall>k' x. k' \<noteq> h \<and> map_of (entries s') k' = Some x \<longrightarrow> ?rem v \<le> ?rem x)))"
      using spec unfolding if_not_P[OF fit] by blast+
    have "lookup_entry c1 k = lookup_entry c k \<or>
          (\<exists>v. shard_index c k = shard_index c h \<and> lookup_entry c k = Some v \<and> lookup_entry c1 k = None \<and>
             (\<forall>k' x. k' \<noteq> h \<and> shard_index c k' = shard_index c h \<and> lookup_entry c1 k' = Some x \<longrightarrow> ?rem v \<le> ?rem x))"
      if "k \<noteq> h" for k
    proof (cases "shard_index c k = shard_index c h")
      case True
      then show ?thesis using s(2)[OF that] same here by metis
    qed (simp add: other)
    then show ?thesis using True s(1) same[of h] cc by simp
  qed
qed

lemma cleanup_shards_ok:
  assumes "\<forall>s \<in> set ss. shard_ok rem s"
  shows "\<exists>n ss'. cleanup_shards now ss = Some (n, ss') \<and> length ss' = length ss \<and>
    (\<forall>i < length ss. shard_ok rem (ss' ! i) \<and> maxSize (ss' ! i) = maxSize (ss ! i) \<and> maxMemory (ss' ! i) = maxMemory (ss ! i) \<and>
       map_of (entries (ss' ! i)) = not_due rem now (map_of (entries (ss ! i))) \<and>
       length (entries (ss' ! i)) \<le> length (entries (ss ! i)) \<and> memoryUsed (ss' ! i) \<le> memoryUsed (ss ! i))"
  using assms
proof (induction ss)
  case (Cons s ss)
  obtain es s' where s: "shard_cleanup now s = Some (es, s')" "shard_ok rem s'" "maxSize s' = maxSize s" "maxMemory s' = maxMemory s"
    "map_of (entries s') = not_due rem now (map_of (entries s))" "length es + length (entries s') = length (entries s)"
    "memoryUsed s' \<le> memoryUsed s"
    using shard_cleanup_ok[of rem s now] Cons.prems by auto
  obtain n ss' where ss: "cleanup_shards now ss = Some (n, ss')" "length ss' = length ss"
    "\<forall>i < length ss. shard_ok rem (ss' ! i) \<and> maxSize (ss' ! i) = maxSize (ss ! i) \<and> maxMemory (ss' ! i) = maxMemory (ss ! i) \<and>
       map_of (entries (ss' ! i)) = not_due rem now (map_of (entries (ss ! i))) \<and>
       length (entries (ss' ! i)) \<le> length (entries (ss ! i)) \<and> memoryUsed (ss' ! i) \<le> memoryUsed (ss ! i)"
    using Cons by auto
  have "length (entries s') \<le> length (entries s)" using s(6) by simp
  then show ?case
    using s ss by (intro exI[of _ "length es + n"] exI[of _ "s' # ss'"]) (simp add: All_less_Suc2)
qed simp

lemma performCleanup_ok:
  assumes "cache_ok c"
  shows "\<exists>c'. performCleanup now c = Some c' \<and> cache_ok c' \<and> shape c' = shape c \<and>
    lookup_entry c' = not_due (cache_removeAfter c) now (lookup_entry c)"
proof -
  let ?rem = "cache_removeAfter c"
  have "\<forall>s \<in> set (shards c). shard_ok ?rem s" using assms by (auto simp: cache_ok_def in_set_conv_nth)
  then obtain n ss' where ss: "cleanup_shards now (shards c) = Some (n, ss')" "length ss' = length (shards c)"
    "\<forall>i < length (shards c). shard_ok ?rem (ss' ! i) \<and> maxSize (ss' ! i) = maxSize (shards c ! i) \<and>
       maxMemory (ss' ! i) = maxMemory (shards c ! i) \<and>
       map_of (entries (ss' ! i)) = not_due ?rem now (map_of (entries (shards c ! i))) \<and>
       length (entries (ss' ! i)) \<le> length (entries (shards c ! i)) \<and> memoryUsed (ss' ! i) \<le> memoryUsed (shards c ! i)"
    using cleanup_shards_ok by blast
  define c' where "c' = c\<lparr>shards := ss', expirations := expirations c + of_nat n\<rparr>"
  have run: "performCleanup now c = Some c'" using ss(1) by (simp add: performCleanup_def c'_def)
  have sh: "shape c' = shape c" using ss(2,3) by (auto simp: shape_def c'_def intro!: nth_equalityI)
  note cg = shape_cong[OF sh]
  have rt: "routed c' = routed c" by (intro ext) (simp add: routed_def cg)
  have keep: "\<forall>h e. map_of (entries (ss' ! i)) h = Some e \<longrightarrow> map_of (entries (shards c ! i)) h = Some e" if "i < length (shards c)" for i
    using ss(3) that by (auto simp: not_due_def split: option.splits if_splits)
  have lim: "within_limits (ss' ! i)" if "i < length (shards c)" for i
  proof -
    have "within_limits (shards c ! i)" using assms that by (simp add: cache_ok_def)
    then show ?thesis using ss(3) that unfolding within_limits_def by (metis order_trans)
  qed
  have routes: "routed c i (ss' ! i)" if "i < length (shards c)" for i
    using assms keep[OF that] that unfolding cache_ok_def routed_def by blast
  have "cache_ok c'"
    using assms ss(3) lim routes unfolding cache_ok_def cg rt by (simp add: c'_def ss(2))
  moreover have "lookup_entry c' h = not_due ?rem now (lookup_entry c) h" for h
    using shard_index_less[OF assms, of h] ss(3)
    by (simp add: lookup_entry_def getShard_def cg) (simp add: c'_def not_due_def lookup_entry_def getShard_def)
  ultimately show ?thesis using run sh by (auto simp: fun_eq_iff)
qed

subsection \<open>A new cache\<close>

definition shard_count :: "cache_config \<Rightarrow> int" where
  "shard_count cfg = (if ShardCount cfg = 0 then defaultShardCount else ShardCount cfg)"

definition entries_limit :: "cache_config \<Rightarrow> int" where
  "entries_limit cfg = (if MaxEntries cfg = 0 then defaultShardSize * shard_count cfg else MaxEntries cfg)"

lemma double_until_bounds:
  "0 < n \<Longrightarrow> n < 2 * count \<Longrightarrow> count \<le> double_until count n \<and> n \<le> double_until count n \<and> double_until count n < 2 * count"
proof (induction count n rule: double_until.induct)
  case (1 count n)
  show ?case
  proof (cases "n < count")
    case True
    then have "double_until count n = double_until count (2 * n)" using "1.prems" by (simp add: double_until.simps[of count n])
    then show ?thesis using "1.IH" "1.prems" True by auto
  next
    case False
    then show ?thesis using "1.prems" by (simp add: double_until.simps[of count n])
  qed
qed

lemma times_div_le: "0 < m \<Longrightarrow> m * (t div m) \<le> (t :: int)"
  using mult_div_mod_eq[of m t] pos_mod_sign[of m t] by linarith

lemma unat_small: "0 \<le> k \<Longrightarrow> k < 2 ^ 64 \<Longrightarrow> unat (word_of_int k :: u64) = nat k"
  by (simp add: unat_eq_nat_uint uint_word_of_int)

lemma NewShardedCache_ok:
  assumes "Validate_config ratio_ok feeds_ok cfg = None"
  shows "cache_ok (NewShardedCache cfg)"
    "int (sum_list (map maxSize (shards (NewShardedCache cfg)))) \<le> entries_limit cfg"
    "0 < MaxMemoryMB cfg \<Longrightarrow> (\<forall>s \<in> set (shards (NewShardedCache cfg)). 0 < maxMemory s) \<and>
       sum_list (map maxMemory (shards (NewShardedCache cfg))) \<le> MaxMemoryMB cfg * 1024 * 1024"
proof -
  define n where "n = shard_count cfg"
  define m where "m = (if n AND (n - 1) \<noteq> 0 then double_until n 1 else n)"
  define total where "total = entries_limit cfg"
  have n: "1 \<le> n" "n \<le> 65536"
    using assms by (auto simp: n_def shard_count_def defaultShardCount_def Validate_config_def split: if_splits)
  have d: "n \<le> double_until n 1" "double_until n 1 < 2 * n" using double_until_bounds[of 1 n] n by simp_all
  have m: "n \<le> m" "m < 2 * n" "m \<le> double_until n 1" using d n by (simp_all add: m_def)
  have "\<not> (if MaxEntries cfg = 0 then defaultShardSize * double_until n 1 else MaxEntries cfg) < double_until n 1"
    using assms by (auto simp: n_def shard_count_def Validate_config_def Let_def split: if_splits)
  then have "m \<le> total"
    using m n d by (auto simp: total_def entries_limit_def n_def[symmetric] defaultShardSize_def split: if_splits)
  then have sz: "0 < total div m" using n m by (simp add: pos_imp_zdiv_pos_iff)
  define mem where "mem = (if MaxMemoryMB cfg > 0 then MaxMemoryMB cfg * 1024 * 1024 div m else 0)"
  have sh: "shards (NewShardedCache cfg) = replicate (nat m) (new_shard (nat (total div m)) mem)"
    and mask: "shardMask (NewShardedCache cfg) = word_of_int (m - 1)"
    by (simp_all add: NewShardedCache_def Let_def m_def n_def shard_count_def total_def entries_limit_def mem_def)
  have um: "unat (shardMask (NewShardedCache cfg)) = nat (m - 1)"
    unfolding mask by (rule unat_small) (use n m in simp_all)
  have "within_limits (new_shard (nat (total div m)) mem)" using sz by (simp add: within_limits_def new_shard_def)
  then show "cache_ok (NewShardedCache cfg)"
    using n m by (simp add: cache_ok_def sh um shard_new_ok routed_def) (simp add: new_shard_def)
  have "m * (total div m) \<le> total" using m n by (simp add: times_div_le)
  moreover have "int (sum_list (map maxSize (shards (NewShardedCache cfg)))) = m * (total div m)"
    using n m sz by (simp add: sh sum_list_replicate new_shard_def)
  ultimately show "int (sum_list (map maxSize (shards (NewShardedCache cfg)))) \<le> entries_limit cfg" by (simp add: total_def)
  assume mb: "0 < MaxMemoryMB cfg"
  have "m < 1024 * 1024" using m n by simp
  moreover have "1024 * 1024 \<le> MaxMemoryMB cfg * 1024 * 1024" using mb by simp
  ultimately have "m \<le> MaxMemoryMB cfg * 1024 * 1024" by linarith
  then have "0 < mem" using mb n m by (simp add: mem_def pos_imp_zdiv_pos_iff)
  moreover have "m * mem \<le> MaxMemoryMB cfg * 1024 * 1024" using mb m n by (simp add: mem_def times_div_le)
  ultimately show "(\<forall>s \<in> set (shards (NewShardedCache cfg)). 0 < maxMemory s) \<and>
       sum_list (map maxMemory (shards (NewShardedCache cfg))) \<le> MaxMemoryMB cfg * 1024 * 1024"
    using n m by (simp add: sh new_shard_def sum_list_replicate)
qed

subsection \<open>Every reachable cache\<close>

inductive cache_reach :: "cache_config \<Rightarrow> shardedCache \<Rightarrow> bool" for cfg where
  created: "cache_reach cfg (NewShardedCache cfg)"
| got: "cache_reach cfg c \<Longrightarrow> cache_reach cfg (snd (cache_get now h c))"
| put: "cache_reach cfg c \<Longrightarrow> cache_reach cfg (cache_set lookup now h e c)"
| deleted: "cache_reach cfg c \<Longrightarrow> cache_reach cfg (cache_delete h c)"
| flushed: "cache_reach cfg c \<Longrightarrow> cache_reach cfg (cache_flush c)"
| unwanted: "cache_reach cfg c \<Longrightarrow> cache_reach cfg (RecordUnwantedReply c)"
| cleaned: "cache_reach cfg c \<Longrightarrow> performCleanup now c = Some c' \<Longrightarrow> cache_reach cfg c'"

lemma cache_reach_ok:
  assumes "cache_reach cfg c" "Validate_config ratio_ok feeds_ok cfg = None"
  shows "cache_ok c \<and> shape c = shape (NewShardedCache cfg)"
  using assms(1)
proof induction
  case created
  then show ?case using NewShardedCache_ok(1)[OF assms(2)] by simp
next
  case (put c lookup now h e)
  then show ?case using cache_set_ok(1,2)[of c _ lookup now e _ h] by auto
next
  case (cleaned c now c')
  then show ?case using performCleanup_ok[of c now] by auto
qed (simp_all add: cache_get_ok cache_delete_ok cache_flush_ok unwanted_ok)

text \<open>
  C5: the cache keeps its bounds. From a validated configuration, whatever sequence of lookups, stores,
  deletions, flushes and cleanups happens, every entry is filed in the shard of its hash, the expiry queue holds
  exactly the entries with their removal times, the memory counters are the sums of the entries' sizes, and
  neither the number of entries nor the estimated memory of the whole cache exceeds the configured limits.
  The cleanup loop ends and removes exactly the entries that are due.
\<close>

theorem cache_invariant:
  assumes "Validate_config ratio_ok feeds_ok cfg = None" "cache_reach cfg c"
  shows "cache_ok c \<and>
    (case GetStats c of (n, mem, _) \<Rightarrow> int n \<le> entries_limit cfg \<and>
       (0 < MaxMemoryMB cfg \<longrightarrow> mem \<le> MaxMemoryMB cfg * 1024 * 1024)) \<and>
    (\<exists>c'. performCleanup now c = Some c' \<and> cache_ok c' \<and>
       lookup_entry c' = not_due (cache_removeAfter c) now (lookup_entry c))"
proof -
  let ?n = "NewShardedCache cfg"
  have ok: "cache_ok c" and sh: "shape c = shape ?n" using cache_reach_ok[OF assms(2,1)] by blast+
  have sz: "map maxSize (shards c) = map maxSize (shards ?n)" "map maxMemory (shards c) = map maxMemory (shards ?n)"
    using sh by (auto simp: shape_def comp_def dest: arg_cong[where f = "map fst"] arg_cong[where f = "map snd"])
  have lim: "within_limits s" if "s \<in> set (shards c)" for s
    using ok that by (auto simp: cache_ok_def in_set_conv_nth)
  have "sum_list (map (\<lambda>s. length (entries s)) (shards c)) \<le> sum_list (map maxSize (shards c))"
    using lim by (intro sum_list_mono) (simp add: within_limits_def)
  then have e: "int (sum_list (map (\<lambda>s. length (entries s)) (shards c))) \<le> entries_limit cfg"
    using NewShardedCache_ok(2)[OF assms(1)] sz(1) by simp
  have mem: "sum_list (map memoryUsed (shards c)) \<le> MaxMemoryMB cfg * 1024 * 1024" if mb: "0 < MaxMemoryMB cfg"
  proof -
    note nm = NewShardedCache_ok(3)[OF assms(1) mb]
    have "0 < maxMemory s" if "s \<in> set (shards c)" for s
    proof -
      have "maxMemory s \<in> set (map maxMemory (shards ?n))" using that sz(2) by (metis image_eqI list.set_map)
      then show ?thesis using nm by auto
    qed
    then have "sum_list (map memoryUsed (shards c)) \<le> sum_list (map maxMemory (shards c))"
      using lim by (intro sum_list_mono) (simp add: within_limits_def)
    then show ?thesis using nm sz(2) by simp
  qed
  show ?thesis using ok e mem performCleanup_ok[OF ok] by (auto simp: GetStats_def)
qed

text \<open>The lifetime that the TTL policy leaves, by the kind of entry.\<close>

definition lifetime_ok :: "shardedCache \<Rightarrow> centry \<Rightarrow> int \<Rightarrow> bool" where
  "lifetime_ok c e t \<longleftrightarrow>
     (let lo = (if IsNegative e then minNegativeTTL c else minTTL c); hi = (if IsNegative e then maxNegativeTTL c else maxTTL c) in
      if DNSSECBogus e \<and> 0 < bogusTTL c then t = bogusTTL c
      else 0 < lo \<and> lo \<le> hi \<longrightarrow> lo \<le> t \<and> t \<le> hi)"

lemma stored_lifetime: "lifetime_ok c e (ExpiresAt (stored lookup now c e) - now)"
proof -
  have "ExpiresAt (EnrichEntry lookup now x) = ExpiresAt x" for x
    by (simp add: EnrichEntry_def Let_def split: option.split)
  then show ?thesis by (auto simp: lifetime_ok_def stored_def applyTTLPolicy_def Let_def)
qed

text \<open>
  What a store does. An admitted entry is found under its hash until it expires, with a lifetime inside the
  limits for its kind (bogus entries get the quarantine time). Every other entry is still there unless it was
  evicted from the same shard, and an evicted entry was due no later than any that stays. An entry that is not
  admitted (not validated in enforced mode, or larger than a shard) changes no lookup.
\<close>

theorem cache_set_get:
  assumes "cache_ok c" "e' = stored lookup now c e" "c' = cache_set lookup now h e c"
  shows "cache_ok c' \<and> lifetime_ok c e (ExpiresAt e' - now) \<and>
    (if admitted c h e e'
     then (\<forall>t \<le> ExpiresAt e'. fst (cache_get t h c') = Some e') \<and>
       (\<forall>k. k \<noteq> h \<longrightarrow> (lookup_entry c' k = lookup_entry c k \<or>
          (\<exists>v. shard_index c k = shard_index c h \<and> lookup_entry c k = Some v \<and> lookup_entry c' k = None \<and>
             (\<forall>k' x. k' \<noteq> h \<and> shard_index c k' = shard_index c h \<and> lookup_entry c' k' = Some x \<longrightarrow>
                cache_removeAfter c v \<le> cache_removeAfter c x))))
     else lookup_entry c' = lookup_entry c)"
proof -
  note s = cache_set_ok[OF assms]
  have "fst (cache_get t h c') = Some e'" if "lookup_entry c' h = Some e'" "t \<le> ExpiresAt e'" for t
    using that by (simp add: cache_get_def lookup_entry_def IsExpired_def)
  then show ?thesis using s(1,3) stored_lifetime[of c e lookup now] assms(2) by (simp split: if_splits)
qed

definition ex_cache_config :: cache_config where
  "ex_cache_config = \<lparr>MaxEntries = 4, ShardCount = 3, MaxMemoryMB = 1, ServeStale = False, MaxStaleTTL = 0,
     ValidationMode = None, MinTTL = 5000000000, MaxTTL = 60000000000, MinNegativeTTL = 0, MaxNegativeTTL = 0, BogusTTL = 0,
     RebindingProtection = None, UnwantedReplyThreshold = 0\<rparr>"

definition ex_entry :: centry where
  "ex_entry = new_entry [1, 2, 3] 1000 0 (''www.example.'', TypeA, ClassINET)"

lemma ex_cache_valid: "Validate_config True True ex_cache_config = None"
  by code_simp

theorem cache_invariant_witness:
  "fst (GetStats (cache_set (\<lambda>_. None) 0 5 ex_entry (NewShardedCache ex_cache_config))) = 1 \<and>
   cache_ok (cache_set (\<lambda>_. None) 0 5 ex_entry (NewShardedCache ex_cache_config))"
proof
  show "fst (GetStats (cache_set (\<lambda>_. None) 0 5 ex_entry (NewShardedCache ex_cache_config))) = 1" by code_simp
  show "cache_ok (cache_set (\<lambda>_. None) 0 5 ex_entry (NewShardedCache ex_cache_config))"
    by (rule cache_invariant[OF ex_cache_valid, THEN conjunct1]) (intro cache_reach.intros)
qed

lemma ex_new_cache_ok: "cache_ok (NewShardedCache ex_cache_config)"
  using NewShardedCache_ok(1)[OF ex_cache_valid] .

theorem cache_set_get_witness:
  "admitted (NewShardedCache ex_cache_config) 5 ex_entry (stored (\<lambda>_. None) 0 (NewShardedCache ex_cache_config) ex_entry) \<and>
   lifetime_ok (NewShardedCache ex_cache_config) ex_entry
     (ExpiresAt (stored (\<lambda>_. None) 0 (NewShardedCache ex_cache_config) ex_entry) - 0)"
proof
  show "admitted (NewShardedCache ex_cache_config) 5 ex_entry (stored (\<lambda>_. None) 0 (NewShardedCache ex_cache_config) ex_entry)"
    by code_simp
qed (use cache_set_get[OF ex_new_cache_ok refl refl] in blast)

end
