(* ===== verification/Nsec_Props.thy ===== *)
theory Nsec_Props
  imports Nsec
begin

text \<open>What synthesis from cached denials may say, and what it says wrongly.\<close>

subsection \<open>The order\<close>

text \<open>The order of label lists is the lexicographic order of the library.\<close>

lemma labels_less_iff: "labels_less as bs \<longleftrightarrow> as < bs"
proof (induction as bs rule: labels_less.induct, goal_cases)
  case (2 bs)
  then show ?case by (cases bs) auto
qed auto

lemma split_dots_not_Nil [simp]: "split_dots s \<noteq> []"
  by (induction s) (auto split: list.split)

lemma split_dots_append: "split_dots (l @ CHR ''.'' # q) = split_dots l @ split_dots q"
proof (induction l)
  case (Cons c l)
  then show ?case by (cases "split_dots l") auto
qed simp

lemma less_append: "bs \<noteq> [] \<Longrightarrow> (as :: 'a::linorder list) < as @ bs"
  by (induction as) (auto simp: neq_Nil_conv)

text \<open>A name comes before every name below it.\<close>

lemma canonicalLess_below:
  assumes "q \<noteq> []"
  shows "canonicalLess q (l @ ''.'' @ q)"
proof -
  define t where "t = to_lower (trim_final_dot q)"
  have "to_lower (trim_final_dot (l @ ''.'' @ q)) = to_lower l @ CHR ''.'' # t"
    using assms by (auto simp: t_def trim_final_dot_def to_lower_def lower_char_def butlast_append)
  then show ?thesis
    using less_append[of "rev (split_dots (to_lower l))" "rev (split_dots t)"]
    by (simp add: canonicalLess_def reverseLabels_def labels_less_iff split_dots_append t_def)
qed

subsection \<open>Synthesis is sound for genuine records\<close>

text \<open>
  \<open>owners\<close> are the names that own records; a genuine NSEC record has none of its zone strictly inside its
  interval, a genuine NSEC3 record covers none.
\<close>

definition genuine_nsec :: "nsec_lib \<Rightarrow> (string \<Rightarrow> bool) \<Rightarrow> nsecRecord \<Rightarrow> bool" where
  "genuine_nsec L owners r \<longleftrightarrow>
     (\<forall>n. owners n \<longrightarrow> IsSubDomain L (ns_Zone r) n \<longrightarrow> canonicalLess (ns_Owner r) n \<longrightarrow>
        \<not> canonicalLess n (ns_Next r) \<and> \<not> canonicalLess (ns_Next r) (ns_Owner r))"

definition genuine_nsec3 :: "nsec_lib \<Rightarrow> (string \<Rightarrow> bool) \<Rightarrow> nsec3Record \<Rightarrow> bool" where
  "genuine_nsec3 L owners r \<longleftrightarrow>
     (\<forall>n. owners n \<longrightarrow> IsSubDomain L (ns3_Zone r) n \<longrightarrow> \<not> N3Cover L (nsec3_rr_of 0 0 0 r, nsec3_data r) n)"

definition genuine_response :: "nsec_lib \<Rightarrow> (string \<Rightarrow> bool) \<Rightarrow> dmsg \<Rightarrow> string \<Rightarrow> bool" where
  "genuine_response L owners msg zone \<longleftrightarrow>
     (\<forall>r \<in> set (m_ns msg). \<forall>t. (\<forall>x. new_nsec L t zone r = Some x \<longrightarrow> genuine_nsec L owners x) \<and>
        (\<forall>x. new_nsec3 L t r = Some x \<longrightarrow> genuine_nsec3 L owners x))"

text \<open>The caches that storing genuine responses and flushing lead to.\<close>

inductive nsec_reach :: "nsec_lib \<Rightarrow> (string \<Rightarrow> bool) \<Rightarrow> nsecCache \<Rightarrow> bool" for L owners where
  fresh: "nsec_reach L owners NewNSECCache"
| stored: "nsec_reach L owners c \<Longrightarrow> genuine_response L owners msg zone \<Longrightarrow> nsec_reach L owners (nsec_Store L t msg zone c)"
| purged: "nsec_reach L owners c \<Longrightarrow> nsec_reach L owners (nsec_Flush t c)"

lemma replace_subset: "set (replace_or_append P x xs) \<subseteq> insert x (set xs)"
  by (induction xs) auto

lemma replace_distinct:
  "distinct (map f xs) \<Longrightarrow> distinct (map f (replace_or_append (\<lambda>e. f e = f x) x xs))"
proof (induction xs)
  case (Cons y ys)
  have "f ` set (replace_or_append (\<lambda>e. f e = f x) x ys) \<subseteq> insert (f x) (f ` set ys)" using replace_subset by fastforce
  then show ?case using Cons by auto
qed simp

lemma store_all:
  assumes "\<And>r x. r \<in> set rrs \<Longrightarrow> new r = Some x \<Longrightarrow> P x" "\<forall>x \<in> set recs. P x"
    "\<And>r recs. st r recs = (case new r of None \<Rightarrow> recs | Some x \<Rightarrow> replace_or_append (Q x) x recs)"
  shows "\<forall>x \<in> set (fold st rrs recs). P x"
  using assms(1,2)
proof (induction rrs arbitrary: recs)
  case (Cons r rrs)
  have "\<forall>x \<in> set (st r recs). P x"
  proof (cases "new r")
    case (Some x)
    then show ?thesis using Cons.prems(1)[of r x] Cons.prems(2) replace_subset[of "Q x" x recs] by (auto simp: assms(3))
  qed (use Cons.prems(2) in \<open>simp add: assms(3)\<close>)
  then show ?case unfolding fold_simps by (intro Cons.IH) (use Cons.prems(1) in auto)
qed simp

lemma nsec_reach_genuine:
  "nsec_reach L owners c \<Longrightarrow>
     (\<forall>r \<in> set (nsec_records c). genuine_nsec L owners r) \<and> (\<forall>r \<in> set (nsec3_records c). genuine_nsec3 L owners r)"
proof (induction rule: nsec_reach.induct)
  case (stored c msg zone t)
  have "\<forall>r \<in> set (fold (store_nsec L t zone) (m_ns msg) (nsec_records c)). genuine_nsec L owners r"
    using stored by (intro store_all[OF _ _ store_nsec_def]) (auto simp: genuine_response_def)
  moreover have "\<forall>r \<in> set (fold (store_nsec3 L t) (m_ns msg) (nsec3_records c)). genuine_nsec3 L owners r"
    using stored by (intro store_all[OF _ _ store_nsec3_def]) (auto simp: genuine_response_def)
  ultimately show ?case by (simp add: nsec_Store_def)
qed (auto simp: NewNSECCache_def nsec_Flush_def)

lemma find_Some: "List.find P xs = Some x \<Longrightarrow> x \<in> set xs \<and> P x"
  by (auto simp: find_Some_iff)

lemma synthetic_fields:
  "m_rcode (buildSyntheticNXDOMAIN now q t cls i r) = RcodeNameError \<and> m_id (buildSyntheticNXDOMAIN now q t cls i r) = i"
  "m_rcode (buildSyntheticNXDOMAIN_NSEC3 now q t cls i r') = RcodeNameError \<and>
   m_id (buildSyntheticNXDOMAIN_NSEC3 now q t cls i r') = i"
  by (simp_all add: buildSyntheticNXDOMAIN_def buildSyntheticNXDOMAIN_NSEC3_def synthetic_def)

lemma nsec_denies_genuine: "genuine_nsec L owners r \<Longrightarrow> nsec_denies L now q r \<Longrightarrow> \<not> owners q"
proof
  assume "genuine_nsec L owners r" and d: "nsec_denies L now q r" and "owners q"
  then have "IsSubDomain L (ns_Zone r) q \<longrightarrow> canonicalLess (ns_Owner r) q \<longrightarrow>
      \<not> canonicalLess q (ns_Next r) \<and> \<not> canonicalLess (ns_Next r) (ns_Owner r)"
    unfolding genuine_nsec_def by simp
  then show False using d unfolding nsec_denies_def by argo
qed

lemma nsec3_denies_genuine: "genuine_nsec3 L owners r \<Longrightarrow> nsec3_denies L now q r \<Longrightarrow> \<not> owners q"
  unfolding genuine_nsec3_def nsec3_denies_def by blast


text \<open>
  Synthesis denies names that exist. An empty non-terminal owns no record but exists, and every name
  below it does: when the next name of a cached NSEC record lies below \<open>q\<close>, and the owner does not, \<open>q\<close>
  gets NXDOMAIN. A wildcard does not count either: the NSEC record of \<open>*.z\<close> itself denies the names
  after it that the wildcard answers.
\<close>

theorem synthesis_denies_existing:
  assumes "r \<in> set (nsec_records c)" "now \<le> ns_ExpiresAt r" "q = to_lower (Fqdn L qname)" "IsSubDomain L (ns_Zone r) q"
    "q \<noteq> []" "canonicalLess (ns_Owner r) q"
    "ns_Next r = l @ ''.'' @ q \<or> (ns_Owner r = ''*.'' @ z \<and> canonicalLess (ns_Next r) (ns_Owner r))"
  shows "\<exists>m. SynthesizeNXDOMAIN L now c qname qtype qclass queryID = Some m \<and> m_rcode m = RcodeNameError"
proof -
  have "nsec_denies L now q r"
    using assms(2,4-7) canonicalLess_below[OF assms(5), of l] by (auto simp: nsec_denies_def)
  then obtain r' where "List.find (nsec_denies L now q) (nsec_records c) = Some r'"
    using assms(1) by (cases "List.find (nsec_denies L now q) (nsec_records c)") (auto simp: find_None_iff)
  then show ?thesis
    using assms(3) by (auto simp: SynthesizeNXDOMAIN_def buildSyntheticNXDOMAIN_def synthetic_def)
qed

subsection \<open>The properties applied\<close>

definition ex_nsec_lib :: nsec_lib where
  "ex_nsec_lib = sec_lib.extend
     (dns_lib.extend ex_lib \<lparr>dnskeyTag = (\<lambda>_. 0), ToDS = (\<lambda>_ _. None), VerifyRRSIG = (\<lambda>_ _ _. True),
        N3Match = (\<lambda>_ _. False), N3Cover = (\<lambda>_ _. False), PackDomainName = (\<lambda>_. None)\<rparr>)
     \<lparr>SplitPositions = (\<lambda>_. [0])\<rparr>"

text \<open>The zone holds \<open>example.\<close> and \<open>b.ent.example.\<close>; the response proves that there is nothing between.\<close>

definition ex_denial :: dmsg where
  "ex_denial = synthetic ''a.example.'' TypeA ClassINET 7
     \<lparr>rr_name = ''example.'', rr_type = TypeNSEC, rr_class = ClassINET, rr_ttl = 300,
      rr_data = RNSEC ''b.ent.example.'' [TypeSOA]\<rparr>"

definition ex_nsec_cache :: nsecCache where
  "ex_nsec_cache = nsec_Store ex_nsec_lib 0 ex_denial ''example.'' NewNSECCache"

definition ex_owners :: "string \<Rightarrow> bool" where
  "ex_owners n \<longleftrightarrow> n = ''example.'' \<or> n = ''b.ent.example.''"

lemma ex_nsec_genuine: "nsec_reach ex_nsec_lib ex_owners ex_nsec_cache"
  unfolding ex_nsec_cache_def
proof (intro nsec_reach.intros)
  have n3: "new_nsec3 ex_nsec_lib t r = Some x \<Longrightarrow> False" if "r \<in> set (m_ns ex_denial)" for t r x
    using that by (simp add: ex_denial_def synthetic_def new_nsec3_def)
  have ord: "\<not> canonicalLess ''example.'' ''example.''" "\<not> canonicalLess ''b.ent.example.'' ''b.ent.example.''"
    "\<not> canonicalLess ''b.ent.example.'' ''example.''"
    by code_simp+
  have "genuine_nsec ex_nsec_lib ex_owners x" if "r \<in> set (m_ns ex_denial)" "new_nsec ex_nsec_lib t ''example.'' r = Some x" for t r x
  proof -
    have "ns_Owner x = to_lower (ex_fqdn ''example.'')" "ns_Next x = to_lower (ex_fqdn ''b.ent.example.'')"
      using that by (auto simp: ex_denial_def synthetic_def new_nsec_def ex_nsec_lib_def dns_lib.defs sec_lib.defs ex_lib_def)
    moreover have "to_lower (ex_fqdn ''example.'') = ''example.''" "to_lower (ex_fqdn ''b.ent.example.'') = ''b.ent.example.''"
      by code_simp+
    ultimately show ?thesis using ord by (auto simp: genuine_nsec_def ex_owners_def)
  qed
  then show "genuine_response ex_nsec_lib ex_owners ex_denial ''example.''"
    unfolding genuine_response_def using n3 by blast
qed

lemma ex_nsec_record:
  "nsec_records ex_nsec_cache =
     [\<lparr>ns_Owner = ''example.'', ns_Next = ''b.ent.example.'', ns_TypeMap = [TypeSOA], ns_ExpiresAt = 300000000000,
       ns_Zone = ''example.''\<rparr>]"
  by code_simp


theorem synthesis_denies_existing_witness:
  "\<exists>m. SynthesizeNXDOMAIN ex_nsec_lib 0 ex_nsec_cache ''ent.example.'' TypeA ClassINET 5 = Some m \<and> m_rcode m = RcodeNameError"
proof (rule synthesis_denies_existing)
  show "hd (nsec_records ex_nsec_cache) \<in> set (nsec_records ex_nsec_cache)" by (simp add: ex_nsec_record)
  show "0 \<le> ns_ExpiresAt (hd (nsec_records ex_nsec_cache))" by (simp add: ex_nsec_record)
  show "''ent.example.'' = to_lower (Fqdn ex_nsec_lib ''ent.example.'')" by code_simp
  show "IsSubDomain ex_nsec_lib (ns_Zone (hd (nsec_records ex_nsec_cache))) ''ent.example.''" by code_simp
  show "canonicalLess (ns_Owner (hd (nsec_records ex_nsec_cache))) ''ent.example.''" by code_simp
  show "ns_Next (hd (nsec_records ex_nsec_cache)) = ''b'' @ ''.'' @ ''ent.example.'' \<or>
    ns_Owner (hd (nsec_records ex_nsec_cache)) = ''*.'' @ [] \<and>
    canonicalLess (ns_Next (hd (nsec_records ex_nsec_cache))) (ns_Owner (hd (nsec_records ex_nsec_cache)))"
    by (simp add: ex_nsec_record)
qed simp

end
