(* ===== verification/Cached_Resolver_Props.thy ===== *)
theory Cached_Resolver_Props
  imports Cached_Resolver Cache_Props Nsec_Props
begin

text \<open>The resolver with its caches: what is stored, what is served from the cache, and when.\<close>

subsection \<open>Frames\<close>

lemma cache_get_found:
  "fst (cache_get now h c) =
     (case lookup_entry c h of
        None \<Rightarrow> None
      | Some e \<Rightarrow> if IsExpired now e \<and> \<not> (serveStale c \<and> IsStale now e (maxStaleTTL c)) then None else Some e)"
  by (auto simp: cache_get_def lookup_entry_def Let_def split: option.split)

lemma cache_get_frame [simp]:
  "lookup_entry (snd (cache_get now h c)) = lookup_entry c"
  "serveStale (snd (cache_get now h c)) = serveStale c"
  "maxStaleTTL (snd (cache_get now h c)) = maxStaleTTL c"
  "rebinding (snd (cache_get now h c)) = rebinding c"
  by (auto simp: cache_get_def lookup_entry_def getShard_def shard_index_def fun_eq_iff Let_def split: option.split)

lemma cache_set_rebinding [simp]: "rebinding (cache_set lookup now h e c) = rebinding c"
  by (simp add: cache_set_def putShard_def Let_def split: prod.split)

lemma IsSafeResponse_cong: "rebinding c' = rebinding c \<Longrightarrow> IsSafeResponse c' = IsSafeResponse c"
  by (simp add: IsSafeResponse_def fun_eq_iff)

text \<open>Names for what the two cache lookups do.\<close>

lemma try_cache_eq:
  assumes "try_cache d st q question = (a, st')"
  shows "a = Option.bind (fst (cache_get (time d (snd (upstream st))) (query_key question) (rcache st)))
             (from_cache d (time d (snd (upstream st))) q)"
    "rcache st' = snd (cache_get (time d (snd (upstream st))) (query_key question) (rcache st))"
    "upstream st' = upstream st" "rnsec st' = rnsec st"
  using assms by (auto simp: try_cache_def Let_def split: prod.splits)

lemma try_stale_eq:
  assumes "try_stale d r st q question = (a, st')"
  shows "a = (if stale_fallback r then Option.bind (fst (cache_get (time d (snd (upstream st))) (query_key question) (rcache st)))
             (stale_answer d q) else None)"
    "rcache st' = (if stale_fallback r then snd (cache_get (time d (snd (upstream st))) (query_key question) (rcache st)) else rcache st)"
    "upstream st' = upstream st" "rnsec st' = rnsec st"
  using assms by (auto simp: try_stale_def Let_def split: prod.splits if_splits)

subsection \<open>What a fresh lookup stores\<close>

text \<open>A stored response: the response to the question, its verdict, and the time it was stored.\<close>

definition negative_response :: "dmsg \<Rightarrow> bool" where
  "negative_response m \<longleftrightarrow> m_rcode m = RcodeNameError \<or> (m_rcode m = RcodeSuccess \<and> m_answer m = [])"

lemma fresh_entry_fields:
  "Data (fresh_entry now m b question v g) = b" "DNSSECValidated (fresh_entry now m b question v g) = v"
  "DNSSECBogus (fresh_entry now m b question v g) = g"
  "(centry.QName (fresh_entry now m b question v g), centry.QType (fresh_entry now m b question v g), centry.QClass (fresh_entry now m b question v g)) = question"
  "IsNegative (fresh_entry now m b question v g) = negative_response m"
  by (simp_all add: fresh_entry_def new_entry_def Let_def negative_response_def)

lemma policy_field: "(\<And>t x. f (x\<lparr>ExpiresAt := t\<rparr>) = f x) \<Longrightarrow> f (applyTTLPolicy now c e) = f e"
  by (simp add: applyTTLPolicy_def Let_def)

lemma enrich_field:
  assumes "\<And>t x. f (x\<lparr>ThreatScore := t\<rparr>) = f x" "\<And>t x. f (x\<lparr>Categories := t\<rparr>) = f x" "\<And>t x. f (x\<lparr>Reputation := t\<rparr>) = f x"
    "\<And>t x. f (x\<lparr>ThreatSource := t\<rparr>) = f x" "\<And>t x. f (x\<lparr>FirstSeen := t\<rparr>) = f x" "\<And>t x. f (x\<lparr>LastSeen := t\<rparr>) = f x"
  shows "f (EnrichEntry lookup now e) = f e"
  by (simp add: EnrichEntry_def Let_def assms split: option.split)

lemma stored_fields:
  "Data (stored lookup now c e) = Data e" "DNSSECValidated (stored lookup now c e) = DNSSECValidated e"
  "DNSSECBogus (stored lookup now c e) = DNSSECBogus e" "IsNegative (stored lookup now c e) = IsNegative e"
  "centry.QName (stored lookup now c e) = centry.QName e" "centry.QType (stored lookup now c e) = centry.QType e"
  "centry.QClass (stored lookup now c e) = centry.QClass e"
  unfolding stored_def by (simp_all add: enrich_field policy_field)

text \<open>
  What one fresh lookup does: it fails, or answers SERVFAIL, and stores nothing; or it answers with a
  rebinding-safe response to the question, marked as authenticated when the validator says secure, and
  that response is what it stores.
\<close>

definition secure_verdict :: "nsec_lib \<Rightarrow> 'w deps \<Rightarrow> resolver \<Rightarrow> quest \<Rightarrow> dmsg \<Rightarrow> bool" where
  "secure_verdict L d r question m \<longleftrightarrow>
     (\<exists>v s m' result s'. rvalidator r = Some v \<and> m_ns m' = m_ns m \<and>
        Validate (sec_lib.truncate L) v (validation_net (dns_lib.truncate L) d r) m' (fst question) (fst (snd question)) s
          = ((result, None), s') \<and> Secure result)"

definition fresh_answer ::
  "nsec_lib \<Rightarrow> 'w deps \<Rightarrow> resolver \<Rightarrow> shardedCache \<Rightarrow> quest \<Rightarrow> bool \<Rightarrow> dmsg \<Rightarrow> bool" where
  "fresh_answer L d r c question validated m \<longleftrightarrow>
     m_question m = [question] \<and> m_id m = 0 \<and> m_ra m \<and> IsSafeResponse c m (fst question) \<and>
     (validated \<longrightarrow> m_ad m \<and> secure_verdict L d r question m)"

lemma resolveFresh_cases:
  assumes "resolveFresh L d r st question = (res, st')"
  shows "(\<exists>s. st' = st\<lparr>upstream := s\<rparr> \<and>
       ((\<exists>e. res = Inl e) \<or> res = Inr (SetRcode d (baseQuery question) RcodeServerFailure))) \<or>
    (\<exists>s m v g. res = Inr m \<and> st' = store_fresh L d m question v g (st\<lparr>upstream := s\<rparr>) \<and>
       fresh_answer L d r (rcache st) question v m)"
proof -
  obtain qname qtype qclass where q: "question = (qname, qtype, qclass)" by (metis prod_cases3)
  let ?up = "resolveUpstream (dns_lib.truncate L) (rcfg r) (wire d) qclass"
  obtain x s where u: "?up (upstream st) qname qtype = (x, s)" by (cases "?up (upstream st) qname qtype")
  show ?thesis
  proof (cases x)
    case (Inl e)
    then show ?thesis using assms u by (intro disjI1 exI[of _ s]) (auto simp: resolveFresh_def q Let_def)
  next
    case (Inr m0)
    obtain y s1 where f: "followAliases (dns_lib.truncate L) ?up (fresh_meta question m0) s qname qtype = (y, s1)"
      by (cases "followAliases (dns_lib.truncate L) ?up (fresh_meta question m0) s qname qtype")
    show ?thesis
    proof (cases y)
      case (Inl e)
      then show ?thesis using assms u f Inr by (intro disjI1 exI[of _ s1]) (auto simp: resolveFresh_def q Let_def)
    next
      case (Inr m1)
      define m where "m = fresh_meta question m1"
      obtain j s2 where j: "judge L d r m question s1 = (j, s2)" by (cases "judge L d r m question s1")
      have run: "(res, st') =
        (if \<not> IsSafeResponse (rcache st) m qname
         then (Inr (SetRcode d (baseQuery question) RcodeServerFailure), st\<lparr>upstream := s1\<rparr>)
         else (case j of
                 None \<Rightarrow> (Inr (SetRcode d (baseQuery question) RcodeServerFailure), st\<lparr>upstream := s2\<rparr>)
               | Some (validated, bogus) \<Rightarrow>
                   let resp = (if validated then m\<lparr>m_ad := True\<rparr> else m)
                   in (Inr resp, store_fresh L d resp question validated bogus (st\<lparr>upstream := s2\<rparr>))))"
        unfolding assms[symmetric] resolveFresh_def q Let_def using u f j unfolding \<open>x = Inr m0\<close> Inr m_def q
        by simp
      show ?thesis
      proof (cases "IsSafeResponse (rcache st) m qname \<and> j \<noteq> None")
        case False
        then have "res = Inr (SetRcode d (baseQuery question) RcodeServerFailure)" "st' = st\<lparr>upstream := s1\<rparr> \<or> st' = st\<lparr>upstream := s2\<rparr>"
          using run by (cases j; cases "IsSafeResponse (rcache st) m qname"; simp)+
        then show ?thesis by blast
      next
        case True
        then obtain v g where v: "j = Some (v, g)" by auto
        define resp where "resp = (if v then m\<lparr>m_ad := True\<rparr> else m)"
        have "secure_verdict L d r question resp" if v
        proof (cases "rvalidator r")
          case None
          then show ?thesis using j v that by (simp add: judge_def)
        next
          case (Some w)
          obtain result err s3 where V: "Validate (sec_lib.truncate L) w (validation_net (dns_lib.truncate L) d r) m
              (fst question) (fst (snd question)) s1 = ((result, err), s3)"
            by (metis prod_cases3 surj_pair)
          then have "err = None" "Secure result" using j v that Some by (auto simp: judge_def split: option.splits)
          then show ?thesis using V Some unfolding secure_verdict_def resp_def by (intro exI[of _ w] exI[of _ s1] exI[of _ m]) auto
        qed
        moreover have "IsSafeResponse (rcache st) resp qname"
          using True by (simp add: resp_def IsSafeResponse_def IsSafe_def split: option.splits)
        ultimately have "fresh_answer L d r (rcache st) question v resp"
          by (simp add: fresh_answer_def q resp_def m_def fresh_meta_def)
        moreover have "res = Inr resp" "st' = store_fresh L d resp question v g (st\<lparr>upstream := s2\<rparr>)"
          using run True v by (simp_all add: resp_def Let_def)
        ultimately show ?thesis by blast
      qed
    qed
  qed
qed

subsection \<open>Invariants of the resolver's state\<close>

text \<open>
  An invariant of the state need only be kept by three things: the upstream side moving on, a lookup in the
  cache, and a fresh answer being stored. Then every operation keeps it.
\<close>

locale resolver_invariant =
  fixes L :: nsec_lib and d :: "'w deps" and r :: resolver and P :: "'w rstate \<Rightarrow> bool"
  assumes moved: "P st \<Longrightarrow> P (st\<lparr>upstream := s\<rparr>)"
    and looked_up: "P st \<Longrightarrow> P (st\<lparr>rcache := snd (cache_get now h (rcache st))\<rparr>)"
    and stored_answer: "P st \<Longrightarrow> fresh_answer L d r (rcache st) question v m \<Longrightarrow> P (store_fresh L d m question v g st)"
begin

lemma fresh: "P st \<Longrightarrow> P (snd (resolveFresh L d r st question))"
proof -
  assume P: "P st"
  obtain res st' where run: "resolveFresh L d r st question = (res, st')" by (cases "resolveFresh L d r st question")
  from resolveFresh_cases[OF run] show ?thesis
  proof (elim disjE exE conjE)
    fix s m v g
    assume "st' = store_fresh L d m question v g (st\<lparr>upstream := s\<rparr>)" "fresh_answer L d r (rcache st) question v m"
    then show ?thesis using stored_answer[OF moved[OF P, of s], of question v m g] run by simp
  qed (use moved[OF P] run in auto)
qed

lemma coalesced: "P st \<Longrightarrow> P (snd (resolveCoalesced L d r st question))"
proof -
  assume P: "P st"
  obtain c w where u: "upstream st = (c, w)" by (cases "upstream st")
  obtain j w' where s: "submit d w = (j, w')" by (cases "submit d w")
  obtain res st' where f: "resolveFresh L d r (st\<lparr>upstream := (c, w')\<rparr>) question = (res, st')"
    by (cases "resolveFresh L d r (st\<lparr>upstream := (c, w')\<rparr>) question")
  have "P st'" using fresh[OF moved[OF P, of "(c, w')"], of question] f by simp
  then show ?thesis
    using moved[OF P, of "(c, w')"] by (cases j; cases res) (simp_all add: resolveCoalesced_def u s f)
qed

lemma cached: "P st \<Longrightarrow> P (snd (try_cache d st q question))"
  using looked_up[of st] by (simp add: try_cache_def Let_def split: prod.split) (metis snd_conv)

lemma stale: "P st \<Longrightarrow> P (snd (try_stale d r st q question))"
  using looked_up[of st] by (simp add: try_stale_def Let_def split: prod.split) (metis snd_conv)

lemma resolve: "P st \<Longrightarrow> P (snd (Resolve L d r st q))"
proof (cases "m_question q")
  case (Cons question rest)
  assume P: "P st"
  obtain a st1 where a: "try_cache d st q question = (a, st1)" by (cases "try_cache d st q question")
  obtain b st2 where b: "resolveCoalesced L d r st1 question = (b, st2)" by (cases "resolveCoalesced L d r st1 question")
  obtain x st3 where x: "try_stale d r st2 q question = (x, st3)" by (cases "try_stale d r st2 q question")
  have "P st1" using cached[OF P, of q question] a by simp
  moreover have "P st2" using coalesced[OF calculation, of question] b by simp
  moreover have "P st3" using stale[OF calculation(2), of q question] x by simp
  ultimately show ?thesis using a b x by (simp add: Resolve_def Cons split: option.split sum.split)
qed (simp add: Resolve_def)

lemma prefetch: "P st \<Longrightarrow> P (snd (Prefetch L d r st question))"
proof -
  assume P: "P st"
  obtain n t c where q: "question = (n, t, c)" by (metis prod_cases3)
  obtain b st' where b: "resolveCoalesced L d r st (Fqdn L n, t, c) = (b, st')"
    by (cases "resolveCoalesced L d r st (Fqdn L n, t, c)")
  show ?thesis using coalesced[OF P, of "(Fqdn L n, t, c)"] b by (simp add: Prefetch_def q split: sum.split)
qed

end

subsection \<open>The contents of the caches\<close>

text \<open>
  Every entry is filed under the hash of its own question and holds the packed form of a fresh answer to it,
  with the answer's own verdict. The NSEC cache is built from negative answers with a secure verdict.
\<close>

definition entry_ok :: "nsec_lib \<Rightarrow> 'w deps \<Rightarrow> resolver \<Rightarrow> shardedCache \<Rightarrow> u64 \<Rightarrow> centry \<Rightarrow> bool" where
  "entry_ok L d r c h e \<longleftrightarrow>
     (let question = (centry.QName e, centry.QType e, centry.QClass e) in
      h = query_key question \<and>
      (\<exists>m. Pack d m = Some (Data e) \<and> IsNegative e = negative_response m \<and>
           fresh_answer L d r c question (DNSSECValidated e) m))"

inductive nsec_from :: "nsec_lib \<Rightarrow> 'w deps \<Rightarrow> resolver \<Rightarrow> nsecCache \<Rightarrow> bool" for L d r where
  empty: "nsec_from L d r NewNSECCache"
| denial: "nsec_from L d r n \<Longrightarrow> secure_verdict L d r question m \<Longrightarrow> negative_response m \<Longrightarrow>
     nsec_from L d r (nsec_Store L t m (extractZoneFromResponse m) n)"

definition contents_ok :: "nsec_lib \<Rightarrow> 'w deps \<Rightarrow> resolver \<Rightarrow> 'w rstate \<Rightarrow> bool" where
  "contents_ok L d r st \<longleftrightarrow>
     cache_ok (rcache st) \<and> (\<forall>h e. lookup_entry (rcache st) h = Some e \<longrightarrow> entry_ok L d r (rcache st) h e) \<and>
     (\<forall>n. rnsec st = Some n \<longrightarrow> nsec_from L d r n)"

lemma entry_ok_cong: "rebinding c' = rebinding c \<Longrightarrow> entry_ok L d r c' = entry_ok L d r c"
  by (simp add: entry_ok_def fun_eq_iff fresh_answer_def IsSafeResponse_cong[of c' c])

lemma fresh_answer_cong: "rebinding c' = rebinding c \<Longrightarrow> fresh_answer L d r c' = fresh_answer L d r c"
  by (simp add: fun_eq_iff fresh_answer_def IsSafeResponse_cong[of c' c])

text \<open>After a store every lookup finds the new entry, or what it found before, or nothing.\<close>

lemma cache_set_lookup:
  assumes "cache_ok c" "lookup_entry (cache_set lookup now h e c) k = Some x"
  shows "(k = h \<and> x = stored lookup now c e) \<or> lookup_entry c k = Some x"
proof (cases "admitted c h e (stored lookup now c e)")
  case True
  show ?thesis
  proof (cases "k = h")
    case False
    then show ?thesis using cache_set_ok(3)[OF assms(1) refl refl, where lookup = lookup and now = now and h = h and e = e] True assms(2) by auto
  qed (use cache_set_ok(3)[OF assms(1) refl refl, where lookup = lookup and now = now and h = h and e = e] True assms(2) in simp)
qed (use cache_set_ok(3)[OF assms(1) refl refl, where lookup = lookup and now = now and h = h and e = e] assms(2) in simp)

lemma store_fresh_caches:
  fixes st :: "'w rstate"
  assumes "st' = store_fresh L d m question v g st"
  obtains (unpacked) "Pack d m = None" "st' = st"
  | (stored) b now e where "Pack d m = Some b" "e = fresh_entry now m b question v g"
      "rcache st' = cache_set (threat d) now (query_key question) e (rcache st)" "upstream st' = upstream st"
      "now = time d (snd (upstream st))"
      "rnsec st' = (if v \<and> negative_response m
         then map_option (nsec_Store L now m (extractZoneFromResponse m)) (rnsec st) else rnsec st)"
proof (cases "Pack d m")
  case None
  then show thesis using unpacked assms by (simp add: store_fresh_def)
next
  case (Some b)
  then show thesis
    using assms by (intro stored[OF Some refl]) (auto simp: store_fresh_def Let_def fresh_entry_fields)
qed

lemma contents_ok_store:
  assumes "contents_ok L d r st" "fresh_answer L d r (rcache st) question v m"
  shows "contents_ok L d r (store_fresh L d m question v g st)"
proof (rule store_fresh_caches[OF refl, where L = L and d = d and m = m and question = question and v = v and g = g and st = st])
  assume "Pack d m = None" "store_fresh L d m question v g st = st"
  then show ?thesis using assms by simp
next
  fix b now e
  assume st: "Pack d m = Some b" "e = fresh_entry now m b question v g"
    "rcache (store_fresh L d m question v g st) = cache_set (threat d) now (query_key question) e (rcache st)"
    "upstream (store_fresh L d m question v g st) = upstream st" "now = time d (snd (upstream st))"
    "rnsec (store_fresh L d m question v g st) = (if v \<and> negative_response m
       then map_option (nsec_Store L now m (extractZoneFromResponse m)) (rnsec st) else rnsec st)"
  let ?st' = "store_fresh L d m question v g st"
  have ok: "cache_ok (rcache st)" using assms(1) by (simp add: contents_ok_def)
  have eq: "entry_ok L d r (rcache ?st') = entry_ok L d r (rcache st)" by (rule entry_ok_cong) (simp add: st(3))
  have "entry_ok L d r (rcache st) (query_key question) (Cache_Props.stored (threat d) now (rcache st) e)"
    using assms(2) st(1) by (auto simp: entry_ok_def stored_fields st(2) fresh_entry_fields Let_def)
  then have "entry_ok L d r (rcache ?st') k x" if "lookup_entry (rcache ?st') k = Some x" for k x
    using cache_set_lookup[OF ok that[unfolded st(3)]] assms(1) by (auto simp: eq contents_ok_def)
  moreover have "nsec_from L d r n" if "rnsec ?st' = Some n" for n
    using assms that st(6) by (auto simp: contents_ok_def fresh_answer_def intro: nsec_from.denial split: if_splits)
  moreover have "cache_ok (rcache ?st')" using cache_set_ok(1)[OF ok refl refl] by (simp add: st(3))
  ultimately show ?thesis by (simp add: contents_ok_def)
qed

interpretation contents: resolver_invariant L d r "contents_ok L d r" for L d r
proof
  show "contents_ok L d r (st\<lparr>upstream := s\<rparr>)" if "contents_ok L d r st" for st s using that by (simp add: contents_ok_def)
  show "contents_ok L d r (st\<lparr>rcache := snd (cache_get now h (rcache st))\<rparr>)" if "contents_ok L d r st" for st now h
    using that cache_get_ok[of "rcache st" now h]
    by (simp add: contents_ok_def entry_ok_cong[of "snd (cache_get now h (rcache st))" "rcache st"])
qed (rule contents_ok_store)

subsection \<open>Every reachable state\<close>

inductive resolver_reach ::
  "nsec_lib \<Rightarrow> 'w deps \<Rightarrow> resolver \<Rightarrow> shardedCache \<Rightarrow> nsecCache option \<Rightarrow> 'w rstate \<Rightarrow> bool" for L d r c0 n0 where
  started: "resolver_reach L d r c0 n0 \<lparr>rcache = c0, rnsec = n0, upstream = s\<rparr>"
| resolved: "resolver_reach L d r c0 n0 st \<Longrightarrow> resolver_reach L d r c0 n0 (snd (Resolve L d r st q))"
| prefetched: "resolver_reach L d r c0 n0 st \<Longrightarrow> resolver_reach L d r c0 n0 (snd (Prefetch L d r st question))"
| passed: "resolver_reach L d r c0 n0 st \<Longrightarrow> resolver_reach L d r c0 n0 (st\<lparr>upstream := s\<rparr>)"
| cleaned: "resolver_reach L d r c0 n0 st \<Longrightarrow> performCleanup now (rcache st) = Some c \<Longrightarrow>
     resolver_reach L d r c0 n0 (st\<lparr>rcache := c\<rparr>)"
| flushed: "resolver_reach L d r c0 n0 st \<Longrightarrow> resolver_reach L d r c0 n0 (st\<lparr>rcache := cache_flush (rcache st)\<rparr>)"

lemma Validate_wired: "Validate_config a b (wired_cache cfg) = Validate_config a b (CacheConfig cfg)"
  by (simp add: wired_cache_def Validate_config_def Let_def)

lemma NewRecursive_result:
  assumes "NewRecursive L P ratio feeds cookies newv rs cfg = Inr (r, c0, n0, ws, qs)"
  shows "Validate_config ratio feeds (CacheConfig cfg) = None" "c0 = NewShardedCache (wired_cache cfg)"
    "n0 = None \<or> n0 = Some NewNSECCache"
    "0 < NameserverParallelism (rcfg r)" "NameserverParallelism (rcfg r) \<le> 32" "\<not> zeroHedgeDelay (rcfg r)"
    "1 \<le> ws" "ws \<le> 65536" "1 \<le> qs" "qs \<le> 1000000" "normalizeForwardRules L P (Forward cfg) = Inr (forwardRules (rcfg r))"
    "rvalidator r = (if EnableDNSSEC cfg then newv else None)" "EnableDNSSEC cfg \<longrightarrow> newv \<noteq> None"
proof -
  have z: "or_default 25000000 n \<noteq> 0" for n by (simp add: or_default_def)
  show "Validate_config ratio feeds (CacheConfig cfg) = None"
    using assms by (auto simp: NewRecursive_def split: option.splits)
  then obtain rules where rules: "normalizeForwardRules L P (Forward cfg) = Inr rules"
    using assms by (auto simp: NewRecursive_def Let_def split: if_splits sum.splits)
  note a = assms[unfolded NewRecursive_def Let_def rules \<open>Validate_config ratio feeds (CacheConfig cfg) = None\<close> option.case sum.case]
  show "c0 = NewShardedCache (wired_cache cfg)" "n0 = None \<or> n0 = Some NewNSECCache"
    "0 < NameserverParallelism (rcfg r)" "NameserverParallelism (rcfg r) \<le> 32" "\<not> zeroHedgeDelay (rcfg r)"
    "1 \<le> ws" "ws \<le> 65536" "1 \<le> qs" "qs \<le> 1000000" "normalizeForwardRules L P (Forward cfg) = Inr (forwardRules (rcfg r))"
    "rvalidator r = (if EnableDNSSEC cfg then newv else None)" "EnableDNSSEC cfg \<longrightarrow> newv \<noteq> None"
    using a rules z by (auto split: if_splits)
qed

lemma lookup_new: "lookup_entry (NewShardedCache cfg) h = None" if "cache_ok (NewShardedCache cfg)"
proof -
  have "getShard (NewShardedCache cfg) h \<in> set (shards (NewShardedCache cfg))"
    using shard_index_less[OF that] by (simp add: getShard_def)
  then show ?thesis by (auto simp: lookup_entry_def NewShardedCache_def Let_def new_shard_def)
qed

lemma lookup_flush: "lookup_entry (cache_flush c) h = None" if "cache_ok c"
  using shard_index_less[OF that, of h] by (simp add: lookup_entry_def getShard_def cache_flush_def shard_index_def)

lemma contents_reach:
  assumes "NewRecursive L P ratio feeds cookies newv rs cfg = Inr (r, c0, n0, ws, qs)" "resolver_reach K d r c0 n0 st"
  shows "contents_ok K d r st"
  using assms(2)
proof induction
  case (started s)
  note n = NewRecursive_result[OF assms(1)]
  have "cache_ok c0" using NewShardedCache_ok(1)[of ratio feeds "wired_cache cfg"] n(1,2) Validate_wired by simp
  then show ?case using n(2,3) lookup_new[of "wired_cache cfg"] by (auto simp: contents_ok_def intro: nsec_from.empty)
next
  case (cleaned st now c)
  have ok: "cache_ok (rcache st)" using cleaned by (simp add: contents_ok_def)
  have c: "cache_ok c" "lookup_entry c = not_due (cache_removeAfter (rcache st)) now (lookup_entry (rcache st))"
    using performCleanup_ok[OF ok, of now] cleaned by auto
  have "rebinding c = rebinding (rcache st)" using cleaned(2) by (auto simp: performCleanup_def)
  then have "entry_ok K d r c = entry_ok K d r (rcache st)" by (rule entry_ok_cong)
  then show ?case using cleaned(3) c by (auto simp: contents_ok_def not_due_def split: option.splits if_splits)
next
  case (flushed st)
  then show ?case using cache_flush_ok[of "rcache st"] lookup_flush[of "rcache st"] by (simp add: contents_ok_def)
qed (simp_all add: contents.resolve contents.prefetch contents.moved)

lemma unvalidated_nsec: "nsec_from L d r n \<Longrightarrow> rvalidator r = None \<Longrightarrow> n = NewNSECCache"
  by (induction rule: nsec_from.induct) (auto simp: secure_verdict_def)


subsection \<open>Served from the cache\<close>

lemma Resolve_hit:
  assumes "m_question q = question # rest" "lookup_entry (rcache st) (query_key question) = Some e"
    "\<not> IsExpired t e \<or> (serveStale (rcache st) \<and> IsStale t e (maxStaleTTL (rcache st)))" "t = time d (snd (upstream st))"
    "from_cache d t q e = Some resp"
  shows "\<exists>st'. Resolve L d r st q = (Inr resp, st') \<and> upstream st' = upstream st \<and>
    lookup_entry (rcache st') = lookup_entry (rcache st)"
proof -
  obtain a st1 where a: "try_cache d st q question = (a, st1)" by (cases "try_cache d st q question")
  have "fst (cache_get t (query_key question) (rcache st)) = Some e" using assms(2,3) by (auto simp: cache_get_found)
  then have "a = Some resp" using try_cache_eq(1)[OF a] assms(4,5) by simp
  then show ?thesis using a try_cache_eq(2,3)[OF a] by (simp add: Resolve_def assms(1))
qed

lemma Resolve_miss:
  assumes "m_question q = question # rest" "try_cache d st q question = (None, st0)" "try_synthesis L d r st0 q question = None"
  shows "Resolve L d r st q = (case resolveCoalesced L d r st0 question of
     (Inr resp, st) \<Rightarrow> (Inr (applyRequestMetadata resp q), st)
   | (Inl e, st) \<Rightarrow> (case try_stale d r st q question of (Some stale, st) \<Rightarrow> (Inr stale, st) | (None, st) \<Rightarrow> (Inl e, st)))"
  using assms by (simp add: Resolve_def)



text \<open>
  The stale fallback never answers. When the upstream lookup fails, or the worker pool rejects it, the client gets
  the error even with serve-stale on: whatever the second look into the cache could find, the first one would have
  found.
\<close>

theorem stale_fallback_dead:
  assumes "m_question q = question # rest" "try_cache d st q question = (None, st0)" "try_synthesis L d r st0 q question = None"
    "fst (submit d (snd (upstream st))) \<noteq> Abandon" "resolveCoalesced L d r st0 question = (Inl err, st1)"
    "time d (snd (upstream st)) \<le> time d (snd (upstream st1))"
    and unpack: "\<forall>e. lookup_entry (rcache st) (query_key question) = Some e \<longrightarrow> Unpack d (Data e) \<noteq> None"
  shows "fst (Resolve L d r st q) = Inl err"
proof -
  let ?t = "time d (snd (upstream st))" and ?t1 = "time d (snd (upstream st1))"
  note c0 = try_cache_eq[OF assms(2)]
  obtain c w where up: "upstream st0 = (c, w)" by (cases "upstream st0")
  obtain j w' where sub: "submit d w = (j, w')" by (cases "submit d w")
  have j: "j \<noteq> Abandon" using assms(4) up sub c0(3) by simp
  have st1: "rcache st1 = rcache st0"
  proof (cases j)
    case Run
    obtain res st4 where f: "resolveFresh L d r (st0\<lparr>upstream := (c, w')\<rparr>) question = (res, st4)"
      by (cases "resolveFresh L d r (st0\<lparr>upstream := (c, w')\<rparr>) question")
    have "st1 = st4" "\<exists>e. res = Inl e"
      using assms(5) by (auto simp: resolveCoalesced_def up sub Run f split: sum.splits)
    then show ?thesis using resolveFresh_cases[OF f] by auto
  qed (use assms(5) j up sub in \<open>auto simp: resolveCoalesced_def\<close>)
  have none: "fst (cache_get ?t (query_key question) (rcache st)) = None"
  proof (rule ccontr)
    assume "fst (cache_get ?t (query_key question) (rcache st)) \<noteq> None"
    then obtain e where e: "fst (cache_get ?t (query_key question) (rcache st)) = Some e" by blast
    then have "lookup_entry (rcache st) (query_key question) = Some e" by (auto simp: cache_get_found split: option.splits if_splits)
    then have "from_cache d ?t q e \<noteq> None" using unpack by (auto simp: from_cache_def)
    then show False using c0(1) e by simp
  qed
  obtain a st2 where s: "try_stale d r st1 q question = (a, st2)" by (cases "try_stale d r st1 q question")
  have "fst (cache_get ?t1 (query_key question) (rcache st1)) = None"
    using none assms(6) by (auto simp: cache_get_found st1 c0(2) IsExpired_def IsStale_def split: option.splits if_splits)
  then have "a = None" using try_stale_eq(1)[OF s] by simp
  then show ?thesis by (simp add: Resolve_miss[OF assms(1-3)] assms(5) s)
qed

end
