(* ===== verification/Cached_Resolver_Examples.thy ===== *)
theory Cached_Resolver_Examples
  imports Cached_Resolver_Props Resolver_Examples
begin

text \<open>The properties of the resolver with its caches, applied to the network of \<open>Resolver_Examples\<close>.\<close>

definition ex_full_lib :: nsec_lib where
  "ex_full_lib = ex_nsec_lib"

lemma ex_full_truncate: "dns_lib.truncate ex_full_lib = ex_lib"
  by (simp add: ex_full_lib_def ex_nsec_lib_def dns_lib.defs sec_lib.defs ex_lib_def)

definition ex_settings :: settings where
  "ex_settings = \<lparr>CacheConfig = ex_cache_config, CacheAggressive = False, Workers = 0, WorkerQueueSize = 0,
     s_MaxIterations = 3, s_NameserverParallelism = 1, NameserverHedgeDelay = 0, EnableDNSSEC = False, TrustAnchorFile = [],
     EnableCookies = False, s_QNAMEMinimization = False, s_Enable0x20 = True, s_EnableScrubbing = True,
     AggressiveNSEC = True, s_ServeStale = True, StaleTTL = 0, Forward = ex_forward\<rparr>"

definition ex_resolver :: resolver where
  "ex_resolver = \<lparr>rcfg = ex_config, aggressive = True, stale_fallback = True, rvalidator = None\<rparr>"

definition ex_wired :: shardedCache where
  "ex_wired = NewShardedCache (wired_cache ex_settings)"

lemma ex_new_resolver:
  "NewRecursive ex_lib ex_parsers True True True None [''198.41.0.4:53''] ex_settings =
     Inr (ex_resolver, ex_wired, Some NewNSECCache, 100, 1000)"
  using ex_rules ex_cache_valid
  by (simp add: NewRecursive_def ex_settings_def or_default_def ex_resolver_def ex_wired_def ex_config_def)

definition ex_question :: quest where
  "ex_question = (''www.example.com.'', TypeA, ClassINET)"

definition ex_client :: "u16 \<Rightarrow> dmsg" where
  "ex_client i = (baseQuery ex_question)\<lparr>m_id := i, m_rd := True\<rparr>"

text \<open>The answer to cache: the alias and its address. The codec knows this message.\<close>

definition ex_answer :: dmsg where
  "ex_answer = fresh_meta ex_question ex_chased"

definition ex_deps :: "string list deps" where
  "ex_deps = \<lparr>wire = ex_network, time = (\<lambda>w. 1000000000 * int (length w)),
     Pack = (\<lambda>m. if m = ex_answer then Some [1, 2, 3] else None), Unpack = (\<lambda>_. Some ex_answer),
     SetRcode = (\<lambda>q rc. q\<lparr>m_rcode := rc\<rparr>), threat = (\<lambda>_. None), submit = (\<lambda>w. (Run, w))\<rparr>"

definition ex_state :: "string list rstate" where
  "ex_state = \<lparr>rcache = ex_wired, rnsec = Some NewNSECCache, upstream = (0, [])\<rparr>"

definition ex_after :: "string list rstate" where
  "ex_after = snd (Resolve ex_full_lib ex_deps ex_resolver ex_state (ex_client 7))"

lemma ex_fresh:
  "fst (Resolve ex_full_lib ex_deps ex_resolver ex_state (ex_client 7)) = Inr (applyRequestMetadata ex_answer (ex_client 7))"
  by code_simp

lemma ex_state_ok: "cache_ok (rcache ex_state)"
  using NewShardedCache_ok(1)[of True True "wired_cache ex_settings"] ex_cache_valid
  by (simp add: ex_state_def ex_wired_def Validate_wired) (simp add: ex_settings_def)

text \<open>The entry that the first query leaves; every exchange takes a second.\<close>

definition ex_cached :: centry where
  "ex_cached = the (lookup_entry (rcache ex_after) (query_key ex_question))"

lemma ex_cached: "lookup_entry (rcache ex_after) (query_key ex_question) = Some ex_cached"
proof -
  have "\<not> Option.is_none (lookup_entry (rcache ex_after) (query_key ex_question))" by code_simp
  then show ?thesis by (simp add: ex_cached_def Option.is_none_def)
qed

lemma ex_cached_fields: "ExpiresAt ex_cached = 62000000000 \<and> \<not> DNSSECBogus ex_cached \<and> Data ex_cached = [1, 2, 3]"
  by code_simp

lemma ex_after_world: "upstream ex_after = (0, [''198.41.0.4:53'', ''198.41.0.4:53''])"
  by code_simp

text \<open>Asked again 58 seconds later, the answer has two seconds left.\<close>

definition ex_later :: "nat \<Rightarrow> string list rstate" where
  "ex_later n = ex_after\<lparr>upstream := (0, replicate n [])\<rparr>"



text \<open>A pool that is full.\<close>

definition ex_busy :: "string list deps" where
  "ex_busy = ex_deps\<lparr>submit := (\<lambda>w. (Reject, w))\<rparr>"

theorem stale_fallback_dead_witness:
  "fst (Resolve ex_full_lib ex_busy ex_resolver ex_state (ex_client 7)) = Inl Rejected"
proof -
  obtain a st0 where c: "try_cache ex_busy ex_state (ex_client 7) ex_question = (a, st0)"
    by (cases "try_cache ex_busy ex_state (ex_client 7) ex_question")
  have new: "lookup_entry (rcache ex_state) h = None" for h
    using lookup_new ex_state_ok by (simp add: ex_state_def ex_wired_def)
  then have a: "a = None" using try_cache_eq(1)[OF c] by (simp add: cache_get_found)
  have st: "upstream st0 = (0, [])" "rnsec st0 = Some NewNSECCache" using try_cache_eq(3,4)[OF c] by (simp_all add: ex_state_def)
  show ?thesis
  proof (rule stale_fallback_dead[where question = ex_question and rest = "[]"])
    show "m_question (ex_client 7) = [ex_question]" by (simp add: ex_client_def baseQuery_def)
    show "try_cache ex_busy ex_state (ex_client 7) ex_question = (None, st0)" using c a by simp
    show "try_synthesis ex_full_lib ex_busy ex_resolver st0 (ex_client 7) ex_question = None"
      using st(2) by (simp add: try_synthesis_def ex_question_def SynthesizeNXDOMAIN_def synthesizeFromNSEC3_def NewNSECCache_def)
    show "resolveCoalesced ex_full_lib ex_busy ex_resolver st0 ex_question = (Inl Rejected, st0)"
      using st(1) by (simp add: resolveCoalesced_def ex_busy_def)
  qed (use new st(1) in \<open>simp_all add: ex_busy_def ex_state_def\<close>)
qed


end
