(* ===== verification/Authoritative.thy ===== *)
theory Authoritative
  imports Journal "HOL-Library.List_Lexorder" "HOL-Library.Char_ord"
begin

text \<open>
  Authoritative answers: \<open>handleAuthoritative\<close> and the CNAME chain of \<open>internal/server/server.go\<close>, the signed
  answers of \<open>internal/server/authoritative_dnssec.go\<close>, the complexity score of \<open>query_complexity.go\<close>, and the
  operations on the server's set of zones. A Go map of zones is an association list.
\<close>

subsection \<open>Messages\<close>

text \<open>
  The functions of \<open>miekg/dns\<close> on messages: the reply to a request, its OPT record, the DO bit, version,
  number of options of an OPT record.
\<close>

record msg_lib =
  SetReply :: "dmsg \<Rightarrow> dmsg"
  IsEdns0 :: "dmsg \<Rightarrow> rr option"
  OptDo :: "rr \<Rightarrow> bool"
  OptVersion :: "rr \<Rightarrow> nat"
  OptOptions :: "rr \<Rightarrow> nat"
  OptUDPSize :: "rr \<Rightarrow> u16"
  SetEdns0 :: "u16 \<Rightarrow> bool \<Rightarrow> dmsg \<Rightarrow> dmsg"

definition TypeHINFO :: u16 where "TypeHINFO = 13"

definition requestWantsDNSSEC :: "msg_lib \<Rightarrow> dmsg \<Rightarrow> bool" where
  "requestWantsDNSSEC M request = (case IsEdns0 M request of None \<Rightarrow> False | Some opt \<Rightarrow> OptDo M opt)"

subsection \<open>Signatures and denials, \<open>authoritative_dnssec.go\<close>\<close>

fun covering_signatures :: "dns_lib \<Rightarrow> zone \<Rightarrow> (string \<times> u16) list \<Rightarrow> rr list \<Rightarrow> rr list" where
  "covering_signatures L z seen [] = []"
| "covering_signatures L z seen (r # rs) =
     (let key = (to_lower (Fqdn L (rr_name r)), rr_type r) in
      if key \<in> set seen \<or> rr_type r = TypeRRSIG then covering_signatures L z seen rs
      else filter (\<lambda>c. case rr_data c of RRRSIG s \<Rightarrow> rs_TypeCovered s = rr_type r | _ \<Rightarrow> False)
             (ExactRecords L z (rr_name r) TypeRRSIG) @ covering_signatures L z (key # seen) rs)"

definition appendCoveringSignatures :: "dns_lib \<Rightarrow> zone \<Rightarrow> rr list \<Rightarrow> rr list" where
  "appendCoveringSignatures L z records =
     (if length records = 0 then records else records @ covering_signatures L z [] records)"

text \<open>The comparison of two names, labels last first.\<close>

fun last_labels_less :: "string list \<Rightarrow> string list \<Rightarrow> bool" where
  "last_labels_less (a # as) (b # bs) = (if a = b then last_labels_less as bs else a < b)"
| "last_labels_less as bs = (length as < length bs)"

definition canonicalDNSNameLess :: "dns_lib \<Rightarrow> string \<Rightarrow> string \<Rightarrow> bool" where
  "canonicalDNSNameLess L left right =
     last_labels_less (rev (SplitDomainName L (to_lower (Fqdn L left)))) (rev (SplitDomainName L (to_lower (Fqdn L right))))"

definition nsecIntervalContains :: "dns_lib \<Rightarrow> string \<Rightarrow> string \<Rightarrow> string \<Rightarrow> bool" where
  "nsecIntervalContains L owner next name \<longleftrightarrow>
     (if canonicalDNSNameLess L owner next
      then canonicalDNSNameLess L owner name \<and> canonicalDNSNameLess L name next
      else canonicalDNSNameLess L owner name \<or> canonicalDNSNameLess L name next)"

definition coveringNSEC :: "dns_lib \<Rightarrow> zone \<Rightarrow> string \<Rightarrow> rr option" where
  "coveringNSEC L z name0 =
     (let name = to_lower (Fqdn L name0) in
      List.find (\<lambda>r. case rr_data r of
          RNSEC next0 _ \<Rightarrow>
            (let owner = to_lower (Fqdn L (rr_name r)); next = to_lower (Fqdn L next0)
             in owner = name \<or> nsecIntervalContains L owner next name)
        | _ \<Rightarrow> False)
        (concat (map (\<lambda>(_, tm). rrset_of tm TypeNSEC) (Records z))))"

definition closestEncloser :: "dns_lib \<Rightarrow> zone \<Rightarrow> string \<Rightarrow> string" where
  "closestEncloser L z qname =
     (let labels = SplitDomainName L qname;
          candidates = map (\<lambda>i. Fqdn L (join_labels (drop i labels))) [0..<length labels] @ [''.'']
      in case List.find (HasName L z) candidates of Some c \<Rightarrow> c | None \<Rightarrow> Origin z)"

definition containsRR :: "dns_lib \<Rightarrow> rr list \<Rightarrow> rr \<Rightarrow> bool" where
  "containsRR L records candidate = list_ex (\<lambda>r. RRString L r = RRString L candidate) records"

definition appendAuthoritativeDenial :: "dns_lib \<Rightarrow> rr list \<Rightarrow> zone \<Rightarrow> string \<Rightarrow> bool \<Rightarrow> rr list" where
  "appendAuthoritativeDenial L authority z qname exists =
     (let proofs =
        (if exists then ExactRecords L z qname TypeNSEC
         else let first = (case coveringNSEC L z qname of Some p \<Rightarrow> [p] | None \<Rightarrow> []) in
           (case coveringNSEC L z (''*.'' @ closestEncloser L z qname) of
              Some p \<Rightarrow> if \<not> containsRR L first p then first @ [p] else first
            | None \<Rightarrow> first))
      in authority @ appendCoveringSignatures L z proofs)"

subsection \<open>The CNAME chain\<close>

definition maxCNAMEHops :: nat where "maxCNAMEHops = 16"

text \<open>\<open>sign\<close> is \<open>appendCoveringSignatures\<close> for a client that wants DNSSEC, else the identity.\<close>

definition with_signatures :: "dns_lib \<Rightarrow> zone \<Rightarrow> bool \<Rightarrow> rr list \<Rightarrow> rr list" where
  "with_signatures L z wantsDNSSEC rs = (if wantsDNSSEC then appendCoveringSignatures L z rs else rs)"

primrec cname_hops ::
  "nat \<Rightarrow> dns_lib \<Rightarrow> zone \<Rightarrow> u16 \<Rightarrow> bool \<Rightarrow> string list \<Rightarrow> rr list \<Rightarrow> rr list \<Rightarrow> rr list" where
  "cname_hops 0 L z qtype wantsDNSSEC visited current answer = answer"
| "cname_hops (Suc n) L z qtype wantsDNSSEC visited current answer =
     (case current of
        [] \<Rightarrow> answer
      | first # _ \<Rightarrow>
          let owner = to_lower (Fqdn L (rr_name first)) in
          if owner \<in> set visited then answer
          else let answer = answer @ with_signatures L z wantsDNSSEC current in
            (case rr_data first of
               RCNAME t \<Rightarrow>
                 (let target = to_lower (Fqdn L t) in
                  if \<not> IsSubDomain L (Origin z) target then answer
                  else if fst (FindDelegation L z target) \<noteq> [] then answer
                  else let terminal = GetRecords L z target qtype in
                    if length terminal > 0 then answer @ with_signatures L z wantsDNSSEC terminal
                    else cname_hops n L z qtype wantsDNSSEC (owner # visited) (GetRecords L z target TypeCNAME) answer)
             | _ \<Rightarrow> answer))"

definition appendAuthoritativeCNAMEChain :: "dns_lib \<Rightarrow> rr list \<Rightarrow> zone \<Rightarrow> rr list \<Rightarrow> u16 \<Rightarrow> bool \<Rightarrow> rr list" where
  "appendAuthoritativeCNAMEChain L answer z cnameRecords qtype wantsDNSSEC =
     cname_hops maxCNAMEHops L z qtype wantsDNSSEC [] cnameRecords answer"

subsection \<open>\<open>handleAuthoritative\<close>\<close>

text \<open>The zone with the longest name that contains the name asked for.\<close>

definition zone_match_step :: "dns_lib \<Rightarrow> string \<Rightarrow> string \<times> zone \<Rightarrow> string \<times> zone option \<Rightarrow> string \<times> zone option" where
  "zone_match_step L qname = (\<lambda>(zoneName, z) (matchedName, matched).
     if IsSubDomain L zoneName qname \<and> length zoneName > length matchedName then (zoneName, Some z)
     else (matchedName, matched))"

definition matchedZone :: "dns_lib \<Rightarrow> (string \<times> zone) list \<Rightarrow> string \<Rightarrow> zone option" where
  "matchedZone L zones qname = snd (fold (zone_match_step L qname) zones ([], None))"

definition rfc8482 :: "string \<Rightarrow> rr" where
  "rfc8482 qname =
     \<lparr>rr_name = qname, rr_type = TypeHINFO, rr_class = ClassINET, rr_ttl = 0,
      rr_data = ROther (7 # map of_char ''RFC8482'' @ [0])\<rparr>"

text \<open>The referral to the servers of a zone cut.\<close>

definition referral_glue :: "dns_lib \<Rightarrow> zone \<Rightarrow> rr list \<Rightarrow> rr list" where
  "referral_glue L z nsRecords =
     concat (map (\<lambda>r. case rr_data r of
         RNS target \<Rightarrow> (if IsSubDomain L (Origin z) target
                        then ExactRecords L z target TypeA @ ExactRecords L z target TypeAAAA else [])
       | _ \<Rightarrow> []) nsRecords)"

definition cut_referral :: "dns_lib \<Rightarrow> zone \<Rightarrow> bool \<Rightarrow> string \<Rightarrow> rr list \<Rightarrow> dmsg \<Rightarrow> dmsg" where
  "cut_referral L z wantsDNSSEC zcut nsRecords m =
     (let authority = m_ns m @ nsRecords;
          dsRecords = ExactRecords L z zcut TypeDS;
          authority = (if wantsDNSSEC
             then (if length dsRecords > 0 then authority @ appendCoveringSignatures L z dsRecords
                   else appendAuthoritativeDenial L authority z zcut True)
             else authority)
      in m\<lparr>m_aa := False, m_ns := authority, m_extra := m_extra m @ referral_glue L z nsRecords\<rparr>)"

definition negative_answer :: "dns_lib \<Rightarrow> zone \<Rightarrow> bool \<Rightarrow> string \<Rightarrow> dmsg \<Rightarrow> dmsg" where
  "negative_answer L z wantsDNSSEC qname m =
     (let authority = (case SOA z of Some s \<Rightarrow> [s] | None \<Rightarrow> m_ns m);
          authority = (if wantsDNSSEC
             then appendAuthoritativeDenial L (appendCoveringSignatures L z authority) z qname (HasName L z qname)
             else authority)
      in m\<lparr>m_rcode := (if HasName L z qname then RcodeSuccess else RcodeNameError), m_ns := authority\<rparr>)"

definition zone_answer :: "dns_lib \<Rightarrow> zone \<Rightarrow> bool \<Rightarrow> string \<Rightarrow> u16 \<Rightarrow> dmsg \<Rightarrow> dmsg" where
  "zone_answer L z wantsDNSSEC qname qtype m =
     (let records = GetRecords L z qname qtype; cnameRecords = GetRecords L z qname TypeCNAME in
      if length records = 0 \<and> qtype \<noteq> TypeCNAME \<and> length cnameRecords > 0
      then m\<lparr>m_answer := appendAuthoritativeCNAMEChain L (m_answer m) z cnameRecords qtype wantsDNSSEC\<rparr>
      else if length records > 0 then m\<lparr>m_answer := with_signatures L z wantsDNSSEC records\<rparr>
      else negative_answer L z wantsDNSSEC qname m)"

definition handleAuthoritative :: "dns_lib \<Rightarrow> msg_lib \<Rightarrow> (string \<times> zone) list \<Rightarrow> dmsg \<Rightarrow> dmsg option" where
  "handleAuthoritative L M zones r =
     (case m_question r of
        [] \<Rightarrow> None
      | (qname, qtype, _) # _ \<Rightarrow>
          (case matchedZone L zones qname of
             None \<Rightarrow> None
           | Some z \<Rightarrow>
               let m = (SetReply M r)\<lparr>m_aa := True, m_ra := False\<rparr>;
                   (zcut, nsRecords) = FindDelegation L z qname
               in Some (if qtype = TypeANY then m\<lparr>m_answer := [rfc8482 qname]\<rparr>
                        else if zcut \<noteq> [] \<and> \<not> (equal_fold qname zcut \<and> qtype = TypeDS)
                        then cut_referral L z (requestWantsDNSSEC M r) zcut nsRecords m
                        else zone_answer L z (requestWantsDNSSEC M r) qname qtype m)))"

subsection \<open>Query complexity, \<open>query_complexity.go\<close>\<close>

record complexity_config =
  ComplexityEnabled :: bool
  MaxScore :: int
  ANYCost :: int
  DNSSECCost :: int
  LongNameCost :: int
  EDNSOptionCost :: int

definition defaultQueryComplexityConfig :: complexity_config where
  "defaultQueryComplexityConfig =
     \<lparr>ComplexityEnabled = True, MaxScore = 20, ANYCost = 6, DNSSECCost = 4, LongNameCost = 5, EDNSOptionCost = 1\<rparr>"

definition normalizeQueryComplexityConfig :: "complexity_config \<Rightarrow> complexity_config option" where
  "normalizeQueryComplexityConfig cfg =
     (if \<not> ComplexityEnabled cfg then Some cfg
      else let d = defaultQueryComplexityConfig; or = (\<lambda>n k. if n = 0 then k else n);
               cfg = cfg\<lparr>MaxScore := or (MaxScore cfg) (MaxScore d), ANYCost := or (ANYCost cfg) (ANYCost d),
                 DNSSECCost := or (DNSSECCost cfg) (DNSSECCost d), LongNameCost := or (LongNameCost cfg) (LongNameCost d),
                 EDNSOptionCost := or (EDNSOptionCost cfg) (EDNSOptionCost d)\<rparr>
           in if list_ex (\<lambda>n. n < 1 \<or> n > 10000)
                   [MaxScore cfg, ANYCost cfg, DNSSECCost cfg, LongNameCost cfg, EDNSOptionCost cfg]
              then None else Some cfg)"

definition queryComplexityScore :: "dns_lib \<Rightarrow> msg_lib \<Rightarrow> dmsg \<Rightarrow> complexity_config \<Rightarrow> int" where
  "queryComplexityScore L M msg cfg =
     (case m_question msg of
        [(name, qtype, _)] \<Rightarrow>
          1 + (if qtype = TypeANY then ANYCost cfg
               else if qtype \<in> {TypeDNSKEY, TypeRRSIG, TypeDS, TypeNSEC, TypeNSEC3} then DNSSECCost cfg else 0) +
          (if length name > 192 \<or> length (SplitDomainName L name) > 20 then LongNameCost cfg else 0) +
          (case IsEdns0 M msg of
             Some opt \<Rightarrow> int (OptOptions M opt) * EDNSOptionCost cfg + (if OptDo M opt then DNSSECCost cfg else 0)
           | None \<Rightarrow> 0) +
          int (length (m_answer msg) + length (m_ns msg)) * MaxScore cfg +
          int (length (filter (\<lambda>r. rr_type r \<noteq> TypeOPT \<and> rr_type r \<noteq> TypeTSIG) (m_extra msg))) * MaxScore cfg
      | _ \<Rightarrow> 0)"

subsection \<open>The set of zones\<close>

record zone_set =
  served :: "(string \<times> zone) list"
  zs_journal :: journal

datatype zone_set_error = ZoneInvalid zone_error | DuplicateZone string | RemovedAndReplaced string

definition AddZone :: "dns_lib \<Rightarrow> zone \<Rightarrow> zone_set \<Rightarrow> zone_set_error + zone_set" where
  "AddZone L z s =
     (case Validate L z of
        Some e \<Rightarrow> Inl (ZoneInvalid e)
      | None \<Rightarrow>
          Inr (s\<lparr>zs_journal := (case map_of (served s) (Origin z) of
                                  None \<Rightarrow> Reset L (Origin z) (zs_journal s)
                                | Some previous \<Rightarrow> Record L (Some previous) (Some z) (zs_journal s)),
                 served := AList.update (Origin z) z (served s)\<rparr>))"

fun check_upserts :: "dns_lib \<Rightarrow> string list \<Rightarrow> zone list \<Rightarrow> zone_set_error + string list" where
  "check_upserts L seen [] = Inr seen"
| "check_upserts L seen (z # zs) =
     (case Validate L z of
        Some e \<Rightarrow> Inl (ZoneInvalid e)
      | None \<Rightarrow>
          let name = to_lower (Fqdn L (Origin z)) in
          if name \<in> set seen then Inl (DuplicateZone name) else check_upserts L (name # seen) zs)"

fun normalize_removals :: "dns_lib \<Rightarrow> string list \<Rightarrow> string list \<Rightarrow> string list \<Rightarrow> zone_set_error + string list" where
  "normalize_removals L seen removed [] = Inr removed"
| "normalize_removals L seen removed (r # rs) =
     (let name = to_lower (Fqdn L r) in
      if name \<in> set removed then normalize_removals L seen removed rs
      else if name \<in> set seen then Inl (RemovedAndReplaced name)
      else normalize_removals L seen (removed @ [name]) rs)"

definition remove_one :: "dns_lib \<Rightarrow> string \<Rightarrow> zone_set \<Rightarrow> zone_set" where
  "remove_one L name s = s\<lparr>served := AList.delete name (served s), zs_journal := Reset L name (zs_journal s)\<rparr>"

text \<open>\<open>old\<close> is the map being replaced, in which the previous version is looked up.\<close>

definition upsert_one :: "dns_lib \<Rightarrow> (string \<times> zone) list \<Rightarrow> zone \<Rightarrow> zone_set \<Rightarrow> zone_set" where
  "upsert_one L old z s =
     (let name = to_lower (Fqdn L (Origin z)) in
      s\<lparr>zs_journal := (case map_of old name of
                         None \<Rightarrow> Reset L name (zs_journal s)
                       | Some previous \<Rightarrow> Record L (Some previous) (Some z) (zs_journal s)),
        served := AList.update name z (served s)\<rparr>)"

definition ApplyZoneBatch :: "dns_lib \<Rightarrow> zone list \<Rightarrow> string list \<Rightarrow> zone_set \<Rightarrow> zone_set_error + zone_set" where
  "ApplyZoneBatch L upserts removals s =
     (case check_upserts L [] upserts of
        Inl e \<Rightarrow> Inl e
      | Inr seen \<Rightarrow>
          (case normalize_removals L seen [] removals of
             Inl e \<Rightarrow> Inl e
           | Inr removed \<Rightarrow> Inr (fold (upsert_one L (served s)) upserts (fold (remove_one L) removed s))))"

definition RemoveZone :: "dns_lib \<Rightarrow> string \<Rightarrow> zone_set \<Rightarrow> zone_set" where
  "RemoveZone L origin s = remove_one L (to_lower (Fqdn L origin)) s"

end
