(* ===== verification/Authoritative_Props.thy ===== *)
theory Authoritative_Props
  imports Authoritative Zone_Props
begin

text \<open>What authoritative answers contain, how alias chains end, and the update of the set of zones.\<close>

subsection \<open>Signatures\<close>

lemma covering_signatures_mem:
  "x \<in> set (covering_signatures L z seen rs) \<Longrightarrow>
     \<exists>y \<in> set rs. x \<in> set (ExactRecords L z (rr_name y) TypeRRSIG) \<and>
       (\<exists>s. rr_data x = RRRSIG s \<and> rs_TypeCovered s = rr_type y)"
proof (induction L z seen rs rule: covering_signatures.induct)
  case (2 L z seen r rs)
  then show ?case by (auto simp: Let_def split: if_splits rdata.splits)
qed simp

lemma with_signatures_mem:
  "x \<in> set (with_signatures L z dnssec rs) \<Longrightarrow> x \<in> set rs \<or>
     (\<exists>y \<in> set rs. x \<in> set (ExactRecords L z (rr_name y) TypeRRSIG) \<and>
       (\<exists>s. rr_data x = RRRSIG s \<and> rs_TypeCovered s = rr_type y))"
  using covering_signatures_mem by (fastforce simp: with_signatures_def appendCoveringSignatures_def split: if_splits)

lemma with_signatures_Nil [simp]: "with_signatures L z dnssec [] = []"
  by (simp add: with_signatures_def appendCoveringSignatures_def)

subsection \<open>Alias chains\<close>

definition occluded :: "dns_lib \<Rightarrow> zone \<Rightarrow> string \<Rightarrow> bool" where
  "occluded L z n \<longleftrightarrow> fst (FindDelegation L z n) \<noteq> []"

definition alias_owner :: "dns_lib \<Rightarrow> rr list \<Rightarrow> string" where
  "alias_owner L cs = to_lower (Fqdn L (rr_name (hd cs)))"

text \<open>The target of an alias RRset, when the chain may go on there.\<close>

definition alias_target :: "dns_lib \<Rightarrow> zone \<Rightarrow> rr list \<Rightarrow> string option" where
  "alias_target L z cs =
     (case cs of
        [] \<Rightarrow> None
      | c # _ \<Rightarrow>
          (case rr_data c of
             RCNAME t \<Rightarrow> let target = to_lower (Fqdn L t) in
               if IsSubDomain L (Origin z) target \<and> \<not> occluded L z target then Some target else None
           | _ \<Rightarrow> None))"

text \<open>
  A chain of alias RRsets of the zone: each is found at the target of the one before, which has no record of
  the type asked for; the last may lead to the records of that type.
\<close>

fun alias_path :: "dns_lib \<Rightarrow> zone \<Rightarrow> u16 \<Rightarrow> rr list list \<Rightarrow> rr list \<Rightarrow> bool" where
  "alias_path L z qtype [] terminal \<longleftrightarrow> terminal = []"
| "alias_path L z qtype [cs] terminal \<longleftrightarrow> cs \<noteq> [] \<and>
     (terminal = [] \<or> (\<exists>t. alias_target L z cs = Some t \<and> terminal = GetRecords L z t qtype))"
| "alias_path L z qtype (cs # ds # rest) terminal \<longleftrightarrow> cs \<noteq> [] \<and>
     (\<exists>t. alias_target L z cs = Some t \<and> GetRecords L z t qtype = [] \<and> ds = GetRecords L z t TypeCNAME) \<and>
     alias_path L z qtype (ds # rest) terminal"

lemma alias_path_Cons:
  assumes "cs \<noteq> []" "alias_target L z cs = Some t" "GetRecords L z t qtype = []"
    "css \<noteq> [] \<longrightarrow> hd css = GetRecords L z t TypeCNAME" "alias_path L z qtype css terminal"
  shows "alias_path L z qtype (cs # css) terminal"
  using assms by (cases css) auto

lemma cname_hops_path:
  "\<exists>css terminal. cname_hops n L z qtype dnssec visited current answer =
       answer @ concat (map (with_signatures L z dnssec) css) @ with_signatures L z dnssec terminal \<and>
     length css \<le> n \<and> distinct (map (alias_owner L) css) \<and> (\<forall>cs \<in> set css. alias_owner L cs \<notin> set visited) \<and>
     (css \<noteq> [] \<longrightarrow> hd css = current) \<and> alias_path L z qtype css terminal \<and>
     (0 < n \<and> current \<noteq> [] \<and> alias_owner L current \<notin> set visited \<longrightarrow> css \<noteq> [])"
proof (induction n arbitrary: visited current answer)
  case 0
  show ?case by (intro exI[of _ "[]"] exI[of _ "[]"]) simp
next
  case (Suc n)
  show ?case
  proof (cases "current = [] \<or> alias_owner L current \<in> set visited")
    case True
    then have "cname_hops (Suc n) L z qtype dnssec visited current answer = answer"
      by (auto simp: alias_owner_def Let_def split: list.split)
    then show ?thesis using True by (intro exI[of _ "[]"] exI[of _ "[]"]) simp
  next
    case False
    then obtain c rest where cur: "current = c # rest" by (cases current) auto
    let ?ow = "alias_owner L current"
    let ?ans = "answer @ with_signatures L z dnssec current"
    have step: "cname_hops (Suc n) L z qtype dnssec visited current answer =
      (case alias_target L z current of
         None \<Rightarrow> ?ans
       | Some t \<Rightarrow> if GetRecords L z t qtype \<noteq> [] then ?ans @ with_signatures L z dnssec (GetRecords L z t qtype)
                   else cname_hops n L z qtype dnssec (?ow # visited) (GetRecords L z t TypeCNAME) ?ans)"
      using False by (auto simp: cur alias_owner_def alias_target_def occluded_def Let_def split: rdata.splits)
    show ?thesis
    proof (cases "alias_target L z current")
      case None
      then show ?thesis using False step by (intro exI[of _ "[current]"] exI[of _ "[]"]) simp
    next
      case (Some t)
      show ?thesis
      proof (cases "GetRecords L z t qtype = []")
        case False
        then show ?thesis using \<open>\<not> (current = [] \<or> _)\<close> step Some
          by (intro exI[of _ "[current]"] exI[of _ "GetRecords L z t qtype"]) simp
      next
        case True
        obtain css terminal where
          ih: "cname_hops n L z qtype dnssec (?ow # visited) (GetRecords L z t TypeCNAME) ?ans =
              ?ans @ concat (map (with_signatures L z dnssec) css) @ with_signatures L z dnssec terminal"
            "length css \<le> n" "distinct (map (alias_owner L) css)" "\<forall>cs \<in> set css. alias_owner L cs \<notin> set (?ow # visited)"
            "css \<noteq> [] \<longrightarrow> hd css = GetRecords L z t TypeCNAME" "alias_path L z qtype css terminal"
          using Suc.IH[of "?ow # visited" "GetRecords L z t TypeCNAME" ?ans] by blast
        have "alias_path L z qtype (current # css) terminal"
          using alias_path_Cons[OF _ Some True ih(5,6)] False by blast
        then show ?thesis
          using False step Some True ih(1-4) by (intro exI[of _ "current # css"] exI[of _ terminal]) auto
      qed
    qed
  qed
qed

lemma alias_path_visible:
  "alias_path L z qtype css terminal \<Longrightarrow> cs \<in> set (tl css) \<or> cs = terminal \<Longrightarrow>
     cs = [] \<or> (\<exists>t u. \<not> occluded L z t \<and> cs = GetRecords L z t u)"
proof (induction L z qtype css terminal rule: alias_path.induct)
  case (2 L z qtype cs0 terminal)
  then show ?case by (auto simp: alias_target_def Let_def split: list.splits rdata.splits if_splits)
next
  case (3 L z qtype cs0 ds rest terminal)
  have "\<not> occluded L z t" if "alias_target L z cs0 = Some t" for t
    using that by (auto simp: alias_target_def Let_def split: list.splits rdata.splits if_splits)
  then show ?case using 3 by fastforce
qed simp

subsection \<open>What an authoritative answer contains\<close>

text \<open>The documented effect of \<open>SetReply\<close>: an empty response to the request.\<close>

definition reply_law :: "msg_lib \<Rightarrow> dmsg \<Rightarrow> bool" where
  "reply_law M r \<longleftrightarrow>
     m_id (SetReply M r) = m_id r \<and> m_question (SetReply M r) = take 1 (m_question r) \<and> m_rcode (SetReply M r) = RcodeSuccess \<and>
     m_answer (SetReply M r) = [] \<and> m_ns (SetReply M r) = [] \<and> m_extra (SetReply M r) = [] \<and> \<not> m_tc (SetReply M r)"

lemma handleAuthoritative_eq:
  assumes "m_question r = (qname, qtype, qclass) # rest" "matchedZone L zones qname = Some z"
  shows "handleAuthoritative L M zones r =
    Some (let m = (SetReply M r)\<lparr>m_aa := True, m_ra := False\<rparr>; c = FindDelegation L z qname
          in if qtype = TypeANY then m\<lparr>m_answer := [rfc8482 qname]\<rparr>
             else if fst c \<noteq> [] \<and> \<not> (equal_fold qname (fst c) \<and> qtype = TypeDS)
             then cut_referral L z (requestWantsDNSSEC M r) (fst c) (snd c) m
             else zone_answer L z (requestWantsDNSSEC M r) qname qtype m)"
  using assms by (simp add: handleAuthoritative_def Let_def split: prod.split)

text \<open>The records a zone shows for a name: those found there, and signatures over them.\<close>

definition shown_at :: "dns_lib \<Rightarrow> zone \<Rightarrow> string \<Rightarrow> rr \<Rightarrow> bool" where
  "shown_at L z n x \<longleftrightarrow>
     (\<exists>t. x \<in> set (GetRecords L z n t) \<or>
        (\<exists>y \<in> set (GetRecords L z n t). x \<in> set (ExactRecords L z (rr_name y) TypeRRSIG) \<and>
           (\<exists>s. rr_data x = RRRSIG s \<and> rs_TypeCovered s = rr_type y)))"

lemma with_signatures_shown:
  "x \<in> set (with_signatures L z dnssec (GetRecords L z n t)) \<Longrightarrow> shown_at L z n x"
  using with_signatures_mem unfolding shown_at_def by blast

lemma zone_answer_cases:
  assumes "m_answer m = []"
  obtains (chain) css terminal where
      "GetRecords L z qname qtype = []" "qtype \<noteq> TypeCNAME" "css \<noteq> []" "hd css = GetRecords L z qname TypeCNAME"
      "m_answer (zone_answer L z dnssec qname qtype m) =
         concat (map (with_signatures L z dnssec) css) @ with_signatures L z dnssec terminal"
      "length css \<le> maxCNAMEHops" "distinct (map (alias_owner L) css)" "alias_path L z qtype css terminal"
      "zone_answer L z dnssec qname qtype m = m\<lparr>m_answer := m_answer (zone_answer L z dnssec qname qtype m)\<rparr>"
  | (direct) "GetRecords L z qname qtype \<noteq> []"
      "zone_answer L z dnssec qname qtype m = m\<lparr>m_answer := with_signatures L z dnssec (GetRecords L z qname qtype)\<rparr>"
  | (negative) "GetRecords L z qname qtype = []" "qtype = TypeCNAME \<or> GetRecords L z qname TypeCNAME = []"
      "zone_answer L z dnssec qname qtype m = negative_answer L z dnssec qname m"
proof -
  let ?cs = "GetRecords L z qname TypeCNAME"
  consider (c) "GetRecords L z qname qtype = []" "qtype \<noteq> TypeCNAME" "?cs \<noteq> []" | (d) "GetRecords L z qname qtype \<noteq> []"
    | (n) "GetRecords L z qname qtype = []" "qtype = TypeCNAME \<or> ?cs = []" by blast
  then show thesis
  proof cases
    case c
    obtain css terminal where p: "cname_hops maxCNAMEHops L z qtype dnssec [] ?cs [] =
       [] @ concat (map (with_signatures L z dnssec) css) @ with_signatures L z dnssec terminal"
      "length css \<le> maxCNAMEHops" "distinct (map (alias_owner L) css)" "css \<noteq> [] \<longrightarrow> hd css = ?cs"
      "alias_path L z qtype css terminal" "css \<noteq> []"
      using cname_hops_path[of maxCNAMEHops L z qtype dnssec "[]" ?cs "[]"] c(3) by (auto simp: maxCNAMEHops_def)
    show thesis using c p assms
      by (intro chain[of css terminal]) (simp_all add: zone_answer_def Let_def appendAuthoritativeCNAMEChain_def)
  next
    case d
    then show thesis by (intro direct) (simp_all add: zone_answer_def Let_def)
  next
    case n
    then show thesis by (intro negative) (auto simp: zone_answer_def Let_def)
  qed
qed



subsection \<open>Wildcards\<close>

lemma recordsAt_absent: "map_of (Records z) n = None \<Longrightarrow> recordsAt z n t = []"
  by (simp add: recordsAt_def)

lemma covering_signatures_none:
  "\<forall>x \<in> set rs. ExactRecords L z (rr_name x) TypeRRSIG = [] \<Longrightarrow> covering_signatures L z seen rs = []"
  by (induction rs arbitrary: seen) (simp_all add: Let_def)

lemma recordsAt_type: "records_wf L o' (Records z) \<Longrightarrow> t \<noteq> TypeANY \<Longrightarrow> x \<in> set (recordsAt z n t) \<Longrightarrow> rr_type x = t"
  by (fastforce simp: recordsAt_def rrset_of_def records_wf_def type_map_wf_def rrset_wf_def split: option.splits if_splits)

text \<open>
  Wildcard answers break RFC 4592 and RFC 4035. Let a name that is not in the zone match a wildcard that owns
  records of type \<open>t\<close> but none of type \<open>u\<close>. A query for \<open>t\<close> is answered with the wildcard's records, so the
  name exists; the query for \<open>u\<close> still gets NXDOMAIN, where it must get NODATA. And the answer for \<open>t\<close> carries no
  signature even when the client asks for DNSSEC and the wildcard is signed: signatures are looked up under the
  expanded name.
\<close>

theorem wildcard_answers:
  assumes "matchedZone L zones qname = Some z" "records_wf L (Origin z) (Records z)" "\<not> HasName L z qname" "\<not> occluded L z qname"
    and t: "GetRecords L z qname t \<noteq> []" "t \<noteq> TypeANY" and u: "GetRecords L z qname u = []" "GetRecords L z qname TypeCNAME = []" "u \<noteq> TypeANY"
    and q: "m_question r1 = [(qname, t, c)]" "m_question r2 = [(qname, u, c)]" "reply_law M r1" "reply_law M r2"
    and fq: "to_lower (Fqdn L (to_lower (dotted qname))) = to_lower (dotted qname)"
  shows "\<exists>m1 m2. handleAuthoritative L M zones r1 = Some m1 \<and> m_rcode m1 = RcodeSuccess \<and> m_answer m1 = GetRecords L z qname t \<and>
    (\<forall>x \<in> set (m_answer m1). rr_type x = t) \<and> handleAuthoritative L M zones r2 = Some m2 \<and> m_rcode m2 = RcodeNameError"
proof -
  let ?o = "to_lower (dotted qname)"
  have ne: "qname \<noteq> []" using t(1) by (auto simp: GetRecords_def)
  then have nx: "\<not> nameExists L z ?o" using assms(3) by (simp add: HasName_def)
  then have absent: "recordsAt z ?o TypeRRSIG = []" by (intro recordsAt_absent) (simp add: nameExists_def)
  have mem: "rr_name x = ?o \<and> rr_type x = t" if "x \<in> set (GetRecords L z qname t)" for x
    using that recordsAt_type[OF assms(2) t(2)] nx unfolding GetRecords_mem by auto
  then have "covering_signatures L z [] (GetRecords L z qname t) = []"
    using absent fq by (intro covering_signatures_none) (simp add: ExactRecords_def)
  then have sig: "with_signatures L z dnssec (GetRecords L z qname t) = GetRecords L z qname t" for dnssec
    by (simp add: with_signatures_def appendCoveringSignatures_def)
  have fd: "fst (FindDelegation L z qname) = []" using assms(4) by (simp add: occluded_def)
  note h = handleAuthoritative_eq[OF q(1) assms(1)] handleAuthoritative_eq[OF q(2) assms(1)]
  have "handleAuthoritative L M zones r1 = Some ((SetReply M r1)\<lparr>m_aa := True, m_ra := False, m_answer := GetRecords L z qname t\<rparr>)"
    using t fd sig by (simp add: h(1) zone_answer_def Let_def)
  moreover have "handleAuthoritative L M zones r2 =
      Some (negative_answer L z (requestWantsDNSSEC M r2) qname ((SetReply M r2)\<lparr>m_aa := True, m_ra := False\<rparr>))"
    using u fd by (simp add: h(2) zone_answer_def Let_def)
  moreover have "m_rcode (negative_answer L z b qname m) = RcodeNameError" for b m
    using assms(3) by (simp add: negative_answer_def Let_def)
  ultimately show ?thesis using mem q(3) by (simp add: reply_law_def)
qed

subsection \<open>Replacing a batch of zones\<close>

definition origin_key :: "dns_lib \<Rightarrow> zone \<Rightarrow> string" where
  "origin_key L z = zone_key L (Origin z)"

lemma check_upserts_Inr:
  "check_upserts L seen zs = Inr res \<Longrightarrow> distinct seen \<Longrightarrow>
     (\<forall>z \<in> set zs. Validate L z = None) \<and> set res = set seen \<union> origin_key L ` set zs \<and> distinct (map (origin_key L) zs) \<and>
     set seen \<inter> origin_key L ` set zs = {}"
proof (induction L seen zs rule: check_upserts.induct)
  case (2 L seen z zs)
  then show ?case by (auto simp: Let_def origin_key_def zone_key_def split: option.splits if_splits)
qed simp

lemma normalize_removals_Inr:
  "normalize_removals L seen removed rs = Inr res \<Longrightarrow> set removed \<inter> set seen = {} \<Longrightarrow>
     set res = set removed \<union> zone_key L ` set rs \<and> set res \<inter> set seen = {}"
proof (induction L seen removed rs rule: normalize_removals.induct)
  case (2 L seen removed r rs)
  then show ?case by (auto simp: Let_def zone_key_def split: if_splits)
qed simp

definition record_step :: "dns_lib \<Rightarrow> (string \<times> zone) list \<Rightarrow> zone \<Rightarrow> journal \<Rightarrow> journal" where
  "record_step L old z j =
     (case map_of old (origin_key L z) of
        None \<Rightarrow> Reset L (origin_key L z) j
      | Some previous \<Rightarrow> Record L (Some previous) (Some z) j)"

lemma record_step_max [simp]: "maxDeltas (record_step L old z j) = maxDeltas j" "maxDeltas (Reset L n j) = maxDeltas j"
  by (simp_all add: record_step_def Record_def Reset_def Let_def split: option.split)

lemma record_step_history:
  assumes "\<forall>x. zone_key L (zone_key L x) = zone_key L x"
  shows "n \<noteq> origin_key L z \<Longrightarrow> history (record_step L old z j) n = history j n"
    "history j (origin_key L z) = history j' (origin_key L z) \<Longrightarrow> maxDeltas j = maxDeltas j' \<Longrightarrow>
     history (record_step L old z j) (origin_key L z) = history (record_step L old z j') (origin_key L z)"
  using assms by (auto simp: record_step_def Record_def Reset_def Let_def origin_key_def split: option.split)

lemma fold_remove:
  assumes "\<forall>x. zone_key L (zone_key L x) = zone_key L x" "\<forall>n \<in> set ns. zone_key L n = n"
  shows "map_of (served (fold (remove_one L) ns s)) n = (if n \<in> set ns then None else map_of (served s) n) \<and>
    history (zs_journal (fold (remove_one L) ns s)) n = (if n \<in> set ns then None else history (zs_journal s) n) \<and>
    maxDeltas (zs_journal (fold (remove_one L) ns s)) = maxDeltas (zs_journal s)"
  using assms(2)
proof (induction ns arbitrary: s)
  case (Cons m ns)
  then show ?case by (auto simp: remove_one_def delete_conv' Reset_def)
qed simp

lemma upsert_one_eq:
  "upsert_one L old z s = s\<lparr>zs_journal := record_step L old z (zs_journal s), served := AList.update (origin_key L z) z (served s)\<rparr>"
  by (simp add: upsert_one_def record_step_def origin_key_def zone_key_def Let_def cong: option.case_cong)

lemma fold_upsert:
  assumes "\<forall>x. zone_key L (zone_key L x) = zone_key L x" "distinct (map (origin_key L) zs)"
    "maxDeltas (zs_journal s) = maxDeltas j"
  shows "(n \<notin> origin_key L ` set zs \<longrightarrow> map_of (served (fold (upsert_one L old) zs s)) n = map_of (served s) n \<and>
       history (zs_journal (fold (upsert_one L old) zs s)) n = history (zs_journal s) n) \<and>
    (\<forall>z \<in> set zs. history (zs_journal s) (origin_key L z) = history j (origin_key L z) \<longrightarrow>
       map_of (served (fold (upsert_one L old) zs s)) (origin_key L z) = Some z \<and>
       history (zs_journal (fold (upsert_one L old) zs s)) (origin_key L z) = history (record_step L old z j) (origin_key L z))"
  using assms(2,3)
proof (induction zs arbitrary: s n)
  case (Cons y zs)
  let ?s = "upsert_one L old y s"
  have keep: "map_of (served ?s) k = map_of (served s) k \<and> history (zs_journal ?s) k = history (zs_journal s) k"
    if "k \<noteq> origin_key L y" for k
    using that record_step_history(1)[OF assms(1) that] by (simp add: upsert_one_eq update_conv')
  have own: "map_of (served ?s) (origin_key L y) = Some y" by (simp add: upsert_one_eq update_conv')
  have hist: "history (zs_journal ?s) (origin_key L y) = history (record_step L old y j) (origin_key L y)"
    if "history (zs_journal s) (origin_key L y) = history j (origin_key L y)"
    using record_step_history(2)[OF assms(1) that Cons.prems(2)] by (simp add: upsert_one_eq)
  have mx: "maxDeltas (zs_journal ?s) = maxDeltas j" using Cons.prems(2) by (simp add: upsert_one_eq)
  have dist: "distinct (map (origin_key L) zs)" and y: "origin_key L y \<notin> origin_key L ` set zs" using Cons.prems(1) by auto
  note ih = Cons.IH[OF dist mx]
  show ?case
  proof (intro conjI ballI impI)
    fix z assume z: "z \<in> set (y # zs)" "history (zs_journal s) (origin_key L z) = history j (origin_key L z)"
    show "map_of (served (fold (upsert_one L old) (y # zs) s)) (origin_key L z) = Some z"
      "history (zs_journal (fold (upsert_one L old) (y # zs) s)) (origin_key L z) = history (record_step L old z j) (origin_key L z)"
    proof (atomize (full), cases "z = y")
      case True
      then show "map_of (served (fold (upsert_one L old) (y # zs) s)) (origin_key L z) = Some z \<and>
        history (zs_journal (fold (upsert_one L old) (y # zs) s)) (origin_key L z) = history (record_step L old z j) (origin_key L z)"
        using ih[of "origin_key L y"] y own hist z(2) by simp
    next
      case False
      then have zs: "z \<in> set zs" using z(1) by simp
      then have "origin_key L z \<noteq> origin_key L y" using y by (metis image_eqI)
      then show "map_of (served (fold (upsert_one L old) (y # zs) s)) (origin_key L z) = Some z \<and>
        history (zs_journal (fold (upsert_one L old) (y # zs) s)) (origin_key L z) = history (record_step L old z j) (origin_key L z)"
        using ih zs keep z(2) by simp
    qed
  qed (use ih[of n] keep in simp_all)
qed simp

text \<open>
  C13: a batch of zones is applied as a whole. When \<open>ApplyZoneBatch\<close> succeeds, every new zone was valid, no two
  have the same name, none is also removed, and the zones served are exactly: the new zone under each of its
  names, nothing under a removed name, and the old zone everywhere else. The journal of a replaced zone is
  extended by the step from the zone served before, whatever else the batch holds; journals of new and removed
  zones are reset, all others stay.
\<close>

theorem ApplyZoneBatch_result:
  assumes "ApplyZoneBatch L upserts removals s = Inr s'" "\<forall>x. zone_key L (zone_key L x) = zone_key L x"
  shows "(\<forall>z \<in> set upserts. Validate L z = None) \<and> distinct (map (origin_key L) upserts) \<and>
    origin_key L ` set upserts \<inter> zone_key L ` set removals = {} \<and>
    (\<forall>z \<in> set upserts. map_of (served s') (origin_key L z) = Some z \<and>
       history (zs_journal s') (origin_key L z) = history (record_step L (served s) z (zs_journal s)) (origin_key L z)) \<and>
    (\<forall>n. n \<notin> origin_key L ` set upserts \<longrightarrow>
       map_of (served s') n = (if n \<in> zone_key L ` set removals then None else map_of (served s) n) \<and>
       history (zs_journal s') n = (if n \<in> zone_key L ` set removals then None else history (zs_journal s) n))"
proof -
  obtain seen removed where c: "check_upserts L [] upserts = Inr seen" "normalize_removals L seen [] removals = Inr removed"
    and s': "s' = fold (upsert_one L (served s)) upserts (fold (remove_one L) removed s)"
    using assms(1) by (auto simp: ApplyZoneBatch_def split: sum.splits)
  have u: "\<forall>z \<in> set upserts. Validate L z = None" "set seen = origin_key L ` set upserts" "distinct (map (origin_key L) upserts)"
    using check_upserts_Inr[OF c(1)] by auto
  have r: "set removed = zone_key L ` set removals" "set removed \<inter> set seen = {}" using normalize_removals_Inr[OF c(2)] by auto
  have key: "\<forall>n \<in> set removed. zone_key L n = n" using r(1) assms(2) by auto
  let ?s = "fold (remove_one L) removed s"
  note rem = fold_remove[OF assms(2) key, of s]
  have mx: "maxDeltas (zs_journal ?s) = maxDeltas (zs_journal s)" using rem by blast
  note up = fold_upsert[OF assms(2) u(3) mx, of _ "served s"]
  have same: "history (zs_journal ?s) (origin_key L z) = history (zs_journal s) (origin_key L z)" if "z \<in> set upserts" for z
  proof -
    have "origin_key L z \<notin> set removed" using that r(2) u(2) by blast
    then show ?thesis using rem by simp
  qed
  have new: "\<forall>z \<in> set upserts. map_of (served s') (origin_key L z) = Some z \<and>
       history (zs_journal s') (origin_key L z) = history (record_step L (served s) z (zs_journal s)) (origin_key L z)"
    using up same unfolding s' by blast
  have old: "map_of (served s') n = (if n \<in> set removed then None else map_of (served s) n) \<and>
       history (zs_journal s') n = (if n \<in> set removed then None else history (zs_journal s) n)"
    if "n \<notin> origin_key L ` set upserts" for n
    using up[of n] rem[of n] that unfolding s' by simp
  show ?thesis using u r new old by (auto simp: r(1))
qed

end
