(* ===== verification/Authoritative_Examples.thy ===== *)
theory Authoritative_Examples
  imports Authoritative_Props
begin

text \<open>
  The properties applied to a zone \<open>a.\<close> with two aliases in a row, a wildcard below \<open>w.a.\<close> and the delegation of
  \<open>sub.a.\<close>.
\<close>

definition ex_msg_lib :: msg_lib where
  "ex_msg_lib =
     \<lparr>SetReply = (\<lambda>r. \<lparr>m_question = take 1 (m_question r), m_rcode = RcodeSuccess, m_tc = False, m_answer = [], m_ns = [],
        m_extra = [], m_id = m_id r, m_rd = m_rd r, m_cd = m_cd r, m_ra = False, m_ad = False, m_aa = False\<rparr>),
      IsEdns0 = (\<lambda>m. List.find (\<lambda>r. rr_type r = TypeOPT) (m_extra m)), OptDo = (\<lambda>r. bit (rr_ttl r) 15),
      OptVersion = (\<lambda>r. unat (drop_bit 16 (rr_ttl r) AND 0xFF)), OptOptions = (\<lambda>_. 0), OptUDPSize = rr_class,
      SetEdns0 = (\<lambda>size do m. m\<lparr>m_extra := m_extra m @
        [\<lparr>rr_name = ''.'', rr_type = TypeOPT, rr_class = size, rr_ttl = (if do then 0x8000 else 0), rr_data = ROther []\<rparr>]\<rparr>)\<rparr>"

definition ex_site :: zone where
  "ex_site = ex_add (ex_rr ''sub.a.'' TypeNS 60 (RNS ''n.a.'')) (ex_add (ex_rr ''*.w.a.'' TypeA 60 (RA [3]))
     (ex_add (ex_rr ''c1.a.'' TypeCNAME 60 (RCNAME ''c2.a.'')) (ex_add (ex_rr ''c2.a.'' TypeCNAME 60 (RCNAME ''n.a.''))
       ex_zone)))"

definition ex_ask :: "string \<Rightarrow> u16 \<Rightarrow> dmsg" where
  "ex_ask n t = \<lparr>m_question = [(n, t, ClassINET)], m_rcode = RcodeSuccess, m_tc = False, m_answer = [], m_ns = [],
     m_extra = [\<lparr>rr_name = ''.'', rr_type = TypeOPT, rr_class = 1232, rr_ttl = 0x8000, rr_data = ROther []\<rparr>],
     m_id = 7, m_rd = False, m_cd = False, m_ra = False, m_ad = False, m_aa = False\<rparr>"

lemma ex_reply: "reply_law ex_msg_lib r"
  by (simp add: reply_law_def ex_msg_lib_def)

lemma ex_matched: "matchedZone ex_lib [(''a.'', ex_site)] n = Some ex_site" if "ex_subdomain ''a.'' n"
  using that by (simp add: matchedZone_def zone_match_step_def)

definition ex_reply_to :: "string \<Rightarrow> u16 \<Rightarrow> dmsg" where
  "ex_reply_to n t = the (handleAuthoritative ex_lib ex_msg_lib [(''a.'', ex_site)] (ex_ask n t))"

lemma ex_replied:
  "ex_subdomain ''a.'' n \<Longrightarrow> handleAuthoritative ex_lib ex_msg_lib [(''a.'', ex_site)] (ex_ask n t) = Some (ex_reply_to n t)"
  using ex_matched by (simp add: ex_reply_to_def handleAuthoritative_def ex_ask_def Let_def split: prod.split)



lemma ex_site_wf: "records_wf ex_lib (Origin ex_site) (Records ex_site)"
proof -
  have step: "zone_reach ex_lib (ex_add r z)" if "zone_reach ex_lib z" "fst (AddRecord ex_lib (Some r) z) = Inr ()" for r z
    using ex_add_reach that .
  have "fst (AddRecord ex_lib (Some (ex_rr ''c2.a.'' TypeCNAME 60 (RCNAME ''n.a.''))) ex_zone) = Inr ()"
    "fst (AddRecord ex_lib (Some (ex_rr ''c1.a.'' TypeCNAME 60 (RCNAME ''c2.a.'')))
       (ex_add (ex_rr ''c2.a.'' TypeCNAME 60 (RCNAME ''n.a.'')) ex_zone)) = Inr ()"
    "fst (AddRecord ex_lib (Some (ex_rr ''*.w.a.'' TypeA 60 (RA [3])))
       (ex_add (ex_rr ''c1.a.'' TypeCNAME 60 (RCNAME ''c2.a.'')) (ex_add (ex_rr ''c2.a.'' TypeCNAME 60 (RCNAME ''n.a.'')) ex_zone))) = Inr ()"
    "fst (AddRecord ex_lib (Some (ex_rr ''sub.a.'' TypeNS 60 (RNS ''n.a.''))) (ex_add (ex_rr ''*.w.a.'' TypeA 60 (RA [3]))
       (ex_add (ex_rr ''c1.a.'' TypeCNAME 60 (RCNAME ''c2.a.'')) (ex_add (ex_rr ''c2.a.'' TypeCNAME 60 (RCNAME ''n.a.'')) ex_zone)))) = Inr ()"
    by code_simp+
  then have "zone_reach ex_lib ex_site" unfolding ex_site_def by (intro step ex_zone_reach)
  then show ?thesis using zone_reach_wf_all by (auto simp: zone_wf_def)
qed

theorem wildcard_answers_witness:
  "m_answer (ex_reply_to ''x.w.a.'' TypeA) = [ex_rr ''x.w.a.'' TypeA 60 (RA [3])] \<and>
   m_rcode (ex_reply_to ''x.w.a.'' TypeTXT) = RcodeNameError"
proof -
  have sub: "ex_subdomain ''a.'' ''x.w.a.''" by code_simp
  have g: "GetRecords ex_lib ex_site ''x.w.a.'' TypeA = [ex_rr ''x.w.a.'' TypeA 60 (RA [3])]"
    "GetRecords ex_lib ex_site ''x.w.a.'' TypeTXT = []" "GetRecords ex_lib ex_site ''x.w.a.'' TypeCNAME = []"
    "\<not> HasName ex_lib ex_site ''x.w.a.''" "\<not> occluded ex_lib ex_site ''x.w.a.''"
    "to_lower (Fqdn ex_lib (to_lower (dotted ''x.w.a.''))) = to_lower (dotted ''x.w.a.'')" by code_simp+
  have "\<exists>m1 m2. handleAuthoritative ex_lib ex_msg_lib [(''a.'', ex_site)] (ex_ask ''x.w.a.'' TypeA) = Some m1 \<and> m_rcode m1 = RcodeSuccess \<and>
      m_answer m1 = GetRecords ex_lib ex_site ''x.w.a.'' TypeA \<and> (\<forall>x \<in> set (m_answer m1). rr_type x = TypeA) \<and>
      handleAuthoritative ex_lib ex_msg_lib [(''a.'', ex_site)] (ex_ask ''x.w.a.'' TypeTXT) = Some m2 \<and> m_rcode m2 = RcodeNameError"
    by (rule wildcard_answers[OF ex_matched[OF sub] ex_site_wf g(4,5) _ _ g(2,3) _ _ _ ex_reply ex_reply g(6)])
       (simp_all add: g[unfolded rr_consts] ex_ask_def rr_consts)
  then show ?thesis using ex_replied[OF sub] g(1) by auto
qed

lemma ex_key_idem: "zone_key ex_lib (zone_key ex_lib x) = zone_key ex_lib x"
proof -
  have "to_lower (to_lower s) = to_lower s" for s
    by (simp add: to_lower_def lower_char_def)
  moreover have "to_lower s \<noteq> [] \<and> last (to_lower s) = CHR ''.''" if "s \<noteq> [] \<and> last s = CHR ''.''" for s
    using that by (simp add: to_lower_def last_map lower_char_def)
  moreover have "ex_fqdn s \<noteq> [] \<and> last (ex_fqdn s) = CHR ''.''" for s by (simp add: ex_fqdn_def)
  ultimately show ?thesis by (simp add: zone_key_def ex_fqdn_def)
qed

definition ex_served :: zone_set where
  "ex_served = \<lparr>served = [(''b.'', ex_zone)], zs_journal = NewJournal 5\<rparr>"

theorem ApplyZoneBatch_result_witness:
  "\<exists>s'. ApplyZoneBatch ex_lib [ex_site] [''B''] ex_served = Inr s' \<and> map_of (served s') ''a.'' = Some ex_site \<and>
     map_of (served s') ''b.'' = None"
proof -
  have "\<not> isl (ApplyZoneBatch ex_lib [ex_site] [''B''] ex_served)" by code_simp
  then obtain s' where s': "ApplyZoneBatch ex_lib [ex_site] [''B''] ex_served = Inr s'"
    by (cases "ApplyZoneBatch ex_lib [ex_site] [''B''] ex_served") auto
  have k: "origin_key ex_lib ex_site = ''a.''" "zone_key ex_lib ''B'' = ''b.''" by code_simp+
  show ?thesis using ApplyZoneBatch_result[OF s'] ex_key_idem k s' by simp
qed

end
