(* ===== verification/Server.thy ===== *)
theory Server
  imports Zone_Transfer Update RRL Cookie Cached_Resolver Authoritative
begin

text \<open>
  The query handler, \<open>internal/server/server.go\<close>: routing by signature, opcode and type, and the path of an
  ordinary query through admission, checks, policies, cookies, the authoritative zones and the resolver. The
  server is one without a defensive manager. The policy engines (client reputation, protective DNS, the firewall,
  response policy zones) are arguments that answer for every message whether they pass, drop or replace it.
\<close>

subsection \<open>Requests and routing\<close>

datatype remote = UDPAddr ip | TCPAddr ip | UnknownAddr

text \<open>The TSIG record of a request: its key name, and whether the signature was verified.\<close>

record inbound =
  in_msg :: dmsg
  in_opcode :: nat
  in_remote :: remote
  in_tsig :: "(string \<times> bool) option"

definition OpcodeQuery :: nat where "OpcodeQuery = 0"
definition OpcodeNotify :: nat where "OpcodeNotify = 4"
definition OpcodeUpdate :: nat where "OpcodeUpdate = 5"
definition TypeCDS :: u16 where "TypeCDS = 59"
definition TypeCSYNC :: u16 where "TypeCSYNC = 62"
definition RcodeBadVers :: int where "RcodeBadVers = 16"
definition RcodeBadCookie :: int where "RcodeBadCookie = 23"

text \<open>A missing address is the empty one, Go's nil.\<close>

definition client_address :: "remote \<Rightarrow> ip" where
  "client_address a = (case a of UDPAddr ip \<Rightarrow> ip | TCPAddr ip \<Rightarrow> ip | UnknownAddr \<Rightarrow> [])"

text \<open>Where a request goes: a reply with a code, one of the other handlers, or the query path.\<close>

datatype route =
    TsigFailure | ReplyCode int | SOANotify string ip string | DsyncNotify ip | Transfer ip | DynamicUpdate ip | OrdinaryQuery

definition dispatch :: "inbound \<Rightarrow> route" where
  "dispatch req =
     (let questions = m_question (in_msg req); clientIP = client_address (in_remote req) in
      if (case in_tsig req of Some (_, verified) \<Rightarrow> \<not> verified | None \<Rightarrow> False) then TsigFailure
      else if in_opcode req = OpcodeNotify then
        (case questions of
           [(name, qtype, qclass)] \<Rightarrow>
             if qtype = TypeSOA then
               (if clientIP = [] \<or> qclass \<noteq> ClassINET then ReplyCode RcodeRefused
                else SOANotify name clientIP (case in_tsig req of Some (key, _) \<Rightarrow> key | None \<Rightarrow> []))
             else if qtype \<noteq> TypeCDS \<and> qtype \<noteq> TypeCSYNC then ReplyCode RcodeNotImplemented
             else if clientIP = [] then ReplyCode RcodeRefused
             else DsyncNotify clientIP
         | _ \<Rightarrow> ReplyCode RcodeFormatError)
      else if (case questions of (_, qtype, _) # _ \<Rightarrow> qtype = TypeAXFR \<or> qtype = TypeIXFR | [] \<Rightarrow> False)
      then (if clientIP = [] then ReplyCode RcodeRefused else Transfer clientIP)
      else if in_opcode req = OpcodeUpdate
      then (if clientIP = [] then ReplyCode RcodeRefused else DynamicUpdate clientIP)
      else OrdinaryQuery)"

text \<open>\<open>HandleDNS\<close>, the entry of the encrypted transports: a signature counts as not verified.\<close>

definition encrypted :: "inbound \<Rightarrow> inbound" where
  "encrypted req = req\<lparr>in_tsig := map_option (\<lambda>(key, _). (key, False)) (in_tsig req)\<rparr>"

subsection \<open>The server's state\<close>

datatype signal = SignalProtocol | SignalComplexity | SignalPolicy | SignalRateLimited

datatype fw_verdict = FwPass | FwDrop | FwAnswer dmsg
datatype rpz_query = RpzUndecided | RpzPass | RpzDrop | RpzAnswer dmsg
datatype rpz_response = RpzKeep | RpzDropResponse | RpzReplace dmsg

record ('w, 'p) policies =
  Allow :: "'p \<Rightarrow> ip \<Rightarrow> int \<Rightarrow> bool \<times> 'p"
  AllowRefuses :: bool
  Observe :: "ip \<Rightarrow> signal \<Rightarrow> int \<Rightarrow> 'p \<Rightarrow> 'p"
  Protective :: "'p \<Rightarrow> dmsg \<Rightarrow> ip \<Rightarrow> dmsg option"
  Firewall :: "'p \<Rightarrow> dmsg \<Rightarrow> ip \<Rightarrow> fw_verdict"
  RpzQuery :: "'p \<Rightarrow> dmsg \<Rightarrow> dmsg \<Rightarrow> ip \<Rightarrow> rpz_query"
  RpzAuthoritative :: "'p \<Rightarrow> dmsg \<Rightarrow> dmsg \<Rightarrow> ip \<Rightarrow> rpz_response"
  RpzRecursive :: "'p \<Rightarrow> 'w rstate \<Rightarrow> dmsg \<Rightarrow> dmsg \<Rightarrow> ip \<Rightarrow> rpz_response \<times> 'w rstate"

record server_config =
  EnableAuthoritative :: bool
  EnableRecursive :: bool
  srv_EnableCookies :: bool
  RequireValidCookie :: bool
  QueryComplexity :: complexity_config
  recursionACL :: "acl option"

record ('w, 'p) server =
  srv_zones :: "(string \<times> zone) list"
  srv_rrl :: "limiter option"
  srv_cookies :: "Cookie.manager option"
  srv_recursion :: "'w rstate"
  srv_policy :: 'p
  queries :: u64
  answers :: u64
  errors :: u64
  nxdomain :: u64
  udpQueries :: u64
  tcpQueries :: u64
  complexityRejected :: u64

text \<open>
  What the handler uses from outside: the libraries, SipHash, the environment of the resolver, the resolver,
  the policies, whether the handler of SOA notifications accepts one, whether there is one for DSYNC. \<open>OptCookie\<close> is the decoded cookie option of an OPT record, \<open>AppendCookie\<close> adds one to the OPT
  record of a message, making the record if there is none.
\<close>

record ('w, 'p) env =
  dnsl :: nsec_lib
  msgl :: msg_lib
  sip :: "bytes \<Rightarrow> bytes \<Rightarrow> u64"
  OptCookie :: "rr \<Rightarrow> bytes option"
  AppendCookie :: "bytes \<Rightarrow> dmsg \<Rightarrow> dmsg"
  deps_of :: "'w deps"
  resolver_of :: "resolver option"
  policies_of :: "('w, 'p) policies"
  config_of :: server_config
  soaNotifyHandler :: "(string \<Rightarrow> ip \<Rightarrow> string \<Rightarrow> bool) option"
  dsyncHandler :: bool

definition lib_of :: "('w, 'p) env \<Rightarrow> dns_lib" where
  "lib_of E = dns_lib.truncate (dnsl E)"

definition now_of :: "('w, 'p) env \<Rightarrow> ('w, 'p) server \<Rightarrow> int" where
  "now_of E s = time (deps_of E) (snd (upstream (srv_recursion s)))"

definition seconds_of :: "('w, 'p) env \<Rightarrow> ('w, 'p) server \<Rightarrow> int" where
  "seconds_of E s = now_of E s div 1000000000"

definition observeClient :: "('w, 'p) env \<Rightarrow> ip \<Rightarrow> signal \<Rightarrow> ('w, 'p) server \<Rightarrow> ('w, 'p) server" where
  "observeClient E clientIP sig s = s\<lparr>srv_policy := Observe (policies_of E) clientIP sig (now_of E s) (srv_policy s)\<rparr>"

subsection \<open>Responses\<close>

definition MinMsgSize :: u16 where "MinMsgSize = 512"
definition DefaultMsgSize :: u16 where "DefaultMsgSize = 4096"

definition addEDNS0Response :: "msg_lib \<Rightarrow> dmsg \<Rightarrow> dmsg \<Rightarrow> dmsg" where
  "addEDNS0Response M response request =
     (case IsEdns0 M request of
        None \<Rightarrow> response
      | Some requestOPT \<Rightarrow>
          if OptVersion M requestOPT \<noteq> 0 \<or> IsEdns0 M response \<noteq> None then response
          else let udpSize = OptUDPSize M requestOPT;
                   udpSize = (if udpSize < MinMsgSize then MinMsgSize else udpSize);
                   udpSize = (if udpSize > DefaultMsgSize then DefaultMsgSize else udpSize)
               in SetEdns0 M udpSize (OptDo M requestOPT) response)"

definition addCookieToResponse :: "('w, 'p) env \<Rightarrow> bytes \<Rightarrow> bytes \<Rightarrow> dmsg \<Rightarrow> dmsg" where
  "addCookieToResponse E clientCookie serverCookie m = AppendCookie E (clientCookie @ serverCookie) m"

text \<open>Whether the response is dropped, the response, and the server.\<close>

definition shouldRateLimit ::
  "('w, 'p) env \<Rightarrow> ip \<Rightarrow> dmsg \<Rightarrow> ('w, 'p) server \<Rightarrow> bool \<times> dmsg \<times> ('w, 'p) server" where
  "shouldRateLimit E clientIP m s =
     (case srv_rrl s of
        None \<Rightarrow> (False, m, s)
      | Some l \<Rightarrow>
          (case m_question m of
             [] \<Rightarrow> (False, m, s)
           | (name, qtype, _) # _ \<Rightarrow>
               let category = CategorizeResponse (m_rcode m) (int (length (m_answer m))) (int (length (m_ns m)));
                   (action, l) = Check l clientIP (map of_char name) qtype category (seconds_of E s);
                   s = s\<lparr>srv_rrl := Some l\<rparr>
               in (case action of
                     ActionDrop \<Rightarrow> (True, m, observeClient E clientIP SignalRateLimited s)
                   | ActionSlip \<Rightarrow> (False, m\<lparr>m_tc := True, m_answer := [], m_ns := [], m_extra := []\<rparr>,
                                   observeClient E clientIP SignalRateLimited s)
                   | ActionAllow \<Rightarrow> (False, m, s))))"

definition count_answer :: "dmsg \<Rightarrow> ('w, 'p) server \<Rightarrow> ('w, 'p) server" where
  "count_answer m s =
     (let s = s\<lparr>answers := answers s + 1\<rparr> in if m_rcode m = RcodeNameError then s\<lparr>nxdomain := nxdomain s + 1\<rparr> else s)"

definition count_error :: "('w, 'p) server \<Rightarrow> ('w, 'p) server" where
  "count_error s = s\<lparr>errors := errors s + 1\<rparr>"

text \<open>A response that goes out unless the limiter drops it.\<close>

type_synonym ('w, 'p) outcome = "dmsg option \<times> ('w, 'p) server"

definition send_limited :: "('w, 'p) env \<Rightarrow> ip \<Rightarrow> dmsg \<Rightarrow> ('w, 'p) server \<Rightarrow> ('w, 'p) outcome" where
  "send_limited E clientIP resp s =
     (let (dropped, resp, s) = shouldRateLimit E clientIP resp s
      in if dropped then (None, s) else (Some resp, count_answer resp s))"

subsection \<open>Cookies\<close>

text \<open>The client cookie and the server cookie of the request, zero where missing.\<close>

definition request_cookies :: "('w, 'p) env \<Rightarrow> dmsg \<Rightarrow> bytes \<times> bytes" where
  "request_cookies E r =
     (case IsEdns0 (msgl E) r of
        None \<Rightarrow> (replicate 8 0, replicate 16 0)
      | Some opt \<Rightarrow>
          (case OptCookie E opt of
             None \<Rightarrow> (replicate 8 0, replicate 16 0)
           | Some decoded \<Rightarrow>
               ((if length decoded \<ge> 8 then take 8 decoded else replicate 8 0),
                (if length decoded \<ge> 24 then take 16 (drop 8 decoded) else replicate 16 0))))"

datatype cookie_step = CookiesOff | CookieRejected dmsg | CookieAccepted "(bytes \<times> bytes) option"

definition check_cookies :: "('w, 'p) env \<Rightarrow> ip \<Rightarrow> dmsg \<Rightarrow> dmsg \<Rightarrow> ('w, 'p) server \<Rightarrow> cookie_step" where
  "check_cookies E clientIP r m s =
     (case srv_cookies s of
        Some mgr \<Rightarrow>
          if \<not> srv_EnableCookies (config_of E) then CookiesOff
          else let (clientCookie, serverCookie) = request_cookies E r;
                   hasServerCookie = (serverCookie \<noteq> replicate 16 0);
                   valid = (hasServerCookie \<and>
                            ValidateServerCookie (sip E) mgr clientCookie serverCookie clientIP (seconds_of E s) = None);
                   newServerCookie = GenerateServerCookie (sip E) mgr clientCookie clientIP (seconds_of E s)
               in if \<not> valid \<and> RequireValidCookie (config_of E) \<and> hasServerCookie
                  then CookieRejected (addCookieToResponse E clientCookie newServerCookie (m\<lparr>m_rcode := RcodeBadCookie\<rparr>))
                  else if clientCookie \<noteq> replicate 8 0 then CookieAccepted (Some (clientCookie, newServerCookie))
                  else CookieAccepted None
      | None \<Rightarrow> CookiesOff)"

definition attach_cookie :: "('w, 'p) env \<Rightarrow> cookie_step \<Rightarrow> dmsg \<Rightarrow> dmsg" where
  "attach_cookie E c m = (case c of CookieAccepted (Some (client, server)) \<Rightarrow> addCookieToResponse E client server m | _ \<Rightarrow> m)"

subsection \<open>The query path\<close>

text \<open>The checks of the message itself: \<open>Some\<close> is the error response with the signal it raises.\<close>

definition recursion_allowed :: "('w, 'p) env \<Rightarrow> ip \<Rightarrow> bool" where
  "recursion_allowed E clientIP \<longleftrightarrow>
     EnableRecursive (config_of E) \<and> clientIP \<noteq> [] \<and>
     (case recursionACL (config_of E) of Some a \<Rightarrow> IsAllowed a clientIP | None \<Rightarrow> False)"

definition base_response :: "('w, 'p) env \<Rightarrow> ip \<Rightarrow> dmsg \<Rightarrow> dmsg" where
  "base_response E clientIP r =
     (addEDNS0Response (msgl E) (SetReply (msgl E) r) r)\<lparr>m_ra := recursion_allowed E clientIP\<rparr>"

definition badvers :: "dmsg \<Rightarrow> dmsg" where
  "badvers m =
     m\<lparr>m_rcode := RcodeBadVers,
       m_extra := [\<lparr>rr_name = ''.'', rr_type = TypeOPT, rr_class = 4096, rr_ttl = 0, rr_data = ROther []\<rparr>]\<rparr>"

definition check_query :: "('w, 'p) env \<Rightarrow> nat \<Rightarrow> dmsg \<Rightarrow> dmsg \<Rightarrow> (signal \<times> dmsg) option" where
  "check_query E opcode r m =
     (case m_question r of
        [(_, _, qclass)] \<Rightarrow>
          if opcode \<noteq> OpcodeQuery then Some (SignalProtocol, m\<lparr>m_rcode := RcodeNotImplemented\<rparr>)
          else if qclass \<noteq> ClassINET then Some (SignalProtocol, m\<lparr>m_rcode := RcodeRefused\<rparr>)
          else if (case IsEdns0 (msgl E) r of Some opt \<Rightarrow> OptVersion (msgl E) opt > 0 | None \<Rightarrow> False)
          then Some (SignalProtocol, badvers m)
          else if ComplexityEnabled (QueryComplexity (config_of E)) \<and>
                  queryComplexityScore (lib_of E) (msgl E) r (QueryComplexity (config_of E)) > MaxScore (QueryComplexity (config_of E))
          then Some (SignalComplexity, m\<lparr>m_rcode := RcodeRefused\<rparr>)
          else None
      | _ \<Rightarrow> Some (SignalProtocol, m\<lparr>m_rcode := RcodeFormatError\<rparr>))"

definition reject_query :: "('w, 'p) env \<Rightarrow> ip \<Rightarrow> signal \<Rightarrow> dmsg \<Rightarrow> ('w, 'p) server \<Rightarrow> ('w, 'p) outcome" where
  "reject_query E clientIP sig m s =
     (let s = count_error (observeClient E clientIP sig s)
      in (Some m, if sig = SignalComplexity then s\<lparr>complexityRejected := complexityRejected s + 1\<rparr> else s))"

text \<open>The answer from the zones, copied into the base response.\<close>

definition copy_answer :: "('w, 'p) env \<Rightarrow> cookie_step \<Rightarrow> dmsg \<Rightarrow> dmsg \<Rightarrow> dmsg \<Rightarrow> dmsg" where
  "copy_answer E cookie r resp m =
     (attach_cookie E cookie
        (addEDNS0Response (msgl E) (m\<lparr>m_answer := m_answer resp, m_ns := m_ns resp, m_extra := m_extra resp\<rparr>) r))
       \<lparr>m_rcode := m_rcode resp, m_aa := m_aa resp, m_ra := False\<rparr>"

definition answer_authoritative ::
  "('w, 'p) env \<Rightarrow> ip \<Rightarrow> bool \<Rightarrow> cookie_step \<Rightarrow> dmsg \<Rightarrow> dmsg \<Rightarrow> dmsg \<Rightarrow> ('w, 'p) server \<Rightarrow> ('w, 'p) outcome" where
  "answer_authoritative E clientIP rpzDecided cookie r m resp s =
     (let policy = (if rpzDecided then RpzKeep else RpzAuthoritative (policies_of E) (srv_policy s) r resp clientIP);
          s = (if policy = RpzKeep then s else observeClient E clientIP SignalPolicy s)
      in case policy of
           RpzDropResponse \<Rightarrow> (None, s)
         | _ \<Rightarrow>
             (let resp = (case policy of RpzReplace resp' \<Rightarrow> resp' | _ \<Rightarrow> resp);
                  (dropped, resp, s) = shouldRateLimit E clientIP resp s
              in if dropped then (None, s) else (Some (copy_answer E cookie r resp m), count_answer resp s)))"

definition finish_recursive ::
  "('w, 'p) env \<Rightarrow> ip \<Rightarrow> cookie_step \<Rightarrow> dmsg \<Rightarrow> rpz_response \<Rightarrow> dmsg \<Rightarrow> ('w, 'p) server \<Rightarrow> ('w, 'p) outcome" where
  "finish_recursive E clientIP cookie r policy resp s =
     (let s = (if policy = RpzKeep then s else observeClient E clientIP SignalPolicy s)
      in case policy of
           RpzDropResponse \<Rightarrow> (None, s)
         | _ \<Rightarrow>
             (let resp = (case policy of RpzReplace resp' \<Rightarrow> resp' | _ \<Rightarrow> resp);
                  (dropped, resp, s) = shouldRateLimit E clientIP resp s
              in if dropped then (None, s)
                 else (Some (addEDNS0Response (msgl E) (attach_cookie E cookie resp) r), count_answer resp s)))"

definition answer_recursive ::
  "('w, 'p) env \<Rightarrow> resolver \<Rightarrow> ip \<Rightarrow> bool \<Rightarrow> cookie_step \<Rightarrow> dmsg \<Rightarrow> dmsg \<Rightarrow> ('w, 'p) server \<Rightarrow> ('w, 'p) outcome" where
  "answer_recursive E res clientIP rpzDecided cookie r m s =
     (if \<not> m_rd r \<or> \<not> recursion_allowed E clientIP then (Some (m\<lparr>m_rcode := RcodeRefused\<rparr>), count_error s)
      else case Resolve (dnsl E) (deps_of E) res (srv_recursion s) r of
        (Inl e, st) \<Rightarrow> (Some (m\<lparr>m_rcode := RcodeServerFailure\<rparr>), count_error (s\<lparr>srv_recursion := st\<rparr>))
      | (Inr resp, st) \<Rightarrow>
          if rpzDecided then finish_recursive E clientIP cookie r RpzKeep resp (s\<lparr>srv_recursion := st\<rparr>)
          else (case RpzRecursive (policies_of E) (srv_policy s) st r resp clientIP of
                  (policy, st) \<Rightarrow> finish_recursive E clientIP cookie r policy resp (s\<lparr>srv_recursion := st\<rparr>)))"

definition answer_query ::
  "('w, 'p) env \<Rightarrow> ip \<Rightarrow> bool \<Rightarrow> dmsg \<Rightarrow> dmsg \<Rightarrow> ('w, 'p) server \<Rightarrow> ('w, 'p) outcome" where
  "answer_query E clientIP rpzDecided r m s =
     (case check_cookies E clientIP r m s of
        CookieRejected resp \<Rightarrow> (Some resp, count_error s)
      | cookie \<Rightarrow>
          (case (if EnableAuthoritative (config_of E) then handleAuthoritative (lib_of E) (msgl E) (srv_zones s) r else None) of
             Some resp \<Rightarrow> answer_authoritative E clientIP rpzDecided cookie r m resp s
           | None \<Rightarrow>
               (case resolver_of E of
                  Some res \<Rightarrow>
                    if EnableRecursive (config_of E) then answer_recursive E res clientIP rpzDecided cookie r m s
                    else (Some (m\<lparr>m_rcode := RcodeRefused\<rparr>), count_error s)
                | None \<Rightarrow> (Some (m\<lparr>m_rcode := RcodeRefused\<rparr>), count_error s))))"

text \<open>The policies that see the query before it is answered.\<close>

definition apply_policies ::
  "('w, 'p) env \<Rightarrow> ip \<Rightarrow> dmsg \<Rightarrow> dmsg \<Rightarrow> ('w, 'p) server \<Rightarrow> ('w, 'p) outcome" where
  "apply_policies E clientIP r m s =
     (let pol = policies_of E; seen = observeClient E clientIP SignalPolicy s in
      case Protective pol (srv_policy s) r clientIP of
        Some blocked \<Rightarrow> send_limited E clientIP blocked seen
      | None \<Rightarrow>
          (case Firewall pol (srv_policy s) r clientIP of
             FwDrop \<Rightarrow> (None, seen)
           | FwAnswer resp \<Rightarrow> send_limited E clientIP resp seen
           | FwPass \<Rightarrow>
               (case RpzQuery pol (srv_policy s) r m clientIP of
                  RpzDrop \<Rightarrow> (None, seen)
                | RpzAnswer resp \<Rightarrow> send_limited E clientIP resp seen
                | RpzPass \<Rightarrow> answer_query E clientIP True r m s
                | RpzUndecided \<Rightarrow> answer_query E clientIP False r m s)))"

definition handleQuery :: "('w, 'p) env \<Rightarrow> inbound \<Rightarrow> ('w, 'p) server \<Rightarrow> ('w, 'p) outcome" where
  "handleQuery E req s =
     (let r = in_msg req; clientIP = client_address (in_remote req);
          (admitted, p) = Allow (policies_of E) (srv_policy s) clientIP (now_of E s);
          s = s\<lparr>srv_policy := p\<rparr>
      in if \<not> admitted
         then (if AllowRefuses (policies_of E)
               then (Some ((SetReply (msgl E) r)\<lparr>m_rcode := RcodeRefused\<rparr>), count_error s) else (None, s))
         else let m = base_response E clientIP r in
           (case check_query E (in_opcode req) r m of
              Some (sig, m) \<Rightarrow> reject_query E clientIP sig m s
            | None \<Rightarrow> apply_policies E clientIP r m s))"

text \<open>
  \<open>handleDNS\<close>: the counters, the dispatch, the replies to notifications, and the query path. What the other
  handlers do (failed signatures, transfers, updates, DSYNC notifications) is \<open>other\<close>.
\<close>

definition count_query :: "remote \<Rightarrow> ('w, 'p) server \<Rightarrow> ('w, 'p) server" where
  "count_query a s =
     (let s = s\<lparr>queries := queries s + 1\<rparr>
      in case a of UDPAddr _ \<Rightarrow> s\<lparr>udpQueries := udpQueries s + 1\<rparr> | _ \<Rightarrow> s\<lparr>tcpQueries := tcpQueries s + 1\<rparr>)"

definition notify_rcode :: "('w, 'p) env \<Rightarrow> string \<Rightarrow> ip \<Rightarrow> string \<Rightarrow> int" where
  "notify_rcode E name clientIP key =
     (case soaNotifyHandler E of
        None \<Rightarrow> RcodeNotImplemented
      | Some handler \<Rightarrow> if handler name clientIP key then RcodeSuccess else RcodeRefused)"

definition handleDNS ::
  "('w, 'p) env \<Rightarrow> (route \<Rightarrow> inbound \<Rightarrow> ('w, 'p) server \<Rightarrow> ('w, 'p) outcome) \<Rightarrow> inbound \<Rightarrow> ('w, 'p) server \<Rightarrow>
   ('w, 'p) outcome" where
  "handleDNS E other req s =
     (let s = count_query (in_remote req) s; reply = (\<lambda>rc. (Some ((SetReply (msgl E) (in_msg req))\<lparr>m_rcode := rc\<rparr>), s)) in
      case dispatch req of
        ReplyCode rc \<Rightarrow> reply rc
      | SOANotify name clientIP key \<Rightarrow> reply (notify_rcode E name clientIP key)
      | DsyncNotify clientIP \<Rightarrow> if dsyncHandler E then other (DsyncNotify clientIP) req s else reply RcodeNotImplemented
      | OrdinaryQuery \<Rightarrow> handleQuery E req s
      | elsewhere \<Rightarrow> other elsewhere req s)"

end
