(* ===== verification/Server_Props.thy ===== *)
theory Server_Props
  imports Server Cached_Resolver_Props Authoritative_Props
begin

text \<open>Who may use the resolver, what a rate-limited client sees, and that answers match their queries.\<close>

subsection \<open>Frames\<close>

named_theorems srv_frame \<open>what the bookkeeping of a response leaves alone\<close>

lemma srv_frame_simps [srv_frame]:
  "srv_recursion (observeClient E ip sig s) = srv_recursion s" "srv_zones (observeClient E ip sig s) = srv_zones s"
  "srv_rrl (observeClient E ip sig s) = srv_rrl s" "srv_cookies (observeClient E ip sig s) = srv_cookies s"
  "srv_recursion (count_error s) = srv_recursion s" "srv_zones (count_error s) = srv_zones s" "srv_rrl (count_error s) = srv_rrl s"
  "srv_recursion (count_answer m s) = srv_recursion s" "srv_zones (count_answer m s) = srv_zones s" "srv_rrl (count_answer m s) = srv_rrl s"
  by (simp_all add: observeClient_def count_error_def count_answer_def Let_def)

lemma shouldRateLimit_frame:
  assumes "shouldRateLimit E ip m s = (dr, m', s')"
  shows "srv_recursion s' = srv_recursion s" "srv_zones s' = srv_zones s"
    "m_id m' = m_id m" "m_rcode m' = m_rcode m" "m_question m' = m_question m"
  using assms by (auto simp: shouldRateLimit_def Let_def srv_frame split: option.splits list.splits prod.splits action.splits)

lemma send_limited_frame:
  assumes "send_limited E ip m s = (out, s')"
  shows "srv_recursion s' = srv_recursion s" and "out = Some x \<Longrightarrow> m_id x = m_id m"
proof -
  obtain dr m2 s2 where l: "shouldRateLimit E ip m s = (dr, m2, s2)" by (metis prod_cases3)
  note f = shouldRateLimit_frame[OF l]
  have e: "(out, s') = (if dr then (None, s2) else (Some m2, count_answer m2 s2))"
    using assms by (simp add: send_limited_def l)
  show "srv_recursion s' = srv_recursion s" using e f(1) by (cases dr) (simp_all add: srv_frame)
  show "out = Some x \<Longrightarrow> m_id x = m_id m" using e f(3) by (cases dr) simp_all
qed

lemma reject_query_frame: "srv_recursion (snd (reject_query E ip sig m s)) = srv_recursion s"
  by (simp add: reject_query_def Let_def srv_frame)

subsection \<open>No open recursion\<close>

text \<open>Over an encrypted transport no signed request of any kind gets past the check of the signature.\<close>

lemma encrypted_signed: "dispatch (encrypted req) = TsigFailure \<longleftrightarrow> in_tsig req \<noteq> None"
  by (simp add: dispatch_def encrypted_def Let_def split: option.split list.split)

lemma answer_authoritative_eq:
  fixes E :: "('w, 'p) env" and decided r resp ip
  assumes "policy = (if decided then RpzKeep else RpzAuthoritative (policies_of E) (srv_policy s) r resp ip)"
    and "s1 = (if policy = RpzKeep then s else observeClient E ip SignalPolicy s)"
    and "shouldRateLimit E ip (case policy of RpzReplace x \<Rightarrow> x | _ \<Rightarrow> resp) s1 = (dr, x, s2)"
  shows "answer_authoritative E ip decided cookie r m resp s =
    (if policy = RpzDropResponse then (None, s1) else if dr then (None, s2) else (Some (copy_answer E cookie r x m), count_answer x s2))"
  using assms(3) unfolding assms(2) by (cases policy) (simp_all add: answer_authoritative_def assms(1)[symmetric])

lemma answer_authoritative_frame:
  "srv_recursion (snd (answer_authoritative E ip decided cookie r m resp s)) = srv_recursion s"
proof -
  obtain policy where p: "policy = (if decided then RpzKeep else RpzAuthoritative (policies_of E) (srv_policy s) r resp ip)" by simp
  obtain s1 where s1: "s1 = (if policy = RpzKeep then s else observeClient E ip SignalPolicy s)" by simp
  obtain dr x s2 where l: "shouldRateLimit E ip (case policy of RpzReplace x \<Rightarrow> x | _ \<Rightarrow> resp) s1 = (dr, x, s2)"
    by (metis prod_cases3)
  show ?thesis
    using answer_authoritative_eq[OF p s1 l, of cookie m] shouldRateLimit_frame(1)[OF l] by (simp add: s1 srv_frame)
qed

lemma answer_recursive_gate:
  "srv_recursion (snd (answer_recursive E res ip decided cookie r m s)) \<noteq> srv_recursion s \<Longrightarrow> m_rd r \<and> recursion_allowed E ip"
  by (auto simp: answer_recursive_def srv_frame split: if_splits)

lemma answer_query_eq:
  assumes "check_cookies E ip r m s = c" "\<not> (\<exists>x. c = CookieRejected x)"
  shows "answer_query E ip decided r m s =
    (case (if EnableAuthoritative (config_of E) then handleAuthoritative (lib_of E) (msgl E) (srv_zones s) r else None) of
       Some resp \<Rightarrow> answer_authoritative E ip decided c r m resp s
     | None \<Rightarrow> (case resolver_of E of
         Some res \<Rightarrow> if EnableRecursive (config_of E) then answer_recursive E res ip decided c r m s
                     else (Some (m\<lparr>m_rcode := RcodeRefused\<rparr>), count_error s)
       | None \<Rightarrow> (Some (m\<lparr>m_rcode := RcodeRefused\<rparr>), count_error s)))"
  using assms(2) by (cases c) (simp_all add: answer_query_def assms(1) cong: if_cong option.case_cong)

lemma answer_query_gate:
  assumes "srv_recursion (snd (answer_query E ip decided r m s)) \<noteq> srv_recursion s"
  shows "m_rd r \<and> recursion_allowed E ip \<and> resolver_of E \<noteq> None \<and>
    (EnableAuthoritative (config_of E) \<longrightarrow> handleAuthoritative (lib_of E) (msgl E) (srv_zones s) r = None)"
proof -
  let ?auth = "if EnableAuthoritative (config_of E) then handleAuthoritative (lib_of E) (msgl E) (srv_zones s) r else None"
  obtain c where c: "check_cookies E ip r m s = c" by simp
  have nr: "\<not> (\<exists>x. c = CookieRejected x)" using assms c by (auto simp: answer_query_def srv_frame)
  note eq = answer_query_eq[OF c nr, of decided]
  show ?thesis
  proof (cases ?auth)
    case None
    then obtain res where res: "resolver_of E = Some res" using assms by (cases "resolver_of E") (simp_all add: eq srv_frame)
    then have "srv_recursion (snd (answer_recursive E res ip decided c r m s)) \<noteq> srv_recursion s"
      using assms None by (simp add: eq srv_frame split: if_splits)
    then show ?thesis using answer_recursive_gate res None by fastforce
  next
    case (Some resp)
    then show ?thesis using assms answer_authoritative_frame[of E ip decided c r m resp s] by (simp add: eq)
  qed
qed

lemma apply_policies_gate:
  assumes "srv_recursion (snd (apply_policies E ip r m s)) \<noteq> srv_recursion s"
  shows "\<exists>decided. srv_recursion (snd (answer_query E ip decided r m s)) \<noteq> srv_recursion s"
proof -
  let ?seen = "observeClient E ip SignalPolicy s"
  have sl: "srv_recursion (snd (send_limited E ip x ?seen)) = srv_recursion s" for x
    using send_limited_frame(1)[of E ip x ?seen "fst (send_limited E ip x ?seen)" "snd (send_limited E ip x ?seen)"] by (simp add: srv_frame)
  show ?thesis
    using assms unfolding apply_policies_def Let_def
    by (auto simp: sl srv_frame split: option.splits fw_verdict.splits rpz_query.splits)
qed

lemma handleQuery_eq:
  assumes "Allow (policies_of E) (srv_policy s) (client_address (in_remote req)) (now_of E s) = (ok, p)"
  shows "handleQuery E req s =
    (if \<not> ok then (if AllowRefuses (policies_of E)
        then (Some ((SetReply (msgl E) (in_msg req))\<lparr>m_rcode := RcodeRefused\<rparr>), count_error (s\<lparr>srv_policy := p\<rparr>))
        else (None, s\<lparr>srv_policy := p\<rparr>))
     else (case check_query E (in_opcode req) (in_msg req) (base_response E (client_address (in_remote req)) (in_msg req)) of
             Some (sig, m) \<Rightarrow> reject_query E (client_address (in_remote req)) sig m (s\<lparr>srv_policy := p\<rparr>)
           | None \<Rightarrow> apply_policies E (client_address (in_remote req)) (in_msg req)
                       (base_response E (client_address (in_remote req)) (in_msg req)) (s\<lparr>srv_policy := p\<rparr>)))"
  using assms unfolding handleQuery_def Let_def by (simp cong: if_cong option.case_cong)

text \<open>
  C10: the resolver is not open. Whatever the policies do, handling a query touches the resolver (its caches or
  the network) only if recursion is enabled, the client's address is known and in the recursion access list,
  the query asks for recursion, is one question of class IN with opcode QUERY, was admitted, and none of
  the server's zones answers it.
\<close>

theorem no_open_recursion:
  assumes "srv_recursion (snd (handleQuery E req s)) \<noteq> srv_recursion s"
  defines "clientIP \<equiv> client_address (in_remote req)" and "r \<equiv> in_msg req"
  shows "EnableRecursive (config_of E) \<and> clientIP \<noteq> [] \<and> (\<exists>a. recursionACL (config_of E) = Some a \<and> IsAllowed a clientIP) \<and>
    m_rd r \<and> (\<exists>name qtype. m_question r = [(name, qtype, ClassINET)]) \<and> in_opcode req = OpcodeQuery \<and>
    fst (Allow (policies_of E) (srv_policy s) clientIP (now_of E s)) \<and>
    (EnableAuthoritative (config_of E) \<longrightarrow> handleAuthoritative (lib_of E) (msgl E) (srv_zones s) r = None)"
proof -
  obtain ok p where a: "Allow (policies_of E) (srv_policy s) clientIP (now_of E s) = (ok, p)" by (metis surj_pair)
  let ?s = "s\<lparr>srv_policy := p\<rparr>" and ?m = "base_response E clientIP r"
  note eq = handleQuery_eq[OF a[unfolded clientIP_def], folded clientIP_def r_def]
  have ok: ok using assms(1) by (auto simp: eq srv_frame split: if_splits)
  have c: "check_query E (in_opcode req) r ?m = None"
  proof (cases "check_query E (in_opcode req) r ?m")
    case (Some x)
    then show ?thesis using assms(1) ok reject_query_frame[of E clientIP "fst x" "snd x" ?s] by (simp add: eq case_prod_unfold)
  qed
  have "srv_recursion (snd (apply_policies E clientIP r ?m ?s)) \<noteq> srv_recursion ?s" using assms(1) ok c by (simp add: eq)
  then obtain decided where "srv_recursion (snd (answer_query E clientIP decided r ?m ?s)) \<noteq> srv_recursion ?s"
    using apply_policies_gate by blast
  then have g: "m_rd r \<and> recursion_allowed E clientIP \<and> resolver_of E \<noteq> None \<and>
    (EnableAuthoritative (config_of E) \<longrightarrow> handleAuthoritative (lib_of E) (msgl E) (srv_zones s) r = None)"
    using answer_query_gate[of E clientIP decided r ?m ?s] by simp
  have q: "(\<exists>name qtype. m_question r = [(name, qtype, ClassINET)]) \<and> in_opcode req = OpcodeQuery"
    using c by (auto simp: check_query_def split: list.splits if_splits)
  show ?thesis using g q ok a by (auto simp: recursion_allowed_def split: option.splits)
qed

subsection \<open>Every response answers its query, and is counted once\<close>

text \<open>
  The documented behaviour of what stands outside: adding an OPT record or a cookie changes the additional section
  only, \<open>SetRcode\<close> keeps the identifier, and so does a policy that answers in place of the server.
\<close>

definition extra_only :: "(dmsg \<Rightarrow> dmsg) \<Rightarrow> bool" where
  "extra_only f \<longleftrightarrow> (\<forall>m. \<exists>extra. f m = m\<lparr>m_extra := extra\<rparr>)"

definition env_laws :: "('w, 'p) env \<Rightarrow> bool" where
  "env_laws E \<longleftrightarrow>
     (\<forall>r. reply_law (msgl E) r) \<and> (\<forall>r rc. m_id (SetRcode (deps_of E) r rc) = m_id r) \<and>
     (\<forall>udp do. extra_only (SetEdns0 (msgl E) udp do)) \<and> (\<forall>c. extra_only (AppendCookie E c))"

definition policy_laws :: "('w, 'p) policies \<Rightarrow> bool" where
  "policy_laws P \<longleftrightarrow>
     (\<forall>p r ip x. Protective P p r ip = Some x \<longrightarrow> m_id x = m_id r) \<and>
     (\<forall>p r ip x. Firewall P p r ip = FwAnswer x \<longrightarrow> m_id x = m_id r) \<and>
     (\<forall>p r m ip x. RpzQuery P p r m ip = RpzAnswer x \<longrightarrow> m_id x = m_id m) \<and>
     (\<forall>p st r m ip x. fst (RpzRecursive P p st r m ip) = RpzReplace x \<longrightarrow> m_id x = m_id m)"

named_theorems msg_frame \<open>fields that adding to the additional section leaves alone\<close>

lemma extra_only_frame:
  assumes "extra_only f"
  shows "m_id (f m) = m_id m" "m_answer (f m) = m_answer m" "m_ns (f m) = m_ns m" "m_tc (f m) = m_tc m"
    "m_rcode (f m) = m_rcode m"
proof -
  obtain extra where "f m = m\<lparr>m_extra := extra\<rparr>" using assms unfolding extra_only_def by blast
  then show "m_id (f m) = m_id m" "m_answer (f m) = m_answer m" "m_ns (f m) = m_ns m" "m_tc (f m) = m_tc m"
    "m_rcode (f m) = m_rcode m" by simp_all
qed

lemma extra_only_id: "extra_only (\<lambda>m. m)"
  unfolding extra_only_def by (metis dmsg.surjective dmsg.update_convs(6))

lemma edns_extra_only: "env_laws E \<Longrightarrow> extra_only (\<lambda>m. addEDNS0Response (msgl E) m r)"
  unfolding extra_only_def
proof
  fix m :: dmsg assume e: "env_laws E"
  have "\<exists>extra. m = m\<lparr>m_extra := extra\<rparr>" using extra_only_id unfolding extra_only_def by blast
  moreover have "\<exists>extra. SetEdns0 (msgl E) udp do m = m\<lparr>m_extra := extra\<rparr>" for udp do
    using e by (simp add: env_laws_def extra_only_def)
  ultimately show "\<exists>extra. addEDNS0Response (msgl E) m r = m\<lparr>m_extra := extra\<rparr>"
    by (simp add: addEDNS0Response_def Let_def split: option.split)
qed

lemma cookie_extra_only: "env_laws E \<Longrightarrow> extra_only (attach_cookie E c)" "env_laws E \<Longrightarrow> extra_only (addCookieToResponse E a b)"
proof -
  assume e: "env_laws E"
  show a: "extra_only (addCookieToResponse E a b)" for a b
    using e by (simp add: addCookieToResponse_def[abs_def] env_laws_def)
  show "extra_only (attach_cookie E c)"
  proof (cases "\<exists>a b. c = CookieAccepted (Some (a, b))")
    case True
    then show ?thesis using a by (auto simp: attach_cookie_def extra_only_def)
  next
    case False
    then have "attach_cookie E c = (\<lambda>m. m)"
      by (cases c) (auto simp: attach_cookie_def fun_eq_iff split: option.splits)
    then show ?thesis using extra_only_id by simp
  qed
qed

lemmas edns_frame = extra_only_frame[OF edns_extra_only]
lemmas cookie_frame = extra_only_frame[OF cookie_extra_only(1)] extra_only_frame[OF cookie_extra_only(2)]

lemma copy_answer_frame:
  assumes "env_laws E"
  shows "m_id (copy_answer E c r resp m) = m_id m" "m_answer (copy_answer E c r resp m) = m_answer resp"
    "m_ns (copy_answer E c r resp m) = m_ns resp" "m_tc (copy_answer E c r resp m) = m_tc m"
    "m_rcode (copy_answer E c r resp m) = m_rcode resp"
  using assms by (simp_all add: copy_answer_def cookie_frame edns_frame)

lemma base_response_frame:
  assumes "env_laws E"
  shows "m_id (base_response E ip r) = m_id r" "\<not> m_tc (base_response E ip r)"
proof -
  have "reply_law (msgl E) r" using assms by (simp add: env_laws_def)
  then show "m_id (base_response E ip r) = m_id r" "\<not> m_tc (base_response E ip r)"
    by (simp_all add: base_response_def edns_frame assms reply_law_def)
qed

lemma SynthesizeNXDOMAIN_id: "SynthesizeNXDOMAIN L now c q t cls i = Some m \<Longrightarrow> m_id m = i"
  by (auto simp: SynthesizeNXDOMAIN_def synthesizeFromNSEC3_def Let_def synthetic_fields split: option.splits)

lemma Resolve_id:
  assumes "env_laws E" "Resolve L (deps_of E) res st q = (Inr m, st')"
  shows "m_id m = m_id q"
proof -
  obtain question rest where q: "m_question q = question # rest"
    using assms(2) by (cases "m_question q") (simp_all add: Resolve_def)
  let ?now = "time (deps_of E) (snd (upstream st))"
  have cached: "m_id x = m_id q" if "from_cache (deps_of E) ?now q e = Some x" for e x
    using that assms(1) by (auto simp: from_cache_def applyRequestMetadata_def ageCachedTTLs_def env_laws_def Let_def split: if_splits)
  have stale: "m_id x = m_id q" if "stale_answer (deps_of E) q e = Some x" for e x
    using that by (auto simp: stale_answer_def)
  obtain c1 st1 where t1: "try_cache (deps_of E) st q question = (c1, st1)" by (metis surj_pair)
  show ?thesis
  proof (cases c1)
    case (Some x)
    then show ?thesis using assms(2) t1 cached
      by (auto simp: Resolve_def q try_cache_def Let_def bind_eq_Some_conv split: prod.splits)
  next
    case None
    show ?thesis
    proof (cases "try_synthesis L (deps_of E) res st1 q question")
      case (Some x)
      then have "m = x" using assms(2) t1 None by (simp add: Resolve_def q)
      moreover obtain n t cl where "question = (n, t, cl)" by (metis prod_cases3)
      ultimately obtain nc now where "SynthesizeNXDOMAIN L now nc n t cl (m_id q) = Some m"
        using Some by (auto simp: try_synthesis_def bind_eq_Some_conv split: if_splits)
      then show ?thesis using SynthesizeNXDOMAIN_id by blast
    next
      case s: None
      obtain o2 st2 where t2: "resolveCoalesced L (deps_of E) res st1 question = (o2, st2)" by (metis surj_pair)
      show ?thesis
      proof (cases o2)
        case (Inr x)
        then show ?thesis using assms(2) t1 t2 None s by (auto simp: Resolve_def q applyRequestMetadata_def)
      next
        case (Inl e)
        obtain c3 st3 where t3: "try_stale (deps_of E) res st2 q question = (c3, st3)" by (metis surj_pair)
        then have "c3 = Some m" using assms(2) t1 t2 None s Inl by (cases c3) (simp_all add: Resolve_def q)
        then show ?thesis using t3 stale
          by (auto simp: try_stale_def Let_def bind_eq_Some_conv split: if_splits prod.splits)
      qed
    qed
  qed
qed

text \<open>What a step of the query path does: it answers with the identifier \<open>i\<close> and counts the answer, or is silent.\<close>

definition answers_once :: "u16 \<Rightarrow> ('w, 'p) server \<Rightarrow> ('w, 'p) outcome \<Rightarrow> bool" where
  "answers_once i s out \<longleftrightarrow>
     answers (snd out) + errors (snd out) = answers s + errors s + (if fst out = None then 0 else 1) \<and>
     (\<forall>x. fst out = Some x \<longrightarrow> m_id x = i)"

named_theorems counting \<open>what the bookkeeping does to the counters\<close>

lemma counting_simps [counting]:
  "answers (observeClient E ip sig s) = answers s" "errors (observeClient E ip sig s) = errors s"
  "answers (count_error s) = answers s" "errors (count_error s) = errors s + 1"
  "answers (count_answer m s) = answers s + 1" "errors (count_answer m s) = errors s"
  by (simp_all add: observeClient_def count_error_def count_answer_def Let_def)

lemma shouldRateLimit_counts:
  assumes "shouldRateLimit E ip m s = (dr, m', s')"
  shows "answers s' = answers s" "errors s' = errors s"
  using assms by (auto simp: shouldRateLimit_def Let_def counting split: option.splits list.splits prod.splits action.splits)

lemma answers_once_counts:
  "answers_once i s out \<Longrightarrow> answers s = answers s0 \<Longrightarrow> errors s = errors s0 \<Longrightarrow> answers_once i s0 out"
  by (simp add: answers_once_def)

lemma answers_once_error: "m_id m = i \<Longrightarrow> answers_once i s (Some m, count_error s)"
  by (simp add: answers_once_def counting)

lemma answers_once_silent: "answers s' = answers s \<Longrightarrow> errors s' = errors s \<Longrightarrow> answers_once i s (None, s')"
  by (simp add: answers_once_def)

lemma limited_answers_once:
  assumes "shouldRateLimit E ip m s = (dr, m', s')" "m_id m = i \<Longrightarrow> m_id (f m') = i" "m_id m = i"
  shows "answers_once i s (if dr then (None, s') else (Some (f m'), count_answer m' s'))"
  using assms shouldRateLimit_counts[OF assms(1)] by (simp add: answers_once_def counting)

lemma send_limited_answers_once:
  assumes "m_id m = i"
  shows "answers_once i s (send_limited E ip m s)"
proof -
  obtain dr m2 s2 where l: "shouldRateLimit E ip m s = (dr, m2, s2)" by (metis prod_cases3)
  have "answers_once i s (if dr then (None, s2) else (Some m2, count_answer m2 s2))"
    using limited_answers_once[OF l, where f = "\<lambda>m. m"] shouldRateLimit_frame(3)[OF l] assms by simp
  then show ?thesis by (simp add: send_limited_def l cong: if_cong)
qed

lemma answer_authoritative_once:
  assumes "env_laws E" "m_id m = i"
  shows "answers_once i s (answer_authoritative E ip decided cookie r m resp s)"
proof -
  obtain policy where p: "policy = (if decided then RpzKeep else RpzAuthoritative (policies_of E) (srv_policy s) r resp ip)" by simp
  obtain s1 where s1: "s1 = (if policy = RpzKeep then s else observeClient E ip SignalPolicy s)" by simp
  obtain dr x s2 where l: "shouldRateLimit E ip (case policy of RpzReplace x \<Rightarrow> x | _ \<Rightarrow> resp) s1 = (dr, x, s2)"
    by (metis prod_cases3)
  show ?thesis
    using answer_authoritative_eq[OF p s1 l, of cookie m] shouldRateLimit_counts[OF l] copy_answer_frame(1)[OF assms(1)] assms(2)
    by (simp add: answers_once_def counting s1)
qed

lemma finish_recursive_once:
  assumes "env_laws E" "m_id resp = i" "\<And>x. policy = RpzReplace x \<Longrightarrow> m_id x = i"
  shows "answers_once i s (finish_recursive E ip cookie r policy resp s)"
proof -
  obtain s1 where s1: "s1 = (if policy = RpzKeep then s else observeClient E ip SignalPolicy s)" by simp
  obtain dr x s2 where l: "shouldRateLimit E ip (case policy of RpzReplace x \<Rightarrow> x | _ \<Rightarrow> resp) s1 = (dr, x, s2)"
    by (metis prod_cases3)
  have "finish_recursive E ip cookie r policy resp s =
    (if policy = RpzDropResponse then (None, s1)
     else if dr then (None, s2) else (Some (addEDNS0Response (msgl E) (attach_cookie E cookie x) r), count_answer x s2))"
    using l unfolding s1 by (cases policy) (simp_all add: finish_recursive_def)
  moreover have "policy \<noteq> RpzDropResponse \<Longrightarrow> m_id x = i"
    using shouldRateLimit_frame(3)[OF l] assms(2,3) by (cases policy) simp_all
  ultimately show ?thesis using shouldRateLimit_counts[OF l]
    by (simp add: answers_once_def counting s1 cookie_frame edns_frame assms(1))
qed

lemma answer_recursive_once:
  assumes "env_laws E" "policy_laws (policies_of E)" "m_id m = m_id r"
  shows "answers_once (m_id r) s (answer_recursive E res ip decided cookie r m s)"
proof (cases "\<not> m_rd r \<or> \<not> recursion_allowed E ip")
  case True
  then show ?thesis using assms(3) by (simp add: answer_recursive_def answers_once_error)
next
  case allowed: False
  obtain o1 st where res: "Resolve (dnsl E) (deps_of E) res (srv_recursion s) r = (o1, st)" by (metis surj_pair)
  show ?thesis
  proof (cases o1)
    case (Inl e)
    then show ?thesis using allowed res assms(3)
      by (simp add: answer_recursive_def answers_once_def counting del: de_Morgan_disj)
  next
    case (Inr resp)
    then have id: "m_id resp = m_id r" using Resolve_id[OF assms(1)] res by simp
    obtain policy st' where p: "RpzRecursive (policies_of E) (srv_policy s) st r resp ip = (policy, st')" by (metis surj_pair)
    have rep: "m_id x = m_id r" if "policy = RpzReplace x" for x
      using p that assms(2) id unfolding policy_laws_def by (metis fst_conv)
    have eq: "answer_recursive E res ip decided cookie r m s =
      (if decided then finish_recursive E ip cookie r RpzKeep resp (s\<lparr>srv_recursion := st\<rparr>)
       else finish_recursive E ip cookie r policy resp (s\<lparr>srv_recursion := st'\<rparr>))"
      using allowed by (simp add: answer_recursive_def res Inr p del: de_Morgan_disj)
    have "answers_once (m_id r) s (finish_recursive E ip cookie r pol resp (s\<lparr>srv_recursion := st2\<rparr>))"
      if "\<And>x. pol = RpzReplace x \<Longrightarrow> m_id x = m_id r" for pol st2
      by (rule answers_once_counts[OF finish_recursive_once[OF assms(1) id that]]) simp_all
    from this[of RpzKeep] this[of policy] rep show ?thesis unfolding eq by simp
  qed
qed

lemma answer_query_once:
  assumes "env_laws E" "policy_laws (policies_of E)" "m_id m = m_id r"
  shows "answers_once (m_id r) s (answer_query E ip decided r m s)"
proof -
  let ?auth = "if EnableAuthoritative (config_of E) then handleAuthoritative (lib_of E) (msgl E) (srv_zones s) r else None"
  have refused: "answers_once (m_id r) s (Some (m\<lparr>m_rcode := RcodeRefused\<rparr>), count_error s)"
    using assms(3) by (simp add: answers_once_error)
  note parts = answer_authoritative_once[OF assms(1,3)] answer_recursive_once[OF assms] refused
  obtain c where c: "check_cookies E ip r m s = c" by simp
  show ?thesis
  proof (cases "\<exists>x. c = CookieRejected x")
    case True
    then obtain x where x: "c = CookieRejected x" by blast
    then have "m_id x = m_id r"
      using c assms by (auto simp: check_cookies_def Let_def cookie_frame split: option.splits if_splits prod.splits)
    then show ?thesis by (simp add: answer_query_def c x answers_once_error)
  next
    case False
    show ?thesis using answer_query_eq[OF c False] parts by (simp split: option.split)
  qed
qed

lemma apply_policies_once:
  assumes "env_laws E" "policy_laws (policies_of E)" "m_id m = m_id r"
  shows "answers_once (m_id r) s (apply_policies E ip r m s)"
proof -
  let ?seen = "observeClient E ip SignalPolicy s"
  have limited: "answers_once (m_id r) s (send_limited E ip x ?seen)" if "m_id x = m_id r" for x
    by (rule answers_once_counts[OF send_limited_answers_once[OF that]]) (simp_all add: counting)
  have silent: "answers_once (m_id r) s (None, ?seen)" by (rule answers_once_silent) (simp_all add: counting)
  note q = answer_query_once[OF assms]
  note l = assms(2)[unfolded policy_laws_def]
  show ?thesis
  proof (cases "Protective (policies_of E) (srv_policy s) r ip")
    case (Some x)
    then show ?thesis using limited[of x] l by (simp add: apply_policies_def)
  next
    case p: None
    show ?thesis
    proof (cases "Firewall (policies_of E) (srv_policy s) r ip")
      case (FwAnswer x)
      then show ?thesis using limited[of x] l p by (simp add: apply_policies_def)
    next
      case FwDrop
      then show ?thesis using silent p by (simp add: apply_policies_def)
    next
      case FwPass
      then show ?thesis
        using silent p q limited l assms(3)
        by (cases "RpzQuery (policies_of E) (srv_policy s) r m ip") (simp_all add: apply_policies_def)
    qed
  qed
qed

text \<open>
  C11: every response answers its query, and is counted exactly once. Whatever the policies decide, a query gets at
  most one response; the response carries the query's identifier, and it raises the sum of the counters of answers
  and errors by one, while a query without response leaves them alone.
\<close>

theorem query_answered_once:
  assumes "env_laws E" "policy_laws (policies_of E)"
  shows "answers_once (m_id (in_msg req)) s (handleQuery E req s)"
proof -
  define clientIP where "clientIP = client_address (in_remote req)"
  define r where "r = in_msg req"
  obtain ok p where a: "Allow (policies_of E) (srv_policy s) clientIP (now_of E s) = (ok, p)" by (metis surj_pair)
  let ?s = "s\<lparr>srv_policy := p\<rparr>" and ?m = "base_response E clientIP r"
  have m: "m_id ?m = m_id r" "m_id (SetReply (msgl E) r) = m_id r"
    using base_response_frame(1)[OF assms(1)] assms(1) by (simp_all add: env_laws_def reply_law_def)
  have refuse: "answers_once (m_id r) ?s (Some ((SetReply (msgl E) r)\<lparr>m_rcode := RcodeRefused\<rparr>), count_error ?s)"
    by (rule answers_once_error) (simp add: m)
  have silent: "answers_once (m_id r) ?s (None, ?s)" by (rule answers_once_silent) simp_all
  have reject: "answers_once (m_id r) ?s (reject_query E clientIP sig x ?s)"
    if "check_query E (in_opcode req) r ?m = Some (sig, x)" for sig x
  proof -
    have "m_id x = m_id r" using that m(1) by (auto simp: check_query_def badvers_def split: list.splits if_splits)
    then show ?thesis by (simp add: reject_query_def answers_once_def counting Let_def)
  qed
  have "answers_once (m_id r) ?s (handleQuery E req s)"
    unfolding handleQuery_eq[OF a[unfolded clientIP_def], folded clientIP_def r_def]
    using refuse silent reject apply_policies_once[OF assms m(1), of ?s clientIP] by (simp split: option.split)
  then show ?thesis unfolding r_def by (rule answers_once_counts) simp_all
qed

subsection \<open>What the rate limiter does to a response\<close>

text \<open>Responses to rejected queries are not limited: the response goes out and the limiter does not see it.\<close>

lemma rejects_not_limited:
  "fst (reject_query E ip sig m s) = Some m \<and> srv_rrl (snd (reject_query E ip sig m s)) = srv_rrl s"
  by (simp add: reject_query_def Let_def srv_frame)

lemma slipped:
  assumes "srv_rrl s = Some l" "m_question resp = (name, qtype, qclass) # rest"
    and "Check l ip (map of_char name) qtype
      (CategorizeResponse (m_rcode resp) (int (length (m_answer resp))) (int (length (m_ns resp)))) (seconds_of E s) = (ActionSlip, l')"
  shows "\<exists>s'. shouldRateLimit E ip resp s = (False, resp\<lparr>m_tc := True, m_answer := [], m_ns := [], m_extra := []\<rparr>, s')"
  using assms by (simp add: shouldRateLimit_def)

text \<open>
  A slip loses its truncation bit on the authoritative path. When the limiter lets a response slip, policy and
  recursive answers go out empty and with the TC bit, so that the client asks again over TCP. An answer from the
  zones goes out empty with its response code, but without the bit: an honest client takes the response for the
  denial of a record that exists.
\<close>

theorem authoritative_slip_untruncated:
  assumes "env_laws E" "srv_rrl s = Some l" "m_question resp = (name, qtype, qclass) # rest"
    and "Check l ip (map of_char name) qtype
      (CategorizeResponse (m_rcode resp) (int (length (m_answer resp))) (int (length (m_ns resp)))) (seconds_of E s) = (ActionSlip, l')"
  shows "(\<exists>x s'. answer_authoritative E ip True cookie r (base_response E ip r) resp s = (Some x, s') \<and>
      m_answer x = [] \<and> m_ns x = [] \<and> m_rcode x = m_rcode resp \<and> \<not> m_tc x) \<and>
    (\<exists>y s'. finish_recursive E ip cookie r RpzKeep resp s = (Some y, s') \<and> m_answer y = [] \<and> m_ns y = [] \<and> m_tc y) \<and>
    (\<exists>z s'. send_limited E ip resp s = (Some z, s') \<and> m_answer z = [] \<and> m_ns z = [] \<and> m_tc z)"
proof -
  obtain s' where sl: "shouldRateLimit E ip resp s = (False, resp\<lparr>m_tc := True, m_answer := [], m_ns := [], m_extra := []\<rparr>, s')"
    using slipped[OF assms(2-4)] by blast
  show ?thesis
    by (simp add: answer_authoritative_def finish_recursive_def send_limited_def sl copy_answer_frame base_response_frame
        cookie_frame edns_frame assms(1))
qed

end
