(* ===== verification/Server_Examples.thy ===== *)
theory Server_Examples
  imports Server_Props Cached_Resolver_Examples Authoritative_Examples
begin

text \<open>
  A server that resolves over the network of \<open>Resolver_Examples\<close>, serves the zone of \<open>Authoritative_Examples\<close>,
  and has a limiter, with policies that pass everything.
\<close>

definition ex_policies :: "(string list, unit) policies" where
  "ex_policies =
     \<lparr>Allow = (\<lambda>p _ _. (True, p)), AllowRefuses = False, Observe = (\<lambda>_ _ _ p. p), Protective = (\<lambda>_ _ _. None),
      Firewall = (\<lambda>_ _ _. FwPass), RpzQuery = (\<lambda>_ _ _ _. RpzUndecided), RpzAuthoritative = (\<lambda>_ _ _ _. RpzKeep),
      RpzRecursive = (\<lambda>_ st _ _ _. (RpzKeep, st))\<rparr>"

definition ex_server_config :: server_config where
  "ex_server_config = \<lparr>EnableAuthoritative = True, EnableRecursive = True, srv_EnableCookies = False, RequireValidCookie = False,
     QueryComplexity = defaultQueryComplexityConfig, recursionACL = Some (NewACL True)\<rparr>"

definition ex_env :: "(string list, unit) env" where
  "ex_env = \<lparr>dnsl = ex_full_lib, msgl = ex_msg_lib, sip = (\<lambda>_ _. 0), OptCookie = (\<lambda>_. None),
     AppendCookie = (\<lambda>c m. m\<lparr>m_extra := m_extra m @
       [\<lparr>rr_name = ''.'', rr_type = TypeOPT, rr_class = 0, rr_ttl = 0, rr_data = ROther c\<rparr>]\<rparr>),
     deps_of = ex_deps, resolver_of = Some ex_resolver, policies_of = ex_policies, config_of = ex_server_config,
     soaNotifyHandler = None, dsyncHandler = False\<rparr>"

definition ex_limits :: RRL.config where
  "ex_limits = DefaultConfig\<lparr>ResponsesPerSecond := 1, Window := 1, Slip := 1\<rparr>"

definition ex_server :: "(string list, unit) server" where
  "ex_server = \<lparr>srv_zones = [(''a.'', ex_site)], srv_rrl = Some (NewLimiter ex_limits), srv_cookies = None, srv_recursion = ex_state,
     srv_policy = (), queries = 0, answers = 0, errors = 0, nxdomain = 0, udpQueries = 0, tcpQueries = 0, complexityRejected = 0\<rparr>"

definition ex_request :: "dmsg \<Rightarrow> inbound" where
  "ex_request m = \<lparr>in_msg = m, in_opcode = OpcodeQuery, in_remote = UDPAddr [192, 0, 2, 7], in_tsig = None\<rparr>"

lemma ex_env_laws: "env_laws ex_env"
proof -
  have "extra_only (SetEdns0 ex_msg_lib udp do)" for udp do
    by (auto simp: extra_only_def ex_msg_lib_def)
  moreover have "extra_only (\<lambda>m. m\<lparr>m_extra := m_extra m @ x\<rparr>)" for x by (auto simp: extra_only_def)
  ultimately show ?thesis by (simp add: env_laws_def ex_env_def ex_reply ex_deps_def)
qed

lemma ex_policy_laws: "policy_laws ex_policies"
  by (simp add: policy_laws_def ex_policies_def)

theorem query_answered_once_witness:
  "answers_once 7 ex_server (handleQuery ex_env (ex_request (ex_client 7)) ex_server)"
  using query_answered_once[OF ex_env_laws, of "ex_request (ex_client 7)" ex_server] ex_policy_laws
  by (simp add: ex_env_def ex_request_def ex_client_def)

lemma ex_resolved: "length (snd (upstream (srv_recursion (snd (handleQuery ex_env (ex_request (ex_client 7)) ex_server))))) = 2"
  by code_simp

theorem no_open_recursion_witness:
  "IsAllowed (NewACL True) [192, 0, 2, 7] \<and> handleAuthoritative ex_lib ex_msg_lib [(''a.'', ex_site)] (ex_client 7) = None"
proof -
  have "srv_recursion (snd (handleQuery ex_env (ex_request (ex_client 7)) ex_server)) \<noteq> srv_recursion ex_server"
    using ex_resolved by (auto simp: ex_server_def ex_state_def)
  from no_open_recursion[OF this] show ?thesis
    by (auto simp: ex_env_def ex_server_config_def ex_request_def client_address_def ex_server_def lib_of_def ex_full_truncate)
qed

text \<open>A client asks twice for the address that the zone has.\<close>

definition ex_limited :: "(string list, unit) server" where
  "ex_limited = snd (handleQuery ex_env (ex_request (ex_ask ''n.a.'' TypeA)) ex_server)"

definition ex_address :: dmsg where
  "ex_address = ex_reply_to ''n.a.'' TypeA"

lemma ex_address: "m_question ex_address = [(''n.a.'', TypeA, ClassINET)] \<and> length (m_answer ex_address) = 1 \<and> m_rcode ex_address = RcodeSuccess"
  by code_simp

lemma ex_slips:
  "\<exists>l l'. srv_rrl ex_limited = Some l \<and>
    Check l [192, 0, 2, 7] (map of_char ''n.a.'') TypeA
      (CategorizeResponse (m_rcode ex_address) (int (length (m_answer ex_address))) (int (length (m_ns ex_address)))) (seconds_of ex_env ex_limited)
    = (ActionSlip, l')"
proof -
  have "case srv_rrl ex_limited of None \<Rightarrow> False | Some l \<Rightarrow>
    fst (Check l [192, 0, 2, 7] (map of_char ''n.a.'') TypeA
      (CategorizeResponse (m_rcode ex_address) (int (length (m_answer ex_address))) (int (length (m_ns ex_address)))) (seconds_of ex_env ex_limited)) = ActionSlip"
    by code_simp
  then show ?thesis by (auto split: option.splits intro!: prod_eqI)
qed

theorem authoritative_slip_untruncated_witness:
  "\<exists>x s'. answer_authoritative ex_env [192, 0, 2, 7] True CookiesOff (ex_ask ''n.a.'' TypeA)
     (base_response ex_env [192, 0, 2, 7] (ex_ask ''n.a.'' TypeA)) ex_address ex_limited = (Some x, s') \<and>
     m_answer x = [] \<and> m_rcode x = RcodeSuccess \<and> \<not> m_tc x"
proof -
  obtain l l' where l: "srv_rrl ex_limited = Some l"
    "Check l [192, 0, 2, 7] (map of_char ''n.a.'') TypeA
      (CategorizeResponse (m_rcode ex_address) (int (length (m_answer ex_address))) (int (length (m_ns ex_address)))) (seconds_of ex_env ex_limited)
    = (ActionSlip, l')" using ex_slips by blast
  show ?thesis
    using authoritative_slip_untruncated[OF ex_env_laws l(1), of ex_address "''n.a.''" TypeA ClassINET "[]" "[192, 0, 2, 7]" l' CookiesOff
        "ex_ask ''n.a.'' TypeA"] ex_address l(2) by auto
qed

end
