(* ===== verification/Rpz.thy ===== *)
theory Rpz
  imports Dns_Lib Go_Net
begin

text \<open>
  Response policy zones, \<open>internal/engine/rpz.go\<close>: rules by query name, client address, response address, name
  server name and name server address, the evaluation of one zone, and the evaluation of an ordered list of zones
  in stages. Hit counters (Prometheus) are left out; the regular expressions of Go are a parameter.
\<close>

subsection \<open>Addresses and prefixes of \<open>net/netip\<close>\<close>

text \<open>A valid \<open>netip.Addr\<close>; the zero value is \<open>None\<close> where it may occur.\<close>

datatype addr = Addr4 u32 | Addr6 "128 word"

text \<open>Bytes and longer words in network order as one number.\<close>

definition join_words :: "'a::len word list \<Rightarrow> 'b::len word" where
  "join_words ws = foldl (\<lambda>acc x. push_bit LENGTH('a) acc OR ucast x) 0 ws"

definition AddrFromSlice :: "bytes \<Rightarrow> addr option" where
  "AddrFromSlice b =
     (if length b = 4 then Some (Addr4 (join_words b)) else if length b = 16 then Some (Addr6 (join_words b)) else None)"

fun Is4 :: "addr \<Rightarrow> bool" where
  "Is4 (Addr4 _) = True"
| "Is4 (Addr6 _) = False"

definition BitLen :: "addr \<Rightarrow> nat" where
  "BitLen a = (if Is4 a then 32 else 128)"

fun Unmap :: "addr \<Rightarrow> addr" where
  "Unmap (Addr4 w) = Addr4 w"
| "Unmap (Addr6 w) = (if drop_bit 32 w = 0xFFFF then Addr4 (ucast w) else Addr6 w)"

text \<open>The address with all but its first \<open>n\<close> bits cleared.\<close>

fun masked :: "nat \<Rightarrow> addr \<Rightarrow> addr" where
  "masked n (Addr4 w) = Addr4 (w AND NOT (mask (32 - n)))"
| "masked n (Addr6 w) = Addr6 (w AND NOT (mask (128 - n)))"

text \<open>A \<open>netip.Prefix\<close>; an invalid one has the length -1.\<close>

record ip_prefix =
  pfx_addr :: addr
  pfx_bits :: int

definition PrefixFrom :: "addr \<Rightarrow> int \<Rightarrow> ip_prefix" where
  "PrefixFrom a n = \<lparr>pfx_addr = a, pfx_bits = (if 0 \<le> n \<and> n \<le> int (BitLen a) then n else - 1)\<rparr>"

definition Masked :: "ip_prefix \<Rightarrow> ip_prefix" where
  "Masked p = p\<lparr>pfx_addr := masked (nat (pfx_bits p)) (pfx_addr p)\<rparr>"

subsection \<open>Rules\<close>

datatype rpz_action =
    RPZActionNone | RPZActionNXDomain | RPZActionNoData | RPZActionPassthru | RPZActionDrop | RPZActionRewrite

record rpz_rule =
  Trigger :: string
  Action :: rpz_action
  RewriteTarget :: string
  Reason :: string
  RuleZone :: string
  Source :: string
  descendantsOnly :: bool

text \<open>
  The tables of one family of address triggers: for each prefix length a map, created with the first rule of the
  length, and the lengths in use, longest first. The trigger text of an address rule (\<open>prefix.String()\<close>) is
  printed by the library: \<open>show\<close>.
\<close>

type_synonym ip_table = "nat \<Rightarrow> (addr \<rightharpoonup> rpz_rule) option"

record ip_rules =
  tab4 :: ip_table
  tab6 :: ip_table
  lengths4 :: "nat list"
  lengths6 :: "nat list"
  ip_count :: int

definition no_ip_rules :: ip_rules where
  "no_ip_rules = \<lparr>tab4 = (\<lambda>_. None), tab6 = (\<lambda>_. None), lengths4 = [], lengths6 = [], ip_count = 0\<rparr>"

record rpz =
  qname_rules :: "string \<rightharpoonup> rpz_rule"
  wildcards :: "string \<rightharpoonup> rpz_rule"
  nsDNameRules :: "string \<rightharpoonup> rpz_rule"
  nsDNameWildcards :: "string \<rightharpoonup> rpz_rule"
  nsDNameRuleCount :: int
  regex :: "(string \<times> rpz_rule) list"
  responseIP :: ip_rules
  clientIP :: ip_rules
  nsIP :: ip_rules
  rpz_name :: string
  rpz_enabled :: bool

record rpz_lib =
  names :: dns_lib
  PrefixString :: "ip_prefix \<Rightarrow> string"
  Compile :: "string \<Rightarrow> bool"
  MatchString :: "string \<Rightarrow> string \<Rightarrow> bool"

definition NewRPZ :: "string \<Rightarrow> rpz" where
  "NewRPZ name =
     \<lparr>qname_rules = Map.empty, wildcards = Map.empty, nsDNameRules = Map.empty, nsDNameWildcards = Map.empty,
      nsDNameRuleCount = 0, regex = [], responseIP = no_ip_rules, clientIP = no_ip_rules, nsIP = no_ip_rules,
      rpz_name = name, rpz_enabled = True\<rparr>"

definition rewrite_name :: "rpz_lib \<Rightarrow> string \<Rightarrow> string" where
  "rewrite_name L target = (if target \<noteq> [] then Fqdn (names L) (to_lower target) else target)"

definition addRule ::
  "rpz_lib \<Rightarrow> string \<Rightarrow> rpz_action \<Rightarrow> string \<Rightarrow> string \<Rightarrow> string \<Rightarrow> bool \<Rightarrow> bool \<Rightarrow> rpz \<Rightarrow> rpz" where
  "addRule L trigger action rewriteTarget reason source wildcard descendants r =
     (let trigger = Fqdn (names L) (to_lower trigger);
          rule = \<lparr>Trigger = trigger, Action = action, RewriteTarget = rewrite_name L rewriteTarget, Reason = reason,
                  RuleZone = rpz_name r, Source = source, descendantsOnly = descendants\<rparr>
      in if wildcard then r\<lparr>wildcards := (wildcards r)(trigger \<mapsto> rule)\<rparr>
         else r\<lparr>qname_rules := (qname_rules r)(trigger \<mapsto> rule)\<rparr>)"

definition AddRule :: "rpz_lib \<Rightarrow> string \<Rightarrow> rpz_action \<Rightarrow> string \<Rightarrow> rpz \<Rightarrow> rpz" where
  "AddRule L trigger action reason = addRule L trigger action [] reason [] False False"

definition AddWildcard :: "rpz_lib \<Rightarrow> string \<Rightarrow> rpz_action \<Rightarrow> string \<Rightarrow> rpz \<Rightarrow> rpz" where
  "AddWildcard L trigger action reason = addRule L trigger action [] reason [] True False"

definition AddRewriteRule :: "rpz_lib \<Rightarrow> string \<Rightarrow> string \<Rightarrow> string \<Rightarrow> rpz \<Rightarrow> rpz" where
  "AddRewriteRule L trigger target reason = addRule L trigger RPZActionRewrite target reason [] False False"

definition AddPassthru :: "rpz_lib \<Rightarrow> string \<Rightarrow> string \<Rightarrow> rpz \<Rightarrow> rpz" where
  "AddPassthru L trigger reason = addRule L trigger RPZActionPassthru [] reason [] False False"

text \<open>A rule into the tables of a family: the same statements for each of the three families.\<close>

definition table_of :: "addr \<Rightarrow> ip_rules \<Rightarrow> ip_table" where
  "table_of a t = (if Is4 a then tab4 t else tab6 t)"

definition lengths_of :: "addr \<Rightarrow> ip_rules \<Rightarrow> nat list" where
  "lengths_of a t = (if Is4 a then lengths4 t else lengths6 t)"

definition store_ip_rule :: "addr \<Rightarrow> nat \<Rightarrow> rpz_rule \<Rightarrow> ip_rules \<Rightarrow> ip_rules" where
  "store_ip_rule a n rule t =
     (let tab = table_of a t; lens = lengths_of a t;
          (tab, lens) = (if tab n = None then (tab(n \<mapsto> Map.empty), rev (sort (lens @ [n]))) else (tab, lens));
          m = the (tab n);
          count = (if m a = None then ip_count t + 1 else ip_count t);
          tab = tab(n \<mapsto> m(a \<mapsto> rule))
      in if Is4 a then t\<lparr>tab4 := tab, lengths4 := lens, ip_count := count\<rparr>
         else t\<lparr>tab6 := tab, lengths6 := lens, ip_count := count\<rparr>)"

definition add_ip_rule ::
  "rpz_lib \<Rightarrow> string \<Rightarrow> ip_prefix \<Rightarrow> rpz_action \<Rightarrow> string \<Rightarrow> string \<Rightarrow> string \<Rightarrow> ip_rules \<Rightarrow> ip_rules option" where
  "add_ip_rule L zone p action rewriteTarget reason source t =
     (if pfx_bits p < 0 \<or> pfx_bits p < 1 \<or> Is4 (pfx_addr p) \<and> pfx_bits p > 32 \<or> \<not> Is4 (pfx_addr p) \<and> pfx_bits p > 128
      then None
      else let p = Masked p;
               rule = \<lparr>Trigger = PrefixString L p, Action = action, RewriteTarget = rewrite_name L rewriteTarget,
                       Reason = reason, RuleZone = zone, Source = source, descendantsOnly = False\<rparr>
           in Some (store_ip_rule (pfx_addr p) (nat (pfx_bits p)) rule t))"

definition AddResponseIPRule ::
  "rpz_lib \<Rightarrow> ip_prefix \<Rightarrow> rpz_action \<Rightarrow> string \<Rightarrow> string \<Rightarrow> string \<Rightarrow> rpz \<Rightarrow> rpz option" where
  "AddResponseIPRule L p action rewriteTarget reason source r =
     map_option (\<lambda>t. r\<lparr>responseIP := t\<rparr>) (add_ip_rule L (rpz_name r) p action rewriteTarget reason source (responseIP r))"

definition AddClientIPRule ::
  "rpz_lib \<Rightarrow> ip_prefix \<Rightarrow> rpz_action \<Rightarrow> string \<Rightarrow> string \<Rightarrow> string \<Rightarrow> rpz \<Rightarrow> rpz option" where
  "AddClientIPRule L p action rewriteTarget reason source r =
     map_option (\<lambda>t. r\<lparr>clientIP := t\<rparr>) (add_ip_rule L (rpz_name r) p action rewriteTarget reason source (clientIP r))"

definition AddNSIPRule ::
  "rpz_lib \<Rightarrow> ip_prefix \<Rightarrow> rpz_action \<Rightarrow> string \<Rightarrow> string \<Rightarrow> string \<Rightarrow> rpz \<Rightarrow> rpz option" where
  "AddNSIPRule L p action rewriteTarget reason source r =
     map_option (\<lambda>t. r\<lparr>nsIP := t\<rparr>) (add_ip_rule L (rpz_name r) p action rewriteTarget reason source (nsIP r))"

definition AddNSDNameRule ::
  "rpz_lib \<Rightarrow> string \<Rightarrow> rpz_action \<Rightarrow> string \<Rightarrow> string \<Rightarrow> string \<Rightarrow> bool \<Rightarrow> rpz \<Rightarrow> rpz" where
  "AddNSDNameRule L trigger action rewriteTarget reason source wildcard r =
     (let trigger = Fqdn (names L) (to_lower trigger);
          rule = \<lparr>Trigger = trigger, Action = action, RewriteTarget = rewrite_name L rewriteTarget, Reason = reason,
                  RuleZone = rpz_name r, Source = source, descendantsOnly = wildcard\<rparr>;
          table = (if wildcard then nsDNameWildcards r else nsDNameRules r);
          r = (if table trigger = None then r\<lparr>nsDNameRuleCount := nsDNameRuleCount r + 1\<rparr> else r)
      in if wildcard then r\<lparr>nsDNameWildcards := table(trigger \<mapsto> rule)\<rparr> else r\<lparr>nsDNameRules := table(trigger \<mapsto> rule)\<rparr>)"

datatype regex_error = PatternRequired | CompileFailed | TargetRequired

definition AddRegexRule ::
  "rpz_lib \<Rightarrow> string \<Rightarrow> rpz_action \<Rightarrow> string \<Rightarrow> string \<Rightarrow> string \<Rightarrow> rpz \<Rightarrow> regex_error + rpz" where
  "AddRegexRule L pattern action rewriteTarget reason source r =
     (if TrimSpace pattern = [] then Inl PatternRequired
      else if \<not> Compile L pattern then Inl CompileFailed
      else if action = RPZActionRewrite \<and> rewriteTarget = [] then Inl TargetRequired
      else let target = (if action = RPZActionRewrite then Fqdn (names L) (to_lower rewriteTarget) else rewriteTarget);
               rule = \<lparr>Trigger = pattern, Action = action, RewriteTarget = target, Reason = reason,
                       RuleZone = rpz_name r, Source = source, descendantsOnly = False\<rparr>
           in Inr (r\<lparr>regex := regex r @ [(pattern, rule)]\<rparr>))"

definition Enable :: "rpz \<Rightarrow> rpz" where
  "Enable r = r\<lparr>rpz_enabled := True\<rparr>"

definition Disable :: "rpz \<Rightarrow> rpz" where
  "Disable r = r\<lparr>rpz_enabled := False\<rparr>"

definition rpz_Clear :: "rpz \<Rightarrow> rpz" where
  "rpz_Clear r = (NewRPZ (rpz_name r))\<lparr>rpz_enabled := rpz_enabled r\<rparr>"

subsection \<open>Triggers on names\<close>

text \<open>The name and its ancestors below the root, \<open>labels[i:]\<close> joined, from the name upwards.\<close>

fun tails_of :: "'a list \<Rightarrow> 'a list list" where
  "tails_of [] = []"
| "tails_of (x # xs) = (x # xs) # tails_of xs"

definition ancestors_of :: "rpz_lib \<Rightarrow> string \<Rightarrow> string list" where
  "ancestors_of L name = map (\<lambda>ls. Fqdn (names L) (join_labels ls)) (tails_of (SplitDomainName (names L) name))"

text \<open>A result: the rule and its action; \<open>nil\<close> and \<open>RPZActionNone\<close> without a match.\<close>

type_synonym verdict = "rpz_rule option \<times> rpz_action"

definition no_verdict :: verdict where
  "no_verdict = (None, RPZActionNone)"

definition verdict_of :: "rpz_rule \<Rightarrow> verdict" where
  "verdict_of rule = (Some rule, Action rule)"

fun wildcard_walk :: "(string \<rightharpoonup> rpz_rule) \<Rightarrow> string \<Rightarrow> string list \<Rightarrow> rpz_rule option" where
  "wildcard_walk w name [] = None"
| "wildcard_walk w name (a # as) =
     (case w a of
        Some rule \<Rightarrow> if descendantsOnly rule \<and> a = name then wildcard_walk w name as else Some rule
      | None \<Rightarrow> wildcard_walk w name as)"

definition checkName :: "rpz_lib \<Rightarrow> rpz \<Rightarrow> string \<Rightarrow> verdict" where
  "checkName L r name =
     (if \<not> rpz_enabled r then no_verdict
      else let name = Fqdn (names L) (to_lower name) in
        (case qname_rules r name of
           Some rule \<Rightarrow> verdict_of rule
         | None \<Rightarrow>
             (case wildcard_walk (wildcards r) name (ancestors_of L name) of
                Some rule \<Rightarrow> verdict_of rule
              | None \<Rightarrow>
                  (case List.find (\<lambda>(pattern, _). MatchString L pattern name) (regex r) of
                     Some (_, rule) \<Rightarrow> verdict_of rule
                   | None \<Rightarrow> no_verdict))))"

fun nsdname_walk :: "rpz_lib \<Rightarrow> (string \<rightharpoonup> rpz_rule) \<Rightarrow> string \<Rightarrow> string list \<Rightarrow> (rpz_rule \<times> bool \<times> nat) option" where
  "nsdname_walk L w name [] = None"
| "nsdname_walk L w name (a # as) =
     (case w a of
        Some rule \<Rightarrow> if a \<noteq> name then Some (rule, False, CountLabel (names L) a) else nsdname_walk L w name as
      | None \<Rightarrow> nsdname_walk L w name as)"

definition rpzNameMatch ::
  "rpz_lib \<Rightarrow> string \<Rightarrow> (string \<rightharpoonup> rpz_rule) \<Rightarrow> (string \<rightharpoonup> rpz_rule) \<Rightarrow> (rpz_rule \<times> bool \<times> nat) option" where
  "rpzNameMatch L name exact wild =
     (case exact name of
        Some rule \<Rightarrow> Some (rule, True, CountLabel (names L) name)
      | None \<Rightarrow> nsdname_walk L wild name (ancestors_of L name))"

text \<open>\<open>bytes.Compare\<close> on labels from the right, then the number of labels.\<close>

fun lex_less :: "string \<Rightarrow> string \<Rightarrow> bool" where
  "lex_less [] bs = (bs \<noteq> [])"
| "lex_less (a # as) [] = False"
| "lex_less (a # as) (b # bs) =
     ((of_char a :: nat) < of_char b \<or> (of_char a :: nat) = of_char b \<and> lex_less as bs)"

fun reversed_less :: "string list \<Rightarrow> string list \<Rightarrow> bool" where
  "reversed_less (a # as) (b # bs) = (if a \<noteq> b then lex_less a b else reversed_less as bs)"
| "reversed_less as bs = (length as < length bs)"

definition rpzCanonicalNameLess :: "rpz_lib \<Rightarrow> string \<Rightarrow> string \<Rightarrow> bool" where
  "rpzCanonicalNameLess L left right =
     reversed_less (rev (SplitDomainName (names L) (to_lower left))) (rev (SplitDomainName (names L) (to_lower right)))"

text \<open>The best match so far: rule, name, whether exact, number of labels.\<close>

definition better_name ::
  "rpz_lib \<Rightarrow> string \<Rightarrow> bool \<Rightarrow> nat \<Rightarrow> (rpz_rule \<times> string \<times> bool \<times> nat) option \<Rightarrow> bool" where
  "better_name L name exact labels best =
     (case best of
        None \<Rightarrow> True
      | Some (_, bestName, bestExact, bestLabels) \<Rightarrow>
          exact \<and> \<not> bestExact \<or> exact = bestExact \<and> labels > bestLabels \<or>
          exact = bestExact \<and> labels = bestLabels \<and> rpzCanonicalNameLess L bestName name)"

definition nsdname_step ::
  "rpz_lib \<Rightarrow> rpz \<Rightarrow> (rpz_rule \<times> string \<times> bool \<times> nat) option \<Rightarrow> string \<Rightarrow> (rpz_rule \<times> string \<times> bool \<times> nat) option" where
  "nsdname_step L r best name =
     (let normalized = Fqdn (names L) (to_lower name) in
      case rpzNameMatch L normalized (nsDNameRules r) (nsDNameWildcards r) of
        Some (rule, exact, labels) \<Rightarrow>
          if better_name L normalized exact labels best then Some (rule, normalized, exact, labels) else best
      | None \<Rightarrow> best)"

definition matchNSDName :: "rpz_lib \<Rightarrow> rpz \<Rightarrow> string list \<Rightarrow> rpz_rule option" where
  "matchNSDName L r ns = (if nsDNameRuleCount r = 0 then None else map_option fst (foldl (nsdname_step L r) None ns))"

subsection \<open>Triggers on addresses\<close>

fun longest_match :: "ip_table \<Rightarrow> addr \<Rightarrow> nat list \<Rightarrow> (rpz_rule \<times> ip_prefix) option" where
  "longest_match tab a [] = None"
| "longest_match tab a (n # ns) =
     (let p = Masked (PrefixFrom a (int n)) in
      case Option.bind (tab n) (\<lambda>m. m (pfx_addr p)) of
        Some rule \<Rightarrow> Some (rule, p)
      | None \<Rightarrow> longest_match tab a ns)"

definition rpzIPMatch :: "addr \<Rightarrow> ip_rules \<Rightarrow> (rpz_rule \<times> ip_prefix) option" where
  "rpzIPMatch a t = longest_match (table_of a t) a (lengths_of a t)"

fun rpzComparableAddress :: "addr \<Rightarrow> 128 word" where
  "rpzComparableAddress (Addr4 w) = ucast w"
| "rpzComparableAddress (Addr6 w) = w"

text \<open>The address of an A or AAAA record, if there is one.\<close>

definition record_addr :: "rr \<Rightarrow> addr option" where
  "record_addr x =
     (case rr_data x of
        RA ip \<Rightarrow> if To4 ip = [] then None else Some (Addr4 (join_words (To4 ip)))
      | RAAAA ip \<Rightarrow> AddrFromSlice ip
      | _ \<Rightarrow> None)"

definition better_ip :: "int \<Rightarrow> 128 word \<Rightarrow> (rpz_rule \<times> int \<times> 128 word) option \<Rightarrow> bool" where
  "better_ip bits address best =
     (case best of
        None \<Rightarrow> True
      | Some (_, bestBits, bestAddress) \<Rightarrow> bits > bestBits \<or> bits = bestBits \<and> address < bestAddress)"

definition ip_step ::
  "ip_rules \<Rightarrow> (rpz_rule \<times> int \<times> 128 word) option \<Rightarrow> addr \<Rightarrow> (rpz_rule \<times> int \<times> 128 word) option" where
  "ip_step t best a =
     (case rpzIPMatch a t of
        None \<Rightarrow> best
      | Some (rule, p) \<Rightarrow>
          let bits = (if Is4 a then pfx_bits p + 96 else pfx_bits p); address = rpzComparableAddress (pfx_addr p)
          in if better_ip bits address best then Some (rule, bits, address) else best)"

definition bestRPZIPRule :: "ip_rules \<Rightarrow> addr list \<Rightarrow> rpz_rule option" where
  "bestRPZIPRule t as = map_option fst (foldl (ip_step t) None as)"

definition matchResponseIP :: "rpz \<Rightarrow> dmsg \<Rightarrow> rpz_rule option" where
  "matchResponseIP r msg =
     (if ip_count (responseIP r) = 0 then None
      else bestRPZIPRule (responseIP r) (List.map_filter record_addr (m_answer msg)))"

text \<open>The addresses of the name servers are wrapped into A and AAAA records and taken out again.\<close>

definition matchNSIP :: "rpz \<Rightarrow> addr list \<Rightarrow> rpz_rule option" where
  "matchNSIP r addresses = (if ip_count (nsIP r) = 0 then None else bestRPZIPRule (nsIP r) (map Unmap addresses))"

definition checkClientIP :: "rpz \<Rightarrow> addr option \<Rightarrow> verdict" where
  "checkClientIP r client =
     (case client of
        None \<Rightarrow> no_verdict
      | Some a \<Rightarrow>
          if \<not> rpz_enabled r \<or> ip_count (clientIP r) = 0 then no_verdict
          else (case rpzIPMatch (Unmap a) (clientIP r) of Some (rule, _) \<Rightarrow> verdict_of rule | None \<Rightarrow> no_verdict))"

subsection \<open>One zone\<close>

record nameserver_data =
  ns_Names :: "string list"
  ns_Addresses :: "addr list"

definition HasResponseDependentRules :: "rpz \<Rightarrow> bool" where
  "HasResponseDependentRules r \<longleftrightarrow>
     rpz_enabled r \<and> (ip_count (responseIP r) \<noteq> 0 \<or> nsDNameRuleCount r \<noteq> 0 \<or> ip_count (nsIP r) \<noteq> 0)"

definition CheckResponseWithNameservers :: "rpz_lib \<Rightarrow> rpz \<Rightarrow> string \<Rightarrow> dmsg \<Rightarrow> nameserver_data option \<Rightarrow> verdict" where
  "CheckResponseWithNameservers L r name msg nameservers =
     (let v = checkName L r name in
      if snd v \<noteq> RPZActionNone then v
      else if \<not> rpz_enabled r then no_verdict
      else (case matchResponseIP r msg of
              Some best \<Rightarrow> verdict_of best
            | None \<Rightarrow>
                (case nameservers of
                   None \<Rightarrow> no_verdict
                 | Some ns \<Rightarrow>
                     (case matchNSDName L r (ns_Names ns) of
                        Some best \<Rightarrow> verdict_of best
                      | None \<Rightarrow>
                          (case matchNSIP r (ns_Addresses ns) of
                             Some best \<Rightarrow> verdict_of best
                           | None \<Rightarrow> no_verdict)))))"

text \<open>\<open>ApplyToResponse\<close>: whether the response was changed, and the response.\<close>

definition emptied :: "dmsg \<Rightarrow> dmsg" where
  "emptied m = m\<lparr>m_answer := [], m_ns := [], m_extra := [], m_ad := False\<rparr>"

definition rewrite_cname :: "string \<Rightarrow> u32 \<Rightarrow> string \<Rightarrow> rr" where
  "rewrite_cname owner ttl target =
     \<lparr>rr_name = owner, rr_type = TypeCNAME, rr_class = ClassINET, rr_ttl = ttl, rr_data = RCNAME target\<rparr>"

definition ApplyToResponse :: "rpz_lib \<Rightarrow> rpz \<Rightarrow> dmsg \<Rightarrow> bool \<times> dmsg" where
  "ApplyToResponse L r msg =
     (case m_question msg of
        [] \<Rightarrow> (False, msg)
      | (name, _, _) # _ \<Rightarrow>
          (case CheckResponseWithNameservers L r name msg None of
             (None, _) \<Rightarrow> (False, msg)
           | (Some rule, RPZActionNXDomain) \<Rightarrow> (True, (emptied msg)\<lparr>m_rcode := RcodeNameError\<rparr>)
           | (Some rule, RPZActionNoData) \<Rightarrow> (True, (emptied msg)\<lparr>m_rcode := RcodeSuccess\<rparr>)
           | (Some rule, RPZActionRewrite) \<Rightarrow>
               if RewriteTarget rule \<noteq> []
               then (True, (emptied msg)\<lparr>m_answer := [rewrite_cname name 300 (RewriteTarget rule)]\<rparr>) else (False, msg)
           | _ \<Rightarrow> (False, msg)))"

subsection \<open>The zones in order\<close>

record rpz_aggregate =
  zones :: "rpz list"
  minNSDots :: int
  maxNSLookups :: int
  nameserverTimeout :: int

definition NewRPZAggregate :: rpz_aggregate where
  "NewRPZAggregate = \<lparr>zones = [], minNSDots = 1, maxNSLookups = 64, nameserverTimeout = 2000000000\<rparr>"

definition SetNameserverDiscovery :: "int \<Rightarrow> int \<Rightarrow> int \<Rightarrow> rpz_aggregate \<Rightarrow> rpz_aggregate" where
  "SetNameserverDiscovery dots lookups timeout a =
     a\<lparr>minNSDots := dots, maxNSLookups := lookups, nameserverTimeout := timeout\<rparr>"

definition aggregate_AddZone :: "rpz \<Rightarrow> rpz_aggregate \<Rightarrow> rpz_aggregate" where
  "aggregate_AddZone r a = a\<lparr>zones := zones a @ [r]\<rparr>"

fun check_names :: "rpz_lib \<Rightarrow> rpz list \<Rightarrow> string \<Rightarrow> verdict" where
  "check_names L [] name = no_verdict"
| "check_names L (r # rs) name =
     (let v = checkName L r name in if snd v \<noteq> RPZActionNone then v else check_names L rs name)"

definition aggregate_Check :: "rpz_lib \<Rightarrow> rpz_aggregate \<Rightarrow> string \<Rightarrow> verdict" where
  "aggregate_Check L a name = check_names L (zones a) name"

text \<open>What can be decided from the request alone; the flag says whether the result is final.\<close>

fun request_shortcut :: "rpz_lib \<Rightarrow> string \<Rightarrow> addr option \<Rightarrow> bool \<Rightarrow> rpz list \<Rightarrow> verdict \<times> bool" where
  "request_shortcut L name client prior [] = (no_verdict, \<not> prior)"
| "request_shortcut L name client prior (r # rs) =
     (let v = checkClientIP r client in
      if snd v \<noteq> RPZActionNone then (if prior then (no_verdict, False) else (v, True))
      else let v = checkName L r name in
        if snd v \<noteq> RPZActionNone then (if prior then (no_verdict, False) else (v, True))
        else request_shortcut L name client (prior \<or> HasResponseDependentRules r) rs)"

definition CheckRequestShortcut :: "rpz_lib \<Rightarrow> rpz_aggregate \<Rightarrow> string \<Rightarrow> addr option \<Rightarrow> verdict \<times> bool" where
  "CheckRequestShortcut L a name client = request_shortcut L name client False (zones a)"

definition CheckQueryShortcut :: "rpz_lib \<Rightarrow> rpz_aggregate \<Rightarrow> string \<Rightarrow> verdict \<times> bool" where
  "CheckQueryShortcut L a name = CheckRequestShortcut L a name None"

text \<open>What can be decided from the request and the response without the name servers.\<close>

fun response_shortcut :: "rpz_lib \<Rightarrow> string \<Rightarrow> addr option \<Rightarrow> dmsg \<Rightarrow> rpz list \<Rightarrow> verdict \<times> bool" where
  "response_shortcut L name client msg [] = (no_verdict, True)"
| "response_shortcut L name client msg (r # rs) =
     (let v = checkClientIP r client in
      if snd v \<noteq> RPZActionNone then (v, True)
      else let v = checkName L r name in
        if snd v \<noteq> RPZActionNone then (v, True)
        else (case matchResponseIP r msg of
                Some rule \<Rightarrow> (verdict_of rule, True)
              | None \<Rightarrow>
                  if rpz_enabled r \<and> (nsDNameRuleCount r \<noteq> 0 \<or> ip_count (nsIP r) \<noteq> 0) then (no_verdict, False)
                  else response_shortcut L name client msg rs))"

definition CheckRequestResponseShortcut ::
  "rpz_lib \<Rightarrow> rpz_aggregate \<Rightarrow> string \<Rightarrow> addr option \<Rightarrow> dmsg \<Rightarrow> verdict \<times> bool" where
  "CheckRequestResponseShortcut L a name client msg = response_shortcut L name client msg (zones a)"

definition CheckRequestResponse :: "rpz_lib \<Rightarrow> rpz_aggregate \<Rightarrow> string \<Rightarrow> addr option \<Rightarrow> dmsg \<Rightarrow> verdict" where
  "CheckRequestResponse L a name client msg =
     (case CheckRequestResponseShortcut L a name client msg of (v, decisive) \<Rightarrow> if decisive then v else no_verdict)"

definition aggregate_CheckResponse :: "rpz_lib \<Rightarrow> rpz_aggregate \<Rightarrow> string \<Rightarrow> dmsg \<Rightarrow> verdict" where
  "aggregate_CheckResponse L a name msg = CheckRequestResponse L a name None msg"

fun full_check :: "rpz_lib \<Rightarrow> string \<Rightarrow> addr option \<Rightarrow> dmsg \<Rightarrow> nameserver_data option \<Rightarrow> rpz list \<Rightarrow> verdict" where
  "full_check L name client msg ns [] = no_verdict"
| "full_check L name client msg ns (r # rs) =
     (let v = checkClientIP r client in
      if snd v \<noteq> RPZActionNone then v
      else let v = CheckResponseWithNameservers L r name msg ns in
        if snd v \<noteq> RPZActionNone then v else full_check L name client msg ns rs)"

definition CheckRequestResponseWithNameservers ::
  "rpz_lib \<Rightarrow> rpz_aggregate \<Rightarrow> string \<Rightarrow> addr option \<Rightarrow> dmsg \<Rightarrow> nameserver_data option \<Rightarrow> verdict" where
  "CheckRequestResponseWithNameservers L a name client msg ns = full_check L name client msg ns (zones a)"

text \<open>\<open>NameserverRequirements\<close>: whether names, whether addresses are needed, and the limits.\<close>

definition NameserverRequirements :: "rpz_aggregate \<Rightarrow> bool \<times> bool \<times> int \<times> int \<times> int" where
  "NameserverRequirements a =
     (list_ex (\<lambda>r. rpz_enabled r \<and> nsDNameRuleCount r \<noteq> 0) (zones a),
      list_ex (\<lambda>r. rpz_enabled r \<and> ip_count (nsIP r) \<noteq> 0) (zones a),
      minNSDots a, maxNSLookups a, nameserverTimeout a)"

end
