(* ===== verification/Rpz_Loader.thy ===== *)
theory Rpz_Loader
  imports Rpz Zone Nsec
begin

text \<open>
  The loader of policy files, \<open>internal/engine/rpz_loader.go\<close>: the owner names of a zone's CNAME records are the
  triggers, their targets the actions. The zone file itself is read by \<open>ParseZoneFile\<close>, a parameter.
\<close>

subsection \<open>Numbers, from \<open>strconv\<close>\<close>

definition digit_value :: "nat \<Rightarrow> char \<Rightarrow> nat option" where
  "digit_value base c =
     (let n = (of_char c :: nat);
          d = (if 48 \<le> n \<and> n \<le> 57 then Some (n - 48)
               else if 97 \<le> n \<and> n \<le> 122 then Some (n - 87)
               else if 65 \<le> n \<and> n \<le> 90 then Some (n - 55) else None)
      in case d of Some v \<Rightarrow> if v < base then Some v else None | None \<Rightarrow> None)"

fun digits_value :: "nat \<Rightarrow> nat \<Rightarrow> string \<Rightarrow> nat option" where
  "digits_value base acc [] = Some acc"
| "digits_value base acc (c # cs) =
     (case digit_value base c of Some d \<Rightarrow> digits_value base (acc * base + d) cs | None \<Rightarrow> None)"

text \<open>\<open>ParseUint(s, base, bits)\<close> and \<open>Atoi\<close>: a sign is accepted by the second only.\<close>

definition ParseUint :: "nat \<Rightarrow> nat \<Rightarrow> string \<Rightarrow> nat option" where
  "ParseUint base bits s =
     (if s = [] then None
      else case digits_value base 0 s of Some v \<Rightarrow> if v < 2 ^ bits then Some v else None | None \<Rightarrow> None)"

definition Atoi :: "string \<Rightarrow> int option" where
  "Atoi s =
     (let (neg, ds) = (case s of c # cs \<Rightarrow> if c = CHR ''-'' then (True, cs) else if c = CHR ''+'' then (False, cs) else (False, s)
                       | [] \<Rightarrow> (False, []))
      in if ds = [] then None
         else case digits_value 10 0 ds of
                Some v \<Rightarrow> if neg then (if int v \<le> 2 ^ 63 then Some (- int v) else None)
                          else (if int v < 2 ^ 63 then Some (int v) else None)
              | None \<Rightarrow> None)"

subsection \<open>Address triggers\<close>

definition parseRPZDecimal :: "string \<Rightarrow> int \<Rightarrow> int option" where
  "parseRPZDecimal value maximum =
     (if value = [] \<or> length value > 1 \<and> hd value = CHR ''0'' then None
      else case Atoi value of
             Some parsed \<Rightarrow> if parsed < 0 \<or> parsed > maximum then None else Some parsed
           | None \<Rightarrow> None)"

definition containsRPZCompression :: "string list \<Rightarrow> bool" where
  "containsRPZCompression labels = list_ex (\<lambda>l. l = ''zz'') labels"

text \<open>The first loop: the place of the compression label and the values of the others.\<close>

definition parse_word :: "string \<Rightarrow> u16 option" where
  "parse_word label =
     (if label = [] \<or> length label > 4 \<or> length label > 1 \<and> hd label = CHR ''0'' then None
      else map_option of_nat (ParseUint 16 16 label))"

fun parse_words :: "bool \<Rightarrow> string list \<Rightarrow> (u16 option) list option" where
  "parse_words seen [] = Some []"
| "parse_words seen (label # ls) =
     (if label = ''zz'' then (if seen then None else map_option ((#) None) (parse_words True ls))
      else case parse_word label of
             Some w \<Rightarrow> map_option ((#) (Some w)) (parse_words seen ls)
           | None \<Rightarrow> None)"

definition expand_words :: "nat \<Rightarrow> (u16 option) list \<Rightarrow> u16 list" where
  "expand_words zeros ws = concat (map (\<lambda>w. case w of Some w \<Rightarrow> [w] | None \<Rightarrow> replicate zeros 0) ws)"

definition parseRPZIPv6Words :: "string list \<Rightarrow> u16 list option" where
  "parseRPZIPv6Words reversed =
     (case parse_words False reversed of
        None \<Rightarrow> None
      | Some ws \<Rightarrow>
          if None \<notin> set ws \<and> length ws \<noteq> 8 then None
          else if None \<in> set ws \<and> length ws > 8 then None
          else let expanded = expand_words (9 - length ws) ws
               in if length expanded \<noteq> 8 then None else Some (rev expanded))"

fun parse_octets :: "string list \<Rightarrow> bytes option" where
  "parse_octets [] = Some []"
| "parse_octets (l # ls) =
     (case parseRPZDecimal l 255 of
        Some v \<Rightarrow> map_option ((#) (of_int v)) (parse_octets ls)
      | None \<Rightarrow> None)"

definition checked_prefix :: "addr \<Rightarrow> int \<Rightarrow> ip_prefix option" where
  "checked_prefix a bits =
     (let p = PrefixFrom a bits in if pfx_addr (Masked p) \<noteq> a then None else Some p)"

definition parseRPZIPTrigger :: "string \<Rightarrow> ip_prefix option" where
  "parseRPZIPTrigger encoded =
     (let labels = split_dots encoded in
      if length labels < 2 then None
      else case parseRPZDecimal (hd labels) 128 of
        None \<Rightarrow> None
      | Some bits \<Rightarrow>
          if bits = 0 then None
          else let addressLabels = tl labels in
            if length addressLabels = 4 \<and> \<not> containsRPZCompression addressLabels \<and> bits \<le> 32
            then Option.bind (parse_octets addressLabels) (\<lambda>octets. checked_prefix (Addr4 (join_words (rev octets))) bits)
            else Option.bind (parseRPZIPv6Words addressLabels) (\<lambda>words. checked_prefix (Addr6 (join_words words)) bits))"

subsection \<open>Files\<close>

definition rpzPolicyAction :: "string \<Rightarrow> rpz_action \<times> string" where
  "rpzPolicyAction target =
     (if target = ''.'' then (RPZActionNXDomain, [])
      else if target = ''*.'' then (RPZActionNoData, [])
      else if target = ''rpz-passthru.'' then (RPZActionPassthru, [])
      else if target = ''rpz-drop.'' then (RPZActionDrop, [])
      else (RPZActionRewrite, target))"

text \<open>The part of a relative owner before a reserved last label.\<close>

definition before_label :: "string \<Rightarrow> string \<Rightarrow> string option" where
  "before_label relative label = (if relative = label then Some [] else CutSuffix relative (''.'' @ label))"

definition cut_star :: "string \<Rightarrow> bool \<times> string" where
  "cut_star s = (if take 2 s = ''*.'' then (True, drop 2 s) else (False, s))"

datatype load_error = ZoneUnreadable | NoOrigin | DuplicatePolicy string | BadTrigger string | NoPolicies

text \<open>The rule that a relative owner stands for.\<close>

definition add_policy ::
  "rpz_lib \<Rightarrow> string \<Rightarrow> string \<Rightarrow> string \<Rightarrow> string \<Rightarrow> rpz_action \<times> string \<Rightarrow> rpz \<Rightarrow> load_error + rpz" where
  "add_policy L reason filename owner relative = (\<lambda>(action, target) r.
     let checked = (\<lambda>x. case x of Some r \<Rightarrow> Inr r | None \<Rightarrow> Inl (BadTrigger owner)) in
     case before_label relative ''rpz-ip'' of
       Some o' \<Rightarrow> checked (Option.bind (parseRPZIPTrigger o') (\<lambda>p. AddResponseIPRule L p action target reason filename r))
     | None \<Rightarrow>
         (case before_label relative ''rpz-client-ip'' of
            Some o' \<Rightarrow> checked (Option.bind (parseRPZIPTrigger o') (\<lambda>p. AddClientIPRule L p action target reason filename r))
          | None \<Rightarrow>
              (case before_label relative ''rpz-nsdname'' of
                 Some o' \<Rightarrow>
                   (let (wildcard, trigger) = cut_star o' in
                    if trigger = [] then Inl (BadTrigger owner)
                    else Inr (AddNSDNameRule L trigger action target reason filename wildcard r))
               | None \<Rightarrow>
                   (case before_label relative ''rpz-nsip'' of
                      Some o' \<Rightarrow> checked (Option.bind (parseRPZIPTrigger o') (\<lambda>p. AddNSIPRule L p action target reason filename r))
                    | None \<Rightarrow>
                        (let (wildcard, trigger) = cut_star relative
                         in Inr (addRule L trigger action target reason filename wildcard wildcard r))))))"

fun load_records ::
  "rpz_lib \<Rightarrow> string \<Rightarrow> string \<Rightarrow> string \<Rightarrow> string list \<Rightarrow> nat \<Rightarrow> rpz \<Rightarrow> rr list \<Rightarrow> load_error + nat \<times> rpz" where
  "load_records L reason filename origin owners count r [] = Inr (count, r)"
| "load_records L reason filename origin owners count r (x # xs) =
     (case rr_data x of
        RCNAME tgt \<Rightarrow>
          (let owner = to_lower (Fqdn (names L) (rr_name x)) in
           if \<not> IsSubDomain (names L) origin owner \<or> owner = origin
           then load_records L reason filename origin owners count r xs
           else let relative = TrimSuffix (TrimSuffix owner origin) ''.'' in
             if relative = [] then load_records L reason filename origin owners count r xs
             else if owner \<in> set owners then Inl (DuplicatePolicy owner)
             else (case add_policy L reason filename owner relative (rpzPolicyAction (to_lower (Fqdn (names L) tgt))) r of
                     Inl e \<Rightarrow> Inl e
                   | Inr r \<Rightarrow> load_records L reason filename origin (owner # owners) (count + 1) r xs))
      | _ \<Rightarrow> load_records L reason filename origin owners count r xs)"

definition LoadRPZFile ::
  "rpz_lib \<Rightarrow> (string \<Rightarrow> zone option) \<Rightarrow> string \<Rightarrow> string \<Rightarrow> string \<Rightarrow> load_error + rpz" where
  "LoadRPZFile L ParseZoneFile name filename reason =
     (case ParseZoneFile filename of
        None \<Rightarrow> Inl ZoneUnreadable
      | Some parsed \<Rightarrow>
          if Origin parsed = [] then Inl NoOrigin
          else let reason = (if reason = [] then name else reason);
                   origin = to_lower (Fqdn (names L) (Origin parsed))
               in case load_records L reason filename origin [] 0 (NewRPZ name) (GetAllRecords parsed) of
                    Inl e \<Rightarrow> Inl e
                  | Inr (count, r) \<Rightarrow> if count = 0 then Inl NoPolicies else Inr r)"

end
