(* ===== verification/Rpz_Server.thy ===== *)
theory Rpz_Server
  imports Server Rpz_Loader "HOL-Library.List_Lexorder" "HOL-Library.Char_ord"
begin

text \<open>
  Response policies in the server: \<open>internal/server/rpz.go\<close> (configuration, the stages and the action of a rule) and
  \<open>internal/resolver/rpz_nameservers.go\<close> (the name servers of an answer), as policies of the query handler.
\<close>

subsection \<open>The name servers of an answer\<close>

text \<open>\<open>Addr.Compare\<close>: IPv4 before IPv6, then by value.\<close>

instantiation addr :: linorder
begin

definition less_eq_addr :: "addr \<Rightarrow> addr \<Rightarrow> bool" where
  "less_eq_addr a b \<longleftrightarrow> Is4 a \<and> \<not> Is4 b \<or> Is4 a = Is4 b \<and> rpzComparableAddress a \<le> rpzComparableAddress b"

definition less_addr :: "addr \<Rightarrow> addr \<Rightarrow> bool" where
  "less_addr a b \<longleftrightarrow> a \<le> b \<and> \<not> b \<le> (a :: addr)"

lemma comparable_inj: "Is4 a = Is4 b \<Longrightarrow> rpzComparableAddress a = rpzComparableAddress b \<Longrightarrow> a = b"
proof (cases a; cases b)
  fix v w assume eq: "rpzComparableAddress a = rpzComparableAddress b" and ab: "a = Addr4 v" "b = Addr4 w"
  have b: "bit (ucast v :: 128 word) n = bit (ucast w :: 128 word) n" for n using eq ab by simp
  have "v = w"
  proof (rule bit_word_eqI)
    fix n assume "n < LENGTH(32)"
    then show "bit v n = bit w n" using b[of n] by (simp add: bit_simps)
  qed
  then show "a = b" using ab by simp
qed simp_all

instance
  by standard (auto simp: less_eq_addr_def less_addr_def intro: comparable_inj)

end

text \<open>Sets of names and addresses are lists without repetition.\<close>

definition add_new :: "'a \<Rightarrow> 'a list \<Rightarrow> 'a list" where
  "add_new x xs = (if x \<in> set xs then xs else xs @ [x])"

definition rpzAnswerOwners :: "rpz_lib \<Rightarrow> dmsg \<Rightarrow> string list" where
  "rpzAnswerOwners L response =
     sort (fold (\<lambda>x owners. if rr_type x = TypeRRSIG \<or> rr_type x = TypeOPT then owners
                            else add_new (Fqdn (names L) (to_lower (rr_name x))) owners) (m_answer response) [])"

definition rpzParentName :: "rpz_lib \<Rightarrow> string \<Rightarrow> string" where
  "rpzParentName L name =
     (let labels = SplitDomainName (names L) name
      in if length labels \<le> 1 then ''.'' else Fqdn (names L) (join_labels (tl labels)))"

text \<open>
  The address of a record as the two collectors read it, and the collectors. \<open>collectRPZAddresses\<close> looks at the
  records of one owner.
\<close>

definition collectRPZAnswerAddresses :: "rr list \<Rightarrow> addr list \<Rightarrow> addr list" where
  "collectRPZAnswerAddresses records addresses = fold (\<lambda>a. add_new (Unmap a)) (List.map_filter record_addr records) addresses"

definition collectRPZAddresses :: "rr list \<Rightarrow> string \<Rightarrow> addr list \<Rightarrow> addr list" where
  "collectRPZAddresses records owner = collectRPZAnswerAddresses (filter (\<lambda>x. equal_fold (rr_name x) owner) records)"

definition ns_of :: "rpz_lib \<Rightarrow> string \<Rightarrow> rr \<Rightarrow> string option" where
  "ns_of L owner x =
     (case rr_data x of
        RNS ns \<Rightarrow> if owner \<noteq> ''.'' \<and> \<not> equal_fold (rr_name x) owner then None else Some (Fqdn (names L) (to_lower ns))
      | _ \<Rightarrow> None)"

definition collectRPZNSRecords ::
  "rpz_lib \<Rightarrow> dmsg \<Rightarrow> string \<Rightarrow> string list \<times> addr list \<Rightarrow> string list \<times> addr list" where
  "collectRPZNSRecords L response owner = (\<lambda>(ns, addresses).
     let owner = Fqdn (names L) (to_lower owner);
         discovered = List.map_filter (ns_of L owner) (m_answer response @ m_ns response)
     in (fold add_new discovered ns, fold (collectRPZAddresses (m_extra response)) discovered addresses))"

text \<open>
  The ancestors of one owner, from the owner upwards, until there are too few labels, the root, or the limit. The
  library's name functions decide when the root is reached; the fuel is the number of labels and one more.
\<close>

fun ancestor_walk :: "rpz_lib \<Rightarrow> int \<Rightarrow> int \<Rightarrow> nat \<Rightarrow> string \<Rightarrow> string list \<Rightarrow> string list" where
  "ancestor_walk L dots limit 0 ancestor found = found"
| "ancestor_walk L dots limit (Suc k) ancestor found =
     (if int (CountLabel (names L) ancestor) < dots then found
      else let found = add_new ancestor found in
        if ancestor = ''.'' \<or> int (length found) \<ge> limit then found
        else ancestor_walk L dots limit k (rpzParentName L ancestor) found)"

fun all_ancestors :: "rpz_lib \<Rightarrow> int \<Rightarrow> int \<Rightarrow> string list \<Rightarrow> string list \<Rightarrow> string list" where
  "all_ancestors L dots limit [] found = found"
| "all_ancestors L dots limit (owner # owners) found =
     (let found = ancestor_walk L dots limit (Suc (Suc (length (SplitDomainName (names L) owner)))) owner found
      in if int (length found) \<ge> limit then found else all_ancestors L dots limit owners found)"

text \<open>A lookup may fail; \<open>timed_out\<close> is the deadline of the context.\<close>

type_synonym 'w lookup = "'w \<Rightarrow> string \<Rightarrow> u16 \<Rightarrow> dmsg option \<times> 'w"

fun lookup_ns ::
  "rpz_lib \<Rightarrow> ('w \<Rightarrow> bool) \<Rightarrow> 'w lookup \<Rightarrow> int \<Rightarrow> string list \<Rightarrow> int \<Rightarrow> string list \<times> addr list \<Rightarrow> 'w \<Rightarrow>
   int \<times> (string list \<times> addr list) \<times> 'w" where
  "lookup_ns L timed_out query limit [] count acc w = (count, acc, w)"
| "lookup_ns L timed_out query limit (a # as) count acc w =
     (if count \<ge> limit \<or> timed_out w then (count, acc, w)
      else case query w a TypeNS of
             (None, w) \<Rightarrow> lookup_ns L timed_out query limit as (count + 1) acc w
           | (Some resp, w) \<Rightarrow> lookup_ns L timed_out query limit as (count + 1) (collectRPZNSRecords L resp a acc) w)"

fun lookup_addresses ::
  "('w \<Rightarrow> bool) \<Rightarrow> 'w lookup \<Rightarrow> int \<Rightarrow> (string \<times> u16) list \<Rightarrow> int \<Rightarrow> addr list \<Rightarrow> 'w \<Rightarrow> addr list \<times> 'w" where
  "lookup_addresses timed_out query limit [] count acc w = (acc, w)"
| "lookup_addresses timed_out query limit ((name, qtype) # qs) count acc w =
     (if count \<ge> limit \<or> timed_out w then (acc, w)
      else case query w name qtype of
             (None, w) \<Rightarrow> lookup_addresses timed_out query limit qs (count + 1) acc w
           | (Some resp, w) \<Rightarrow> lookup_addresses timed_out query limit qs (count + 1) (collectRPZAnswerAddresses (m_answer resp) acc) w)"

definition absoluteMaxRPZNameserverLookups :: int where
  "absoluteMaxRPZNameserverLookups = 256"

definition discoverRPZNameservers ::
  "rpz_lib \<Rightarrow> ('w \<Rightarrow> bool) \<Rightarrow> 'w lookup \<Rightarrow> dmsg \<Rightarrow> bool \<Rightarrow> int \<Rightarrow> int \<Rightarrow> 'w \<Rightarrow> nameserver_data \<times> 'w" where
  "discoverRPZNameservers L timed_out query response needAddresses minDots maxLookups w =
     (let dots = (if minDots < 0 then 0 else minDots);
          limit = (if maxLookups < 1 \<or> maxLookups > absoluteMaxRPZNameserverLookups then absoluteMaxRPZNameserverLookups
                   else maxLookups);
          start = collectRPZNSRecords L response [] ([], []);
          ancestors = all_ancestors L dots limit (rpzAnswerOwners L response) [];
          (count, (ns, addresses), w) = lookup_ns L timed_out query limit ancestors 0 start w;
          (addresses, w) =
            (if needAddresses
             then lookup_addresses timed_out query limit (concat (map (\<lambda>n. [(n, TypeA), (n, TypeAAAA)]) (sort ns))) count addresses w
             else (addresses, w))
      in (\<lparr>ns_Names = sort ns, ns_Addresses = sort addresses\<rparr>, w))"

subsection \<open>Configuration\<close>

record rpz_regex_config =
  Pattern :: string
  RegexAction :: string
  Target :: string
  RegexReason :: string

record rpz_zone_config =
  ZoneName :: string
  File :: string
  ZoneReason :: string
  Priority :: int
  RegexRules :: "rpz_regex_config list"

record rpz_config =
  RPZEnabled :: bool
  MinNSDots :: int
  MaxNSLookups :: int
  NameserverLookupTimeout :: int
  Zones :: "rpz_zone_config list"

datatype reload_error =
    NoZones | BadDots | BadLookups | BadTimeout | NameRequired | SourceRequired string | DuplicateName string
  | LoadFailed string load_error | UnknownAction string | RegexFailed string regex_error

definition parseRPZAction :: "string \<Rightarrow> rpz_action option" where
  "parseRPZAction value =
     (let v = to_lower (TrimSpace value) in
      if v = ''nxdomain'' then Some RPZActionNXDomain else if v = ''nodata'' then Some RPZActionNoData
      else if v = ''passthru'' \<or> v = ''allow'' then Some RPZActionPassthru else if v = ''drop'' then Some RPZActionDrop
      else if v = ''rewrite'' then Some RPZActionRewrite else None)"

fun add_regex_rules :: "rpz_lib \<Rightarrow> string \<Rightarrow> string \<Rightarrow> rpz_regex_config list \<Rightarrow> rpz \<Rightarrow> reload_error + rpz" where
  "add_regex_rules L name zoneReason [] r = Inr r"
| "add_regex_rules L name zoneReason (c # cs) r =
     (case parseRPZAction (RegexAction c) of
        None \<Rightarrow> Inl (UnknownAction name)
      | Some action \<Rightarrow>
          let reason = (if RegexReason c = [] then zoneReason else RegexReason c) in
          (case AddRegexRule L (Pattern c) action (Target c) reason (''config:'' @ name) r of
             Inl e \<Rightarrow> Inl (RegexFailed name e)
           | Inr r \<Rightarrow> add_regex_rules L name zoneReason cs r))"

fun reload_zones ::
  "rpz_lib \<Rightarrow> (string \<Rightarrow> zone option) \<Rightarrow> string list \<Rightarrow> rpz_zone_config list \<Rightarrow> rpz_aggregate \<Rightarrow> reload_error + rpz_aggregate" where
  "reload_zones L parse seen [] a = Inr a"
| "reload_zones L parse seen (c # cs) a =
     (let name = TrimSpace (ZoneName c) in
      if name = [] then Inl NameRequired
      else if File c = [] \<and> RegexRules c = [] then Inl (SourceRequired name)
      else if to_lower name \<in> set seen then Inl (DuplicateName name)
      else case (if File c \<noteq> [] then LoadRPZFile L parse name (File c) (ZoneReason c) else Inr (NewRPZ name)) of
             Inl e \<Rightarrow> Inl (LoadFailed name e)
           | Inr policy \<Rightarrow>
               (case add_regex_rules L name (ZoneReason c) (RegexRules c) policy of
                  Inl e \<Rightarrow> Inl e
                | Inr policy \<Rightarrow> reload_zones L parse (to_lower name # seen) cs (aggregate_AddZone policy a)))"

text \<open>\<open>ReloadRPZ\<close>: an error and the policies in force afterwards.\<close>

definition ReloadRPZ ::
  "rpz_lib \<Rightarrow> (string \<Rightarrow> zone option) \<Rightarrow> rpz_config \<Rightarrow> rpz_aggregate option \<Rightarrow> reload_error option \<times> rpz_aggregate option" where
  "ReloadRPZ L parse conf policy_set =
     (if \<not> RPZEnabled conf then (None, None)
      else let lookups = (if MaxNSLookups conf = 0 then 64 else MaxNSLookups conf);
               timeout = (if NameserverLookupTimeout conf = 0 then 2000000000 else NameserverLookupTimeout conf) in
        if Zones conf = [] then (Some NoZones, policy_set)
        else if MinNSDots conf < 0 \<or> MinNSDots conf > 127 then (Some BadDots, policy_set)
        else if lookups < 1 \<or> lookups > 256 then (Some BadLookups, policy_set)
        else if timeout < 10000000 \<or> timeout > 30000000000 then (Some BadTimeout, policy_set)
        else (case reload_zones L parse [] (sort_key Priority (Zones conf))
                     (SetNameserverDiscovery (MinNSDots conf) lookups timeout NewRPZAggregate) of
                Inl e \<Rightarrow> (Some e, policy_set)
              | Inr a \<Rightarrow> (None, Some a)))"

subsection \<open>The action of a rule\<close>

definition rpzClientAddress :: "ip \<Rightarrow> addr option" where
  "rpzClientAddress src_ip = map_option Unmap (AddrFromSlice src_ip)"

text \<open>\<open>AddFiltered\<close> adds the extended error to the OPT record, making the record if there is none.\<close>

datatype rpz_outcome = NotMatched | Dropped | Changed dmsg

definition applyRPZAction :: "msg_lib \<Rightarrow> (dmsg \<Rightarrow> dmsg) \<Rightarrow> dmsg \<Rightarrow> dmsg \<Rightarrow> verdict \<Rightarrow> rpz_outcome" where
  "applyRPZAction M AddFiltered req resp v =
     (case v of
        (None, _) \<Rightarrow> NotMatched
      | (Some rule, action) \<Rightarrow>
          if action = RPZActionNone \<or> action = RPZActionPassthru then NotMatched
          else if action = RPZActionDrop then Dropped
          else let resp = emptied resp;
                   resp = (case action of
                             RPZActionNXDomain \<Rightarrow> resp\<lparr>m_rcode := RcodeNameError\<rparr>
                           | RPZActionNoData \<Rightarrow> resp\<lparr>m_rcode := RcodeSuccess\<rparr>
                           | RPZActionRewrite \<Rightarrow> resp\<lparr>m_rcode := RcodeSuccess,
                                m_answer := [rewrite_cname (fst (hd (m_question req))) 60 (RewriteTarget rule)]\<rparr>
                           | _ \<Rightarrow> resp)
               in Changed (if IsEdns0 M req \<noteq> None then AddFiltered resp else resp))"

definition as_response :: "rpz_outcome \<Rightarrow> rpz_response" where
  "as_response out = (case out of NotMatched \<Rightarrow> RpzKeep | Dropped \<Rightarrow> RpzDropResponse | Changed m \<Rightarrow> RpzReplace m)"

definition applyRPZQuery ::
  "rpz_lib \<Rightarrow> msg_lib \<Rightarrow> (dmsg \<Rightarrow> dmsg) \<Rightarrow> rpz_aggregate option \<Rightarrow> dmsg \<Rightarrow> dmsg \<Rightarrow> ip \<Rightarrow> rpz_query" where
  "applyRPZQuery L M AddFiltered policy_set req resp src_ip =
     (case policy_set of
        None \<Rightarrow> RpzPass
      | Some a \<Rightarrow>
          if length (m_question req) \<noteq> 1 then RpzPass
          else let (v, decisive) = CheckRequestShortcut L a (fst (hd (m_question req))) (rpzClientAddress src_ip) in
            if \<not> decisive then RpzUndecided
            else (case applyRPZAction M AddFiltered req resp v of
                    NotMatched \<Rightarrow> RpzPass | Dropped \<Rightarrow> RpzDrop | Changed m \<Rightarrow> RpzAnswer m))"

definition applyRPZResponse ::
  "rpz_lib \<Rightarrow> msg_lib \<Rightarrow> (dmsg \<Rightarrow> dmsg) \<Rightarrow> rpz_aggregate option \<Rightarrow> dmsg \<Rightarrow> dmsg \<Rightarrow> ip \<Rightarrow> rpz_response" where
  "applyRPZResponse L M AddFiltered policy_set req resp src_ip =
     (case policy_set of
        None \<Rightarrow> RpzKeep
      | Some a \<Rightarrow>
          if length (m_question req) \<noteq> 1 then RpzKeep
          else let (v, decisive) = CheckRequestResponseShortcut L a (fst (hd (m_question req))) (rpzClientAddress src_ip) resp in
            if \<not> decisive then RpzKeep else as_response (applyRPZAction M AddFiltered req resp v))"

definition applyRPZResponseWithNameservers ::
  "rpz_lib \<Rightarrow> msg_lib \<Rightarrow> (dmsg \<Rightarrow> dmsg) \<Rightarrow> rpz_aggregate option \<Rightarrow> dmsg \<Rightarrow> dmsg \<Rightarrow> ip \<Rightarrow> nameserver_data option \<Rightarrow> rpz_response" where
  "applyRPZResponseWithNameservers L M AddFiltered policy_set req resp src_ip ns =
     (case policy_set of
        None \<Rightarrow> RpzKeep
      | Some a \<Rightarrow>
          if length (m_question req) \<noteq> 1 then RpzKeep
          else as_response (applyRPZAction M AddFiltered req resp
                 (CheckRequestResponseWithNameservers L a (fst (hd (m_question req))) (rpzClientAddress src_ip) resp ns)))"

text \<open>The block of the recursive path: the shortcut, the discovery when rules need it, the complete evaluation.\<close>

definition rpz_recursive ::
  "rpz_lib \<Rightarrow> msg_lib \<Rightarrow> (dmsg \<Rightarrow> dmsg) \<Rightarrow> ('w \<Rightarrow> int) \<Rightarrow> 'w lookup \<Rightarrow> rpz_aggregate option \<Rightarrow> 'w \<Rightarrow> dmsg \<Rightarrow> dmsg \<Rightarrow> ip \<Rightarrow>
   rpz_response \<times> 'w" where
  "rpz_recursive L M AddFiltered now_at query policy_set w req resp src_ip =
     (case policy_set of
        None \<Rightarrow> (RpzKeep, w)
      | Some a \<Rightarrow>
          let (v, decisive) = CheckRequestResponseShortcut L a (fst (hd (m_question req))) (rpzClientAddress src_ip) resp in
          if decisive then (as_response (applyRPZAction M AddFiltered req resp v), w)
          else let (needNames, needAddresses, dots, lookups, timeout) = NameserverRequirements a; deadline = now_at w + timeout;
                   (ns, w) = (if needNames \<or> needAddresses
                              then (case discoverRPZNameservers L (\<lambda>w. now_at w \<ge> deadline) query resp needAddresses dots lookups w of
                                      (ns, w) \<Rightarrow> (Some ns, w))
                              else (None, w))
               in (applyRPZResponseWithNameservers L M AddFiltered policy_set req resp src_ip ns, w))"

subsection \<open>As policies of the handler\<close>

text \<open>\<open>Recursive.Query\<close>: a question asked of the server's own resolver, with a random identifier.\<close>

definition resolver_query :: "nsec_lib \<Rightarrow> msg_lib \<Rightarrow> 'w deps \<Rightarrow> resolver \<Rightarrow> u16 \<Rightarrow> 'w rstate lookup" where
  "resolver_query L M d res qid st name qtype =
     (case Resolve L d res st (SetEdns0 M 1232 True ((baseQuery (name, qtype, ClassINET))\<lparr>m_id := qid, m_rd := True\<rparr>)) of
        (Inl e, st) \<Rightarrow> (None, st) | (Inr m, st) \<Rightarrow> (Some m, st))"

definition with_rpz ::
  "rpz_lib \<Rightarrow> (dmsg \<Rightarrow> dmsg) \<Rightarrow> u16 \<Rightarrow> ('p \<Rightarrow> rpz_aggregate option) \<Rightarrow> resolver \<Rightarrow> ('w, 'p) env \<Rightarrow> ('w, 'p) env" where
  "with_rpz L AddFiltered qid policy_set res E =
     E\<lparr>resolver_of := Some res,
       policies_of := (policies_of E)
         \<lparr>RpzQuery := (\<lambda>p. applyRPZQuery L (msgl E) AddFiltered (policy_set p)),
          RpzAuthoritative := (\<lambda>p. applyRPZResponse L (msgl E) AddFiltered (policy_set p)),
          RpzRecursive := (\<lambda>p. rpz_recursive L (msgl E) AddFiltered (\<lambda>st. time (deps_of E) (snd (upstream st)))
             (resolver_query (dnsl E) (msgl E) (deps_of E) res qid) (policy_set p))\<rparr>\<rparr>"

end
