(* ===== verification/Rpz_Props.thy ===== *)
theory Rpz_Props
  imports Rpz
begin

text \<open>
  The address tables refine a finite map from prefixes to rules with longest-prefix lookup; the staged evaluation
  of the zones decides as the complete evaluation does.
\<close>

subsection \<open>The address tables as a map from prefixes\<close>

definition content :: "ip_rules \<Rightarrow> addr \<times> nat \<rightharpoonup> rpz_rule" where
  "content t = (\<lambda>(a, n). Option.bind (table_of a t n) (\<lambda>m. m a))"

definition lengths_ok :: "nat \<Rightarrow> ip_table \<Rightarrow> nat list \<Rightarrow> bool" where
  "lengths_ok w tab ns \<longleftrightarrow> sorted_wrt (>) ns \<and> set ns = dom tab \<and> (\<forall>n \<in> set ns. n \<le> w)"

definition canonical_prefix :: "addr \<times> nat \<Rightarrow> bool" where
  "canonical_prefix = (\<lambda>(a, n). 1 \<le> n \<and> n \<le> BitLen a \<and> masked n a = a)"

definition ip_ok :: "ip_rules \<Rightarrow> bool" where
  "ip_ok t \<longleftrightarrow> lengths_ok 32 (tab4 t) (lengths4 t) \<and> lengths_ok 128 (tab6 t) (lengths6 t) \<and> finite (dom (content t)) \<and>
     ip_count t = int (card (dom (content t))) \<and> (\<forall>p \<in> dom (content t). canonical_prefix p)"

lemma Is4_masked [simp]: "Is4 (masked n a) = Is4 a"
  by (cases a) simp_all

lemma BitLen_masked [simp]: "BitLen (masked n a) = BitLen a"
  by (simp add: BitLen_def)

lemma masked_idem [simp]: "masked n (masked n a) = masked n a"
  by (cases a) (simp_all add: word_bw_assocs)

lemma table_of_masked [simp]: "table_of (masked n a) t = table_of a t"
  by (simp add: table_of_def)

lemma lengths_ok_insert:
  assumes "lengths_ok w tab ns" "tab n = None" "n \<le> w"
  shows "lengths_ok w (tab(n \<mapsto> m)) (rev (sort (ns @ [n])))"
proof -
  have n: "n \<notin> set ns" using assms by (simp add: lengths_ok_def domIff)
  have "sorted_wrt (<) (rev ns)" using assms(1) by (simp add: lengths_ok_def sorted_wrt_rev)
  then have d: "distinct ns" by (simp add: strict_sorted_iff)
  with n have "sorted_wrt (<) (sort (ns @ [n]))" by (simp add: strict_sorted_iff)
  then have "sorted_wrt (>) (rev (sort (ns @ [n])))" by (simp add: sorted_wrt_rev)
  then show ?thesis using assms by (auto simp: lengths_ok_def)
qed

lemma lengths_ok_update: "lengths_ok w tab ns \<Longrightarrow> tab n \<noteq> None \<Longrightarrow> lengths_ok w (tab(n \<mapsto> m)) ns"
  by (auto simp: lengths_ok_def)

lemma content_store: "content (store_ip_rule a n rule t) = (content t)((a, n) \<mapsto> rule)"
proof (rule ext)
  fix p :: "addr \<times> nat"
  obtain b k where p: "p = (b, k)" by (cases p)
  show "content (store_ip_rule a n rule t) p = ((content t)((a, n) \<mapsto> rule)) p"
    by (cases "table_of a t n") (auto simp: p content_def store_ip_rule_def table_of_def Let_def split: if_splits)
qed

lemma store_lengths:
  assumes "lengths_ok 32 (tab4 t) (lengths4 t)" "lengths_ok 128 (tab6 t) (lengths6 t)" "n \<le> BitLen a"
  shows "lengths_ok 32 (tab4 (store_ip_rule a n rule t)) (lengths4 (store_ip_rule a n rule t)) \<and>
    lengths_ok 128 (tab6 (store_ip_rule a n rule t)) (lengths6 (store_ip_rule a n rule t))"
proof -
  have *: "lengths_ok w (tab(n \<mapsto> Map.empty, n \<mapsto> m)) (rev (sort (ns @ [n])))" if "lengths_ok w tab ns" "tab n = None" "n \<le> w" for w tab ns m
    using that lengths_ok_insert by simp
  have **: "lengths_ok w (tab(n \<mapsto> m)) ns" if "lengths_ok w tab ns" "tab n = Some m'" for w tab ns m m'
    using that lengths_ok_update by simp
  show ?thesis
    using assms *[OF assms(1)] *[OF assms(2)] **[OF assms(1)] **[OF assms(2)]
    by (cases "Is4 a"; cases "table_of a t n") (simp_all add: store_ip_rule_def table_of_def lengths_of_def Let_def BitLen_def)
qed

lemma store_count:
  "ip_count (store_ip_rule a n rule t) = ip_count t + (if content t (a, n) = None then 1 else 0)"
  by (cases "table_of a t n") (simp_all add: store_ip_rule_def content_def Let_def)

lemma store_ok:
  assumes "ip_ok t" "canonical_prefix (a, n)"
  shows "ip_ok (store_ip_rule a n rule t)"
proof -
  let ?t = "store_ip_rule a n rule t"
  have "dom (content ?t) = insert (a, n) (dom (content t))" by (simp add: content_store)
  moreover have "finite (dom (content t))" using assms(1) by (simp add: ip_ok_def)
  ultimately show ?thesis
    using assms store_lengths[of t n a rule] store_count[of a n rule t]
    by (simp add: ip_ok_def content_store card_insert_if domIff canonical_prefix_def)
qed

lemma no_ip_rules_content [simp]: "content no_ip_rules = Map.empty"
  by (rule ext) (simp add: content_def no_ip_rules_def table_of_def split: prod.split)

lemma no_ip_rules_ok: "ip_ok no_ip_rules"
  by (simp add: ip_ok_def) (simp add: no_ip_rules_def lengths_ok_def)

text \<open>The tables that the operations build.\<close>

inductive ip_reach :: "rpz_lib \<Rightarrow> ip_rules \<Rightarrow> bool" for L where
  empty: "ip_reach L no_ip_rules"
| added: "ip_reach L t \<Longrightarrow> add_ip_rule L zone p action target reason source t = Some t' \<Longrightarrow> ip_reach L t'"

lemma add_ip_rule_content:
  assumes "add_ip_rule L zone p action target reason source t = Some t'"
  shows "\<exists>rule. t' = store_ip_rule (masked (nat (pfx_bits p)) (pfx_addr p)) (nat (pfx_bits p)) rule t \<and> Action rule = action \<and>
    canonical_prefix (masked (nat (pfx_bits p)) (pfx_addr p), nat (pfx_bits p))"
  using assms
  by (auto simp: add_ip_rule_def Let_def Masked_def canonical_prefix_def BitLen_def split: if_splits)

lemma ip_reach_ok: "ip_reach L t \<Longrightarrow> ip_ok t"
proof (induction rule: ip_reach.induct)
  case (added t zone p action target reason source t')
  then show ?case using add_ip_rule_content[OF added(2)] store_ok by blast
qed (rule no_ip_rules_ok)

definition hit :: "ip_table \<Rightarrow> addr \<Rightarrow> nat \<Rightarrow> rpz_rule option" where
  "hit tab a n = Option.bind (tab n) (\<lambda>m. m (masked n a))"

lemma longest_match_Cons:
  "n \<le> BitLen a \<Longrightarrow> longest_match tab a (n # ns) =
    (case hit tab a n of Some rule \<Rightarrow> Some (rule, \<lparr>pfx_addr = masked n a, pfx_bits = int n\<rparr>) | None \<Rightarrow> longest_match tab a ns)"
  by (simp add: hit_def Masked_def PrefixFrom_def)

lemma longest_match_None:
  "\<forall>n \<in> set ns. n \<le> BitLen a \<Longrightarrow> longest_match tab a ns = None \<longleftrightarrow> (\<forall>n \<in> set ns. hit tab a n = None)"
  by (induction ns) (auto simp: longest_match_Cons simp del: longest_match.simps(2) split: option.split)

lemma longest_match_Some:
  assumes "sorted_wrt (>) ns" "\<forall>n \<in> set ns. n \<le> BitLen a"
  shows "longest_match tab a ns = Some (rule, p) \<longleftrightarrow>
    (\<exists>n \<in> set ns. p = \<lparr>pfx_addr = masked n a, pfx_bits = int n\<rparr> \<and> hit tab a n = Some rule \<and>
       (\<forall>k \<in> set ns. k > n \<longrightarrow> hit tab a k = None))"
  using assms
proof (induction ns)
  case (Cons n ns)
  have IH: "longest_match tab a ns = Some (rule, p) \<longleftrightarrow>
    (\<exists>n \<in> set ns. p = \<lparr>pfx_addr = masked n a, pfx_bits = int n\<rparr> \<and> hit tab a n = Some rule \<and>
       (\<forall>k \<in> set ns. k > n \<longrightarrow> hit tab a k = None))" using Cons by simp
  have lt: "k < n" if "k \<in> set ns" for k using Cons.prems(1) that by simp
  have step: "longest_match tab a (n # ns) =
    (case hit tab a n of Some rule \<Rightarrow> Some (rule, \<lparr>pfx_addr = masked n a, pfx_bits = int n\<rparr>) | None \<Rightarrow> longest_match tab a ns)"
    using Cons.prems(2) by (intro longest_match_Cons) simp
  show ?case
  proof (cases "hit tab a n")
    case None
    then show ?thesis using lt by (simp only: step IH option.case) auto
  next
    case (Some r)
    have "\<not> (\<exists>k \<in> set ns. \<forall>j \<in> set (n # ns). j > k \<longrightarrow> hit tab a j = None)" using Some lt by auto
    moreover have "\<forall>j \<in> set (n # ns). j > n \<longrightarrow> hit tab a j = None" using lt by fastforce
    ultimately show ?thesis using Some by (simp only: step option.case) auto
  qed
qed simp

definition inside :: "addr \<Rightarrow> addr \<times> nat \<Rightarrow> bool" where
  "inside a = (\<lambda>(b, n). masked n a = b)"

lemma hit_content: "hit (table_of a t) a n = content t (masked n a, n)"
  by (simp add: hit_def content_def)

lemma rpzIPMatch_iff:
  assumes "ip_ok t"
  shows "rpzIPMatch a t = None \<longleftrightarrow> (\<forall>n. content t (masked n a, n) = None)"
    and "rpzIPMatch a t = Some (rule, p) \<longleftrightarrow>
      (\<exists>n. p = \<lparr>pfx_addr = masked n a, pfx_bits = int n\<rparr> \<and> content t (masked n a, n) = Some rule \<and>
         (\<forall>k > n. content t (masked k a, k) = None))"
proof -
  have l: "lengths_ok (BitLen a) (table_of a t) (lengths_of a t)"
    using assms by (simp add: ip_ok_def BitLen_def table_of_def lengths_of_def)
  have off: "content t (masked n a, n) = None" if "n \<notin> set (lengths_of a t)" for n
    using that l by (simp add: content_def lengths_ok_def domIff)
  have b: "\<forall>n \<in> set (lengths_of a t). n \<le> BitLen a" "sorted_wrt (>) (lengths_of a t)" using l by (simp_all add: lengths_ok_def)
  show "rpzIPMatch a t = None \<longleftrightarrow> (\<forall>n. content t (masked n a, n) = None)"
    using off by (auto simp: rpzIPMatch_def longest_match_None[OF b(1)] hit_content)
  show "rpzIPMatch a t = Some (rule, p) \<longleftrightarrow>
      (\<exists>n. p = \<lparr>pfx_addr = masked n a, pfx_bits = int n\<rparr> \<and> content t (masked n a, n) = Some rule \<and>
         (\<forall>k > n. content t (masked k a, k) = None))"
    using off unfolding rpzIPMatch_def longest_match_Some[OF b(2,1)] hit_content
    by (metis option.distinct(1))
qed

text \<open>
  C32: the address tables implement a finite map from prefixes to rules with longest-prefix lookup. Adding a
  rule changes the map at its prefix only; the counter is the size of the map; a lookup fails exactly when no prefix
  contains the address, and otherwise returns the rule of the longest prefix that does.
\<close>

theorem rpz_longest_prefix:
  assumes "ip_reach L t"
  shows "(add_ip_rule L zone p action target reason source t = Some t' \<longrightarrow>
      (\<exists>rule q. content t' = (content t)(q \<mapsto> rule) \<and> Action rule = action \<and> inside (pfx_addr p) q \<and> snd q = nat (pfx_bits p))) \<and>
    ip_count t = int (card (dom (content t))) \<and>
    (rpzIPMatch a t = None \<longleftrightarrow> (\<forall>q \<in> dom (content t). \<not> inside a q)) \<and>
    (rpzIPMatch a t = Some (rule, found) \<longrightarrow>
      content t (pfx_addr found, nat (pfx_bits found)) = Some rule \<and> inside a (pfx_addr found, nat (pfx_bits found)) \<and>
      (\<forall>q \<in> dom (content t). inside a q \<longrightarrow> snd q \<le> nat (pfx_bits found)))"
proof (intro conjI)
  note ok = ip_reach_ok[OF assms]
  show "add_ip_rule L zone p action target reason source t = Some t' \<longrightarrow>
      (\<exists>rule q. content t' = (content t)(q \<mapsto> rule) \<and> Action rule = action \<and> inside (pfx_addr p) q \<and> snd q = nat (pfx_bits p))"
    using add_ip_rule_content[of L zone p action target reason source t t'] by (fastforce simp: content_store inside_def)
  show "ip_count t = int (card (dom (content t)))" using ok by (simp add: ip_ok_def)
  show "rpzIPMatch a t = None \<longleftrightarrow> (\<forall>q \<in> dom (content t). \<not> inside a q)"
    using rpzIPMatch_iff(1)[OF ok] by (auto simp: inside_def domIff)
  show "rpzIPMatch a t = Some (rule, found) \<longrightarrow>
      content t (pfx_addr found, nat (pfx_bits found)) = Some rule \<and> inside a (pfx_addr found, nat (pfx_bits found)) \<and>
      (\<forall>q \<in> dom (content t). inside a q \<longrightarrow> snd q \<le> nat (pfx_bits found))"
    using rpzIPMatch_iff(2)[OF ok] by (fastforce simp: inside_def domIff not_less[symmetric])
qed

text \<open>The number of leading bits that a prefix fixes, an IPv4 address counted as the last 32 bits of 128.\<close>

definition specificity :: "addr \<times> nat \<Rightarrow> int" where
  "specificity = (\<lambda>(a, n). if Is4 a then int n + 96 else int n)"

definition best_so_far :: "ip_rules \<Rightarrow> addr set \<Rightarrow> (rpz_rule \<times> int \<times> 128 word) option \<Rightarrow> bool" where
  "best_so_far t as best =
     (case best of
        None \<Rightarrow> \<forall>a \<in> as. \<forall>q \<in> dom (content t). \<not> inside a q
      | Some (rule, bits, address) \<Rightarrow>
          (\<exists>a \<in> as. \<exists>q. content t q = Some rule \<and> inside a q \<and> bits = specificity q) \<and>
          (\<forall>a \<in> as. \<forall>q \<in> dom (content t). inside a q \<longrightarrow> specificity q \<le> bits))"

lemma inside_Is4: "inside a q \<Longrightarrow> Is4 (fst q) = Is4 a"
  by (auto simp: inside_def)

lemma ip_step_best:
  assumes "ip_ok t" "best_so_far t as best"
  shows "best_so_far t (insert a as) (ip_step t best a)"
proof (cases "rpzIPMatch a t")
  case None
  then have "\<forall>q \<in> dom (content t). \<not> inside a q" using rpzIPMatch_iff(1)[OF assms(1)] by (auto simp: inside_def domIff)
  moreover have "ip_step t best a = best" by (simp add: ip_step_def None)
  ultimately show ?thesis using assms(2) unfolding best_so_far_def by (simp split: option.splits) blast
next
  case (Some x)
  obtain rule p where x: "x = (rule, p)" by (cases x)
  obtain n where n: "p = \<lparr>pfx_addr = masked n a, pfx_bits = int n\<rparr>" "content t (masked n a, n) = Some rule"
    "\<forall>k > n. content t (masked k a, k) = None"
    using Some[unfolded x] rpzIPMatch_iff(2)[OF assms(1)] by blast
  define q where "q = (masked n a, n)"
  have q: "content t q = Some rule" "inside a q" using n by (simp_all add: q_def inside_def)
  have top: "specificity q' \<le> specificity q" if d: "q' \<in> dom (content t)" and i: "inside a q'" for q'
  proof -
    obtain k where "q' = (masked k a, k)" using i by (cases q') (simp add: inside_def)
    then show ?thesis using d n(3) by (force simp: q_def specificity_def not_less[symmetric])
  qed
  have step: "ip_step t best a = (if better_ip (specificity q) (rpzComparableAddress (pfx_addr p)) best
      then Some (rule, specificity q, rpzComparableAddress (pfx_addr p)) else best)"
    using n by (simp add: ip_step_def Some x specificity_def q_def Let_def)
  show ?thesis
  proof (cases best)
    case None
    then have "ip_step t best a = Some (rule, specificity q, rpzComparableAddress (pfx_addr p))"
      using step None by (simp add: better_ip_def)
    moreover have "\<forall>a \<in> as. \<forall>q \<in> dom (content t). \<not> inside a q" using assms(2) None by (simp add: best_so_far_def)
    ultimately show ?thesis using q top by (auto simp: best_so_far_def simp del: split_paired_Ex)
  next
    case (Some y)
    obtain r0 b0 a0 where y: "y = (r0, b0, a0)" by (cases y)
    have old: "\<exists>a \<in> as. \<exists>q. content t q = Some r0 \<and> inside a q \<and> b0 = specificity q"
      "\<forall>a \<in> as. \<forall>q \<in> dom (content t). inside a q \<longrightarrow> specificity q \<le> b0"
      using assms(2) Some y by (simp_all add: best_so_far_def)
    show ?thesis
    proof (cases "better_ip (specificity q) (rpzComparableAddress (pfx_addr p)) best")
      case True
      then have ge: "b0 \<le> specificity q" by (auto simp: better_ip_def Some y)
      have "\<forall>a' \<in> insert a as. \<forall>q' \<in> dom (content t). inside a' q' \<longrightarrow> specificity q' \<le> specificity q"
        using old(2) top ge by force
      then show ?thesis using True q by (auto simp: step best_so_far_def simp del: split_paired_Ex)
    next
      case False
      then have le: "specificity q \<le> b0" by (auto simp: better_ip_def Some y)
      have le': "\<forall>a' \<in> insert a as. \<forall>q' \<in> dom (content t). inside a' q' \<longrightarrow> specificity q' \<le> b0"
        using old(2) top le by force
      have "ip_step t best a = Some (r0, b0, a0)" using step False Some y by simp
      then show ?thesis using le' old(1) by (auto simp: best_so_far_def simp del: split_paired_Ex)
    qed
  qed
qed

lemma foldl_best: "ip_ok t \<Longrightarrow> best_so_far t (set as) (foldl (ip_step t) None as)"
proof (induction as rule: rev_induct)
  case (snoc a as)
  then show ?case using ip_step_best[of t "set as" "foldl (ip_step t) None as" a] by simp
qed (simp add: best_so_far_def)

text \<open>
  The rule for a response is the most specific one. Of all stored prefixes that contain an address of the
  answer, the rule chosen belongs to one that fixes the most bits (IPv4 prefixes counted as 96 bits longer), and no rule is
  chosen exactly when no prefix contains any of the addresses.
\<close>

theorem rpz_best_rule:
  assumes "ip_reach L t"
  shows "(bestRPZIPRule t as = None \<longleftrightarrow> (\<forall>a \<in> set as. \<forall>q \<in> dom (content t). \<not> inside a q)) \<and>
    (bestRPZIPRule t as = Some rule \<longrightarrow>
      (\<exists>q. content t q = Some rule \<and> (\<exists>a \<in> set as. inside a q) \<and>
        (\<forall>a \<in> set as. \<forall>q' \<in> dom (content t). inside a q' \<longrightarrow> specificity q' \<le> specificity q)))"
proof
  let ?best = "foldl (ip_step t) None as"
  have b: "best_so_far t (set as) ?best" using foldl_best ip_reach_ok[OF assms] by blast
  show "bestRPZIPRule t as = Some rule \<longrightarrow>
      (\<exists>q. content t q = Some rule \<and> (\<exists>a \<in> set as. inside a q) \<and>
        (\<forall>a \<in> set as. \<forall>q' \<in> dom (content t). inside a q' \<longrightarrow> specificity q' \<le> specificity q))"
    using b unfolding bestRPZIPRule_def best_so_far_def by (clarsimp simp del: split_paired_Ex split_paired_All) blast
  show "bestRPZIPRule t as = None \<longleftrightarrow> (\<forall>a \<in> set as. \<forall>q \<in> dom (content t). \<not> inside a q)"
  proof (cases ?best)
    case None
    then show ?thesis using b by (simp add: bestRPZIPRule_def best_so_far_def)
  next
    case (Some y)
    obtain r0 b0 a0 where "y = (r0, b0, a0)" by (cases y)
    then have "\<exists>a \<in> set as. \<exists>q. content t q = Some r0 \<and> inside a q" using b Some by (auto simp: best_so_far_def)
    then show ?thesis using Some by (auto simp: bestRPZIPRule_def)
  qed
qed

subsection \<open>Early decisions\<close>

text \<open>A disabled zone with response address rules is the exception, see below.\<close>

definition quiet_when_disabled :: "rpz_aggregate \<Rightarrow> bool" where
  "quiet_when_disabled a \<longleftrightarrow> (\<forall>r \<in> set (zones a). rpz_enabled r \<or> ip_count (responseIP r) = 0)"

lemma no_verdict_action [simp]: "snd no_verdict = RPZActionNone"
  by (simp add: no_verdict_def)

lemma check_disabled: "\<not> rpz_enabled r \<Longrightarrow> checkName L r name = no_verdict \<and> CheckResponseWithNameservers L r name msg ns = no_verdict"
  by (simp add: checkName_def CheckResponseWithNameservers_def Let_def)

lemma independent_zone:
  assumes "\<not> HasResponseDependentRules r" "snd (checkName L r name) = RPZActionNone"
  shows "snd (CheckResponseWithNameservers L r name msg ns) = RPZActionNone"
proof (cases "rpz_enabled r")
  case True
  then show ?thesis using assms
    by (simp add: HasResponseDependentRules_def CheckResponseWithNameservers_def matchResponseIP_def matchNSDName_def
        matchNSIP_def Let_def split: option.split)
qed (simp add: check_disabled)

lemma check_name_first:
  "snd (checkName L r name) \<noteq> RPZActionNone \<Longrightarrow> CheckResponseWithNameservers L r name msg ns = checkName L r name"
  by (simp add: CheckResponseWithNameservers_def Let_def)

lemma request_shortcut_prior: "request_shortcut L name client True rs \<noteq> (v, True)"
  by (induction rs) (simp_all add: Let_def)

lemma request_shortcut_full:
  "request_shortcut L name client False rs = (v, True) \<Longrightarrow> full_check L name client msg ns rs = v"
proof (induction rs)
  case (Cons r rs)
  show ?case
  proof (cases "snd (checkClientIP r client) = RPZActionNone \<and> snd (checkName L r name) = RPZActionNone")
    case True
    then have "request_shortcut L name client (HasResponseDependentRules r) rs = (v, True)" using Cons.prems by simp
    then have d: "\<not> HasResponseDependentRules r" and s: "request_shortcut L name client False rs = (v, True)"
      using request_shortcut_prior by (cases "HasResponseDependentRules r"; simp)+
    then show ?thesis using True independent_zone[OF d, of L name msg ns] Cons.IH by simp
  next
    case False
    then show ?thesis using Cons.prems check_name_first[of L r name msg ns] by (auto simp: Let_def split: if_splits)
  qed
qed simp

lemma response_only:
  assumes "rpz_enabled r \<or> ip_count (responseIP r) = 0" "snd (checkName L r name) = RPZActionNone"
  shows "matchResponseIP r msg = Some rule \<Longrightarrow> CheckResponseWithNameservers L r name msg ns = verdict_of rule"
    and "matchResponseIP r msg = None \<Longrightarrow> \<not> (rpz_enabled r \<and> (nsDNameRuleCount r \<noteq> 0 \<or> ip_count (nsIP r) \<noteq> 0)) \<Longrightarrow>
      snd (CheckResponseWithNameservers L r name msg ns) = RPZActionNone"
  using assms
  by (auto simp: CheckResponseWithNameservers_def matchResponseIP_def matchNSDName_def matchNSIP_def Let_def
      split: option.split if_splits)

lemma response_shortcut_full:
  assumes "\<forall>r \<in> set rs. rpz_enabled r \<or> ip_count (responseIP r) = 0"
    and "\<forall>r \<in> set rs. \<forall>rule. matchResponseIP r msg = Some rule \<longrightarrow> Action rule \<noteq> RPZActionNone"
  shows "response_shortcut L name client msg rs = (v, True) \<Longrightarrow> full_check L name client msg ns rs = v"
  using assms
proof (induction rs)
  case (Cons r rs)
  have e: "rpz_enabled r \<or> ip_count (responseIP r) = 0" using Cons.prems(2) by simp
  show ?case
  proof (cases "snd (checkClientIP r client) = RPZActionNone \<and> snd (checkName L r name) = RPZActionNone")
    case True
    note only = response_only[OF e conjunct2[OF True], of msg]
    show ?thesis
    proof (cases "matchResponseIP r msg")
      case None
      then show ?thesis using True Cons only(2)[of ns] by (auto split: if_splits)
    next
      case (Some rule)
      then show ?thesis using True Cons.prems only(1)[OF Some, of ns] by (auto simp: verdict_of_def)
    qed
  next
    case False
    then show ?thesis using Cons.prems check_name_first[of L r name msg ns] by (auto simp: Let_def split: if_splits)
  qed
qed simp

text \<open>Every address rule has an effect; the loader of policy files makes no others.\<close>

definition rules_act :: "rpz_aggregate \<Rightarrow> bool" where
  "rules_act a \<longleftrightarrow> (\<forall>r \<in> set (zones a). \<forall>rule \<in> ran (content (responseIP r)). Action rule \<noteq> RPZActionNone)"

lemma longest_match_ran: "longest_match tab a ns = Some (rule, p) \<Longrightarrow> \<exists>n m k. tab n = Some m \<and> m (masked k a) = Some rule"
proof (induction ns)
  case (Cons n ns)
  let ?a = "pfx_addr (Masked (PrefixFrom a (int n)))"
  obtain k where k: "?a = masked k a" by (simp add: Masked_def PrefixFrom_def)
  show ?case
  proof (cases "Option.bind (tab n) (\<lambda>m. m ?a)")
    case (Some r0)
    then have "r0 = rule" using Cons.prems by (simp add: Let_def)
    then show ?thesis using Some k by (auto simp: bind_eq_Some_conv)
  qed (use Cons in \<open>simp add: Let_def\<close>)
qed simp

lemma rpzIPMatch_ran: "rpzIPMatch a t = Some (rule, p) \<Longrightarrow> rule \<in> ran (content t)"
proof -
  assume "rpzIPMatch a t = Some (rule, p)"
  then obtain n m k where "table_of a t n = Some m" "m (masked k a) = Some rule"
    unfolding rpzIPMatch_def using longest_match_ran by blast
  then have "content t (masked k a, n) = Some rule" by (simp add: content_def)
  then show "rule \<in> ran (content t)" by (rule ranI)
qed

lemma bestRPZIPRule_ran: "bestRPZIPRule t as = Some rule \<Longrightarrow> rule \<in> ran (content t)"
proof -
  have "\<forall>x. foldl (ip_step t) None as = Some x \<longrightarrow> fst x \<in> ran (content t)"
  proof (induction as rule: rev_induct)
    case (snoc a as)
    then show ?case
      by (cases "rpzIPMatch a t") (auto simp: ip_step_def Let_def dest: rpzIPMatch_ran split: if_splits)
  qed simp
  moreover assume "bestRPZIPRule t as = Some rule"
  ultimately show ?thesis by (auto simp: bestRPZIPRule_def)
qed

lemma rpz_early:
  "CheckRequestShortcut L a name client = (v, True) \<Longrightarrow> CheckRequestResponseWithNameservers L a name client msg ns = v"
  "quiet_when_disabled a \<Longrightarrow> rules_act a \<Longrightarrow> CheckRequestResponseShortcut L a name client msg = (v, True) \<Longrightarrow>
    CheckRequestResponseWithNameservers L a name client msg ns = v"
proof -
  show "CheckRequestShortcut L a name client = (v, True) \<Longrightarrow> CheckRequestResponseWithNameservers L a name client msg ns = v"
    unfolding CheckRequestShortcut_def CheckRequestResponseWithNameservers_def by (rule request_shortcut_full)
  assume q: "quiet_when_disabled a" and "rules_act a" and s: "CheckRequestResponseShortcut L a name client msg = (v, True)"
  then have "\<forall>r \<in> set (zones a). \<forall>rule. matchResponseIP r msg = Some rule \<longrightarrow> Action rule \<noteq> RPZActionNone"
    by (auto simp: rules_act_def matchResponseIP_def dest!: bestRPZIPRule_ran split: if_splits)
  then show "CheckRequestResponseWithNameservers L a name client msg ns = v"
    using response_shortcut_full[of "zones a" msg L name client v ns] q s
    by (simp add: quiet_when_disabled_def CheckRequestResponseShortcut_def CheckRequestResponseWithNameservers_def)
qed


text \<open>
  A disabled zone still blocks by response address. The evaluation of the response without name
  servers does not ask whether the zone is enabled before its address rules: for a disabled zone whose
  rules match the answer, it reports their action as final, where the complete evaluation reports none.
\<close>

theorem disabled_zone_blocks:
  assumes "\<not> rpz_enabled r" "matchResponseIP r msg = Some rule"
  shows "CheckRequestResponseShortcut L (a\<lparr>zones := r # rs\<rparr>) name client msg = (verdict_of rule, True) \<and>
    CheckRequestResponseWithNameservers L (a\<lparr>zones := [r]\<rparr>) name client msg ns = no_verdict"
  using assms check_disabled[OF assms(1)]
  by (cases client) (simp_all add: CheckRequestResponseShortcut_def CheckRequestResponseWithNameservers_def checkClientIP_def)

end
