(* ===== verification/Rpz_Server_Props.thy ===== *)
theory Rpz_Server_Props
  imports Rpz_Server Rpz_Props Server_Props
begin

text \<open>Response policies inside the server: what is blocked and when, what is asked of the network, what a reload does.\<close>

subsection \<open>The discovery of name servers is bounded\<close>

lemma lookup_ns_count:
  assumes "\<And>w n t. asked (snd (query w n t)) = asked w + (1 :: nat)"
  shows "lookup_ns L timed_out query limit as count acc w = (count', acc', w') \<Longrightarrow>
    int (asked w') - int (asked w) = count' - count \<and> (count \<le> limit \<longrightarrow> count' \<le> limit)"
proof (induction as arbitrary: count acc w)
  case (Cons a as)
  obtain r w1 where q: "query w a TypeNS = (r, w1)" by (metis surj_pair)
  then have "asked w1 = asked w + 1" using assms[of w a TypeNS] by simp
  then show ?case
    using Cons.prems Cons.IH[of "count + 1" acc w1] Cons.IH[of "count + 1" "collectRPZNSRecords L (the r) a acc" w1] q
    by (cases r) (auto split: if_splits)
qed simp

lemma lookup_addresses_count:
  assumes "\<And>w n t. asked (snd (query w n t)) = asked w + (1 :: nat)"
  shows "count \<le> limit \<Longrightarrow> int (asked (snd (lookup_addresses timed_out query limit qs count acc w))) - int (asked w) \<le> limit - count"
proof (induction qs arbitrary: count acc w)
  case (Cons q qs)
  obtain n t where qt: "q = (n, t)" by (cases q)
  obtain r w1 where r: "query w n t = (r, w1)" by (metis surj_pair)
  then have "asked w1 = asked w + 1" using assms[of w n t] by simp
  then show ?case
    using Cons.prems Cons.IH[of "count + 1" acc w1] Cons.IH[of "count + 1" "collectRPZAnswerAddresses (m_answer (the r)) acc" w1] r qt
    by (cases r) auto
qed simp

text \<open>
  Looking for the name servers of an answer costs at most 256 lookups, and at most the configured number when
  that is between 1 and 256, whatever the answer, the policy and the network.
\<close>

theorem rpz_discovery_bounded:
  assumes "\<And>w n t. asked (snd (query w n t)) = asked w + (1 :: nat)"
  shows "int (asked (snd (discoverRPZNameservers L timed_out query response needAddresses minDots maxLookups w))) - int (asked w)
    \<le> (if 1 \<le> maxLookups \<and> maxLookups \<le> 256 then maxLookups else 256)"
proof -
  define limit where
    "limit = (if maxLookups < 1 \<or> maxLookups > absoluteMaxRPZNameserverLookups then absoluteMaxRPZNameserverLookups else maxLookups)"
  let ?anc = "all_ancestors L (if minDots < 0 then 0 else minDots) limit (rpzAnswerOwners L response) []"
  have lim: "limit = (if 1 \<le> maxLookups \<and> maxLookups \<le> 256 then maxLookups else 256)" "0 \<le> limit"
    by (auto simp: limit_def absoluteMaxRPZNameserverLookups_def)
  obtain count acc w1 where l0: "lookup_ns L timed_out query limit ?anc 0 (collectRPZNSRecords L response [] ([], [])) w = (count, acc, w1)"
    by (cases "lookup_ns L timed_out query limit ?anc 0 (collectRPZNSRecords L response [] ([], [])) w")
  obtain ns addresses where "acc = (ns, addresses)" by (cases acc)
  note l = l0[unfolded this]
  have c: "int (asked w1) - int (asked w) = count" "count \<le> limit"
    using lookup_ns_count[OF assms l] lim(2) by auto
  let ?qs = "concat (map (\<lambda>n. [(n, TypeA), (n, TypeAAAA)]) (sort ns))"
  have "int (asked (snd (lookup_addresses timed_out query limit ?qs count addresses w1))) - int (asked w1) \<le> limit - count"
    using assms c(2) by (rule lookup_addresses_count[where query = query and asked = asked])
  moreover have "snd (discoverRPZNameservers L timed_out query response needAddresses minDots maxLookups w)
    = (if needAddresses then snd (lookup_addresses timed_out query limit ?qs count addresses w1) else w1)"
    using l by (simp add: discoverRPZNameservers_def limit_def[symmetric] Let_def split: prod.split)
  ultimately show ?thesis using c unfolding lim(1)[symmetric] by simp
qed

text \<open>The fuel of the walk over the ancestors is enough: more makes no difference.\<close>

lemma ancestor_walk_enough:
  assumes "\<And>n. length (SplitDomainName (names L) n) > 1 \<Longrightarrow>
      length (SplitDomainName (names L) (Fqdn (names L) (join_labels (tl (SplitDomainName (names L) n))))) < length (SplitDomainName (names L) n)"
  shows "Suc (length (SplitDomainName (names L) n)) < k \<or> n = ''.'' \<and> 0 < k \<Longrightarrow>
    ancestor_walk L dots limit k n found = ancestor_walk L dots limit (Suc k) n found"
proof (induction k arbitrary: n found)
  case (Suc k)
  have "Suc (length (SplitDomainName (names L) (rpzParentName L n))) < k \<or> rpzParentName L n = ''.'' \<and> 0 < k" if "n \<noteq> ''.''"
    using Suc.prems that assms[of n] by (auto simp: rpzParentName_def Let_def)
  then show ?case using Suc.IH[of "rpzParentName L n"] by (subst (1 2) ancestor_walk.simps(2)) (auto simp: Let_def)
qed simp

subsection \<open>The action of a rule\<close>

lemma applyRPZAction_changed:
  assumes "extra_only AddFiltered" "applyRPZAction M AddFiltered req resp (r, action) = Changed m"
  shows "m_id m = m_id resp \<and> m_ns m = [] \<and> action \<noteq> RPZActionDrop \<and> (\<exists>rule. r = Some rule \<and>
      (m_answer m = [] \<or> action = RPZActionRewrite \<and> m_answer m = [rewrite_cname (fst (hd (m_question req))) 60 (RewriteTarget rule)])) \<and>
    m_rcode m = (if action = RPZActionNXDomain then RcodeNameError else RcodeSuccess)"
  using assms(2) extra_only_frame[OF assms(1)]
  by (cases r; cases action) (auto simp: applyRPZAction_def emptied_def Let_def split: if_splits)

lemma as_response_replace: "as_response out = RpzReplace m \<longleftrightarrow> out = Changed m"
  by (cases out) (simp_all add: as_response_def)

lemma rpz_recursive_replace:
  assumes "extra_only AddFiltered" "fst (rpz_recursive L M AddFiltered now_at query ps w req resp src_ip) = RpzReplace m"
  shows "m_id m = m_id resp"
proof -
  have "\<exists>v. applyRPZAction M AddFiltered req resp v = Changed m"
    using assms(2)
    by (auto simp: rpz_recursive_def applyRPZResponseWithNameservers_def as_response_replace Let_def simp del: split_paired_Ex split: option.splits prod.splits if_splits)
  then show ?thesis using applyRPZAction_changed[OF assms(1)] by (metis surj_pair)
qed

text \<open>With response policies the laws of the handler still hold, so its properties do.\<close>

lemma with_rpz_laws:
  assumes "extra_only AddFiltered" "env_laws E" "policy_laws (policies_of E)"
  shows "env_laws (with_rpz L AddFiltered qid ps res E)" "policy_laws (policies_of (with_rpz L AddFiltered qid ps res E))"
proof -
  show "env_laws (with_rpz L AddFiltered qid ps res E)" using assms(2) by (simp add: env_laws_def with_rpz_def)
  have "m_id x = m_id m" if q: "applyRPZQuery L (msgl E) AddFiltered a r m ip = RpzAnswer x" for a r m ip x
  proof -
    have "\<exists>v. applyRPZAction (msgl E) AddFiltered r m v = Changed x"
      using q by (auto simp: applyRPZQuery_def Let_def simp del: split_paired_Ex split: option.splits if_splits prod.splits rpz_outcome.splits)
    then show ?thesis using applyRPZAction_changed[OF assms(1)] by (metis surj_pair)
  qed
  moreover have "m_id x = m_id m" if "fst (rpz_recursive L (msgl E) AddFiltered c query (ps p) st r m ip) = RpzReplace x"
    for c query p and st :: "'a rstate" and r m ip x
    using rpz_recursive_replace[OF assms(1) that] .
  ultimately show "policy_laws (policies_of (with_rpz L AddFiltered qid ps res E))"
    using assms(3) unfolding policy_laws_def with_rpz_def by simp
qed

text \<open>
  The recursive path applies the complete evaluation. Whatever it decides early, the result is the action of
  the complete evaluation of all zones for this response with some name server data.
\<close>

theorem rpz_recursive_complete:
  assumes "m_question req = [(name, qtype, qclass)]" "quiet_when_disabled a" "rules_act a"
  shows "\<exists>ns. fst (rpz_recursive L M AddFiltered now_at query (Some a) w req resp src_ip) =
    as_response (applyRPZAction M AddFiltered req resp (CheckRequestResponseWithNameservers L a name (rpzClientAddress src_ip) resp ns))"
proof -
  obtain v decisive where s: "CheckRequestResponseShortcut L a name (rpzClientAddress src_ip) resp = (v, decisive)" by (metis surj_pair)
  show ?thesis
  proof (cases decisive)
    case True
    then have "CheckRequestResponseWithNameservers L a name (rpzClientAddress src_ip) resp None = v"
      using rpz_early(2)[OF assms(2,3)] s by simp
    then show ?thesis using s True assms(1) by (auto simp: rpz_recursive_def)
  next
    case False
    then show ?thesis using s assms(1)
      by (auto simp: rpz_recursive_def applyRPZResponseWithNameservers_def Let_def split: prod.split)
  qed
qed

subsection \<open>What is blocked by the request alone\<close>

lemma rpz_query_outcome:
  assumes "CheckRequestShortcut L a name (rpzClientAddress ip) = ((Some rule, action), True)"
    "action \<noteq> RPZActionNone" "action \<noteq> RPZActionPassthru" "m_question r = [(name, qtype, qclass)]"
  shows "applyRPZQuery L M AddFiltered (Some a) r m ip = RpzDrop \<and> action = RPZActionDrop \<or>
    (\<exists>x. applyRPZQuery L M AddFiltered (Some a) r m ip = RpzAnswer x \<and> applyRPZAction M AddFiltered r m (Some rule, action) = Changed x)"
  using assms by (auto simp: applyRPZQuery_def applyRPZAction_def Let_def)

lemma send_limited_content:
  assumes "send_limited E ip m s = (Some x, s')" "m_ns m = []"
  shows "m_ns x = [] \<and> (m_answer x = m_answer m \<or> m_answer x = []) \<and> m_rcode x = m_rcode m"
proof -
  obtain dr m2 s2 where l: "shouldRateLimit E ip m s = (dr, m2, s2)" by (metis prod_cases3)
  have "m2 = m \<or> m2 = m\<lparr>m_tc := True, m_answer := [], m_ns := [], m_extra := []\<rparr>"
    using l by (auto simp: shouldRateLimit_def Let_def split: option.splits list.splits prod.splits action.splits)
  then show ?thesis using assms l by (auto simp: send_limited_def split: if_splits)
qed

text \<open>
  C14: what the request alone forbids never reaches the resolver. A query whose name or client is matched, with
  every rule before it decided, by a rule other than passthru leaves the resolver and its caches alone and is
  dropped or answered with the rule's action: no records but the CNAME of a rewrite, and the rule's response code.
\<close>

theorem rpz_blocks_request:
  fixes E :: "('w, 'p) env" and L AddFiltered qid ps res req
  defines "E' \<equiv> with_rpz L AddFiltered qid ps res E" and "ip \<equiv> client_address (in_remote req)"
  assumes law: "extra_only AddFiltered"
    and ok: "Allow (policies_of E) (srv_policy s) ip (now_of E' s) = (True, p)" "check_query E' (in_opcode req) (in_msg req) (base_response E' ip (in_msg req)) = None"
    and before: "Protective (policies_of E) p (in_msg req) ip = None" "Firewall (policies_of E) p (in_msg req) ip = FwPass"
    and rpz: "ps p = Some a" "m_question (in_msg req) = [(name, qtype, qclass)]"
      "CheckRequestShortcut L a name (rpzClientAddress ip) = ((Some rule, action), True)" "action \<noteq> RPZActionNone" "action \<noteq> RPZActionPassthru"
  shows "srv_recursion (snd (handleQuery E' req s)) = srv_recursion s \<and>
    (\<forall>x. fst (handleQuery E' req s) = Some x \<longrightarrow> action \<noteq> RPZActionDrop \<and> m_ns x = [] \<and>
       (m_answer x = [] \<or> action = RPZActionRewrite \<and> m_answer x = [rewrite_cname name 60 (RewriteTarget rule)]) \<and>
       m_rcode x = (if action = RPZActionNXDomain then RcodeNameError else RcodeSuccess))"
proof -
  let ?s = "s\<lparr>srv_policy := p\<rparr>" and ?m = "base_response E' ip (in_msg req)"
  let ?seen = "observeClient E' ip SignalPolicy ?s"
  have pol: "Allow (policies_of E') = Allow (policies_of E)" "Protective (policies_of E') = Protective (policies_of E)"
    "Firewall (policies_of E') = Firewall (policies_of E)"
    "RpzQuery (policies_of E') = (\<lambda>p. applyRPZQuery L (msgl E) AddFiltered (ps p))"
    by (simp_all add: E'_def with_rpz_def)
  have a: "Allow (policies_of E') (srv_policy s) (client_address (in_remote req)) (now_of E' s) = (True, p)"
    using ok(1) by (simp add: pol ip_def)
  have h: "handleQuery E' req s = apply_policies E' ip (in_msg req) ?m ?s"
    using handleQuery_eq[OF a] ok(2) by (simp add: ip_def)
  from rpz_query_outcome[OF rpz(3-5,2), of "msgl E" AddFiltered ?m]
  show ?thesis
  proof (elim disjE conjE exE)
    assume d: "applyRPZQuery L (msgl E) AddFiltered (Some a) (in_msg req) ?m ip = RpzDrop"
    have "handleQuery E' req s = (None, ?seen)" unfolding h using before rpz(1) d by (simp add: apply_policies_def pol)
    then show ?thesis by (simp add: srv_frame)
  next
    fix x assume x: "applyRPZQuery L (msgl E) AddFiltered (Some a) (in_msg req) ?m ip = RpzAnswer x"
      and c: "applyRPZAction (msgl E) AddFiltered (in_msg req) ?m (Some rule, action) = Changed x"
    have e: "handleQuery E' req s = send_limited E' ip x ?seen" unfolding h using before rpz(1) x by (simp add: apply_policies_def pol)
    obtain out s' where sl: "send_limited E' ip x ?seen = (out, s')" by (metis surj_pair)
    note ch = applyRPZAction_changed[OF law c]
    have "srv_recursion s' = srv_recursion s" using send_limited_frame(1)[OF sl] by (simp add: srv_frame)
    then show ?thesis
      using ch send_limited_content[of E' ip x ?seen] rpz(2) sl by (auto simp: e)
  qed
qed

subsection \<open>Reloading\<close>

lemma add_regex_rules_name: "add_regex_rules L name reason cs r = Inr r' \<Longrightarrow> rpz_name r' = rpz_name r"
proof (induction cs arbitrary: r)
  case (Cons c cs)
  then show ?case
    by (auto simp: Let_def AddRegexRule_def split: option.splits sum.splits if_splits)
qed simp

lemma add_policy_name: "add_policy L reason f owner relative v r = Inr r' \<Longrightarrow> rpz_name r' = rpz_name r"
  by (cases v) (auto simp: add_policy_def AddResponseIPRule_def AddClientIPRule_def AddNSIPRule_def AddNSDNameRule_def addRule_def Let_def
      bind_eq_Some_conv split: option.splits prod.splits if_splits)

lemma load_records_name: "load_records L reason f origin owners count r xs = Inr (count', r') \<Longrightarrow> rpz_name r' = rpz_name r"
proof (induction xs arbitrary: owners count r)
  case (Cons x xs)
  then show ?case
    by (auto simp: Let_def dest!: add_policy_name split: rdata.splits if_splits sum.splits)
qed simp

lemma LoadRPZFile_name: "LoadRPZFile L parse name f reason = Inr r \<Longrightarrow> rpz_name r = name"
  by (auto simp: LoadRPZFile_def Let_def NewRPZ_def dest!: load_records_name split: option.splits if_splits sum.splits)

lemma reload_zones_names:
  "reload_zones L parse seen cs a = Inr a' \<Longrightarrow>
     map rpz_name (zones a') = map rpz_name (zones a) @ map (\<lambda>c. TrimSpace (ZoneName c)) cs \<and>
     distinct (map (\<lambda>c. to_lower (TrimSpace (ZoneName c))) cs) \<and> set (map (\<lambda>c. to_lower (TrimSpace (ZoneName c))) cs) \<inter> set seen = {} \<and>
     maxNSLookups a' = maxNSLookups a \<and> minNSDots a' = minNSDots a"
proof (induction cs arbitrary: seen a)
  case (Cons c cs)
  let ?n = "TrimSpace (ZoneName c)"
  obtain p0 p1 where p: "(if File c \<noteq> [] then LoadRPZFile L parse ?n (File c) (ZoneReason c) else Inr (NewRPZ ?n)) = Inr p0"
    "add_regex_rules L ?n (ZoneReason c) (RegexRules c) p0 = Inr p1" "to_lower ?n \<notin> set seen"
    "reload_zones L parse (to_lower ?n # seen) cs (aggregate_AddZone p1 a) = Inr a'"
    using Cons.prems by (auto simp: Let_def split: if_splits sum.splits)
  have "rpz_name p0 = ?n" using p(1) LoadRPZFile_name by (auto simp: NewRPZ_def split: if_splits)
  then have "rpz_name p1 = ?n" using add_regex_rules_name[OF p(2)] by simp
  then show ?case using Cons.IH[OF p(4)] p(3) by (auto simp: aggregate_AddZone_def)
qed simp


end
