(* ===== verification/Rpz_Loader_Props.thy ===== *)
theory Rpz_Loader_Props
  imports Rpz_Loader Rpz_Props Nsec_Props
begin

text \<open>Address triggers read back what they encode; what a file of policies becomes.\<close>

subsection \<open>Words from their parts\<close>

text \<open>The \<open>n\<close> parts of a number in network order.\<close>

fun words_of :: "nat \<Rightarrow> 'b::len word \<Rightarrow> 'a::len word list" where
  "words_of 0 w = []"
| "words_of (Suc n) w = words_of n (drop_bit LENGTH('a) w) @ [ucast w]"

lemma length_words_of [simp]: "length (words_of n w) = n"
  by (induction n arbitrary: w) simp_all

lemma join_words_of: "join_words (words_of n w :: 'a::len word list) = take_bit (LENGTH('a) * n) (w :: 'b::len word)"
proof (induction n arbitrary: w)
  case (Suc n)
  have "join_words (words_of (Suc n) w :: 'a word list) =
    push_bit LENGTH('a) (take_bit (LENGTH('a) * n) (drop_bit LENGTH('a) w)) OR ucast (ucast w :: 'a word)"
    using Suc by (simp add: join_words_def)
  also have "\<dots> = take_bit (LENGTH('a) * Suc n) w"
    by (rule bit_word_eqI) (auto simp: bit_simps not_less dest: bit_imp_le_length)
  finally show ?case .
qed (simp add: join_words_def)

lemma join_words_all: "LENGTH('a::len) * n = LENGTH('b) \<Longrightarrow> join_words (words_of n w :: 'a word list) = (w :: 'b::len word)"
  by (simp add: join_words_of take_bit_word_eq_self)

subsection \<open>Numbers and labels\<close>

lemma digits_value_append:
  "digits_value base acc (xs @ ys) = Option.bind (digits_value base acc xs) (\<lambda>v. digits_value base v ys)"
  by (induction xs arbitrary: acc) (auto split: option.split)

lemma digit_value_decimal: "d < 10 \<Longrightarrow> digit_value 10 (char_of (48 + d)) = Some d"
  by (simp add: digit_value_def Let_def)

lemma digits_decimal: "digits_value 10 0 (decimal n) = Some n"
proof (induction n rule: decimal.induct)
  case (1 n)
  then show ?case
    by (subst decimal.simps) (simp add: digits_value_append digit_value_decimal)
qed

lemma decimal_chars: "c \<in> set (decimal n) \<Longrightarrow> \<exists>d < (10 :: nat). c = char_of (48 + d)"
proof (induction n rule: decimal.induct)
  case (1 n)
  show ?case
  proof (cases "c = char_of (48 + n mod 10)")
    case True
    then show ?thesis by (intro exI[of _ "n mod 10"]) simp
  next
    case False
    then have "\<not> n < 10 \<and> c \<in> set (decimal (n div 10))"
      using 1(2) by (subst (asm) decimal.simps) (auto split: if_splits)
    then show ?thesis using 1(1) by simp
  qed
qed

lemma decimal_not_Nil [simp]: "decimal n \<noteq> []"
  by (subst decimal.simps) simp

lemma hd_decimal: "0 < n \<Longrightarrow> \<exists>d :: nat. 0 < d \<and> d < 10 \<and> hd (decimal n) = char_of (48 + d)"
proof (induction n rule: decimal.induct)
  case (1 n)
  then show ?case by (subst decimal.simps) (auto simp: hd_append)
qed

lemma digit_char_neq:
  fixes d :: nat
  assumes "d < 10"
  shows "char_of (48 + d) \<noteq> CHR ''.''" "char_of (48 + d) \<noteq> CHR ''+''" "char_of (48 + d) \<noteq> CHR ''-''" "char_of (48 + d) \<noteq> CHR ''z''"
    "0 < d \<Longrightarrow> char_of (48 + d) \<noteq> CHR ''0''"
proof -
  have "\<forall>d \<in> set [0..<10]. char_of (48 + d) \<noteq> CHR ''.'' \<and> char_of (48 + d) \<noteq> CHR ''+'' \<and> char_of (48 + d) \<noteq> CHR ''-'' \<and>
      char_of (48 + d) \<noteq> CHR ''z'' \<and> (0 < d \<longrightarrow> char_of (48 + d) \<noteq> CHR ''0'')" by code_simp
  moreover have "d \<in> set [0..<10]" using assms by simp
  ultimately show "char_of (48 + d) \<noteq> CHR ''.''" "char_of (48 + d) \<noteq> CHR ''+''" "char_of (48 + d) \<noteq> CHR ''-''"
    "char_of (48 + d) \<noteq> CHR ''z''" "0 < d \<Longrightarrow> char_of (48 + d) \<noteq> CHR ''0''" by blast+
qed

lemma parseRPZDecimal_decimal:
  assumes "int n \<le> maximum" "maximum < 2 ^ 63"
  shows "parseRPZDecimal (decimal n) maximum = Some (int n)"
proof -
  obtain c cs where c: "decimal n = c # cs" by (meson decimal_not_Nil list.exhaust)
  then obtain d :: nat where d: "d < 10" "c = char_of (48 + d)" using decimal_chars[of c n] by auto
  have "Atoi (decimal n) = Some (int n)"
    using digits_decimal[of n] c digit_char_neq(2,3)[OF d(1)] assms by (simp add: Atoi_def d(2))
  moreover have "\<not> (length (decimal n) > 1 \<and> hd (decimal n) = CHR ''0'')"
  proof (cases "n = 0")
    case True
    then show ?thesis by (subst decimal.simps) simp
  next
    case False
    then obtain d :: nat where "0 < d" "d < 10" "hd (decimal n) = char_of (48 + d)" using hd_decimal[of n] by auto
    then show ?thesis using digit_char_neq(5)[of d] by simp
  qed
  ultimately show ?thesis using assms(1) by (simp add: parseRPZDecimal_def)
qed

lemma split_dots_single: "CHR ''.'' \<notin> set l \<Longrightarrow> split_dots l = [l]"
  by (induction l) auto

lemma split_dots_join:
  "ls \<noteq> [] \<Longrightarrow> \<forall>l \<in> set ls. CHR ''.'' \<notin> set l \<Longrightarrow> split_dots (join_labels ls) = ls"
proof (induction ls rule: join_labels.induct)
  case (3 l l' ls)
  then show ?case by (simp add: split_dots_append split_dots_single)
qed (simp_all add: split_dots_single)

lemma no_dot_decimal: "CHR ''.'' \<notin> set (decimal n)"
proof
  assume "CHR ''.'' \<in> set (decimal n)"
  then obtain d :: nat where "d < 10" "CHR ''.'' = char_of (48 + d)" using decimal_chars by blast
  then show False using digit_char_neq(1)[of d] by simp
qed

subsection \<open>Hexadecimal words\<close>

definition hex_char :: "nat \<Rightarrow> char" where
  "hex_char d = ''0123456789abcdef'' ! d"

lemma hex_char_value: "d < 16 \<Longrightarrow> digit_value 16 (hex_char d) = Some d \<and> hex_char d \<noteq> CHR ''.'' \<and> hex_char d \<noteq> CHR ''z'' \<and>
    (0 < d \<longrightarrow> hex_char d \<noteq> CHR ''0'')"
proof -
  assume "d < 16"
  then have "d \<in> set [0..<16]" by simp
  moreover have "\<forall>d \<in> set [0..<16]. digit_value 16 (hex_char d) = Some d \<and> hex_char d \<noteq> CHR ''.'' \<and> hex_char d \<noteq> CHR ''z'' \<and>
    (0 < d \<longrightarrow> hex_char d \<noteq> CHR ''0'')" by code_simp
  ultimately show ?thesis by blast
qed

lemma hex_digits_step:
  "hex_digits n = (if n < 16 then [hex_char n] else hex_digits (n div 16) @ [hex_char (n mod 16)])"
  by (subst hex_digits.simps) (simp add: hex_char_def)

lemma digits_hex: "digits_value 16 0 (hex_digits n) = Some n"
proof (induction n rule: hex_digits.induct)
  case (1 n)
  then show ?case using hex_char_value by (subst hex_digits_step) (simp add: digits_value_append)
qed

lemma hex_chars: "c \<in> set (hex_digits n) \<Longrightarrow> c \<noteq> CHR ''.'' \<and> c \<noteq> CHR ''z''"
proof (induction n rule: hex_digits.induct)
  case (1 n)
  then show ?case using hex_char_value by (subst (asm) hex_digits_step) (auto split: if_splits)
qed

lemma hd_hex: "0 < n \<Longrightarrow> hd (hex_digits n) \<noteq> CHR ''0''"
proof (induction n rule: hex_digits.induct)
  case (1 n)
  have "hex_digits k \<noteq> []" for k by (subst hex_digits_step) simp
  then show ?case using 1 hex_char_value by (subst hex_digits_step) (auto simp: hd_append)
qed

lemma length_hex: "n < 16 ^ Suc k \<Longrightarrow> length (hex_digits n) \<le> Suc k"
proof (induction k arbitrary: n)
  case 0
  then show ?case by (subst hex_digits_step) simp
next
  case (Suc k)
  have "n div 16 < 16 ^ Suc k" using Suc.prems by (simp add: div_less_iff_less_mult)
  then show ?case using Suc.IH[of "n div 16"] by (subst hex_digits_step) simp
qed

lemma parse_word_hex: "parse_word (hex_digits (unat (w :: u16))) = Some w"
proof -
  have w: "unat w < 2 ^ 16" using unsigned_less[of w] by simp
  have n: "hex_digits (unat w) \<noteq> []" by (subst hex_digits_step) simp
  have "length (hex_digits (unat w)) \<le> 4" using length_hex[of "unat w" 3] w by simp
  moreover have "\<not> (length (hex_digits (unat w)) > 1 \<and> hd (hex_digits (unat w)) = CHR ''0'')"
  proof (cases "unat w = 0")
    case True
    then show ?thesis by (subst hex_digits_step) simp
  qed (use hd_hex in simp)
  ultimately show ?thesis using n w by (simp add: parse_word_def ParseUint_def digits_hex)
qed

lemma hex_not_zz: "hex_digits n \<noteq> ''zz''"
  using hex_chars[of "CHR ''z''" n] by auto

subsection \<open>Address triggers\<close>

text \<open>The encoding of a prefix as labels: its length, then the address from its end.\<close>

definition trigger_labels :: "addr \<times> nat \<Rightarrow> string list" where
  "trigger_labels = (\<lambda>(a, n). decimal n #
     (case a of
        Addr4 w \<Rightarrow> map (\<lambda>b. decimal (unat b)) (rev (words_of 4 w :: bytes))
      | Addr6 w \<Rightarrow> map (\<lambda>x. hex_digits (unat x)) (rev (words_of 8 w :: u16 list))))"

definition trigger_text :: "addr \<times> nat \<Rightarrow> string" where
  "trigger_text q = join_labels (trigger_labels q)"

lemma parse_octets_decimal: "parse_octets (map (\<lambda>b. decimal (unat b)) bs) = Some bs"
proof (induction bs)
  case (Cons b bs)
  have "unat b < 256" using unsigned_less[of b] by simp
  then have "int (unat b) \<le> 255" by linarith
  then have "parseRPZDecimal (decimal (unat b)) 255 = Some (uint b)"
    using parseRPZDecimal_decimal[of "unat b" 255] by simp
  then show ?case using Cons by simp
qed simp

lemma parse_words_hex: "parse_words seen (map (\<lambda>x. hex_digits (unat x)) ws) = Some (map Some ws)"
  by (induction ws) (simp_all add: hex_not_zz parse_word_hex)

lemma expand_words_Some [simp]: "expand_words z (map Some ws) = ws"
  by (induction ws) (simp_all add: expand_words_def)

lemma split_trigger: "split_dots (trigger_text q) = trigger_labels q"
proof -
  obtain a n where q: "q = (a, n)" by (cases q)
  have "CHR ''.'' \<notin> set (hex_digits k)" for k using hex_chars[of "CHR ''.''" k] by auto
  then have "\<forall>l \<in> set (trigger_labels q). CHR ''.'' \<notin> set l"
    using no_dot_decimal by (cases a) (simp_all add: trigger_labels_def q)
  then show ?thesis by (simp add: trigger_text_def split_dots_join trigger_labels_def q)
qed

lemma checked_canonical:
  assumes "canonical_prefix (a, n)"
  shows "checked_prefix a (int n) = Some \<lparr>pfx_addr = a, pfx_bits = int n\<rparr>"
  using assms by (simp add: checked_prefix_def PrefixFrom_def Masked_def canonical_prefix_def)


subsection \<open>Files\<close>

text \<open>Numbers in a trigger may carry a sign, which \<open>Atoi\<close> accepts.\<close>

lemma signed_decimal: "parseRPZDecimal ''+8'' 128 = Some 8 \<and> parseRPZDecimal ''-0'' 128 = Some 0"
  by code_simp

text \<open>
  The catch-all policy is lost: \<open>*\<close> directly below the origin has no dot after the star, becomes a rule for the
  name \<open>*.\<close> and blocks nothing.
\<close>

lemma wildcard_none: "wildcard_walk (\<lambda>_. None) name as = None"
  by (induction as) simp_all

lemma catch_all_ignored:
  assumes "rr_data x = RCNAME tgt" "to_lower (Fqdn (names L) (rr_name x)) = ''*.'' @ origin" "IsSubDomain (names L) origin (''*.'' @ origin)"
    and "Fqdn (names L) ''*'' = ''*.''" "Fqdn (names L) (to_lower qname) \<noteq> ''*.''"
    and "load_records L reason filename origin [] 0 (NewRPZ zname) [x] = Inr (count, r)"
  shows "count = 1 \<and> checkName L r qname = no_verdict"
proof -
  obtain owner where owner: "owner = ''*.'' @ origin" by simp
  have ne: "owner \<noteq> origin" by (simp add: owner)
  have rel: "TrimSuffix (TrimSuffix owner origin) ''.'' = ''*''"
    by (simp add: TrimSuffix_def CutSuffix_def owner)
  have nolabel: "before_label ''*'' ''rpz-ip'' = None" "before_label ''*'' ''rpz-client-ip'' = None"
    "before_label ''*'' ''rpz-nsdname'' = None" "before_label ''*'' ''rpz-nsip'' = None"
    by (simp_all add: before_label_def CutSuffix_def)
  obtain action target where pa: "rpzPolicyAction (to_lower (Fqdn (names L) tgt)) = (action, target)" by (metis surj_pair)
  have add: "add_policy L reason filename owner ''*'' (action, target) (NewRPZ zname)
      = Inr (addRule L ''*'' action target reason filename False False (NewRPZ zname))"
    by (simp add: add_policy_def nolabel cut_star_def)
  have "r = addRule L ''*'' action target reason filename False False (NewRPZ zname)" "count = 1"
    using assms(1,6) assms(2,3)[folded owner] ne by (simp_all add: rel pa add Let_def)
  then show ?thesis
    using assms(4,5) by (simp add: addRule_def NewRPZ_def checkName_def to_lower_def lower_char_def Let_def wildcard_none)
qed

end
