(* ===== verification/Rpz_Examples.thy ===== *)
theory Rpz_Examples
  imports Rpz_Server_Props Rpz_Loader_Props Server_Examples
begin

text \<open>The properties of the response policies, applied to a file with a name, an address and a passthru rule.\<close>

definition ex_rpz_lib :: rpz_lib where
  "ex_rpz_lib = \<lparr>names = ex_lib, PrefixString = (\<lambda>_. ''prefix''), Compile = (\<lambda>_. True), MatchString = (\<lambda>_ _. False)\<rparr>"

definition ex_policy :: "string \<Rightarrow> string \<Rightarrow> string \<times> (u16 \<times> rr list) list" where
  "ex_policy owner target = (owner, [(TypeCNAME,
     [\<lparr>rr_name = owner, rr_type = TypeCNAME, rr_class = ClassINET, rr_ttl = 60, rr_data = RCNAME target\<rparr>])])"

definition ex_policy_zone :: zone where
  "ex_policy_zone = ex_zone\<lparr>Origin := ''rpz.'', Records :=
     [ex_policy ''bad.com.rpz.'' ''.'', ex_policy ''*.ads.com.rpz.'' ''rpz-drop.'', ex_policy ''24.0.2.0.192.rpz-ip.rpz.'' ''*.'']\<rparr>"

definition ex_policy_config :: rpz_config where
  "ex_policy_config = \<lparr>RPZEnabled = True, MinNSDots = 1, MaxNSLookups = 0, NameserverLookupTimeout = 0,
     Zones = [\<lparr>ZoneName = ''block'', File = ''rpz.zone'', ZoneReason = [], Priority = 5, RegexRules = []\<rparr>,
              \<lparr>ZoneName = ''allow'', File = [], ZoneReason = [], Priority = 1,
                RegexRules = [\<lparr>Pattern = ''ok'', RegexAction = ''allow'', Target = [], RegexReason = []\<rparr>]\<rparr>]\<rparr>"

definition ex_reload :: "reload_error option \<times> rpz_aggregate option" where
  "ex_reload = ReloadRPZ ex_rpz_lib (\<lambda>_. Some ex_policy_zone) ex_policy_config None"

definition ex_policies_in_force :: rpz_aggregate where
  "ex_policies_in_force = the (snd ex_reload)"

lemma ex_reload: "ex_reload = (None, Some ex_policies_in_force)"
proof -
  have "fst ex_reload = None \<and> \<not> Option.is_none (snd ex_reload)" by code_simp
  then show ?thesis by (simp add: ex_policies_in_force_def prod_eq_iff Option.is_none_def)
qed


text \<open>The address rule, alone in its table.\<close>

definition ex_net :: ip_prefix where
  "ex_net = \<lparr>pfx_addr = Addr4 0xC0000200, pfx_bits = 24\<rparr>"

definition ex_table :: ip_rules where
  "ex_table = the (add_ip_rule ex_rpz_lib ''block'' ex_net RPZActionNoData [] [] [] no_ip_rules)"

lemma ex_table: "add_ip_rule ex_rpz_lib ''block'' ex_net RPZActionNoData [] [] [] no_ip_rules = Some ex_table"
  by (simp add: ex_table_def add_ip_rule_def ex_net_def Let_def)

lemma ex_masks:
  "masked 24 (Addr4 0xC0000200) = Addr4 0xC0000200" "masked 24 (Addr4 0xC0000207) = Addr4 0xC0000200"
  "masked 24 (Addr4 0xC0000300) \<noteq> Addr4 0xC0000200"
  by code_simp+

lemma ex_canonical: "canonical_prefix (Addr4 0xC0000200, 24)"
  using ex_masks(1) by (simp add: canonical_prefix_def BitLen_def)

lemma ex_table_reach: "ip_reach ex_rpz_lib ex_table"
  using ip_reach.added[OF ip_reach.empty ex_table] .

theorem rpz_longest_prefix_witness:
  "ip_count ex_table = 1 \<and> rpzIPMatch (Addr4 0xC0000300) ex_table = None \<and> rpzIPMatch (Addr4 0xC0000207) ex_table \<noteq> None"
proof -
  have c: "ip_count ex_table = 1" by code_simp
  obtain rule where t: "ex_table = store_ip_rule (Addr4 0xC0000200) 24 rule no_ip_rules"
    using add_ip_rule_content[OF ex_table, unfolded ex_net_def ip_prefix.simps nat_numeral ex_masks(1)] by blast
  have q: "Rpz_Props.content ex_table = [(Addr4 0xC0000200, 24) \<mapsto> rule]" by (simp only: t content_store no_ip_rules_content)
  show ?thesis
    using rpz_longest_prefix[OF ex_table_reach, where a = "Addr4 0xC0000300"] rpz_longest_prefix[OF ex_table_reach, where a = "Addr4 0xC0000207"]
      c q ex_masks
    by (auto simp: inside_def)
qed



text \<open>The server of \<open>Server_Examples\<close> with these policies; a client asks for a blocked name.\<close>

definition ex_rpz_env :: "(string list, unit) env" where
  "ex_rpz_env = with_rpz ex_rpz_lib (\<lambda>m. m) 5 (\<lambda>_. Some ex_policies_in_force) ex_resolver ex_env"

definition ex_blocked :: inbound where
  "ex_blocked = ex_request ((ex_client 7)\<lparr>m_question := [(''bad.com.'', TypeA, ClassINET)]\<rparr>)"

theorem rpz_blocks_request_witness:
  "srv_recursion (snd (handleQuery ex_rpz_env ex_blocked ex_server)) = srv_recursion ex_server \<and>
   m_rcode (the (fst (handleQuery ex_rpz_env ex_blocked ex_server))) = RcodeNameError"
proof -
  let ?v = "CheckRequestShortcut ex_rpz_lib ex_policies_in_force ''bad.com.'' (rpzClientAddress [192, 0, 2, 7])"
  have v: "snd ?v \<and> snd (fst ?v) = RPZActionNXDomain \<and> \<not> Option.is_none (fst (fst ?v))" by code_simp
  then obtain rule where rule: "?v = ((Some rule, RPZActionNXDomain), True)"
    by (cases ?v) (auto simp: Option.is_none_def)
  have out: "\<not> Option.is_none (fst (handleQuery ex_rpz_env ex_blocked ex_server))" by code_simp
  have ok: "Option.is_none (check_query ex_rpz_env OpcodeQuery (in_msg ex_blocked) (base_response ex_rpz_env [192, 0, 2, 7] (in_msg ex_blocked)))"
    by code_simp
  then have ok': "check_query (with_rpz ex_rpz_lib (\<lambda>m. m) 5 (\<lambda>_. Some ex_policies_in_force) ex_resolver ex_env) OpcodeQuery (in_msg ex_blocked)
      (base_response (with_rpz ex_rpz_lib (\<lambda>m. m) 5 (\<lambda>_. Some ex_policies_in_force) ex_resolver ex_env) [192, 0, 2, 7] (in_msg ex_blocked)) = None"
    by (simp add: Option.is_none_def ex_rpz_env_def)
  have r: "in_opcode ex_blocked = OpcodeQuery" "client_address (in_remote ex_blocked) = [192, 0, 2, 7]"
    "m_question (in_msg ex_blocked) = [(''bad.com.'', TypeA, ClassINET)]"
    by (simp_all add: ex_blocked_def ex_request_def client_address_def)
  have "srv_recursion (snd (handleQuery ex_rpz_env ex_blocked ex_server)) = srv_recursion ex_server \<and>
    (\<forall>x. fst (handleQuery ex_rpz_env ex_blocked ex_server) = Some x \<longrightarrow> RPZActionNXDomain \<noteq> RPZActionDrop \<and> m_ns x = [] \<and>
       (m_answer x = [] \<or> RPZActionNXDomain = RPZActionRewrite \<and> m_answer x = [rewrite_cname ''bad.com.'' 60 (RewriteTarget rule)]) \<and>
       m_rcode x = (if RPZActionNXDomain = RPZActionNXDomain then RcodeNameError else RcodeSuccess))"
    unfolding ex_rpz_env_def
    by (rule rpz_blocks_request[where p = "()" and a = ex_policies_in_force and qtype = TypeA])
       ((simp only: r, rule ok') | (simp only: r, rule rule) | simp only: r | simp add: extra_only_id ex_env_def ex_policies_def)+
  then show ?thesis using out by (auto simp: Option.is_none_def)
qed

end
