(* ===== verification/Catalog.thy ===== *)
theory Catalog
  imports Zone Journal "HOL-Library.AList" "HOL-Library.List_Lexorder" "HOL-Library.Char_ord" "HOL-Library.Product_Lexorder"
begin

text \<open>
  Catalog zones (RFC 9432): reading a catalog, \<open>internal/catalog/catalog.go\<close>, and planning what has to change when
  a new one arrives, \<open>internal/catalog/planner.go\<close>. Go maps are association lists; the code ranges over them
  in sorted order wherever the order matters, except for which of several errors is reported.
\<close>

subsection \<open>Catalogs\<close>

record member =
  mb_Zone :: string
  mb_Label :: string
  mb_Groups :: "string list list"
  ChangeOfOwnership :: string
  mb_Extensions :: "(string \<times> rr list) list"

record catalog =
  cat_Name :: string
  cat_Serial :: u32
  Members :: "(string \<times> member) list"
  GlobalExtensions :: "(string \<times> rr list) list"

datatype catalog_error =
    NilZone | ZoneRejected zone_error | NoSOA | WrongClass string | VersionMissing | VersionUnsupported | Outside string
  | LabelPTRs string nat | EmptyMember string | DuplicateMember string string | LabelCOOs string nat | EmptyCOO string

definition normalizeName :: "dns_lib \<Rightarrow> string \<Rightarrow> string" where
  "normalizeName L name = to_lower (Fqdn L (TrimSpace name))"

definition relativeLabels :: "dns_lib \<Rightarrow> string \<Rightarrow> string \<Rightarrow> string list option" where
  "relativeLabels L owner origin =
     (let owner = normalizeName L owner; origin = normalizeName L origin in
      if \<not> IsSubDomain L origin owner then None
      else if owner = origin then Some []
      else Some (map to_lower (SplitDomainName L (TrimSuffix (TrimSuffix owner origin) ''.''))))"

fun txt_of :: "rr \<Rightarrow> string list option" where
  "txt_of x = (case rr_data x of RTXT ts \<Rightarrow> Some ts | _ \<Rightarrow> None)"

definition parseVersion :: "rr list \<Rightarrow> string \<Rightarrow> catalog_error option" where
  "parseVersion records origin =
     (case List.map_filter txt_of (filter (\<lambda>x. equal_fold (rr_name x) (''version.'' @ origin)) records) of
        [txt] \<Rightarrow> if txt = [''2''] then None else Some VersionUnsupported
      | _ \<Rightarrow> Some VersionMissing)"

text \<open>What is collected for one member label.\<close>

record builder =
  b_ptr :: "string list"
  b_groups :: "string list list"
  b_coo :: "string list"
  b_extensions :: "(string \<times> rr list) list"

definition no_builder :: builder where
  "no_builder = \<lparr>b_ptr = [], b_groups = [], b_coo = [], b_extensions = []\<rparr>"

definition for_label :: "string \<Rightarrow> (builder \<Rightarrow> builder) \<Rightarrow> (string \<times> builder) list \<Rightarrow> (string \<times> builder) list" where
  "for_label label f bs =
     AList.update label (f (case map_of bs label of Some b \<Rightarrow> b | None \<Rightarrow> no_builder)) bs"

definition add_record :: "string \<Rightarrow> rr \<Rightarrow> (string \<times> rr list) list \<Rightarrow> (string \<times> rr list) list" where
  "add_record prefix x m = AList.update prefix ((case map_of m prefix of Some xs \<Rightarrow> xs | None \<Rightarrow> []) @ [x]) m"

text \<open>The \<open>switch\<close> over the labels of one record.\<close>

definition parse_record ::
  "string list \<Rightarrow> rr \<Rightarrow> (string \<times> rr list) list \<times> (string \<times> builder) list \<Rightarrow> (string \<times> rr list) list \<times> (string \<times> builder) list" where
  "parse_record labels x = (\<lambda>(ext, bs).
     let n = length labels in
     if n = 2 \<and> labels ! 1 = ''zones''
     then (ext, case rr_data x of RPTR t \<Rightarrow> for_label (labels ! 0) (\<lambda>b. b\<lparr>b_ptr := b_ptr b @ [t]\<rparr>) bs | _ \<Rightarrow> bs)
     else if n = 3 \<and> labels ! 0 = ''group'' \<and> labels ! 2 = ''zones''
     then (ext, case rr_data x of RTXT ts \<Rightarrow> for_label (labels ! 1) (\<lambda>b. b\<lparr>b_groups := b_groups b @ [ts]\<rparr>) bs | _ \<Rightarrow> bs)
     else if n = 3 \<and> labels ! 0 = ''coo'' \<and> labels ! 2 = ''zones''
     then (ext, case rr_data x of RPTR t \<Rightarrow> for_label (labels ! 1) (\<lambda>b. b\<lparr>b_coo := b_coo b @ [t]\<rparr>) bs | _ \<Rightarrow> bs)
     else if n \<ge> 2 \<and> labels ! (n - 1) = ''ext''
     then (add_record (join_labels (take (n - 1) labels)) x ext, bs)
     else if n \<ge> 4 \<and> labels ! (n - 3) = ''ext'' \<and> labels ! (n - 1) = ''zones''
     then (ext, for_label (labels ! (n - 2))
                  (\<lambda>b. b\<lparr>b_extensions := add_record (join_labels (take (n - 3) labels)) x (b_extensions b)\<rparr>) bs)
     else (ext, bs))"

fun parse_records ::
  "dns_lib \<Rightarrow> string \<Rightarrow> rr list \<Rightarrow> (string \<times> rr list) list \<times> (string \<times> builder) list \<Rightarrow>
   catalog_error + (string \<times> rr list) list \<times> (string \<times> builder) list" where
  "parse_records L origin [] st = Inr st"
| "parse_records L origin (x # xs) st =
     (case relativeLabels L (rr_name x) origin of
        None \<Rightarrow> Inl (Outside (rr_name x))
      | Some labels \<Rightarrow> parse_records L origin xs (parse_record labels x st))"

definition txtValueKey :: "string list \<Rightarrow> string" where
  "txtValueKey ts = concat (map (\<lambda>t. decimal (length t) @ '':'' @ t @ '';'') ts)"

text \<open>Values with equal keys are equal, so it does not matter that \<open>sort.Slice\<close> is not stable.\<close>

definition sortTXTValues :: "string list list \<Rightarrow> string list list" where
  "sortTXTValues = sort_key txtValueKey"

definition sortExtensionRecords :: "dns_lib \<Rightarrow> (string \<times> rr list) list \<Rightarrow> (string \<times> rr list) list" where
  "sortExtensionRecords L = map (\<lambda>(prefix, xs). (prefix, sort_key (RRString L) xs))"

definition build_member :: "dns_lib \<Rightarrow> (string \<times> string) list \<Rightarrow> string \<Rightarrow> builder \<Rightarrow> catalog_error + member" where
  "build_member L seen label b =
     (if length (b_ptr b) \<noteq> 1 then Inl (LabelPTRs label (length (b_ptr b)))
      else let z = normalizeName L (hd (b_ptr b)) in
        if z = ''.'' then Inl (EmptyMember label)
        else (case map_of seen z of
                Some previousLabel \<Rightarrow> Inl (DuplicateMember z previousLabel)
              | None \<Rightarrow>
                  if length (b_coo b) > 1 then Inl (LabelCOOs label (length (b_coo b)))
                  else let coo = (if b_coo b = [] then [] else normalizeName L (hd (b_coo b))) in
                    if coo = ''.'' then Inl (EmptyCOO label)
                    else Inr \<lparr>mb_Zone = z, mb_Label = label, mb_Groups = sortTXTValues (b_groups b), ChangeOfOwnership = coo,
                              mb_Extensions = sortExtensionRecords L (b_extensions b)\<rparr>))"

fun build_members ::
  "dns_lib \<Rightarrow> (string \<times> builder) list \<Rightarrow> (string \<times> string) list \<Rightarrow> (string \<times> member) list \<Rightarrow> catalog_error + (string \<times> member) list" where
  "build_members L [] seen ms = Inr ms"
| "build_members L ((label, b) # bs) seen ms =
     (if b_ptr b = [] then build_members L bs seen ms
      else case build_member L seen label b of
             Inl e \<Rightarrow> Inl e
           | Inr m \<Rightarrow> build_members L bs ((mb_Zone m, label) # seen) (AList.update (mb_Zone m) m ms))"

definition Parse :: "dns_lib \<Rightarrow> zone option \<Rightarrow> catalog_error + catalog" where
  "Parse L z =
     (case z of
        None \<Rightarrow> Inl NilZone
      | Some z \<Rightarrow>
          (case Zone.Validate L z of
             Some e \<Rightarrow> Inl (ZoneRejected e)
           | None \<Rightarrow>
               (case SOA z of
                  None \<Rightarrow> Inl NoSOA
                | Some soa \<Rightarrow>
                    let origin = normalizeName L (Origin z); records = GetAllRecords z in
                    (case List.find (\<lambda>x. rr_class x \<noteq> ClassINET) records of
                       Some x \<Rightarrow> Inl (WrongClass (rr_name x))
                     | None \<Rightarrow>
                         (case parseVersion records origin of
                            Some e \<Rightarrow> Inl e
                          | None \<Rightarrow>
                              (case parse_records L origin records ([], []) of
                                 Inl e \<Rightarrow> Inl e
                               | Inr (ext, bs) \<Rightarrow>
                                   (case build_members L bs [] [] of
                                      Inl e \<Rightarrow> Inl e
                                    | Inr ms \<Rightarrow> Inr \<lparr>cat_Name = origin, cat_Serial = soa_serial soa, Members = ms,
                                                     GlobalExtensions = sortExtensionRecords L ext\<rparr>)))))))"

subsection \<open>Ownership and actions\<close>

record ownership =
  own_Catalog :: string
  own_Label :: string

datatype action_kind =
    ActionAdd | ActionRemove | ActionReconfigure | ActionRecreate | ActionTransferOwnership | ActionConflict

record action =
  act_Kind :: action_kind
  act_Zone :: string
  act_Catalog :: string
  FromCatalog :: string
  act_Label :: string
  PreviousLabel :: string
  ResetState :: bool
  act_Claimed :: string

datatype plan_error = OwnedAndReserved string | DuplicateOrder string

type_synonym catalogs = "(string \<times> catalog) list"
type_synonym owners = "(string \<times> ownership) list"

definition memberIn :: "catalog option \<Rightarrow> string \<Rightarrow> member option" where
  "memberIn c z = (case c of None \<Rightarrow> None | Some c \<Rightarrow> map_of (Members c) z)"

definition normalizeCatalogMap :: "dns_lib \<Rightarrow> catalogs \<Rightarrow> catalogs" where
  "normalizeCatalogMap L cs =
     fold (\<lambda>(name, snapshot). AList.update (normalizeName L (if cat_Name snapshot \<noteq> [] then cat_Name snapshot else name)) snapshot) cs []"

definition normalizeOwnership :: "dns_lib \<Rightarrow> owners \<Rightarrow> owners" where
  "normalizeOwnership L os =
     fold (\<lambda>(z, owner). AList.update (normalizeName L z) (owner\<lparr>own_Catalog := normalizeName L (own_Catalog owner)\<rparr>)) os []"

fun configured_order :: "dns_lib \<Rightarrow> catalogs \<Rightarrow> string list \<Rightarrow> string list \<Rightarrow> plan_error + string list \<times> string list" where
  "configured_order L cs [] seen = Inr ([], seen)"
| "configured_order L cs (name # names) seen =
     (let name = normalizeName L name in
      if name \<in> set seen then Inl (DuplicateOrder name)
      else case configured_order L cs names (name # seen) of
             Inl e \<Rightarrow> Inl e
           | Inr (result, seen) \<Rightarrow> Inr (if map_of cs name \<noteq> None then name # result else result, seen))"

definition orderedCatalogNames :: "dns_lib \<Rightarrow> catalogs \<Rightarrow> string list \<Rightarrow> plan_error + string list" where
  "orderedCatalogNames L cs configured =
     (case configured_order L cs configured [] of
        Inl e \<Rightarrow> Inl e
      | Inr (result, seen) \<Rightarrow> Inr (result @ sort (filter (\<lambda>name. name \<notin> set seen) (map fst cs))))"

fun check_reserved :: "dns_lib \<Rightarrow> owners \<Rightarrow> string list \<Rightarrow> plan_error + string list" where
  "check_reserved L os [] = Inr []"
| "check_reserved L os (z # zs) =
     (let z = normalizeName L z in
      if map_of os z \<noteq> None then Inl (OwnedAndReserved z)
      else case check_reserved L os zs of Inl e \<Rightarrow> Inl e | Inr rs \<Rightarrow> Inr (z # rs))"

definition sortedOwnershipZones :: "owners \<Rightarrow> string list" where
  "sortedOwnershipZones os = sort (map fst os)"

definition sortedMemberZones :: "catalog option \<Rightarrow> string list" where
  "sortedMemberZones c = (case c of None \<Rightarrow> [] | Some c \<Rightarrow> sort (map fst (Members c)))"

definition groupsEqual :: "string list list \<Rightarrow> string list list \<Rightarrow> bool" where
  "groupsEqual left right \<longleftrightarrow> left = right"

definition extensionMapsEqual :: "dns_lib \<Rightarrow> (string \<times> rr list) list \<Rightarrow> (string \<times> rr list) list \<Rightarrow> bool" where
  "extensionMapsEqual L left right \<longleftrightarrow>
     length left = length right \<and>
     list_all (\<lambda>(prefix, xs). case map_of right prefix of
                                None \<Rightarrow> False
                              | Some ys \<Rightarrow> map (RRString L) xs = map (RRString L) ys) left"

definition membersEqual :: "dns_lib \<Rightarrow> member \<Rightarrow> member \<Rightarrow> bool" where
  "membersEqual L left right \<longleftrightarrow>
     mb_Zone left = mb_Zone right \<and> mb_Label left = mb_Label right \<and> groupsEqual (mb_Groups left) (mb_Groups right) \<and>
     extensionMapsEqual L (mb_Extensions left) (mb_Extensions right)"

subsection \<open>The plan\<close>

definition plain_action :: "action_kind \<Rightarrow> string \<Rightarrow> action" where
  "plain_action kind z = \<lparr>act_Kind = kind, act_Zone = z, act_Catalog = [], FromCatalog = [], act_Label = [], PreviousLabel = [],
     ResetState = False, act_Claimed = []\<rparr>"

definition conflictAction :: "string \<Rightarrow> string \<Rightarrow> string \<Rightarrow> action" where
  "conflictAction z catalogName claimedBy = (plain_action ActionConflict z)\<lparr>act_Catalog := catalogName, act_Claimed := claimedBy\<rparr>"

record plan_state =
  plan_actions :: "action list"
  plan_owned :: owners
  transferredFrom :: "(string \<times> string) list"
  handled :: "string list"
  claimed :: "(string \<times> string) list"

text \<open>The first loop: a transfer, which both catalogs have to publish.\<close>

definition transfer_step :: "catalogs \<Rightarrow> string \<Rightarrow> plan_state \<Rightarrow> plan_state" where
  "transfer_step next z st =
     (case map_of (plan_owned st) z of
        None \<Rightarrow> st
      | Some owner \<Rightarrow>
          (case memberIn (map_of next (own_Catalog owner)) z of
             None \<Rightarrow> st
           | Some oldMember \<Rightarrow>
               if ChangeOfOwnership oldMember = [] then st
               else (case map_of next (ChangeOfOwnership oldMember) of
                       None \<Rightarrow> st
                     | Some newCatalog \<Rightarrow>
                         (case memberIn (Some newCatalog) z of
                            None \<Rightarrow> st
                          | Some newMember \<Rightarrow>
                              if ChangeOfOwnership oldMember = own_Catalog owner then st
                              else st\<lparr>plan_actions := plan_actions st @
                                        [(plain_action ActionTransferOwnership z)
                                           \<lparr>act_Catalog := cat_Name newCatalog, FromCatalog := own_Catalog owner,
                                            act_Label := mb_Label newMember, PreviousLabel := own_Label owner,
                                            ResetState := (own_Label owner \<noteq> mb_Label newMember)\<rparr>],
                                      plan_owned := AList.update z \<lparr>own_Catalog = cat_Name newCatalog, own_Label = mb_Label newMember\<rparr>
                                                      (plan_owned st),
                                      transferredFrom := AList.update z (own_Catalog owner) (transferredFrom st),
                                      handled := z # handled st\<rparr>))))"

text \<open>The second loop: owned zones that stay, change or go.\<close>

definition retain_step :: "dns_lib \<Rightarrow> catalogs \<Rightarrow> catalogs \<Rightarrow> string \<Rightarrow> plan_state \<Rightarrow> plan_state" where
  "retain_step L previous next z st =
     (if z \<in> set (handled st) then st
      else case map_of (plan_owned st) z of
        None \<Rightarrow> st
      | Some owner \<Rightarrow>
          let acts =
            (case memberIn (map_of next (own_Catalog owner)) z of
               None \<Rightarrow> [(plain_action ActionRemove z)\<lparr>FromCatalog := own_Catalog owner, PreviousLabel := own_Label owner\<rparr>]
             | Some nextMember \<Rightarrow>
                 if own_Label owner \<noteq> mb_Label nextMember
                 then [(plain_action ActionRecreate z)
                         \<lparr>act_Catalog := own_Catalog owner, act_Label := mb_Label nextMember, PreviousLabel := own_Label owner, ResetState := True\<rparr>]
                 else (case memberIn (map_of previous (own_Catalog owner)) z of
                         Some previousMember \<Rightarrow>
                           if \<not> membersEqual L previousMember nextMember
                           then [(plain_action ActionReconfigure z)
                                   \<lparr>act_Catalog := own_Catalog owner, act_Label := mb_Label nextMember, PreviousLabel := own_Label owner\<rparr>]
                           else []
                       | None \<Rightarrow> []))
          in st\<lparr>plan_actions := plan_actions st @ acts, handled := z # handled st\<rparr>)"

text \<open>The third loop: one member of one catalog.\<close>

definition claimed_by :: "plan_state \<Rightarrow> string \<Rightarrow> string" where
  "claimed_by st z = (case map_of (claimed st) z of Some c \<Rightarrow> c | None \<Rightarrow> [])"

definition add_step :: "catalogs \<Rightarrow> string \<times> string \<Rightarrow> plan_state \<Rightarrow> plan_state" where
  "add_step next = (\<lambda>(catalogName, z) st.
     case memberIn (map_of next catalogName) z of
       None \<Rightarrow> st
     | Some member \<Rightarrow>
         let claimedBy = claimed_by st z;
             conflict = st\<lparr>plan_actions := plan_actions st @ [conflictAction z catalogName claimedBy]\<rparr> in
         if z \<in> set (handled st)
         then (if map_of (transferredFrom st) z = Some catalogName then st
               else if claimedBy \<noteq> [] \<and> claimedBy \<noteq> catalogName
                 then (if ChangeOfOwnership member = claimedBy then st else conflict)
               else st)
         else if claimedBy \<noteq> [] then (if claimedBy \<noteq> catalogName then conflict else st)
         else st\<lparr>plan_actions := plan_actions st @ [(plain_action ActionAdd z)\<lparr>act_Catalog := catalogName, act_Label := mb_Label member\<rparr>],
                 claimed := AList.update z catalogName (claimed st), handled := z # handled st\<rparr>)"

definition kind_rank :: "action_kind \<Rightarrow> nat" where
  "kind_rank kind = (case kind of ActionTransferOwnership \<Rightarrow> 0 | ActionRemove \<Rightarrow> 1 | ActionRecreate \<Rightarrow> 2
     | ActionReconfigure \<Rightarrow> 3 | ActionAdd \<Rightarrow> 4 | ActionConflict \<Rightarrow> 5)"

text \<open>Catalogs without a rank come after those with one.\<close>

definition catalog_rank :: "string list \<Rightarrow> string \<Rightarrow> nat" where
  "catalog_rank order name = (case find_index (\<lambda>n. n = name) order of Some i \<Rightarrow> i | None \<Rightarrow> length order)"

definition sortActions :: "string list \<Rightarrow> action list \<Rightarrow> action list" where
  "sortActions order =
     sort_key (\<lambda>a. (kind_rank (act_Kind a), act_Zone a, catalog_rank order (act_Catalog a), act_Catalog a))"

definition Plan ::
  "dns_lib \<Rightarrow> catalogs \<Rightarrow> catalogs \<Rightarrow> owners \<Rightarrow> string list \<Rightarrow> string list \<Rightarrow> plan_error + action list" where
  "Plan L previous next owners catalogOrder reservedZones =
     (let previous = normalizeCatalogMap L previous; next = normalizeCatalogMap L next; owners = normalizeOwnership L owners in
      case orderedCatalogNames L next catalogOrder of
        Inl e \<Rightarrow> Inl e
      | Inr order \<Rightarrow>
          (case check_reserved L owners reservedZones of
             Inl e \<Rightarrow> Inl e
           | Inr reserved \<Rightarrow>
               let zs = sortedOwnershipZones owners;
                   st = \<lparr>plan_actions = [], plan_owned = owners, transferredFrom = [], handled = [], claimed = []\<rparr>;
                   st = fold (transfer_step next) zs st;
                   st = fold (retain_step L previous next) (sortedOwnershipZones (plan_owned st)) st;
                   st = st\<lparr>claimed := fold (\<lambda>z. AList.update z ''operator configuration'') reserved
                                       (map (\<lambda>(z, owner). (z, own_Catalog owner)) (plan_owned st))\<rparr>;
                   st = fold (add_step next) (concat (map (\<lambda>c. map (Pair c) (sortedMemberZones (map_of next c))) order)) st
               in Inr (sortActions order (plan_actions st))))"

end
