(* ===== verification/Catalog_Runtime.thy ===== *)
theory Catalog_Runtime
  imports Catalog Authoritative
begin

text \<open>
  The reconciler of catalog zones, \<open>internal/catalog/runtime.go\<close>: the accepted catalogs, the ownership of member zones,
  the state file, and the publication of both through the zone set of \<open>Authoritative\<close>. The secondary manager (the
  code's interface \<open>SecondaryController\<close>), the clock, the outcome of file writes and the token budget, whose
  tokens are floating-point numbers, are parameters over a world \<open>'w\<close>. The mutexes make every operation atomic.
\<close>

subsection \<open>Configuration and state\<close>

text \<open>The fields of a transfer configuration that this code reads or writes, and the rest of it.\<close>

record 'c sec_config =
  sc_Name :: string
  Masters :: "string list"
  RetainOnError :: bool
  sc_rest :: 'c

record 'c source =
  src_Name :: string
  Defaults :: "'c sec_config"
  Groups :: "(string \<times> 'c sec_config) list"
  MemberAllowSuffixes :: "string list"
  MemberDenySuffixes :: "string list"
  MaxMembers :: int
  MaxReconcileActions :: int
  ReconcileActionsPerMinute :: int
  ReconcileActionBurst :: int
  DryRun :: bool
  ApprovalRequiredAbove :: int
  ApprovedSerial :: "u32 option"

datatype 'c batch_change = ChangeUpsert "'c sec_config" bool | ChangeRemove string

text \<open>Errors; the text of the code's errors is not modelled.\<close>

datatype rt_error =
    ParseFailed catalog_error | NotAttached | AlreadyAttached | NoSource string | TooManyMembers string | CatalogAsMember string
  | DeniedMember string string | OutsideAllowed string | SerialNotAdvanced | SelfCOO string string | CyclicOwnership string
  | PlanFailed plan_error | TooManyActions | DryRunOnly | ApprovalRequired | BudgetExhausted | ActionWithoutMember string
  | NoMasters string | TransferFailed | NoMemberData string | PersistFailed | StoreFailed zone_set_error | RollbackFailed zone_set_error
  | NilPublication

datatype pending_reason = PendingDryRun | PendingApproval

record status =
  st_Serial :: u32
  st_Members :: nat
  LastAttempt :: int
  LastSuccess :: int
  LastError :: "rt_error option"
  Pending :: "(u32 \<times> pending_reason \<times> action list) option"

definition no_status :: status where
  "no_status = \<lparr>st_Serial = 0, st_Members = 0, LastAttempt = 0, LastSuccess = 0, LastError = None, Pending = None\<rparr>"

record persisted_zone =
  pz_Origin :: string
  pz_Records :: "string list"
  AcceptedAt :: int

record disk_state =
  Version :: int
  ds_Catalogs :: "(string \<times> persisted_zone) list"
  ds_Ownership :: owners
  ds_Members :: "(string \<times> persisted_zone) list"

record ('c, 'w) runtime =
  rt_store :: zone_set
  rt_sources :: "(string \<times> 'c source) list"
  rt_order :: "string list"
  rt_reserved :: "string list"
  rt_attached :: bool
  rt_catalogs :: catalogs
  rt_catalogZone :: "(string \<times> zone) list"
  rt_ownership :: owners
  rt_memberZone :: "(string \<times> zone) list"
  rt_acceptedAt :: "(string \<times> int) list"
  rt_status :: "(string \<times> status) list"
  rt_generation :: nat
  rt_disk :: "disk_state option"
  rt_world :: 'w

record ('c, 'w) rt_env =
  rl :: dns_lib
  NewRR :: "string \<Rightarrow> rr option"
  IsDomainName :: "string \<Rightarrow> bool"
  RtNow :: "'w \<Rightarrow> int"
  WriteFile :: "'w \<Rightarrow> bool \<times> 'w"
  TakeBudget :: "string \<Rightarrow> nat \<Rightarrow> 'w \<Rightarrow> bool \<times> 'w"
  RefundBudget :: "string \<Rightarrow> nat \<Rightarrow> 'w \<Rightarrow> 'w"
  Transfers :: "'c batch_change list \<Rightarrow> zone_set \<Rightarrow> 'w \<Rightarrow> (zone list \<times> string list) option \<times> 'w"
  Upsert :: "'c sec_config \<Rightarrow> 'w \<Rightarrow> bool \<times> 'w"

subsection \<open>Checks of a catalog\<close>

definition validateMemberName :: "dns_lib \<Rightarrow> string \<Rightarrow> 'c source \<Rightarrow> rt_error option" where
  "validateMemberName L memberName source =
     (case List.find (\<lambda>suffix. IsSubDomain L suffix memberName) (MemberDenySuffixes source) of
        Some suffix \<Rightarrow> Some (DeniedMember memberName suffix)
      | None \<Rightarrow>
          if MemberAllowSuffixes source = [] \<or> list_ex (\<lambda>suffix. IsSubDomain L suffix memberName) (MemberAllowSuffixes source)
          then None else Some (OutsideAllowed memberName))"

definition validateMemberScope :: "dns_lib \<Rightarrow> (string \<times> 'c source) list \<Rightarrow> string \<Rightarrow> catalog \<Rightarrow> rt_error option" where
  "validateMemberScope L sources catalogName accepted =
     (case map_of sources (normalizeName L catalogName) of
        None \<Rightarrow> Some (NoSource catalogName)
      | Some source \<Rightarrow>
          if int (length (Members accepted)) > MaxMembers source then Some (TooManyMembers catalogName)
          else first_error (\<lambda>memberName.
                 if map_of sources memberName \<noteq> None then Some (CatalogAsMember memberName)
                 else validateMemberName L memberName source) (map fst (Members accepted)))"

text \<open>
  The walk along the edges from a catalog: whether it comes back to a catalog it has seen. It sees each source of an
  edge at most once, so the number of edges and two is enough fuel.
\<close>

fun cycle_walk :: "(string \<times> string) list \<Rightarrow> nat \<Rightarrow> string list \<Rightarrow> string \<Rightarrow> bool" where
  "cycle_walk edges 0 seen current = False"
| "cycle_walk edges (Suc k) seen current =
     (if current = [] then False
      else if current \<in> set seen then True
      else cycle_walk edges k (current # seen) (case map_of edges current of Some target \<Rightarrow> target | None \<Rightarrow> []))"

definition coo_target :: "dns_lib \<Rightarrow> catalog \<Rightarrow> string \<Rightarrow> string option" where
  "coo_target L accepted memberName =
     (case map_of (Members accepted) memberName of
        None \<Rightarrow> None
      | Some member \<Rightarrow> if ChangeOfOwnership member = [] then None else Some (normalizeName L (ChangeOfOwnership member)))"

definition coo_edges :: "dns_lib \<Rightarrow> (string \<times> 'c source) list \<Rightarrow> catalogs \<Rightarrow> string \<Rightarrow> (string \<times> string) list" where
  "coo_edges L sources cs memberName =
     List.map_filter (\<lambda>(c, accepted). case coo_target L accepted memberName of
                                        Some target \<Rightarrow> if map_of sources target \<noteq> None then Some (c, target) else None
                                      | None \<Rightarrow> None) cs"

definition check_member_graph :: "dns_lib \<Rightarrow> (string \<times> 'c source) list \<Rightarrow> catalogs \<Rightarrow> string \<Rightarrow> rt_error option" where
  "check_member_graph L sources cs memberName =
     (case List.find (\<lambda>(c, accepted). coo_target L accepted memberName = Some c) cs of
        Some (c, _) \<Rightarrow> Some (SelfCOO c memberName)
      | None \<Rightarrow>
          let edges = coo_edges L sources cs memberName in
          if list_ex (cycle_walk edges (length edges + 2) []) (sort (map fst edges)) then Some (CyclicOwnership memberName) else None)"

definition validateCatalogGraph :: "dns_lib \<Rightarrow> (string \<times> 'c source) list \<Rightarrow> catalogs \<Rightarrow> rt_error option" where
  "validateCatalogGraph L sources cs =
     first_error (check_member_graph L sources cs) (sort (remdups (concat (map (\<lambda>(_, c). map fst (Members c)) cs))))"

definition memberConfigWithGroup ::
  "dns_lib \<Rightarrow> (string \<times> 'c source) list \<Rightarrow> string \<Rightarrow> member \<Rightarrow> rt_error + 'c sec_config \<times> string" where
  "memberConfigWithGroup L sources catalogName member =
     (case map_of sources (normalizeName L catalogName) of
        None \<Rightarrow> Inl (NoSource catalogName)
      | Some source \<Rightarrow>
          let (conf, effective) =
                (case List.find (\<lambda>g. map_of (Groups source) (concat g) \<noteq> None) (mb_Groups member) of
                   Some g \<Rightarrow> (the (map_of (Groups source) (concat g)), concat g)
                 | None \<Rightarrow> (Defaults source, []));
              conf = conf\<lparr>sc_Name := mb_Zone member, RetainOnError := True\<rparr>
          in if Masters conf = [] then Inl (NoMasters (mb_Zone member)) else Inr (conf, effective))"

definition memberConfig :: "dns_lib \<Rightarrow> (string \<times> 'c source) list \<Rightarrow> string \<Rightarrow> member \<Rightarrow> rt_error + 'c sec_config" where
  "memberConfig L sources catalogName member =
     (case memberConfigWithGroup L sources catalogName member of Inl e \<Rightarrow> Inl e | Inr (conf, _) \<Rightarrow> Inr conf)"

subsection \<open>The state file\<close>

definition stateVersion :: int where "stateVersion = 1"

definition persistZone :: "dns_lib \<Rightarrow> zone \<Rightarrow> persisted_zone" where
  "persistZone L z = \<lparr>pz_Origin = Origin z, pz_Records = sort (map (RRString L) (GetAllRecords z)), AcceptedAt = 0\<rparr>"

definition disk_image :: "dns_lib \<Rightarrow> ('c, 'w) runtime \<Rightarrow> disk_state" where
  "disk_image L r =
     \<lparr>Version = stateVersion,
      ds_Catalogs = map (\<lambda>(n, z). (n, (persistZone L z)
                          \<lparr>AcceptedAt := (case map_of (rt_acceptedAt r) n of Some t \<Rightarrow> t | None \<Rightarrow> 0)\<rparr>)) (rt_catalogZone r),
      ds_Ownership = rt_ownership r,
      ds_Members = map (\<lambda>(n, z). (n, persistZone L z)) (filter (\<lambda>(n, _). map_of (rt_ownership r) n \<noteq> None) (rt_memberZone r))\<rparr>"

text \<open>The file is written beside the old one and renamed over it, so a failure leaves the old contents.\<close>

definition persistLocked :: "('c, 'w) rt_env \<Rightarrow> ('c, 'w) runtime \<Rightarrow> bool \<times> ('c, 'w) runtime" where
  "persistLocked E r =
     (case WriteFile E (rt_world r) of
        (True, w) \<Rightarrow> (True, r\<lparr>rt_disk := Some (disk_image (rl E) r), rt_world := w\<rparr>)
      | (False, w) \<Rightarrow> (False, r\<lparr>rt_world := w\<rparr>))"

subsection \<open>Reconciliation\<close>

definition on_status :: "string \<Rightarrow> (status \<Rightarrow> status) \<Rightarrow> ('c, 'w) runtime \<Rightarrow> ('c, 'w) runtime" where
  "on_status name f r =
     r\<lparr>rt_status := AList.update name (f (case map_of (rt_status r) name of Some s \<Rightarrow> s | None \<Rightarrow> no_status)) (rt_status r)\<rparr>"

definition recordAttempt :: "('c, 'w) rt_env \<Rightarrow> string \<Rightarrow> ('c, 'w) runtime \<Rightarrow> ('c, 'w) runtime" where
  "recordAttempt E name r = on_status name (\<lambda>s. s\<lparr>LastAttempt := RtNow E (rt_world r)\<rparr>) r"

definition recordFailure :: "string \<Rightarrow> rt_error \<Rightarrow> ('c, 'w) runtime \<Rightarrow> ('c, 'w) runtime" where
  "recordFailure name e = on_status name (\<lambda>s. s\<lparr>LastError := Some e\<rparr>)"

definition recordSuccess :: "('c, 'w) rt_env \<Rightarrow> string \<Rightarrow> catalog \<Rightarrow> ('c, 'w) runtime \<Rightarrow> ('c, 'w) runtime" where
  "recordSuccess E name accepted r =
     on_status name (\<lambda>s. s\<lparr>st_Serial := cat_Serial accepted, st_Members := length (Members accepted),
       LastSuccess := RtNow E (rt_world r), LastError := None, Pending := None\<rparr>) r"

definition recordPending :: "string \<Rightarrow> u32 \<Rightarrow> pending_reason \<Rightarrow> action list \<Rightarrow> ('c, 'w) runtime \<Rightarrow> ('c, 'w) runtime" where
  "recordPending name serial reason acts = on_status name (\<lambda>s. s\<lparr>Pending := Some (serial, reason, acts)\<rparr>)"

definition destructive :: "action \<Rightarrow> bool" where
  "destructive a \<longleftrightarrow> act_Kind a = ActionRemove \<or> act_Kind a = ActionRecreate \<or> act_Kind a = ActionTransferOwnership \<and> ResetState a"

definition countDestructiveActions :: "action list \<Rightarrow> nat" where
  "countDestructiveActions acts = length (filter destructive acts)"

definition takeReconcileBudget :: "('c, 'w) rt_env \<Rightarrow> string \<Rightarrow> nat \<Rightarrow> ('c, 'w) runtime \<Rightarrow> bool \<times> ('c, 'w) runtime" where
  "takeReconcileBudget E name n r =
     (if n = 0 then (True, r) else case TakeBudget E name n (rt_world r) of (ok, w) \<Rightarrow> (ok, r\<lparr>rt_world := w\<rparr>))"

definition refundReconcileBudget :: "('c, 'w) rt_env \<Rightarrow> string \<Rightarrow> nat \<Rightarrow> ('c, 'w) runtime \<Rightarrow> ('c, 'w) runtime" where
  "refundReconcileBudget E name n r = (if n = 0 then r else r\<lparr>rt_world := RefundBudget E name n (rt_world r)\<rparr>)"

text \<open>The loop over the actions: the changes for the secondaries and the ownership they lead to.\<close>

fun build_changes ::
  "dns_lib \<Rightarrow> (string \<times> 'c source) list \<Rightarrow> catalogs \<Rightarrow> action list \<Rightarrow> 'c batch_change list \<Rightarrow> owners \<Rightarrow>
   rt_error + 'c batch_change list \<times> owners" where
  "build_changes L sources next [] changes final = Inr (changes, final)"
| "build_changes L sources next (a # as) changes final =
     (if act_Kind a = ActionConflict then build_changes L sources next as changes final
      else if act_Kind a = ActionRemove
      then build_changes L sources next as (changes @ [ChangeRemove (act_Zone a)]) (AList.delete (act_Zone a) final)
      else (case memberIn (map_of next (act_Catalog a)) (act_Zone a) of
              None \<Rightarrow> Inl (ActionWithoutMember (act_Zone a))
            | Some member \<Rightarrow>
                (case memberConfig L sources (act_Catalog a) member of
                   Inl e \<Rightarrow> Inl e
                 | Inr conf \<Rightarrow>
                     build_changes L sources next as (changes @ [ChangeUpsert conf (ResetState a)])
                       (AList.update (act_Zone a) \<lparr>own_Catalog = act_Catalog a, own_Label = act_Label a\<rparr> final))))"

text \<open>
  The publication. The new state is written to the file first; when the zone set refuses the batch, the old state is
  restored, in memory and in the file.
\<close>

definition commitReconciliation ::
  "('c, 'w) rt_env \<Rightarrow> string \<Rightarrow> zone \<Rightarrow> catalogs \<Rightarrow> owners \<Rightarrow> zone list \<Rightarrow> string list \<Rightarrow> ('c, 'w) runtime \<Rightarrow>
   rt_error option \<times> ('c, 'w) runtime" where
  "commitReconciliation E name raw next final upserts removals r =
     (let L = rl E;
          members = fold (\<lambda>m. AList.update (normalizeName L (Origin m)) (Clone m)) upserts (rt_memberZone r);
          members = fold (\<lambda>removed. AList.delete (normalizeName L removed)) removals members in
      case List.find (\<lambda>z. map_of members z = None) (map fst final) of
        Some z \<Rightarrow> (Some (NoMemberData z), r)
      | None \<Rightarrow>
          let new = r\<lparr>rt_catalogs := next, rt_catalogZone := AList.update name (Clone raw) (rt_catalogZone r), rt_ownership := final,
                      rt_memberZone := members, rt_acceptedAt := AList.update name (RtNow E (rt_world r)) (rt_acceptedAt r),
                      rt_generation := rt_generation r + 1\<rparr> in
          (case persistLocked E new of
             (False, new) \<Rightarrow> (Some PersistFailed, r\<lparr>rt_world := rt_world new\<rparr>)
           | (True, new) \<Rightarrow>
               (case ApplyZoneBatch L upserts removals (rt_store new) of
                  Inr store \<Rightarrow> (None, new\<lparr>rt_store := store\<rparr>)
                | Inl e \<Rightarrow>
                    (case persistLocked E (r\<lparr>rt_disk := rt_disk new, rt_world := rt_world new\<rparr>) of
                       (True, old) \<Rightarrow> (Some (StoreFailed e), old)
                     | (False, old) \<Rightarrow> (Some (RollbackFailed e), old)))))"

text \<open>The part of \<open>reconcile\<close> after its checks: the budget, the changes, the transfers and the publication.\<close>

definition carry_out ::
  "('c, 'w) rt_env \<Rightarrow> string \<Rightarrow> zone \<Rightarrow> catalogs \<Rightarrow> action list \<Rightarrow> ('c, 'w) runtime \<Rightarrow> (rt_error + action list) \<times> ('c, 'w) runtime" where
  "carry_out E name raw next acts r =
     (let n = length (filter (\<lambda>a. act_Kind a \<noteq> ActionConflict) acts) in
      case takeReconcileBudget E name n r of
        (False, r) \<Rightarrow> (Inl BudgetExhausted, r)
      | (True, r) \<Rightarrow>
          (case build_changes (rl E) (rt_sources r) next acts [] (rt_ownership r) of
             Inl e \<Rightarrow> (Inl e, refundReconcileBudget E name n r)
           | Inr (changes, final) \<Rightarrow>
               (case Transfers E changes (rt_store r) (rt_world r) of
                  (None, w) \<Rightarrow> (Inl TransferFailed, refundReconcileBudget E name n (r\<lparr>rt_world := w\<rparr>))
                | (Some (upserts, removals), w) \<Rightarrow>
                    (case commitReconciliation E name raw next final upserts removals (r\<lparr>rt_world := w\<rparr>) of
                       (Some e, r) \<Rightarrow> (Inl e, refundReconcileBudget E name n r)
                     | (None, r) \<Rightarrow> (Inr acts, r)))))"

definition reconcile ::
  "('c, 'w) rt_env \<Rightarrow> string \<Rightarrow> catalog \<Rightarrow> zone \<Rightarrow> ('c, 'w) runtime \<Rightarrow> (rt_error + action list) \<times> ('c, 'w) runtime" where
  "reconcile E name accepted raw r =
     (let L = rl E in
      if \<not> rt_attached r then (Inl NotAttached, r)
      else case validateMemberScope L (rt_sources r) name accepted of
        Some e \<Rightarrow> (Inl e, r)
      | None \<Rightarrow>
          if (case map_of (rt_catalogs r) name of
                Some current \<Rightarrow> \<not> SerialGreater (cat_Serial accepted) (cat_Serial current) | None \<Rightarrow> False)
          then (Inl SerialNotAdvanced, r)
          else let next = AList.update name accepted (rt_catalogs r) in
            (case validateCatalogGraph L (rt_sources r) next of
               Some e \<Rightarrow> (Inl e, r)
             | None \<Rightarrow>
                 (case Plan L (rt_catalogs r) next (rt_ownership r) (rt_order r) (rt_reserved r) of
                    Inl e \<Rightarrow> (Inl (PlanFailed e), r)
                  | Inr acts \<Rightarrow>
                      (case map_of (rt_sources r) name of
                         None \<Rightarrow> (Inl (NoSource name), r)
                       | Some source \<Rightarrow>
                           if int (length acts) > MaxReconcileActions source then (Inl TooManyActions, r)
                           else if DryRun source
                           then (Inl DryRunOnly, recordPending name (cat_Serial accepted) PendingDryRun acts r)
                           else if ApprovalRequiredAbove source > 0 \<and>
                             int (countDestructiveActions acts) > ApprovalRequiredAbove source \<and>
                             ApprovedSerial source \<noteq> Some (cat_Serial accepted)
                           then (Inl ApprovalRequired, recordPending name (cat_Serial accepted) PendingApproval acts r)
                           else carry_out E name raw next acts r))))"

subsection \<open>Publications of the secondaries\<close>

text \<open>A member zone: stored, and kept in the file when a catalog owns it.\<close>

definition publish_member :: "('c, 'w) rt_env \<Rightarrow> zone \<Rightarrow> ('c, 'w) runtime \<Rightarrow> rt_error option \<times> ('c, 'w) runtime" where
  "publish_member E z r =
     (let L = rl E; name = normalizeName L (Origin z); previous = map_of (served (rt_store r)) name in
      case AddZone L z (rt_store r) of
        Inl e \<Rightarrow> (Some (StoreFailed e), r)
      | Inr store \<Rightarrow>
          let kept = rt_memberZone r;
              r = r\<lparr>rt_store := store\<rparr>;
              r = (if map_of (rt_ownership r) name \<noteq> None then r\<lparr>rt_memberZone := AList.update name (Clone z) kept\<rparr> else r) in
          (case persistLocked E r of
             (True, r) \<Rightarrow> (None, r)
           | (False, r) \<Rightarrow>
               (Some PersistFailed,
                r\<lparr>rt_memberZone := (case map_of kept name of
                                       None \<Rightarrow> AList.delete name (rt_memberZone r)
                                     | Some z \<Rightarrow> AList.update name z (rt_memberZone r)),
                  rt_store := (case previous of
                                 None \<Rightarrow> RemoveZone L name (rt_store r)
                               | Some p \<Rightarrow> (case AddZone L p (rt_store r) of Inr s \<Rightarrow> s | Inl _ \<Rightarrow> rt_store r))\<rparr>)))"

definition publish_catalog :: "('c, 'w) rt_env \<Rightarrow> string \<Rightarrow> zone \<Rightarrow> ('c, 'w) runtime \<Rightarrow> rt_error option \<times> ('c, 'w) runtime" where
  "publish_catalog E name z r =
     (let r = recordAttempt E name r in
      case Parse (rl E) (Some z) of
        Inl e \<Rightarrow> (Some (ParseFailed e), recordFailure name (ParseFailed e) r)
      | Inr parsed \<Rightarrow>
          (case reconcile E name parsed z r of
             (Inl e, r) \<Rightarrow> (Some e, recordFailure name e r)
           | (Inr acts, r) \<Rightarrow> (None, recordSuccess E name parsed r)))"

definition runtime_AddZone :: "('c, 'w) rt_env \<Rightarrow> zone option \<Rightarrow> ('c, 'w) runtime \<Rightarrow> rt_error option \<times> ('c, 'w) runtime" where
  "runtime_AddZone E z r =
     (case z of
        None \<Rightarrow> (Some NilPublication, r)
      | Some z \<Rightarrow>
          let name = normalizeName (rl E) (Origin z) in
          if map_of (rt_sources r) name = None then publish_member E z r else publish_catalog E name z r)"

definition ObserveTransfer :: "('c, 'w) rt_env \<Rightarrow> string \<Rightarrow> rt_error option \<Rightarrow> ('c, 'w) runtime \<Rightarrow> ('c, 'w) runtime" where
  "ObserveTransfer E name err r =
     (let name = normalizeName (rl E) name in
      if map_of (rt_sources r) name = None then r
      else case err of
             None \<Rightarrow> r
           | Some e \<Rightarrow> on_status name (\<lambda>s. s\<lparr>LastAttempt := RtNow E (rt_world r), LastError := Some e\<rparr>) r)"

definition runtime_GetZone :: "('c, 'w) rt_env \<Rightarrow> string \<Rightarrow> ('c, 'w) runtime \<Rightarrow> zone option" where
  "runtime_GetZone E name r =
     (let name = normalizeName (rl E) name in
      case map_of (rt_catalogZone r) name of Some z \<Rightarrow> Some z | None \<Rightarrow> map_of (served (rt_store r)) name)"

subsection \<open>Construction and restart\<close>

definition maxCatalogSources :: int where "maxCatalogSources = 128"
definition defaultMaxCatalogMembers :: int where "defaultMaxCatalogMembers = 100000"
definition absoluteMaxCatalogMembers :: int where "absoluteMaxCatalogMembers = 10000000"
definition defaultMaxReconcileActions :: int where "defaultMaxReconcileActions = 200000"
definition absoluteMaxReconcileActions :: int where "absoluteMaxReconcileActions = 10000000"

datatype new_error =
    NoStatePath | TooManySources | SourceNameRequired | DuplicateSource string | BadSuffix string | BadLimit string
  | StateUnreadable | StateUndecodable | StateVersion int | BadZoneData string | BadCatalog string catalog_error | KeyMismatch string
  | PersistedInvalid rt_error | ReservedMember string | MissingMemberData string | RestoreFailed string

datatype state_file = NoFile | Unreadable | Undecodable | StateFile disk_state

definition normalizeNames :: "dns_lib \<Rightarrow> string list \<Rightarrow> string list" where
  "normalizeNames L ns = sort (remdups (map (normalizeName L) ns))"

definition normalizeSuffixes :: "('c, 'w) rt_env \<Rightarrow> string list \<Rightarrow> string list option" where
  "normalizeSuffixes E suffixes =
     (if list_ex (\<lambda>s. TrimSpace s = [] \<or> \<not> IsDomainName E (normalizeName (rl E) s)) suffixes then None
      else Some (normalizeNames (rl E) suffixes))"

definition unless_zero :: "int \<Rightarrow> int \<Rightarrow> int" where
  "unless_zero x d = (if x = 0 then d else x)"

definition prepare_source :: "('c, 'w) rt_env \<Rightarrow> 'c source \<Rightarrow> new_error + 'c source" where
  "prepare_source E s =
     (let s = s\<lparr>Defaults := (Defaults s)\<lparr>RetainOnError := True\<rparr>,
                Groups := map (\<lambda>(g, conf). (g, conf\<lparr>RetainOnError := True\<rparr>)) (Groups s)\<rparr> in
      case (normalizeSuffixes E (MemberAllowSuffixes s), normalizeSuffixes E (MemberDenySuffixes s)) of
        (Some allow, Some deny) \<Rightarrow>
          (let s = s\<lparr>MemberAllowSuffixes := allow, MemberDenySuffixes := deny,
                     MaxMembers := unless_zero (MaxMembers s) defaultMaxCatalogMembers,
                     MaxReconcileActions := unless_zero (MaxReconcileActions s) defaultMaxReconcileActions\<rparr>;
               s = s\<lparr>ReconcileActionsPerMinute := unless_zero (ReconcileActionsPerMinute s) (MaxReconcileActions s),
                     ReconcileActionBurst := unless_zero (ReconcileActionBurst s) (MaxReconcileActions s)\<rparr> in
           if MaxMembers s < 1 \<or> MaxMembers s > absoluteMaxCatalogMembers \<or>
              MaxReconcileActions s < 1 \<or> MaxReconcileActions s > absoluteMaxReconcileActions \<or>
              ReconcileActionsPerMinute s < 1 \<or> ReconcileActionsPerMinute s > absoluteMaxReconcileActions \<or>
              ReconcileActionBurst s < 1 \<or> ReconcileActionBurst s > absoluteMaxReconcileActions \<or>
              ApprovalRequiredAbove s < 0 \<or> ApprovalRequiredAbove s > absoluteMaxReconcileActions
           then Inl (BadLimit (src_Name s)) else Inr s)
      | _ \<Rightarrow> Inl (BadSuffix (src_Name s)))"

fun add_sources ::
  "('c, 'w) rt_env \<Rightarrow> 'c source list \<Rightarrow> (string \<times> 'c source) list \<Rightarrow> new_error + (string \<times> 'c source) list" where
  "add_sources E [] acc = Inr acc"
| "add_sources E (s # ss) acc =
     (let s = s\<lparr>src_Name := normalizeName (rl E) (src_Name s)\<rparr> in
      if src_Name s = ''.'' then Inl SourceNameRequired
      else if map_of acc (src_Name s) \<noteq> None then Inl (DuplicateSource (src_Name s))
      else case prepare_source E s of
             Inl e \<Rightarrow> Inl e
           | Inr s \<Rightarrow> add_sources E ss (acc @ [(src_Name s, s)]))"

fun restore_records :: "('c, 'w) rt_env \<Rightarrow> string list \<Rightarrow> zone \<Rightarrow> zone option" where
  "restore_records E [] z = (if Zone.Validate (rl E) z = None then Some z else None)"
| "restore_records E (t # ts) z =
     (case NewRR E t of
        None \<Rightarrow> None
      | Some x \<Rightarrow> (case AddRecord (rl E) (Some x) z of (Inl _, _) \<Rightarrow> None | (Inr _, z) \<Rightarrow> restore_records E ts z))"

definition restoreZone :: "('c, 'w) rt_env \<Rightarrow> persisted_zone \<Rightarrow> zone option" where
  "restoreZone E p = Option.bind (New (normalizeName (rl E) (pz_Origin p))) (restore_records E (pz_Records p))"

fun load_catalogs :: "('c, 'w) rt_env \<Rightarrow> (string \<times> persisted_zone) list \<Rightarrow> ('c, 'w) runtime \<Rightarrow> new_error + ('c, 'w) runtime" where
  "load_catalogs E [] r = Inr r"
| "load_catalogs E ((name, p) # ps) r =
     (case restoreZone E p of
        None \<Rightarrow> Inl (BadZoneData name)
      | Some z \<Rightarrow>
          (case Parse (rl E) (Some z) of
             Inl e \<Rightarrow> Inl (BadCatalog name e)
           | Inr parsed \<Rightarrow>
               let name = normalizeName (rl E) name in
               if cat_Name parsed \<noteq> name then Inl (KeyMismatch name)
               else load_catalogs E ps
                      (if map_of (rt_sources r) name \<noteq> None
                       then r\<lparr>rt_catalogs := AList.update name parsed (rt_catalogs r),
                              rt_catalogZone := AList.update name z (rt_catalogZone r),
                              rt_acceptedAt := AList.update name (AcceptedAt p) (rt_acceptedAt r)\<rparr>
                       else r)))"

fun load_members :: "('c, 'w) rt_env \<Rightarrow> (string \<times> persisted_zone) list \<Rightarrow> ('c, 'w) runtime \<Rightarrow> new_error + ('c, 'w) runtime" where
  "load_members E [] r = Inr r"
| "load_members E ((name, p) # ps) r =
     (case restoreZone E p of
        None \<Rightarrow> Inl (BadZoneData name)
      | Some z \<Rightarrow>
          let name = normalizeName (rl E) name in
          if Origin z \<noteq> name then Inl (KeyMismatch name)
          else load_members E ps (r\<lparr>rt_memberZone := AList.update name z (rt_memberZone r)\<rparr>))"

definition load :: "('c, 'w) rt_env \<Rightarrow> state_file \<Rightarrow> ('c, 'w) runtime \<Rightarrow> new_error + ('c, 'w) runtime" where
  "load E file r =
     (case file of
        NoFile \<Rightarrow> Inr r
      | Unreadable \<Rightarrow> Inl StateUnreadable
      | Undecodable \<Rightarrow> Inl StateUndecodable
      | StateFile d \<Rightarrow>
          if Version d \<noteq> stateVersion then Inl (StateVersion (Version d))
          else (case load_catalogs E (ds_Catalogs d) r of
                  Inl e \<Rightarrow> Inl e
                | Inr r \<Rightarrow> load_members E (ds_Members d) (r\<lparr>rt_ownership := normalizeOwnership (rl E) (ds_Ownership d)\<rparr>)))"

definition load_status :: "('c, 'w) runtime \<Rightarrow> string \<times> catalog \<Rightarrow> ('c, 'w) runtime \<Rightarrow> ('c, 'w) runtime" where
  "load_status r0 = (\<lambda>(name, c). on_status name
     (\<lambda>s. s\<lparr>st_Serial := cat_Serial c, st_Members := length (Members c),
            LastSuccess := (case map_of (rt_acceptedAt r0) name of Some t \<Rightarrow> t | None \<Rightarrow> 0)\<rparr>))"

text \<open>The owned zones of the file: those of catalogs no longer configured are forgotten, the others are served again.\<close>

fun restore_owned :: "('c, 'w) rt_env \<Rightarrow> owners \<Rightarrow> ('c, 'w) runtime \<Rightarrow> new_error + ('c, 'w) runtime" where
  "restore_owned E [] r = Inr r"
| "restore_owned E ((z, owner) # os) r =
     (case map_of (rt_sources r) (own_Catalog owner) of
        None \<Rightarrow> restore_owned E os (r\<lparr>rt_ownership := AList.delete z (rt_ownership r), rt_memberZone := AList.delete z (rt_memberZone r)\<rparr>)
      | Some source \<Rightarrow>
          (case validateMemberName (rl E) z source of
             Some e \<Rightarrow> Inl (PersistedInvalid e)
           | None \<Rightarrow>
               if normalizeName (rl E) z \<in> set (rt_reserved r) then Inl (ReservedMember z)
               else (case map_of (rt_memberZone r) z of
                       None \<Rightarrow> Inl (MissingMemberData z)
                     | Some member \<Rightarrow>
                         (case AddZone (rl E) member (rt_store r) of
                            Inl _ \<Rightarrow> Inl (RestoreFailed z)
                          | Inr store \<Rightarrow> restore_owned E os (r\<lparr>rt_store := store\<rparr>)))))"

definition NewRuntime ::
  "('c, 'w) rt_env \<Rightarrow> zone_set \<Rightarrow> 'c source list \<Rightarrow> string \<Rightarrow> string list \<Rightarrow> state_file \<Rightarrow> 'w \<Rightarrow> new_error + ('c, 'w) runtime" where
  "NewRuntime E store sources statePath reservedZones file w =
     (let L = rl E in
      if TrimSpace statePath = [] then Inl NoStatePath
      else if int (length sources) > maxCatalogSources then Inl TooManySources
      else case add_sources E sources [] of
        Inl e \<Rightarrow> Inl e
      | Inr configured \<Rightarrow>
          let order = map fst configured;
              reserved = normalizeNames L (normalizeNames L (map fst (served store) @ reservedZones) @ order);
              r = \<lparr>rt_store = store, rt_sources = configured, rt_order = order, rt_reserved = reserved, rt_attached = False,
                   rt_catalogs = [], rt_catalogZone = [], rt_ownership = [], rt_memberZone = [], rt_acceptedAt = [],
                   rt_status = map (\<lambda>n. (n, no_status)) order, rt_generation = 0,
                   rt_disk = (case file of StateFile d \<Rightarrow> Some d | _ \<Rightarrow> None), rt_world = w\<rparr> in
          (case load E file r of
             Inl e \<Rightarrow> Inl e
           | Inr r \<Rightarrow>
               (case first_error (\<lambda>(name, c). validateMemberScope L (rt_sources r) name c) (rt_catalogs r) of
                  Some e \<Rightarrow> Inl (PersistedInvalid e)
                | None \<Rightarrow>
                    let r = fold (load_status r) (rt_catalogs r) r in
                    (case validateCatalogGraph L (rt_sources r) (rt_catalogs r) of
                       Some e \<Rightarrow> Inl (PersistedInvalid e)
                     | None \<Rightarrow> restore_owned E (rt_ownership r) r))))"

text \<open>\<open>AttachController\<close>; the daemon exits when it fails.\<close>

fun seed_members :: "('c, 'w) rt_env \<Rightarrow> string list \<Rightarrow> ('c, 'w) runtime \<Rightarrow> rt_error option \<times> ('c, 'w) runtime" where
  "seed_members E [] r = (case persistLocked E r of (True, r) \<Rightarrow> (None, r) | (False, r) \<Rightarrow> (Some PersistFailed, r))"
| "seed_members E (z # zs) r =
     (case map_of (rt_ownership r) z of
        None \<Rightarrow> seed_members E zs r
      | Some owner \<Rightarrow>
          (case memberIn (map_of (rt_catalogs r) (own_Catalog owner)) z of
             None \<Rightarrow> (Some (ActionWithoutMember z), r)
           | Some member \<Rightarrow>
               (case memberConfig (rl E) (rt_sources r) (own_Catalog owner) member of
                  Inl e \<Rightarrow> (Some e, r)
                | Inr conf \<Rightarrow>
                    (case Upsert E conf (rt_world r) of
                       (False, w) \<Rightarrow> (Some TransferFailed, r\<lparr>rt_world := w\<rparr>)
                     | (True, w) \<Rightarrow> seed_members E zs (r\<lparr>rt_world := w\<rparr>)))))"

definition AttachController :: "('c, 'w) rt_env \<Rightarrow> ('c, 'w) runtime \<Rightarrow> rt_error option \<times> ('c, 'w) runtime" where
  "AttachController E r =
     (if rt_attached r then (Some AlreadyAttached, r)
      else seed_members E (sortedOwnershipZones (rt_ownership r)) (r\<lparr>rt_attached := True\<rparr>))"

definition CatalogSecondaryConfigs ::
  "(string \<times> 'c sec_config) list \<Rightarrow> ('c, 'w) runtime \<Rightarrow> 'c sec_config list option" where
  "CatalogSecondaryConfigs configs r =
     those (map (\<lambda>name. map_option (\<lambda>conf. conf\<lparr>sc_Name := name, RetainOnError := True\<rparr>) (map_of configs name)) (rt_order r))"

subsection \<open>Pages of members\<close>

text \<open>\<open>sort.SearchStrings\<close> on a sorted slice: the number of smaller elements.\<close>

definition SearchStrings :: "string list \<Rightarrow> string \<Rightarrow> nat" where
  "SearchStrings xs x = length (takeWhile (\<lambda>y. y < x) xs)"

definition page_step :: "string \<Rightarrow> nat \<Rightarrow> string \<Rightarrow> string list \<Rightarrow> string list" where
  "page_step cursor limit name result =
     (if name \<le> cursor then result
      else let index = SearchStrings result name in
        if index < length result \<and> result ! index = name then result
        else if length result < limit then take index result @ name # drop index result
        else if index \<ge> limit then result
        else take index result @ name # drop index (take (limit - 1) result))"

definition boundedMemberPage :: "string list \<Rightarrow> string \<Rightarrow> nat \<Rightarrow> string list" where
  "boundedMemberPage members cursor limit = fold (page_step cursor limit) members []"

record member_status =
  ms_Zone :: string
  ms_Label :: string
  ms_Groups :: "string list"
  ms_ChangeOfOwnership :: string
  OwnerCatalog :: string
  EffectiveGroup :: string
  ms_Masters :: "string list"

datatype page_error = BadCursor | BadPageSize | CatalogNotFound | CatalogChanged | PageConfig rt_error

definition normalizeMemberCursor :: "('c, 'w) rt_env \<Rightarrow> string \<Rightarrow> string option" where
  "normalizeMemberCursor E cursor =
     (let cursor = TrimSpace (to_lower cursor) in
      if cursor = [] then Some []
      else let cursor = Fqdn (rl E) cursor in if IsDomainName E cursor then Some cursor else None)"

fun page_statuses :: "('c, 'w) rt_env \<Rightarrow> ('c, 'w) runtime \<Rightarrow> string \<Rightarrow> catalog \<Rightarrow> string list \<Rightarrow> page_error + member_status list" where
  "page_statuses E r catalogName accepted [] = Inr []"
| "page_statuses E r catalogName accepted (n # ns) =
     (case memberIn (Some accepted) n of
        None \<Rightarrow> page_statuses E r catalogName accepted ns
      | Some member \<Rightarrow>
          (case memberConfigWithGroup (rl E) (rt_sources r) catalogName member of
             Inl e \<Rightarrow> Inl (PageConfig e)
           | Inr (conf, effective) \<Rightarrow>
               (case page_statuses E r catalogName accepted ns of
                  Inl e \<Rightarrow> Inl e
                | Inr ss \<Rightarrow>
                    Inr (\<lparr>ms_Zone = mb_Zone member, ms_Label = mb_Label member, ms_Groups = map concat (mb_Groups member),
                          ms_ChangeOfOwnership = ChangeOfOwnership member,
                          OwnerCatalog = (case map_of (rt_ownership r) n of Some o' \<Rightarrow> own_Catalog o' | None \<Rightarrow> []),
                          EffectiveGroup = effective, ms_Masters = Masters conf\<rparr> # ss))))"

text \<open>A page, the cursor of the next one (empty at the end), the number of members, the serial.\<close>

definition CatalogMembers ::
  "('c, 'w) rt_env \<Rightarrow> string \<Rightarrow> string \<Rightarrow> int \<Rightarrow> u32 option \<Rightarrow> ('c, 'w) runtime \<Rightarrow>
   page_error + member_status list \<times> string \<times> nat \<times> u32" where
  "CatalogMembers E catalogName cursor limit expectedSerial r =
     (let catalogName = normalizeName (rl E) catalogName in
      case normalizeMemberCursor E cursor of
        None \<Rightarrow> Inl BadCursor
      | Some cursor \<Rightarrow>
          if limit < 1 \<or> limit > 1000 then Inl BadPageSize
          else (case map_of (rt_catalogs r) catalogName of
                  None \<Rightarrow> Inl CatalogNotFound
                | Some accepted \<Rightarrow>
                    if (case expectedSerial of Some s \<Rightarrow> cat_Serial accepted \<noteq> s | None \<Rightarrow> False) then Inl CatalogChanged
                    else let all = map fst (Members accepted); page = boundedMemberPage all cursor (nat limit) in
                      (case page_statuses E r catalogName accepted page of
                         Inl e \<Rightarrow> Inl e
                       | Inr ss \<Rightarrow>
                           Inr (ss, if page \<noteq> [] \<and> list_ex (\<lambda>n. n > last page) all then last page else [],
                                length all, cat_Serial accepted))))"

end
