(* ===== verification/Catalog_Props.thy ===== *)
theory Catalog_Props
  imports Catalog "HOL-Library.Multiset"
begin

text \<open>
  What a plan does to the ownership of zones: every action is justified by the catalogs, each zone is changed at most
  once, and ownership moves only with the consent of the old owner.
\<close>

subsection \<open>The effect of actions\<close>

definition real :: "action \<Rightarrow> bool" where
  "real a \<longleftrightarrow> act_Kind a \<noteq> ActionConflict"

definition apply_action :: "action \<Rightarrow> owners \<Rightarrow> owners" where
  "apply_action a own =
     (if \<not> real a then own
      else if act_Kind a = ActionRemove then AList.delete (act_Zone a) own
      else AList.update (act_Zone a) \<lparr>own_Catalog = act_Catalog a, own_Label = act_Label a\<rparr> own)"

definition act_effect :: "action \<Rightarrow> ownership option" where
  "act_effect a = (if act_Kind a = ActionRemove then None else Some \<lparr>own_Catalog = act_Catalog a, own_Label = act_Label a\<rparr>)"

lemma apply_action_lookup:
  "map_of (apply_action a own) z = (if real a \<and> act_Zone a = z then act_effect a else map_of own z)"
  by (simp add: apply_action_def act_effect_def update_conv' delete_conv' del: fun_upd_apply) (simp add: real_def)

lemma apply_actions_other:
  "\<forall>a \<in> set acts. real a \<longrightarrow> act_Zone a \<noteq> z \<Longrightarrow> map_of (fold apply_action acts own) z = map_of own z"
  by (induction acts arbitrary: own) (auto simp: apply_action_lookup)

lemma apply_actions_lookup:
  assumes "distinct (map act_Zone (filter real acts))" "a \<in> set acts" "real a"
  shows "map_of (fold apply_action acts own) (act_Zone a) = act_effect a"
  using assms
proof (induction acts arbitrary: own)
  case (Cons b acts)
  show ?case
  proof (cases "a \<in> set acts")
    case True
    then show ?thesis using Cons by (simp split: if_splits)
  next
    case False
    then have "b = a" using Cons.prems by simp
    then have "\<forall>c \<in> set acts. real c \<longrightarrow> act_Zone c \<noteq> act_Zone a" using Cons.prems by (auto simp: image_iff)
    then show ?thesis using \<open>b = a\<close> Cons.prems(3) by (simp add: apply_actions_other apply_action_lookup)
  qed
qed simp

subsection \<open>What justifies an action\<close>

definition moves :: "catalogs \<Rightarrow> ownership \<Rightarrow> string \<Rightarrow> catalog \<Rightarrow> member \<Rightarrow> bool" where
  "moves next owner z c m \<longleftrightarrow>
     (\<exists>old. memberIn (map_of next (own_Catalog owner)) z = Some old \<and> ChangeOfOwnership old \<noteq> [] \<and>
        ChangeOfOwnership old \<noteq> own_Catalog owner \<and> map_of next (ChangeOfOwnership old) = Some c \<and> memberIn (Some c) z = Some m)"

definition justified :: "catalogs \<Rightarrow> owners \<Rightarrow> string list \<Rightarrow> action \<Rightarrow> bool" where
  "justified next own reserved a \<longleftrightarrow>
     (case act_Kind a of
        ActionTransferOwnership \<Rightarrow> \<exists>owner c m. map_of own (act_Zone a) = Some owner \<and> FromCatalog a = own_Catalog owner \<and>
          moves next owner (act_Zone a) c m \<and> act_Catalog a = cat_Name c \<and> act_Label a = mb_Label m
      | ActionRemove \<Rightarrow> \<exists>owner. map_of own (act_Zone a) = Some owner \<and> memberIn (map_of next (own_Catalog owner)) (act_Zone a) = None
      | ActionAdd \<Rightarrow> map_of own (act_Zone a) = None \<and> act_Zone a \<notin> set reserved \<and>
          (\<exists>m. memberIn (map_of next (act_Catalog a)) (act_Zone a) = Some m \<and> act_Label a = mb_Label m)
      | ActionConflict \<Rightarrow> True
      | _ \<Rightarrow> \<exists>owner m. map_of own (act_Zone a) = Some owner \<and> act_Catalog a = own_Catalog owner \<and>
          memberIn (map_of next (own_Catalog owner)) (act_Zone a) = Some m \<and> act_Label a = mb_Label m)"

definition settled :: "catalogs \<Rightarrow> owners \<Rightarrow> string \<Rightarrow> bool" where
  "settled next own z \<longleftrightarrow> (\<forall>owner. map_of own z = Some owner \<longrightarrow>
     (\<exists>m. memberIn (map_of next (own_Catalog owner)) z = Some m \<and> mb_Label m = own_Label owner))"

definition acted :: "plan_state \<Rightarrow> string \<Rightarrow> bool" where
  "acted st z \<longleftrightarrow> (\<exists>a \<in> set (plan_actions st). real a \<and> act_Zone a = z)"

text \<open>What the three loops keep.\<close>

definition plan_ok :: "catalogs \<Rightarrow> owners \<Rightarrow> string list \<Rightarrow> plan_state \<Rightarrow> bool" where
  "plan_ok next own reserved st \<longleftrightarrow>
     (\<forall>a \<in> set (plan_actions st). justified next own reserved a) \<and> distinct (map act_Zone (filter real (plan_actions st))) \<and>
     (\<forall>z. acted st z \<longrightarrow> z \<in> set (handled st)) \<and>
     (\<forall>z \<in> set (handled st). acted st z \<or> settled next own z)"

definition owned_ok :: "owners \<Rightarrow> plan_state \<Rightarrow> bool" where
  "owned_ok own st \<longleftrightarrow> (\<forall>z. z \<notin> set (handled st) \<longrightarrow> map_of (plan_owned st) z = map_of own z) \<and>
     dom (map_of (plan_owned st)) = dom (map_of own)"

lemma not_acted: "\<not> acted st z \<Longrightarrow> z \<notin> act_Zone ` set (filter real (plan_actions st))"
  by (auto simp: acted_def)

lemma plan_ok_action:
  assumes "plan_ok next own reserved st" "z \<notin> set (handled st)"
    "plan_actions st' = plan_actions st @ [a]" "handled st' = z # handled st" "real a" "act_Zone a = z" "justified next own reserved a"
  shows "plan_ok next own reserved st'"
proof -
  have "\<not> acted st z" using assms(1,2) by (auto simp: plan_ok_def)
  moreover have "acted st' y \<longleftrightarrow> acted st y \<or> y = z" for y using assms by (auto simp: acted_def)
  ultimately show ?thesis using assms not_acted[of st z] by (auto simp: plan_ok_def)
qed

lemma plan_ok_silent:
  assumes "plan_ok next own reserved st" "set (handled st') = insert z (set (handled st))" "plan_actions st' = plan_actions st"
    "settled next own z"
  shows "plan_ok next own reserved st'"
  using assms by (auto simp: plan_ok_def acted_def)

lemma plan_ok_conflict:
  assumes "plan_ok next own reserved st" "handled st' = handled st" "plan_actions st' = plan_actions st @ [conflictAction z c y]"
  shows "plan_ok next own reserved st'"
  using assms by (auto simp: plan_ok_def acted_def conflictAction_def plain_action_def justified_def real_def)

subsection \<open>The loops\<close>

lemma transfer_step_ok:
  assumes "plan_ok next own reserved st" "owned_ok own st" "z \<notin> set (handled st)"
  shows "plan_ok next own reserved (transfer_step next z st) \<and> owned_ok own (transfer_step next z st) \<and>
    set (handled (transfer_step next z st)) \<subseteq> insert z (set (handled st))"
proof (cases "transfer_step next z st = st")
  case False
  then obtain owner old c m where o: "map_of (plan_owned st) z = Some owner" "memberIn (map_of next (own_Catalog owner)) z = Some old"
    "ChangeOfOwnership old \<noteq> []" "map_of next (ChangeOfOwnership old) = Some c" "memberIn (Some c) z = Some m"
    "ChangeOfOwnership old \<noteq> own_Catalog owner"
    by (auto simp: transfer_step_def split: option.splits if_splits)
  define a where "a = (plain_action ActionTransferOwnership z)\<lparr>act_Catalog := cat_Name c, FromCatalog := own_Catalog owner,
      act_Label := mb_Label m, PreviousLabel := own_Label owner, ResetState := (own_Label owner \<noteq> mb_Label m)\<rparr>"
  have st: "plan_actions (transfer_step next z st) = plan_actions st @ [a]" "handled (transfer_step next z st) = z # handled st"
    "plan_owned (transfer_step next z st) = AList.update z \<lparr>own_Catalog = cat_Name c, own_Label = mb_Label m\<rparr> (plan_owned st)"
    using o by (simp_all add: transfer_step_def a_def)
  have own: "map_of own z = Some owner" using assms(2,3) o(1) by (auto simp: owned_ok_def)
  have mv: "moves next owner z c m" using o by (auto simp: moves_def)
  have a: "real a" "act_Zone a = z" by (simp_all add: a_def plain_action_def real_def)
  have "\<exists>owner' c' m'. map_of own z = Some owner' \<and> own_Catalog owner = own_Catalog owner' \<and> moves next owner' z c' m' \<and>
    cat_Name c = cat_Name c' \<and> mb_Label m = mb_Label m'" using own mv by blast
  then have j: "justified next own reserved a" by (simp add: justified_def a_def plain_action_def)
  have "plan_ok next own reserved (transfer_step next z st)"
    by (rule plan_ok_action[OF assms(1,3) st(1,2) a j])
  moreover have "owned_ok own (transfer_step next z st)"
    using assms(2) own by (auto simp: owned_ok_def st update_conv')
  ultimately show ?thesis using st by auto
qed (use assms in auto)

lemma transfers_ok:
  "plan_ok next own reserved st \<Longrightarrow> owned_ok own st \<Longrightarrow> distinct zs \<Longrightarrow> set zs \<inter> set (handled st) = {} \<Longrightarrow>
    plan_ok next own reserved (fold (transfer_step next) zs st) \<and> owned_ok own (fold (transfer_step next) zs st) \<and>
    set (handled (fold (transfer_step next) zs st)) \<subseteq> set zs \<union> set (handled st)"
proof (induction zs arbitrary: st)
  case (Cons z zs)
  let ?st = "transfer_step next z st"
  have s: "plan_ok next own reserved ?st" "owned_ok own ?st" "set (handled ?st) \<subseteq> insert z (set (handled st))"
    using transfer_step_ok[OF Cons.prems(1,2), of z] Cons.prems(4) by auto
  then have "set zs \<inter> set (handled ?st) = {}" using Cons.prems(3,4) by auto
  then show ?case using Cons.IH[OF s(1,2)] Cons.prems(3) s(3) by auto
qed auto

lemma retain_step_ok:
  assumes "plan_ok next own reserved st" "owned_ok own st"
  shows "plan_ok next own reserved (retain_step L previous next z st) \<and> owned_ok own (retain_step L previous next z st) \<and>
    plan_owned (retain_step L previous next z st) = plan_owned st \<and>
    set (handled st) \<subseteq> set (handled (retain_step L previous next z st)) \<and>
    (map_of (plan_owned st) z \<noteq> None \<longrightarrow> z \<in> set (handled (retain_step L previous next z st)))"
proof (cases "z \<in> set (handled st) \<or> map_of (plan_owned st) z = None")
  case True
  then show ?thesis using assms by (auto simp: retain_step_def)
next
  case False
  then obtain owner where o: "map_of (plan_owned st) z = Some owner" "z \<notin> set (handled st)" by auto
  then have own: "map_of own z = Some owner" using assms(2) by (auto simp: owned_ok_def)
  let ?st = "retain_step L previous next z st"
  have h: "handled ?st = z # handled st" "plan_owned ?st = plan_owned st" using o by (simp_all add: retain_step_def Let_def)
  have "plan_ok next own reserved ?st"
  proof (cases "plan_actions ?st = plan_actions st")
    case True
    have "settled next own z" using True o own
      by (auto simp: retain_step_def settled_def Let_def split: option.splits if_splits)
    then show ?thesis using plan_ok_silent[OF assms(1) _ True] h by simp
  next
    case False
    then obtain a where a: "plan_actions ?st = plan_actions st @ [a]" using o
      by (auto simp: retain_step_def Let_def split: option.splits if_splits)
    then have "real a" "act_Zone a = z" "justified next own reserved a" using o own
      by (auto simp: retain_step_def Let_def real_def plain_action_def justified_def split: option.splits if_splits)
    then show ?thesis using plan_ok_action[OF assms(1) o(2) a h(1)] by simp
  qed
  moreover have "owned_ok own ?st" using assms(2) h by (auto simp: owned_ok_def)
  ultimately show ?thesis using h by auto
qed

lemma retains_ok:
  "plan_ok next own reserved st \<Longrightarrow> owned_ok own st \<Longrightarrow>
    (let st' = fold (retain_step L previous next) zs st in
     plan_ok next own reserved st' \<and> owned_ok own st' \<and> plan_owned st' = plan_owned st \<and> set (handled st) \<subseteq> set (handled st') \<and>
     (\<forall>z \<in> set zs. map_of (plan_owned st) z \<noteq> None \<longrightarrow> z \<in> set (handled st')))"
proof (induction zs arbitrary: st)
  case (Cons z zs)
  note s = retain_step_ok[OF Cons.prems, of L previous z]
  then show ?case using Cons.IH[of "retain_step L previous next z st"] by (auto simp: Let_def)
qed simp

definition claims_ok :: "owners \<Rightarrow> string list \<Rightarrow> plan_state \<Rightarrow> bool" where
  "claims_ok own reserved st \<longleftrightarrow> dom (map_of own) \<subseteq> set (handled st) \<and>
     (\<forall>z \<in> set reserved. z \<notin> set (handled st) \<longrightarrow> claimed_by st z \<noteq> [])"

lemma add_step_ok:
  assumes "plan_ok next own reserved st" "claims_ok own reserved st"
  shows "plan_ok next own reserved (add_step next (c, z) st) \<and> claims_ok own reserved (add_step next (c, z) st)"
proof (cases "\<exists>m. memberIn (map_of next c) z = Some m \<and> z \<notin> set (handled st) \<and> claimed_by st z = []")
  case True
  then obtain m where m: "memberIn (map_of next c) z = Some m" "z \<notin> set (handled st)" "claimed_by st z = []" by blast
  define a where "a = (plain_action ActionAdd z)\<lparr>act_Catalog := c, act_Label := mb_Label m\<rparr>"
  let ?st = "add_step next (c, z) st"
  have st: "plan_actions ?st = plan_actions st @ [a]" "handled ?st = z # handled st" "claimed ?st = AList.update z c (claimed st)"
    using m by (simp_all add: add_step_def a_def)
  have "map_of own z = None" "z \<notin> set reserved" using assms(2) m(2,3) by (auto simp: claims_ok_def domIff)
  then have "justified next own reserved a" "real a" "act_Zone a = z"
    using m(1) by (simp_all add: a_def plain_action_def justified_def real_def)
  then have "plan_ok next own reserved ?st" using plan_ok_action[OF assms(1) m(2) st(1,2)] by simp
  moreover have "claims_ok own reserved ?st" using assms(2) by (auto simp: claims_ok_def st claimed_by_def update_conv')
  ultimately show ?thesis ..
next
  case False
  let ?st = "add_step next (c, z) st"
  have "?st = st \<or> (\<exists>y. ?st = st\<lparr>plan_actions := plan_actions st @ [conflictAction z c y]\<rparr>)"
    using False by (auto simp: add_step_def Let_def split: option.splits)
  then show ?thesis
  proof
    assume "\<exists>y. ?st = st\<lparr>plan_actions := plan_actions st @ [conflictAction z c y]\<rparr>"
    then obtain y where y: "?st = st\<lparr>plan_actions := plan_actions st @ [conflictAction z c y]\<rparr>" by blast
    show ?thesis using assms plan_ok_conflict[OF assms(1), of ?st z c y] by (simp add: y claims_ok_def claimed_by_def)
  qed (use assms in simp)
qed

lemma add_steps_ok:
  "plan_ok next own reserved st \<Longrightarrow> claims_ok own reserved st \<Longrightarrow>
    plan_ok next own reserved (fold (add_step next) cs st) \<and> claims_ok own reserved (fold (add_step next) cs st)"
  by (induction cs arbitrary: st) (simp_all add: add_step_ok split_paired_all)

subsection \<open>The plan\<close>

lemma check_reserved_Inr:
  "check_reserved L own zs = Inr rs \<Longrightarrow> rs = map (normalizeName L) zs \<and> (\<forall>z \<in> set rs. map_of own z = None)"
  by (induction zs arbitrary: rs) (auto simp: Let_def split: if_splits sum.splits)

lemma claimed_initial:
  "map_of (fold (\<lambda>z. AList.update z y) zs m) x = (if x \<in> set zs then Some y else map_of m x)"
  by (induction zs arbitrary: m) (auto simp: update_conv')

lemma distinct_keys_fold:
  "distinct (map fst m) \<Longrightarrow> distinct (map fst (fold (\<lambda>x. AList.update (f x) (g x)) xs m))"
  by (induction xs arbitrary: m) (simp_all add: distinct_update)

lemma distinct_normalizeOwnership: "distinct (map fst (normalizeOwnership L own))"
proof -
  have "normalizeOwnership L own = fold (\<lambda>p. AList.update (normalizeName L (fst p))
      ((snd p)\<lparr>own_Catalog := normalizeName L (own_Catalog (snd p))\<rparr>)) own []"
    by (simp add: normalizeOwnership_def case_prod_unfold)
  then show ?thesis using distinct_keys_fold[of "[]"] by simp
qed

lemma distinct_actions_sort:
  "distinct (map act_Zone (filter real (sortActions order acts))) = distinct (map act_Zone (filter real acts))"
proof -
  have "mset (map act_Zone (filter real (sortActions order acts))) = mset (map act_Zone (filter real acts))"
    by (simp add: sortActions_def filter_sort)
  then show ?thesis by (rule mset_eq_imp_distinct_iff)
qed

text \<open>The properties of a plan's actions, for the normalized arguments.\<close>

lemma Plan_actions:
  fixes L :: dns_lib and nxt :: catalogs and own :: owners and reserved :: "string list"
  defines "next' \<equiv> normalizeCatalogMap L nxt" and "own' \<equiv> normalizeOwnership L own" and "res' \<equiv> map (normalizeName L) reserved"
  assumes "Plan L previous nxt own order reserved = Inr acts"
  shows "\<forall>a \<in> set acts. justified next' own' res' a" "distinct (map act_Zone (filter real acts))"
    "\<And>z. map_of own' z \<noteq> None \<Longrightarrow> (\<exists>a \<in> set acts. real a \<and> act_Zone a = z) \<or> settled next' own' z"
    "\<And>z. z \<in> set res' \<Longrightarrow> map_of own' z = None"
proof -
  define prev' where "prev' = normalizeCatalogMap L previous"
  obtain ord rs where ord: "orderedCatalogNames L next' order = Inr ord" and rs: "check_reserved L own' reserved = Inr rs"
    using assms(4) by (auto simp: Plan_def Let_def next'_def[symmetric] own'_def[symmetric] split: sum.splits)
  note rs' = check_reserved_Inr[OF rs, folded res'_def]
  define zs where "zs = sortedOwnershipZones own'"
  define st0 where "st0 = \<lparr>plan_actions = [], plan_owned = own', transferredFrom = [], handled = [], claimed = []\<rparr>"
  define st1 where "st1 = fold (transfer_step next') zs st0"
  define st2 where "st2 = fold (retain_step L prev' next') (sortedOwnershipZones (plan_owned st1)) st1"
  define st3 where "st3 = st2\<lparr>claimed := fold (\<lambda>z. AList.update z ''operator configuration'') rs
    (map (\<lambda>(z, owner). (z, own_Catalog owner)) (plan_owned st2))\<rparr>"
  define st4 where "st4 = fold (add_step next') (concat (map (\<lambda>c. map (Pair c) (sortedMemberZones (map_of next' c))) ord)) st3"
  have acts: "acts = sortActions ord (plan_actions st4)"
    using assms(4) ord rs
    by (simp add: Plan_def Let_def next'_def[symmetric] own'_def[symmetric] prev'_def[symmetric] st4_def st3_def st2_def st1_def
        st0_def zs_def)
  have "distinct zs" by (simp add: zs_def sortedOwnershipZones_def own'_def distinct_normalizeOwnership)
  moreover have "plan_ok next' own' res' st0" "owned_ok own' st0" by (simp_all add: plan_ok_def owned_ok_def acted_def st0_def)
  ultimately have 1: "plan_ok next' own' res' st1" "owned_ok own' st1"
    using transfers_ok[of next' own' res' st0 zs] by (simp_all add: st1_def st0_def)
  note r = retains_ok[OF 1, of L prev' "sortedOwnershipZones (plan_owned st1)", folded st2_def, unfolded Let_def]
  have "dom (map_of own') \<subseteq> set (handled st2)"
  proof
    fix z assume "z \<in> dom (map_of own')"
    then have "map_of (plan_owned st1) z \<noteq> None" using 1(2) by (auto simp: owned_ok_def)
    moreover from this have "z \<in> set (sortedOwnershipZones (plan_owned st1))"
      by (auto simp: sortedOwnershipZones_def map_of_eq_None_iff)
    ultimately show "z \<in> set (handled st2)" using r by blast
  qed
  moreover have "claimed_by st3 z \<noteq> []" if "z \<in> set res'" for z
    using that rs' by (simp add: claimed_by_def st3_def claimed_initial)
  ultimately have "claims_ok own' res' st3" by (simp add: claims_ok_def st3_def)
  moreover have "plan_ok next' own' res' st3" using r by (simp add: st3_def plan_ok_def acted_def)
  ultimately have 4: "plan_ok next' own' res' st4" "claims_ok own' res' st4" using add_steps_ok by (simp_all add: st4_def)
  have set: "set acts = set (plan_actions st4)" by (simp add: acts sortActions_def)
  show "\<forall>a \<in> set acts. justified next' own' res' a" using 4(1) by (simp add: set plan_ok_def)
  show "distinct (map act_Zone (filter real acts))" using 4(1) by (simp add: acts distinct_actions_sort plan_ok_def)
  show "(\<exists>a \<in> set acts. real a \<and> act_Zone a = z) \<or> settled next' own' z" if "map_of own' z \<noteq> None" for z
    using 4 that by (auto simp: set plan_ok_def claims_ok_def acted_def)
  show "map_of own' z = None" if "z \<in> set res'" for z using rs' that by simp
qed

end
