(* ===== verification/Catalog_Runtime_Props.thy ===== *)
theory Catalog_Runtime_Props
  imports Catalog_Runtime Catalog_Props
begin

text \<open>
  The reconciler: what a reconciliation does to ownership, that it happens as a whole or not at all, and what every
  reachable runtime satisfies.
\<close>

subsection \<open>The walk along changes of ownership\<close>

lemma cycle_walk_more:
  assumes "distinct seen" "set seen \<subseteq> fst ` set edges" "length edges + 2 \<le> k + length seen"
  shows "cycle_walk edges k seen current = cycle_walk edges (Suc k) seen current"
  using assms
proof (induction k arbitrary: seen current)
  case 0
  have "card (set seen) \<le> card (fst ` set edges)" using 0 by (simp add: card_mono)
  also have "\<dots> \<le> length edges" by (metis card_length image_set length_map)
  finally show ?case using 0 by (simp add: distinct_card)
next
  case (Suc k)
  have le: "length seen \<le> length edges"
  proof -
    have "card (set seen) \<le> card (fst ` set edges)" using Suc.prems by (simp add: card_mono)
    also have "\<dots> \<le> length edges" by (metis card_length image_set length_map)
    finally show ?thesis using Suc.prems by (simp add: distinct_card)
  qed
  show ?case
  proof (cases "map_of edges current")
    case None
    obtain k' where "k = Suc k'" using Suc.prems(3) le by (cases k) auto
    then show ?thesis by (simp add: None)
  next
    case (Some target)
    then have "current \<in> fst ` set edges" by (metis domI dom_map_of_conv_image_fst)
    then show ?thesis using Suc.IH[of "current # seen" target] Suc.prems
      by (subst (1 2) cycle_walk.simps(2)) (auto simp: Some)
  qed
qed

lemma cycle_walk_enough: "length edges + 2 \<le> k \<Longrightarrow> cycle_walk edges k [] start = cycle_walk edges (length edges + 2) [] start"
proof (induction k rule: dec_induct)
  case (step n)
  then show ?case using cycle_walk_more[of "[]" edges n start] by simp
qed simp

subsection \<open>Ownership after a plan\<close>

lemma build_changes_final:
  "build_changes L sources next acts changes own = Inr (changes', final) \<Longrightarrow> final = fold apply_action acts own"
proof (induction acts arbitrary: changes own)
  case (Cons a acts)
  then show ?case
    by (auto simp: apply_action_def real_def split: if_splits option.splits sum.splits)
qed simp

text \<open>The snapshots are filed under their own names.\<close>

definition filed :: "catalogs \<Rightarrow> bool" where
  "filed cs \<longleftrightarrow> (\<forall>(n, c) \<in> set cs. cat_Name c = n)"

lemma filed_lookup: "filed cs \<Longrightarrow> map_of cs n = Some c \<Longrightarrow> cat_Name c = n"
  by (auto simp: filed_def dest: map_of_SomeD)

lemma justified_member:
  assumes "justified next own reserved a" "real a" "act_effect a = Some owner" "filed next"
  shows "\<exists>m. memberIn (map_of next (own_Catalog owner)) (act_Zone a) = Some m \<and> mb_Label m = own_Label owner"
  using assms filed_lookup[OF assms(4)]
  by (cases "act_Kind a") (auto simp: justified_def act_effect_def real_def moves_def)

lemma plan_final:
  fixes L :: dns_lib and nxt :: catalogs and own :: owners and reserved :: "string list"
  defines "next' \<equiv> normalizeCatalogMap L nxt" and "own' \<equiv> normalizeOwnership L own" and "res' \<equiv> map (normalizeName L) reserved"
  assumes plan: "Plan L previous nxt own order reserved = Inr acts" and filed: "filed next'"
  defines "final \<equiv> fold apply_action acts own'"
  shows "map_of final z = Some owner \<Longrightarrow>
      (\<exists>m. memberIn (map_of next' (own_Catalog owner)) z = Some m \<and> mb_Label m = own_Label owner) \<and> z \<notin> set res'"
    and "map_of own' z = Some old \<Longrightarrow> map_of final z = Some owner \<Longrightarrow> own_Catalog owner \<noteq> own_Catalog old \<Longrightarrow>
      \<exists>m. memberIn (map_of next' (own_Catalog old)) z = Some m \<and> ChangeOfOwnership m = own_Catalog owner"
    and "map_of own' z = Some old \<Longrightarrow> map_of final z = None \<Longrightarrow> memberIn (map_of next' (own_Catalog old)) z = None"
proof -
  note P = Plan_actions[OF plan, folded next'_def own'_def res'_def]
  have eff: "map_of final (act_Zone a) = act_effect a" if "a \<in> set acts" "real a" for a
    unfolding final_def using apply_actions_lookup[OF P(2) that] .
  have un: "map_of final z = map_of own' z" if "\<forall>a \<in> set acts. real a \<longrightarrow> act_Zone a \<noteq> z"
    unfolding final_def using apply_actions_other[OF that] .
  show "(\<exists>m. memberIn (map_of next' (own_Catalog owner)) z = Some m \<and> mb_Label m = own_Label owner) \<and> z \<notin> set res'"
    if f: "map_of final z = Some owner"
  proof (cases "\<exists>a \<in> set acts. real a \<and> act_Zone a = z")
    case True
    then obtain a where a: "a \<in> set acts" "real a" "act_Zone a = z" by blast
    then have j: "justified next' own' res' a" "act_effect a = Some owner" using P(1) eff f by auto
    then have "z \<notin> set res'" using P(4)[of z] a(2,3)
      by (cases "act_Kind a") (auto simp: justified_def act_effect_def real_def)
    then show ?thesis using justified_member[OF j(1) a(2) j(2) filed] a(3) by simp
  next
    case False
    then have "map_of own' z = Some owner" using un f by auto
    then show ?thesis using P(3)[of z] P(4)[of z] False by (auto simp: settled_def)
  qed
  show "\<exists>m. memberIn (map_of next' (own_Catalog old)) z = Some m \<and> ChangeOfOwnership m = own_Catalog owner"
    if o: "map_of own' z = Some old" and f: "map_of final z = Some owner" and ne: "own_Catalog owner \<noteq> own_Catalog old"
  proof -
    obtain a where a: "a \<in> set acts" "real a" "act_Zone a = z" using un f o ne by fastforce
    then have j: "justified next' own' res' a" "act_effect a = Some owner" using P(1) eff f by auto
    then show ?thesis using a(2,3) o ne filed_lookup[OF filed]
      by (cases "act_Kind a") (auto simp: justified_def act_effect_def real_def moves_def)
  qed
  show "memberIn (map_of next' (own_Catalog old)) z = None" if o: "map_of own' z = Some old" and f: "map_of final z = None"
  proof -
    obtain a where a: "a \<in> set acts" "real a" "act_Zone a = z" using un f o by fastforce
    then have "justified next' own' res' a" "act_effect a = None" using P(1) eff f by auto
    then show ?thesis using a(2,3) o by (cases "act_Kind a") (auto simp: justified_def act_effect_def)
  qed
qed

text \<open>
  C17: a plan respects ownership. After the changes of a plan, every owned zone is a member of its owner's new
  snapshot under the recorded label and is not reserved for the operator; a zone has changed hands only when the
  old owner's snapshot names the new owner; and a zone has lost its owner only because that owner no longer lists it.
\<close>

theorem Plan_respects_ownership:
  fixes L :: dns_lib and nxt :: catalogs and own :: owners
  defines "next' \<equiv> normalizeCatalogMap L nxt" and "own' \<equiv> normalizeOwnership L own"
  assumes "Plan L previous nxt own order reserved = Inr acts" "filed next'"
    and "build_changes L sources next' acts [] own' = Inr (changes, final)"
  shows "(map_of final z = Some owner \<longrightarrow>
      (\<exists>m. memberIn (map_of next' (own_Catalog owner)) z = Some m \<and> mb_Label m = own_Label owner) \<and>
      z \<notin> set (map (normalizeName L) reserved)) \<and>
    (map_of own' z = Some old \<and> map_of final z = Some owner \<and> own_Catalog owner \<noteq> own_Catalog old \<longrightarrow>
      (\<exists>m. memberIn (map_of next' (own_Catalog old)) z = Some m \<and> ChangeOfOwnership m = own_Catalog owner)) \<and>
    (map_of own' z = Some old \<and> map_of final z = None \<longrightarrow> memberIn (map_of next' (own_Catalog old)) z = None)"
  using plan_final[OF assms(3) assms(4)[unfolded next'_def], folded next'_def own'_def, of z]
    build_changes_final[OF assms(5)] by blast

subsection \<open>Reconciliation as a whole\<close>

lemma on_status_frame [simp]:
  "rt_store (on_status n f r) = rt_store r" "rt_sources (on_status n f r) = rt_sources r" "rt_order (on_status n f r) = rt_order r"
  "rt_reserved (on_status n f r) = rt_reserved r" "rt_attached (on_status n f r) = rt_attached r"
  "rt_catalogs (on_status n f r) = rt_catalogs r" "rt_catalogZone (on_status n f r) = rt_catalogZone r"
  "rt_ownership (on_status n f r) = rt_ownership r" "rt_memberZone (on_status n f r) = rt_memberZone r"
  "rt_acceptedAt (on_status n f r) = rt_acceptedAt r" "rt_generation (on_status n f r) = rt_generation r"
  "rt_disk (on_status n f r) = rt_disk r" "rt_world (on_status n f r) = rt_world r"
  by (simp_all add: on_status_def)

text \<open>The state without the operator's view and the world.\<close>

definition rt_core :: "('c, 'w) runtime \<Rightarrow> _" where
  "rt_core r = (rt_store r, rt_sources r, rt_order r, rt_reserved r, rt_attached r, rt_catalogs r, rt_catalogZone r, rt_ownership r,
     rt_memberZone r, rt_acceptedAt r, rt_generation r)"

lemmas rt_records = recordAttempt_def recordFailure_def recordSuccess_def recordPending_def

lemma budget_frame:
  "takeReconcileBudget E n k r = (ok, r') \<Longrightarrow> rt_core r' = rt_core r \<and> rt_disk r' = rt_disk r"
  "rt_core (refundReconcileBudget E n k r) = rt_core r" "rt_disk (refundReconcileBudget E n k r) = rt_disk r"
  by (auto simp: takeReconcileBudget_def refundReconcileBudget_def rt_core_def split: if_splits prod.splits)

lemma disk_image_core: "rt_core r = rt_core r' \<Longrightarrow> disk_image L r = disk_image L r'"
  by (simp add: rt_core_def disk_image_def)

lemma persist_frame:
  "persistLocked E r = (ok, r') \<Longrightarrow> rt_core r' = rt_core r \<and> rt_status r' = rt_status r \<and>
     rt_disk r' = (if ok then Some (disk_image (rl E) r) else rt_disk r)"
  by (auto simp: persistLocked_def rt_core_def split: prod.splits bool.splits)

lemma commit_outcome:
  assumes "commitReconciliation E name raw next final upserts removals r = (err, r')"
  shows "case err of
      Some e \<Rightarrow> rt_core r' = rt_core r \<and>
        (rt_disk r' = rt_disk r \<or> rt_disk r' = Some (disk_image (rl E) r) \<or> (\<exists>x. e = RollbackFailed x))
    | None \<Rightarrow> rt_catalogs r' = next \<and> rt_ownership r' = final \<and> rt_disk r' = Some (disk_image (rl E) r') \<and>
        (\<forall>z. map_of final z \<noteq> None \<longrightarrow> map_of (rt_memberZone r') z \<noteq> None) \<and>
        rt_sources r' = rt_sources r \<and> rt_order r' = rt_order r \<and> rt_reserved r' = rt_reserved r \<and> rt_attached r' = rt_attached r"
proof -
  define members where "members = fold (\<lambda>removed. AList.delete (normalizeName (rl E) removed)) removals
    (fold (\<lambda>m. AList.update (normalizeName (rl E) (Origin m)) (Clone m)) upserts (rt_memberZone r))"
  define new where "new = r\<lparr>rt_catalogs := next, rt_catalogZone := AList.update name (Clone raw) (rt_catalogZone r), rt_ownership := final,
      rt_memberZone := members, rt_acceptedAt := AList.update name (RtNow E (rt_world r)) (rt_acceptedAt r),
      rt_generation := rt_generation r + 1\<rparr>"
  show ?thesis
  proof (cases "List.find (\<lambda>z. map_of members z = None) (map fst final)")
    case (Some z)
    then show ?thesis using assms by (auto simp: commitReconciliation_def members_def[symmetric])
  next
    case None
    then have data: "\<forall>z. map_of final z \<noteq> None \<longrightarrow> map_of members z \<noteq> None"
      by (auto simp: find_None_iff map_of_eq_None_iff)
    obtain ok new' where p: "persistLocked E new = (ok, new')" by (metis surj_pair)
    note fr = persist_frame[OF p]
    note e = assms[unfolded commitReconciliation_def Let_def members_def[symmetric] new_def[symmetric] None p option.case prod.case]
    show ?thesis
    proof (cases ok)
      case False
      then show ?thesis using e by (auto simp: rt_core_def)
    next
      case ok: True
      show ?thesis
      proof (cases "ApplyZoneBatch (rl E) upserts removals (rt_store new')")
        case (Inr store)
        then have "err = None" "r' = new'\<lparr>rt_store := store\<rparr>" using e ok by auto
        then show ?thesis using fr ok data by (auto simp: rt_core_def new_def disk_image_def)
      next
        case (Inl x)
        obtain ok2 old where q: "persistLocked E (r\<lparr>rt_disk := rt_disk new', rt_world := rt_world new'\<rparr>) = (ok2, old)" by (metis surj_pair)
        then have "rt_core old = rt_core r" "rt_disk old = (if ok2 then Some (disk_image (rl E) r) else rt_disk new')"
          using persist_frame[OF q] by (auto simp: rt_core_def disk_image_def)
        then show ?thesis using e ok Inl q by (cases ok2) auto
      qed
    qed
  qed
qed

lemma carry_out_outcome:
  assumes "carry_out E name raw next acts r = (res, r')"
  shows "case res of
      Inl e \<Rightarrow> rt_core r' = rt_core r \<and>
        (rt_disk r' = rt_disk r \<or> rt_disk r' = Some (disk_image (rl E) r) \<or> (\<exists>x. e = RollbackFailed x))
    | Inr acts' \<Rightarrow> acts' = acts \<and> rt_catalogs r' = next \<and> rt_ownership r' = fold apply_action acts (rt_ownership r) \<and>
        (\<forall>z. map_of (rt_ownership r') z \<noteq> None \<longrightarrow> map_of (rt_memberZone r') z \<noteq> None) \<and> rt_disk r' = Some (disk_image (rl E) r') \<and>
        rt_sources r' = rt_sources r \<and> rt_order r' = rt_order r \<and> rt_reserved r' = rt_reserved r \<and> rt_attached r' = rt_attached r"
proof -
  let ?n = "length (filter (\<lambda>a. act_Kind a \<noteq> ActionConflict) acts)"
  obtain ok r1 where t: "takeReconcileBudget E name ?n r = (ok, r1)" by (metis surj_pair)
  note b = budget_frame(1)[OF t]
  note d = disk_image_core[of _ r "rl E"]
  show ?thesis
  proof (cases "ok \<and> (\<exists>x. build_changes (rl E) (rt_sources r1) next acts [] (rt_ownership r1) = Inr x)")
    case False
    then show ?thesis using assms t b by (auto simp: carry_out_def budget_frame Let_def split: sum.splits bool.splits)
  next
    case True
    then obtain changes final where c: "build_changes (rl E) (rt_sources r1) next acts [] (rt_ownership r1) = Inr (changes, final)" and ok: "ok"
      by auto
    have own: "rt_ownership r1 = rt_ownership r" using b by (simp add: rt_core_def)
    obtain x w where x: "Transfers E changes (rt_store r1) (rt_world r1) = (x, w)" by (metis surj_pair)
    let ?r = "r1\<lparr>rt_world := w\<rparr>"
    have core: "rt_core ?r = rt_core r" "rt_disk ?r = rt_disk r" using b by (simp_all add: rt_core_def)
    show ?thesis
    proof (cases x)
      case None
      then show ?thesis using assms t c ok x core by (auto simp: carry_out_def budget_frame Let_def)
    next
      case (Some y)
      obtain upserts removals where y: "y = (upserts, removals)" by (cases y)
      obtain err r2 where m: "commitReconciliation E name raw next final upserts removals ?r = (err, r2)" by (metis surj_pair)
      note o = commit_outcome[OF m]
      have e: "(res, r') = (case err of Some e \<Rightarrow> (Inl e, refundReconcileBudget E name ?n r2) | None \<Rightarrow> (Inr acts, r2))"
        using assms t c ok x Some y m by (simp add: carry_out_def Let_def split: option.split)
      show ?thesis
      proof (cases err)
        case None
        have "rt_sources r1 = rt_sources r" "rt_order r1 = rt_order r" "rt_reserved r1 = rt_reserved r" "rt_attached r1 = rt_attached r"
          using b by (simp_all add: rt_core_def)
        then show ?thesis using e o None build_changes_final[OF c] own by auto
      next
        case (Some e')
        then show ?thesis using e o core d[OF core(1)] by (auto simp: budget_frame)
      qed
    qed
  qed
qed

lemma carry_out_acts: "carry_out E name raw next acts r = (Inr acts', r') \<Longrightarrow> acts' = acts"
  using carry_out_outcome[of E name raw "next" acts r "Inr acts'" r'] by simp

text \<open>What a successful reconciliation has checked.\<close>

lemma reconcile_outcome:
  assumes "reconcile E name accepted raw r = (res, r')"
  shows "case res of
      Inl e \<Rightarrow> rt_core r' = rt_core r \<and>
        (rt_disk r' = rt_disk r \<or> rt_disk r' = Some (disk_image (rl E) r) \<or> (\<exists>x. e = RollbackFailed x))
    | Inr acts \<Rightarrow> rt_attached r \<and> validateMemberScope (rl E) (rt_sources r) name accepted = None \<and>
        (\<forall>current. map_of (rt_catalogs r) name = Some current \<longrightarrow> SerialGreater (cat_Serial accepted) (cat_Serial current)) \<and>
        rt_catalogs r' = AList.update name accepted (rt_catalogs r) \<and>
        validateCatalogGraph (rl E) (rt_sources r) (rt_catalogs r') = None \<and>
        Plan (rl E) (rt_catalogs r) (rt_catalogs r') (rt_ownership r) (rt_order r) (rt_reserved r) = Inr acts \<and>
        rt_ownership r' = fold apply_action acts (rt_ownership r) \<and>
        (\<forall>z. map_of (rt_ownership r') z \<noteq> None \<longrightarrow> map_of (rt_memberZone r') z \<noteq> None) \<and> rt_disk r' = Some (disk_image (rl E) r') \<and>
        rt_sources r' = rt_sources r \<and> rt_order r' = rt_order r \<and> rt_reserved r' = rt_reserved r \<and> rt_attached r' = rt_attached r"
proof (cases res)
  case (Inl e)
  have "rt_core r' = rt_core r \<and> rt_disk r' = rt_disk r \<or> (\<exists>next acts. carry_out E name raw next acts r = (Inl e, r'))"
    using assms Inl unfolding reconcile_def Let_def recordPending_def
    by (auto simp: rt_core_def split: if_splits option.splits sum.splits)
  then show ?thesis using carry_out_outcome Inl by fastforce
next
  case (Inr acts)
  then have c: "carry_out E name raw (AList.update name accepted (rt_catalogs r)) acts r = (Inr acts, r') \<and> rt_attached r \<and>
      validateMemberScope (rl E) (rt_sources r) name accepted = None \<and>
      (\<forall>current. map_of (rt_catalogs r) name = Some current \<longrightarrow> SerialGreater (cat_Serial accepted) (cat_Serial current)) \<and>
      validateCatalogGraph (rl E) (rt_sources r) (AList.update name accepted (rt_catalogs r)) = None \<and>
      Plan (rl E) (rt_catalogs r) (AList.update name accepted (rt_catalogs r)) (rt_ownership r) (rt_order r) (rt_reserved r) = Inr acts"
    using assms unfolding reconcile_def Let_def
    by (auto dest: carry_out_acts split: if_splits option.splits sum.splits) (auto dest: carry_out_acts)?
  then show ?thesis using carry_out_outcome[OF conjunct1[OF c]] Inr by simp
qed

text \<open>
  C18: a catalog is taken over as a whole or not at all. When the publication of a catalog fails, for whatever reason,
  the accepted catalogs, the ownership, the member zones and the served zones are those of before, and so is the
  state file, unless the report is that it could not be rolled back. When it succeeds, the catalog has been parsed,
  its serial advances on the accepted one, and the file holds the new state.
\<close>

theorem catalog_taken_over_atomically:
  assumes "runtime_AddZone E (Some z) r = (err, r')" "map_of (rt_sources r) name \<noteq> None" "name = normalizeName (rl E) (Origin z)"
  shows "(\<forall>e. err = Some e \<longrightarrow> rt_core r' = rt_core r \<and>
      (rt_disk r' = rt_disk r \<or> rt_disk r' = Some (disk_image (rl E) r) \<or> (\<exists>x. e = RollbackFailed x))) \<and>
    (err = None \<longrightarrow> (\<exists>c. Parse (rl E) (Some z) = Inr c \<and> rt_catalogs r' = AList.update name c (rt_catalogs r) \<and>
      (\<forall>old. map_of (rt_catalogs r) name = Some old \<longrightarrow> SerialGreater (cat_Serial c) (cat_Serial old)) \<and>
      rt_disk r' = Some (disk_image (rl E) r')))"
proof -
  have p: "publish_catalog E name z r = (err, r')" using assms by (simp add: runtime_AddZone_def Let_def split: if_splits)
  let ?r = "recordAttempt E name r"
  have attempt: "rt_core ?r = rt_core r" "rt_disk ?r = rt_disk r" by (simp_all add: recordAttempt_def rt_core_def)
  have status: "rt_core (on_status n f x) = rt_core x" "rt_disk (on_status n f x) = rt_disk x" for n f and x :: "('a, 'b) runtime"
    by (simp_all add: rt_core_def)
  show ?thesis
  proof (cases "Parse (rl E) (Some z)")
    case (Inl e)
    then show ?thesis using p attempt by (auto simp: publish_catalog_def recordFailure_def status Let_def)
  next
    case (Inr c)
    obtain res r1 where c: "reconcile E name c z ?r = (res, r1)" by (metis surj_pair)
    note o = reconcile_outcome[OF c]
    show ?thesis
    proof (cases res)
      case (Inl e)
      then have "err = Some e" "r' = recordFailure name e r1" using p Inr c by (simp_all add: publish_catalog_def Let_def)
      then show ?thesis using o Inl attempt disk_image_core[OF attempt(1), of "rl E"] by (simp add: recordFailure_def status)
    next
      case (Inr acts)
      then have "err = None" "r' = recordSuccess E name c r1" using p \<open>Parse (rl E) (Some z) = Inr c\<close> c
        by (simp_all add: publish_catalog_def Let_def)
      moreover have "rt_catalogs ?r = rt_catalogs r" by (simp add: recordAttempt_def)
      moreover have "disk_image (rl E) (recordSuccess E name c r1) = disk_image (rl E) r1"
        by (rule disk_image_core) (simp add: recordSuccess_def status)
      ultimately show ?thesis using o Inr \<open>Parse (rl E) (Some z) = Inr c\<close> by (simp add: recordSuccess_def)
    qed
  qed
qed

subsection \<open>Every reachable runtime\<close>

definition normalize_laws :: "dns_lib \<Rightarrow> bool" where
  "normalize_laws L \<longleftrightarrow> (\<forall>n. normalizeName L (normalizeName L n) = normalizeName L n)"

definition catalogs_ok :: "dns_lib \<Rightarrow> (string \<times> 'c source) list \<Rightarrow> catalogs \<Rightarrow> bool" where
  "catalogs_ok L sources cs \<longleftrightarrow> distinct (map fst cs) \<and> filed cs \<and>
     (\<forall>n c. map_of cs n = Some c \<longrightarrow> normalizeName L n = n \<and> validateMemberScope L sources n c = None \<and>
        (\<forall>z \<in> fst ` set (Members c). normalizeName L z = z))"

definition owned_zone_ok :: "dns_lib \<Rightarrow> ('c, 'w) runtime \<Rightarrow> string \<Rightarrow> ownership \<Rightarrow> bool" where
  "owned_zone_ok L r z owner \<longleftrightarrow>
     (\<exists>source. map_of (rt_sources r) (own_Catalog owner) = Some source \<and> validateMemberName L z source = None) \<and>
     z \<notin> set (rt_reserved r) \<and> memberIn (map_of (rt_catalogs r) (own_Catalog owner)) z \<noteq> None \<and> map_of (rt_memberZone r) z \<noteq> None"

definition owners_ok :: "dns_lib \<Rightarrow> owners \<Rightarrow> bool" where
  "owners_ok L own \<longleftrightarrow> distinct (map fst own) \<and>
     (\<forall>z owner. map_of own z = Some owner \<longrightarrow> normalizeName L z = z \<and> normalizeName L (own_Catalog owner) = own_Catalog owner)"

definition runtime_ok :: "dns_lib \<Rightarrow> ('c, 'w) runtime \<Rightarrow> bool" where
  "runtime_ok L r \<longleftrightarrow> catalogs_ok L (rt_sources r) (rt_catalogs r) \<and> owners_ok L (rt_ownership r) \<and>
     validateCatalogGraph L (rt_sources r) (rt_catalogs r) = None \<and> (\<forall>z \<in> set (rt_reserved r). normalizeName L z = z) \<and>
     (\<forall>z owner. map_of (rt_ownership r) z = Some owner \<longrightarrow> owned_zone_ok L r z owner)"

lemma first_error_None: "first_error f xs = None \<longleftrightarrow> (\<forall>x \<in> set xs. f x = None)"
  by (induction xs) (auto split: option.split)

text \<open>On state in normal form the planner's normalization changes nothing.\<close>

lemma fold_update_same:
  "distinct (map fst (acc @ m)) \<Longrightarrow> fold (\<lambda>p. AList.update (fst p) (snd p)) m acc = acc @ m"
proof (induction m arbitrary: acc)
  case (Cons p m)
  have new: "AList.update k v acc = acc @ [(k, v)]" if "k \<notin> fst ` set acc" for k and v :: 'b
    using that by (induction acc) auto
  have "fst p \<notin> fst ` set acc" using Cons.prems by auto
  then show ?case using Cons.IH[of "acc @ [p]"] Cons.prems new by simp
qed simp

lemma fold_cong_list: "(\<And>x. x \<in> set xs \<Longrightarrow> f x = g x) \<Longrightarrow> fold f xs acc = fold g xs acc"
  by (induction xs arbitrary: acc) auto

lemma normalizeCatalogMap_same:
  assumes "distinct (map fst cs)" "filed cs" "\<And>n c. map_of cs n = Some c \<Longrightarrow> normalizeName L n = n"
  shows "normalizeCatalogMap L cs = cs"
proof -
  have "normalizeCatalogMap L cs = fold (\<lambda>p. AList.update (fst p) (snd p)) cs []"
    unfolding normalizeCatalogMap_def
  proof (rule fold_cong_list)
    fix p assume p: "p \<in> set cs"
    obtain n c where nc: "p = (n, c)" by (cases p)
    then have "normalizeName L n = n" "cat_Name c = n" using p assms by (auto simp: filed_def)
    then show "(case p of (name, snapshot) \<Rightarrow> AList.update (normalizeName L (if cat_Name snapshot \<noteq> [] then cat_Name snapshot else name)) snapshot) =
        AList.update (fst p) (snd p)" by (cases n) (simp_all add: nc)
  qed
  then show ?thesis using fold_update_same[of "[]" cs] assms(1) by simp
qed

lemma normalizeOwnership_same: "owners_ok L own \<Longrightarrow> normalizeOwnership L own = own"
proof -
  assume ok: "owners_ok L own"
  have "normalizeOwnership L own = fold (\<lambda>p. AList.update (fst p) (snd p)) own []"
    unfolding normalizeOwnership_def
    by (rule fold_cong_list) (use ok in \<open>auto simp: owners_ok_def dest: map_of_is_SomeI\<close>)
  then show ?thesis using fold_update_same[of "[]" own] ok by (simp add: owners_ok_def)
qed

lemma distinct_apply_actions: "distinct (map fst own) \<Longrightarrow> distinct (map fst (fold apply_action acts own))"
  by (induction acts arbitrary: own) (auto simp: apply_action_def distinct_update distinct_delete)

text \<open>What parsing gives.\<close>

lemma build_members_normal:
  "normalize_laws L \<Longrightarrow> build_members L bs seen ms = Inr ms' \<Longrightarrow> (\<forall>z \<in> fst ` set ms. normalizeName L z = z) \<Longrightarrow>
    (\<forall>z \<in> fst ` set ms'. normalizeName L z = z)"
proof (induction L bs seen ms rule: build_members.induct)
  case (2 L label b bs seen ms)
  have "normalizeName L (mb_Zone m) = mb_Zone m" if "build_member L seen label b = Inr m" for m
    using that 2(3) by (auto simp: build_member_def normalize_laws_def Let_def split: if_splits option.splits)
  then show ?case using 2 by (auto simp: dom_update split: if_splits sum.splits)
qed simp

lemma Parse_normal:
  assumes "normalize_laws L" "Parse L (Some z) = Inr c"
  shows "cat_Name c = normalizeName L (Origin z)" "\<forall>y \<in> fst ` set (Members c). normalizeName L y = y"
proof -
  have c: "cat_Name c = normalizeName L (Origin z) \<and> (\<exists>bs. build_members L bs [] [] = Inr (Members c))"
    using assms(2) by (auto simp: Parse_def Let_def split: option.splits sum.splits prod.splits)
  then show "cat_Name c = normalizeName L (Origin z)" by blast
  obtain bs where "build_members L bs [] [] = Inr (Members c)" using c by blast
  then show "\<forall>y \<in> fst ` set (Members c). normalizeName L y = y" using build_members_normal[OF assms(1)] by simp
qed

text \<open>A reconciliation keeps the invariant.\<close>

lemma filed_update:
  assumes "distinct (map fst cs)" "filed cs" "cat_Name c = n"
  shows "filed (AList.update n c cs)"
  unfolding filed_def
proof clarify
  fix k x assume "(k, x) \<in> set (AList.update n c cs)"
  then have "map_of (AList.update n c cs) k = Some x" using assms(1) by (simp add: distinct_update)
  then show "cat_Name x = k" using assms(2,3) filed_lookup[of cs k x] by (auto simp: update_conv' split: if_splits)
qed

lemma catalogs_ok_update:
  assumes "catalogs_ok L sources cs" "cat_Name c = n" "normalizeName L n = n" "validateMemberScope L sources n c = None"
    "\<forall>z \<in> fst ` set (Members c). normalizeName L z = z"
  shows "catalogs_ok L sources (AList.update n c cs)"
proof -
  have "distinct (map fst (AList.update n c cs))" "filed (AList.update n c cs)"
    using assms(1,2) by (auto simp: catalogs_ok_def distinct_update intro: filed_update)
  then show ?thesis using assms by (auto simp: catalogs_ok_def update_conv')
qed

lemma scope_member:
  assumes "catalogs_ok L sources cs" "memberIn (map_of cs n) z = Some m"
  shows "(\<exists>source. map_of sources n = Some source \<and> validateMemberName L z source = None) \<and> normalizeName L n = n \<and> normalizeName L z = z"
proof -
  obtain c where c: "map_of cs n = Some c" "map_of (Members c) z = Some m"
    using assms(2) by (auto simp: memberIn_def split: option.splits)
  then have z: "z \<in> fst ` set (Members c)" by (metis domI dom_map_of_conv_image_fst)
  have n: "normalizeName L n = n" "validateMemberScope L sources n c = None" "\<forall>z \<in> fst ` set (Members c). normalizeName L z = z"
    using assms(1) c by (auto simp: catalogs_ok_def)
  then show ?thesis using z by (auto simp: validateMemberScope_def first_error_None split: option.splits if_splits)
qed

lemma reconcile_keeps:
  assumes law: "normalize_laws (rl E)" and ok: "runtime_ok (rl E) r"
    and parsed: "Parse (rl E) (Some z) = Inr c" and rec: "reconcile E (normalizeName (rl E) (Origin z)) c z r = (Inr acts, r')"
  shows "runtime_ok (rl E) r'"
proof -
  let ?L = "rl E" and ?n = "normalizeName (rl E) (Origin z)"
  note o = reconcile_outcome[OF rec, unfolded sum.case]
  note pn = Parse_normal[OF law parsed]
  have cok: "catalogs_ok ?L (rt_sources r) (rt_catalogs r')"
    using catalogs_ok_update[of ?L "rt_sources r" "rt_catalogs r" c ?n] ok o pn law by (simp add: runtime_ok_def normalize_laws_def)
  have same: "normalizeCatalogMap ?L (rt_catalogs r') = rt_catalogs r'" "normalizeOwnership ?L (rt_ownership r) = rt_ownership r"
    "map (normalizeName ?L) (rt_reserved r) = rt_reserved r"
    using normalizeCatalogMap_same[of "rt_catalogs r'" ?L] normalizeOwnership_same[of ?L "rt_ownership r"] cok ok
    by (auto simp: catalogs_ok_def runtime_ok_def intro: map_idI)
  have filed: "filed (rt_catalogs r')" using cok by (simp add: catalogs_ok_def)
  have member: "(\<exists>m. memberIn (map_of (rt_catalogs r') (own_Catalog owner)) y = Some m) \<and> y \<notin> set (rt_reserved r)"
    if "map_of (rt_ownership r') y = Some owner" for y owner
    using plan_final(1)[of ?L "rt_catalogs r" "rt_catalogs r'" "rt_ownership r" "rt_order r" "rt_reserved r" acts y owner] that o filed same
    by auto
  have scope: "(\<exists>source. map_of (rt_sources r) (own_Catalog owner) = Some source \<and> validateMemberName ?L y source = None) \<and>
      normalizeName ?L (own_Catalog owner) = own_Catalog owner \<and> normalizeName ?L y = y"
    if "map_of (rt_ownership r') y = Some owner" for y owner
    using member[OF that] scope_member[OF cok] by blast
  have "distinct (map fst (rt_ownership r'))" using o distinct_apply_actions ok by (simp add: owners_ok_def runtime_ok_def)
  then have "owners_ok ?L (rt_ownership r')" using scope unfolding owners_ok_def by blast
  moreover have "owned_zone_ok ?L r' y owner" if "map_of (rt_ownership r') y = Some owner" for y owner
    using member[OF that] scope[OF that] o that by (auto simp: owned_zone_ok_def)
  moreover have "validateCatalogGraph ?L (rt_sources r) (rt_catalogs r') = None" "rt_sources r' = rt_sources r" "rt_reserved r' = rt_reserved r"
    using o by blast+
  ultimately show ?thesis using cok ok by (auto simp: runtime_ok_def)
qed

text \<open>So does everything that leaves catalogs and ownership alone and loses no member data.\<close>

lemma runtime_ok_frame:
  assumes "runtime_ok L r" "rt_sources r' = rt_sources r" "rt_catalogs r' = rt_catalogs r" "rt_ownership r' = rt_ownership r"
    "rt_reserved r' = rt_reserved r" "\<And>z. map_of (rt_ownership r) z \<noteq> None \<Longrightarrow> map_of (rt_memberZone r) z \<noteq> None \<Longrightarrow> map_of (rt_memberZone r') z \<noteq> None"
  shows "runtime_ok L r'"
  using assms by (auto simp: runtime_ok_def owned_zone_ok_def)

lemma runtime_ok_core: "runtime_ok L r \<Longrightarrow> rt_core r' = rt_core r \<Longrightarrow> runtime_ok L r'"
  by (rule runtime_ok_frame) (auto simp: rt_core_def)

lemma publish_member_keeps:
  assumes "runtime_ok L r" "publish_member E z r = (err, r')"
  shows "runtime_ok L r'"
proof -
  define n where "n = normalizeName (rl E) (Origin z)"
  show ?thesis
  proof (cases "AddZone (rl E) z (rt_store r)")
    case (Inl e)
    then show ?thesis using assms by (simp add: publish_member_def Let_def)
  next
    case (Inr store)
    let ?r1 = "if map_of (rt_ownership r) n \<noteq> None then r\<lparr>rt_store := store, rt_memberZone := AList.update n (Clone z) (rt_memberZone r)\<rparr>
      else r\<lparr>rt_store := store\<rparr>"
    obtain ok r2 where p: "persistLocked E ?r1 = (ok, r2)" by (metis surj_pair)
    note c = persist_frame[OF p]
    have r1: "rt_ownership ?r1 = rt_ownership r" "rt_sources ?r1 = rt_sources r" "rt_catalogs ?r1 = rt_catalogs r"
      "rt_reserved ?r1 = rt_reserved r" "map_of (rt_memberZone r) y \<noteq> None \<Longrightarrow> map_of (rt_memberZone ?r1) y \<noteq> None" for y
      by (auto simp: update_conv')
    then have ok1: "runtime_ok L r2" using c by (intro runtime_ok_frame[OF assms(1)]) (auto simp: rt_core_def)
    show ?thesis
    proof (cases ok)
      case True
      then have "r' = r2" using assms(2)[unfolded publish_member_def Let_def n_def[symmetric]] Inr p by (simp split: if_splits)
      then show ?thesis using ok1 by simp
    next
      case False
      have "rt_sources r' = rt_sources r2 \<and> rt_catalogs r' = rt_catalogs r2 \<and> rt_ownership r' = rt_ownership r2 \<and> rt_reserved r' = rt_reserved r2 \<and>
          rt_memberZone r' = (case map_of (rt_memberZone r) n of None \<Rightarrow> AList.delete n (rt_memberZone r2)
            | Some z \<Rightarrow> AList.update n z (rt_memberZone r2))"
        using assms(2)[unfolded publish_member_def Let_def n_def[symmetric]] Inr p False by (auto split: if_splits)
      moreover have "map_of (rt_ownership r2) n \<noteq> None \<Longrightarrow> map_of (rt_memberZone r) n \<noteq> None"
        using assms(1) c r1 by (auto simp: runtime_ok_def owned_zone_ok_def rt_core_def)
      ultimately show ?thesis
        by (intro runtime_ok_frame[OF ok1]) (auto simp: update_conv' delete_conv' split: option.splits)
    qed
  qed
qed

lemma AddZone_keeps:
  assumes "normalize_laws (rl E)" "runtime_ok (rl E) r" "runtime_AddZone E z r = (err, r')"
  shows "runtime_ok (rl E) r'"
proof (cases z)
  case (Some y)
  let ?n = "normalizeName (rl E) (Origin y)"
  show ?thesis
  proof (cases "map_of (rt_sources r) ?n = None")
    case True
    then show ?thesis using assms Some publish_member_keeps by (simp add: runtime_AddZone_def Let_def)
  next
    case False
    then have p: "publish_catalog E ?n y r = (err, r')" using assms(3) Some by (simp add: runtime_AddZone_def Let_def split: if_splits)
    let ?r = "recordAttempt E ?n r"
    have st: "rt_core (on_status n f x) = rt_core x" for n f and x :: "('a, 'b) runtime" by (simp add: rt_core_def)
    have r: "runtime_ok (rl E) ?r" using runtime_ok_core[OF assms(2), of ?r] by (simp add: recordAttempt_def st)
    show ?thesis
    proof (cases "Parse (rl E) (Some y)")
      case (Inl e)
      then show ?thesis using p runtime_ok_core[OF r, of r'] by (auto simp: publish_catalog_def recordFailure_def st Let_def)
    next
      case (Inr c)
      obtain res r1 where rec: "reconcile E ?n c y ?r = (res, r1)" by (metis surj_pair)
      have "runtime_ok (rl E) r1"
      proof (cases res)
        case (Inl e)
        then show ?thesis using reconcile_outcome[OF rec] runtime_ok_core[OF r, of r1] by simp
      qed (use reconcile_keeps[OF assms(1) r Inr] rec in simp)
      moreover have "rt_core r' = rt_core r1"
        using p Inr rec by (cases res) (auto simp: publish_catalog_def recordFailure_def recordSuccess_def st Let_def)
      ultimately show ?thesis using runtime_ok_core by blast
    qed
  qed
qed (use assms in \<open>simp add: runtime_AddZone_def\<close>)

text \<open>A new runtime, once it is attached.\<close>

definition normal_catalogs :: "dns_lib \<Rightarrow> catalogs \<Rightarrow> bool" where
  "normal_catalogs L cs \<longleftrightarrow> distinct (map fst cs) \<and> filed cs \<and>
     (\<forall>n c. map_of cs n = Some c \<longrightarrow> normalizeName L n = n \<and> (\<forall>z \<in> fst ` set (Members c). normalizeName L z = z))"

lemma normal_update:
  assumes "normal_catalogs L cs" "normalizeName L n = n" "cat_Name c = n" "\<forall>z \<in> fst ` set (Members c). normalizeName L z = z"
  shows "normal_catalogs L (AList.update n c cs)"
  using assms filed_update[of cs c n] by (auto simp: normal_catalogs_def distinct_update update_conv')

lemma load_catalogs_ok:
  assumes "normalize_laws (rl E)"
  shows "load_catalogs E ps r = Inr r' \<Longrightarrow> normal_catalogs (rl E) (rt_catalogs r) \<Longrightarrow>
    normal_catalogs (rl E) (rt_catalogs r') \<and> rt_sources r' = rt_sources r \<and> rt_reserved r' = rt_reserved r \<and> rt_ownership r' = rt_ownership r"
proof (induction ps arbitrary: r)
  case (Cons p ps)
  obtain name q where p: "p = (name, q)" by (cases p)
  let ?n = "normalizeName (rl E) name"
  obtain z c where z: "restoreZone E q = Some z" "Parse (rl E) (Some z) = Inr c" "cat_Name c = ?n"
    and rest: "load_catalogs E ps (if map_of (rt_sources r) ?n \<noteq> None
       then r\<lparr>rt_catalogs := AList.update ?n c (rt_catalogs r), rt_catalogZone := AList.update ?n z (rt_catalogZone r),
              rt_acceptedAt := AList.update ?n (AcceptedAt q) (rt_acceptedAt r)\<rparr> else r) = Inr r'"
    using Cons.prems(1) by (auto simp: p Let_def split: option.splits sum.splits if_splits)
  have "normal_catalogs (rl E) (AList.update ?n c (rt_catalogs r))"
    using normal_update[OF Cons.prems(2) _ z(3)] assms Parse_normal(2)[OF assms z(2)] by (simp add: normalize_laws_def)
  then show ?case using Cons.IH[OF rest] Cons.prems(2) by (auto split: if_splits)
qed simp

lemma load_members_frame:
  "load_members E ps r = Inr r' \<Longrightarrow> rt_sources r' = rt_sources r \<and> rt_reserved r' = rt_reserved r \<and>
    rt_ownership r' = rt_ownership r \<and> rt_catalogs r' = rt_catalogs r"
  by (induction ps arbitrary: r) (auto simp: Let_def split: option.splits if_splits)

lemma load_status_core [simp]: "rt_core (load_status r0 p r) = rt_core r"
  by (cases p) (simp add: load_status_def rt_core_def)

lemma fold_load_status [simp]: "rt_core (fold (load_status r0) cs r) = rt_core r"
  by (induction cs arbitrary: r) simp_all

text \<open>What holds of a zone that stays owned.\<close>

definition restored :: "dns_lib \<Rightarrow> ('c, 'w) runtime \<Rightarrow> string \<Rightarrow> ownership \<Rightarrow> bool" where
  "restored L r z owner \<longleftrightarrow>
     (\<exists>source. map_of (rt_sources r) (own_Catalog owner) = Some source \<and> validateMemberName L z source = None) \<and>
     normalizeName L z \<notin> set (rt_reserved r) \<and> map_of (rt_memberZone r) z \<noteq> None"

lemma restore_owned_ok:
  "restore_owned E os r = Inr r' \<Longrightarrow> distinct (map fst os) \<Longrightarrow> (\<forall>z \<in> fst ` set os. map_of (rt_ownership r) z = map_of os z) \<Longrightarrow>
    rt_sources r' = rt_sources r \<and> rt_reserved r' = rt_reserved r \<and> rt_catalogs r' = rt_catalogs r \<and>
    (distinct (map fst (rt_ownership r)) \<longrightarrow> distinct (map fst (rt_ownership r'))) \<and>
    (\<forall>z owner. map_of (rt_ownership r') z = Some owner \<longrightarrow> map_of (rt_ownership r) z = Some owner \<and>
       map_of (rt_memberZone r') z = map_of (rt_memberZone r) z \<and> (z \<in> fst ` set os \<longrightarrow> restored (rl E) r z owner))"
proof (induction os arbitrary: r)
  case (Cons p os)
  obtain z owner where p: "p = (z, owner)" by (cases p)
  have own: "map_of (rt_ownership r) z = Some owner" using Cons.prems(3) p by simp
  have rest: "distinct (map fst os)" "z \<notin> fst ` set os" using Cons.prems(2) p by auto
  show ?case
  proof (cases "map_of (rt_sources r) (own_Catalog owner)")
    case None
    let ?r = "r\<lparr>rt_ownership := AList.delete z (rt_ownership r), rt_memberZone := AList.delete z (rt_memberZone r)\<rparr>"
    have run: "restore_owned E os ?r = Inr r'" using Cons.prems(1) p None by simp
    have "\<forall>y \<in> fst ` set os. map_of (rt_ownership ?r) y = map_of os y"
      using Cons.prems(3) p rest(2) by (auto simp: delete_conv')
    note IH = Cons.IH[OF run rest(1) this]
    have "restored (rl E) ?r y o' \<longleftrightarrow> restored (rl E) r y o'" if "y \<noteq> z" for y o'
      using that by (simp add: restored_def delete_conv')
    then show ?thesis using IH p by (auto simp: delete_conv' distinct_delete split: if_splits)
  next
    case (Some source)
    obtain member store where m: "validateMemberName (rl E) z source = None" "normalizeName (rl E) z \<notin> set (rt_reserved r)"
      "map_of (rt_memberZone r) z = Some member" "restore_owned E os (r\<lparr>rt_store := store\<rparr>) = Inr r'"
      using Cons.prems(1) p Some by (auto split: option.splits if_splits sum.splits)
    have "\<forall>y \<in> fst ` set os. map_of (rt_ownership (r\<lparr>rt_store := store\<rparr>)) y = map_of os y"
      using Cons.prems(3) p rest(2) by auto
    note IH = Cons.IH[OF m(4) rest(1) this]
    have "restored (rl E) (r\<lparr>rt_store := store\<rparr>) y o' \<longleftrightarrow> restored (rl E) r y o'" for y o' by (simp add: restored_def)
    moreover have "restored (rl E) r z owner" using Some m by (simp add: restored_def)
    ultimately show ?thesis using IH p own by auto
  qed
qed simp

lemma seed_members_ok:
  "seed_members E zs r = (None, r') \<Longrightarrow> rt_core r' = rt_core r \<and>
    (\<forall>z \<in> set zs. \<forall>owner. map_of (rt_ownership r) z = Some owner \<longrightarrow> memberIn (map_of (rt_catalogs r) (own_Catalog owner)) z \<noteq> None)"
proof (induction zs arbitrary: r)
  case Nil
  obtain ok r1 where p: "persistLocked E r = (ok, r1)" by (metis surj_pair)
  then show ?case using Nil persist_frame[OF p] by (cases ok) auto
next
  case (Cons z zs)
  show ?case
  proof (cases "map_of (rt_ownership r) z")
    case None
    then show ?thesis using Cons by simp
  next
    case (Some owner)
    obtain m conf w where m: "memberIn (map_of (rt_catalogs r) (own_Catalog owner)) z = Some m"
      "seed_members E zs (r\<lparr>rt_world := w\<rparr>) = (None, r')"
      using Cons.prems Some by (auto split: option.splits sum.splits prod.splits bool.splits)
    have "rt_core (r\<lparr>rt_world := w\<rparr>) = rt_core r" by (simp add: rt_core_def)
    then show ?thesis using Cons.IH[OF m(2)] m(1) Some by auto
  qed
qed

lemma owners_update:
  assumes "owners_ok L own" "normalizeName L z = z" "normalizeName L (own_Catalog owner) = own_Catalog owner"
  shows "owners_ok L (AList.update z owner own)"
proof -
  have "normalizeName L y = y \<and> normalizeName L (own_Catalog o') = own_Catalog o'" if "map_of (AList.update z owner own) y = Some o'" for y o'
  proof (cases "y = z")
    case False
    then have "map_of own y = Some o'" using that by (simp add: update_conv')
    then show ?thesis using assms(1) unfolding owners_ok_def by blast
  qed (use that assms(2,3) in \<open>simp add: update_conv'\<close>)
  moreover have "distinct (map fst (AList.update z owner own))" using assms(1) by (simp add: owners_ok_def distinct_update)
  ultimately show ?thesis unfolding owners_ok_def by blast
qed

lemma load_ok:
  assumes "normalize_laws (rl E)" "load E sf r = Inr r'" "rt_catalogs r = []" "rt_ownership r = []"
  shows "normal_catalogs (rl E) (rt_catalogs r') \<and> owners_ok (rl E) (rt_ownership r') \<and> rt_sources r' = rt_sources r \<and> rt_reserved r' = rt_reserved r"
proof -
  have empty: "normal_catalogs (rl E) []" by (simp add: normal_catalogs_def filed_def)
  have own: "owners_ok (rl E) (normalizeOwnership (rl E) os)" for os
  proof -
    define f where "f = (\<lambda>(z, owner :: ownership). AList.update (normalizeName (rl E) z) (owner\<lparr>own_Catalog := normalizeName (rl E) (own_Catalog owner)\<rparr>))"
    have fold: "owners_ok (rl E) (fold f os m)" if "owners_ok (rl E) m" for m
      using that
    proof (induction os arbitrary: m)
      case (Cons p os)
      obtain z owner where p: "p = (z, owner)" by (cases p)
      have "owners_ok (rl E) (f p m)"
        unfolding p f_def prod.case by (rule owners_update[OF Cons.prems]) (use assms(1) in \<open>simp_all add: normalize_laws_def\<close>)
      then show ?case using Cons.IH by simp
    qed simp
    have "owners_ok (rl E) []" by (simp add: owners_ok_def)
    then show ?thesis unfolding normalizeOwnership_def f_def[symmetric] by (rule fold)
  qed
  show ?thesis
  proof (cases sf)
    case (StateFile d)
    then obtain r1 where r1: "load_catalogs E (ds_Catalogs d) r = Inr r1"
      "load_members E (ds_Members d) (r1\<lparr>rt_ownership := normalizeOwnership (rl E) (ds_Ownership d)\<rparr>) = Inr r'"
      using assms(2) by (auto simp: load_def split: if_splits sum.splits)
    show ?thesis using load_catalogs_ok[OF assms(1) r1(1)] load_members_frame[OF r1(2)] own empty assms(3) by simp
  qed (use assms empty in \<open>auto simp: load_def owners_ok_def\<close>)
qed

lemma new_runtime_ok:
  assumes law: "normalize_laws (rl E)" and new: "NewRuntime E store sources path reserved sf w = Inr r0"
    and att: "AttachController E r0 = (None, r)"
  shows "runtime_ok (rl E) r"
proof -
  let ?L = "rl E"
  obtain configured where c: "add_sources E sources [] = Inr configured" using new by (auto simp: NewRuntime_def Let_def split: if_splits sum.splits)
  define start where "start = \<lparr>rt_store = store, rt_sources = configured, rt_order = map fst configured,
      rt_reserved = normalizeNames ?L (normalizeNames ?L (map fst (served store) @ reserved) @ map fst configured), rt_attached = False,
      rt_catalogs = [], rt_catalogZone = [], rt_ownership = [], rt_memberZone = [], rt_acceptedAt = [],
      rt_status = map (\<lambda>n. (n, no_status)) (map fst configured), rt_generation = 0,
      rt_disk = (case sf of StateFile d \<Rightarrow> Some d | _ \<Rightarrow> None), rt_world = w\<rparr>"
  obtain r1 where r1: "load E sf start = Inr r1" "\<forall>x \<in> set (rt_catalogs r1). validateMemberScope ?L (rt_sources r1) (fst x) (snd x) = None"
    "validateCatalogGraph ?L (rt_sources r1) (rt_catalogs r1) = None"
    and rest: "restore_owned E (rt_ownership r1) (fold (load_status r1) (rt_catalogs r1) r1) = Inr r0"
  proof -
    have f: "rt_sources (fold (load_status x) cs y) = rt_sources y" "rt_catalogs (fold (load_status x) cs y) = rt_catalogs y"
      "rt_ownership (fold (load_status x) cs y) = rt_ownership y" for x cs and y :: "('a, 'b) runtime"
      using fold_load_status[of x cs y] by (simp_all add: rt_core_def)
    show ?thesis
      using new c that unfolding NewRuntime_def Let_def start_def
      by (auto simp: f first_error_None case_prod_unfold split: if_splits sum.splits option.splits)
  qed
  let ?r2 = "fold (load_status r1) (rt_catalogs r1) r1"
  have r2: "rt_sources ?r2 = rt_sources r1" "rt_reserved ?r2 = rt_reserved r1" "rt_catalogs ?r2 = rt_catalogs r1" "rt_ownership ?r2 = rt_ownership r1"
    using fold_load_status[of r1 "rt_catalogs r1" r1] by (simp_all add: rt_core_def)
  have l: "normal_catalogs ?L (rt_catalogs r1)" "owners_ok ?L (rt_ownership r1)" "rt_sources r1 = configured" "rt_reserved r1 = rt_reserved start"
    using load_ok[OF law r1(1)] by (simp_all add: start_def)
  have o: "rt_sources r0 = rt_sources r1" "rt_reserved r0 = rt_reserved r1" "rt_catalogs r0 = rt_catalogs r1" "distinct (map fst (rt_ownership r0))"
    "\<And>z owner. map_of (rt_ownership r0) z = Some owner \<Longrightarrow> map_of (rt_ownership r1) z = Some owner \<and>
       map_of (rt_memberZone r0) z = map_of (rt_memberZone ?r2) z \<and> restored ?L ?r2 z owner"
  proof -
    note R = restore_owned_ok[OF rest] 
    show "rt_sources r0 = rt_sources r1" "rt_reserved r0 = rt_reserved r1" "rt_catalogs r0 = rt_catalogs r1"
      using R l(2) r2 by (simp_all add: owners_ok_def)
    show "distinct (map fst (rt_ownership r0))" using R l(2) r2 by (simp add: owners_ok_def)
    fix z owner assume z: "map_of (rt_ownership r0) z = Some owner"
    then have "map_of (rt_ownership r1) z = Some owner" using R l(2) r2 by (simp add: owners_ok_def)
    moreover from this have "z \<in> fst ` set (rt_ownership r1)" by (metis domI dom_map_of_conv_image_fst)
    ultimately show "map_of (rt_ownership r1) z = Some owner \<and>
       map_of (rt_memberZone r0) z = map_of (rt_memberZone ?r2) z \<and> restored ?L ?r2 z owner"
      using R l(2) r2 z by (simp add: owners_ok_def)
  qed
  have "seed_members E (sortedOwnershipZones (rt_ownership r0)) (r0\<lparr>rt_attached := True\<rparr>) = (None, r)"
    using att by (simp add: AttachController_def split: if_splits)
  note S = seed_members_ok[OF this]
  have core: "rt_core r = rt_core (r0\<lparr>rt_attached := True\<rparr>)" using S by blast
  have member: "memberIn (map_of (rt_catalogs r0) (own_Catalog owner)) z \<noteq> None" if "map_of (rt_ownership r0) z = Some owner" for z owner
  proof -
    have "z \<in> set (sortedOwnershipZones (rt_ownership r0))"
      using that by (simp add: sortedOwnershipZones_def) (metis domI dom_map_of_conv_image_fst)
    then show ?thesis using S that by simp
  qed
  have cat: "catalogs_ok ?L (rt_sources r1) (rt_catalogs r1)"
    using l(1) r1(2) by (fastforce simp: catalogs_ok_def normal_catalogs_def dest: map_of_SomeD)
  have res: "\<forall>z \<in> set (rt_reserved r1). normalizeName ?L z = z"
    using law by (auto simp: l(4) start_def normalizeNames_def normalize_laws_def)
  have "owners_ok ?L (rt_ownership r0)" using o(4,5) l(2) unfolding owners_ok_def by blast
  moreover have "owned_zone_ok ?L r0 z owner" if "map_of (rt_ownership r0) z = Some owner" for z owner
    using o(5)[OF that] member[OF that] l(2) o(1-3) r2 by (auto simp: owned_zone_ok_def restored_def owners_ok_def)
  ultimately have "runtime_ok ?L r0" using cat r1(3) res o(1-3) by (simp add: runtime_ok_def)
  then have "runtime_ok ?L (r0\<lparr>rt_attached := True\<rparr>)" by (rule runtime_ok_frame) simp_all
  then show ?thesis using core by (rule runtime_ok_core)
qed

text \<open>
  The runtimes that occur: constructed and attached, then any sequence of publications by the secondaries and of
  observed transfers, while the world moves on and the server changes its zones.
\<close>

inductive rt_reach :: "('c, 'w) rt_env \<Rightarrow> ('c, 'w) runtime \<Rightarrow> bool" for E where
  attached: "NewRuntime E store sources path reserved sf w = Inr r0 \<Longrightarrow> AttachController E r0 = (None, r) \<Longrightarrow> rt_reach E r"
| published: "rt_reach E r \<Longrightarrow> runtime_AddZone E z r = (err, r') \<Longrightarrow> rt_reach E r'"
| observed: "rt_reach E r \<Longrightarrow> rt_reach E (ObserveTransfer E name err r)"
| elsewhere: "rt_reach E r \<Longrightarrow> rt_reach E (r\<lparr>rt_store := store, rt_world := w\<rparr>)"

lemma rt_reach_ok: "rt_reach E r \<Longrightarrow> normalize_laws (rl E) \<Longrightarrow> runtime_ok (rl E) r"
proof (induction rule: rt_reach.induct)
  case (attached store sources path reserved sf w r0 r)
  show ?case by (rule new_runtime_ok[OF attached(3,1,2)])
next
  case (published r z err r')
  then show ?case using AddZone_keeps by blast
next
  case (observed r name err)
  have "rt_core (ObserveTransfer E name err r) = rt_core r"
    by (cases err) (simp_all add: ObserveTransfer_def rt_core_def Let_def)
  then show ?case using observed runtime_ok_core by blast
next
  case (elsewhere r store w)
  then show ?case by (auto intro: runtime_ok_frame)
qed

text \<open>
  C16: every zone under catalog management is accounted for. In every reachable runtime, whatever the state file held
  and whichever publications, transfers and writes failed, a zone that is owned belongs to a configured catalog whose
  accepted snapshot lists it, is inside that catalog's allowed and outside its denied names, is none of the operator's
  zones or catalogs, and has zone data to restart from.
\<close>

theorem catalog_ownership_invariant:
  assumes "rt_reach E r" "normalize_laws (rl E)" "map_of (rt_ownership r) z = Some owner"
  shows "(\<exists>source c m. map_of (rt_sources r) (own_Catalog owner) = Some source \<and> validateMemberName (rl E) z source = None \<and>
      map_of (rt_catalogs r) (own_Catalog owner) = Some c \<and> map_of (Members c) z = Some m) \<and>
    z \<notin> set (rt_reserved r) \<and> map_of (rt_memberZone r) z \<noteq> None"
proof -
  have "owned_zone_ok (rl E) r z owner" using rt_reach_ok[OF assms(1,2)] assms(3) by (simp add: runtime_ok_def)
  then show ?thesis by (auto simp: owned_zone_ok_def memberIn_def split: option.splits)
qed

end
