(* ===== verification/Catalog_Pages.thy ===== *)
theory Catalog_Pages
  imports Catalog_Runtime
begin

text \<open>Pages of catalog members: the bounded insertion of the code is the start of the sorted list.\<close>

lemma SearchStrings_sorted:
  "sorted xs \<Longrightarrow> take (SearchStrings xs x) xs = filter (\<lambda>y. y < x) xs \<and> drop (SearchStrings xs x) xs = filter (\<lambda>y. \<not> y < x) xs"
proof (induction xs)
  case (Cons y xs)
  show ?case
  proof (cases "y < x")
    case False
    then have "\<forall>z \<in> set xs. \<not> z < x" using Cons.prems by (auto simp: not_less)
    then have "filter (\<lambda>z. z < x) xs = []" "filter (\<lambda>z. \<not> z < x) xs = xs"
      by (simp_all add: filter_empty_conv filter_id_conv)
    then show ?thesis using False by (simp add: SearchStrings_def)
  qed (use Cons in \<open>simp add: SearchStrings_def\<close>)
qed (simp add: SearchStrings_def)

lemma insort_filter: "sorted xs \<Longrightarrow> insort x xs = filter (\<lambda>y. y < x) xs @ x # filter (\<lambda>y. \<not> y < x) (xs :: 'a::linorder list)"
proof (induction xs)
  case (Cons y xs)
  show ?case
  proof (cases "x \<le> y")
    case True
    then have "filter (\<lambda>z. z < x) (y # xs) = []" "filter (\<lambda>z. \<not> z < x) (y # xs) = y # xs"
      using Cons.prems by (force simp: filter_empty_conv filter_id_conv)+
    then show ?thesis using True by simp
  qed (use Cons in auto)
qed simp

lemma take_insort: "take n (insort x xs) = take n (insort x (take n (xs :: 'a::linorder list)))"
  by (induction xs arbitrary: n) (case_tac n; auto simp: take_Cons')+

text \<open>The reference: the first names after the cursor.\<close>

definition page_of :: "string \<Rightarrow> nat \<Rightarrow> string set \<Rightarrow> string list" where
  "page_of cursor limit A = take limit (sorted_list_of_set {n \<in> A. cursor < n})"

lemma page_step_of:
  assumes "finite A"
  shows "page_step cursor limit name (page_of cursor limit A) = page_of cursor limit (insert name A)"
proof (cases "name \<le> cursor")
  case True
  then have "{n \<in> insert name A. cursor < n} = {n \<in> A. cursor < n}" by auto
  then show ?thesis using True by (simp add: page_step_def page_of_def)
next
  case False
  let ?B = "{n \<in> A. cursor < n}" and ?r = "page_of cursor limit A"
  let ?xs = "sorted_list_of_set ?B" and ?i = "SearchStrings (page_of cursor limit A) name"
  have B: "finite ?B" using assms by simp
  have s: "sorted ?r" "distinct ?r" by (simp_all add: page_of_def sorted_wrt_take)
  note split = SearchStrings_sorted[OF s(1), of name]
  have ins: "{n \<in> insert name A. cursor < n} = insert name ?B" using False by auto
  have new_name: "page_of cursor limit (insert name A) = take limit (insort name ?xs)" if "name \<notin> ?B"
    unfolding page_of_def ins using that B by (subst sorted_list_of_set_insert_remove) auto
  have old_name: "page_of cursor limit (insert name A) = ?r" if "name \<in> ?B"
    unfolding page_of_def ins using that by (simp only: insert_absorb)
  show ?thesis
  proof (cases "name \<in> set ?r")
    case True
    then have "name \<in> ?B" using B by (auto simp: page_of_def dest: in_set_takeD)
    then have same: "page_of cursor limit (insert name A) = ?r" by (rule old_name)
    have m: "name \<in> set (drop ?i ?r)" using True split by simp
    then have i: "?i < length ?r" by (metis drop_all list.set(1) empty_iff not_le)
    have "drop ?i ?r = ?r ! ?i # drop (Suc ?i) ?r" using i by (simp add: Cons_nth_drop_Suc)
    moreover have "sorted (drop ?i ?r)" using s(1) by (rule sorted_wrt_drop)
    ultimately have "?r ! ?i \<le> name" using m by auto
    have "?r ! ?i \<in> set (drop ?i ?r)" using \<open>drop ?i ?r = ?r ! ?i # drop (Suc ?i) ?r\<close> by (metis list.set_intros(1))
    then have "\<not> ?r ! ?i < name" using split by simp
    with \<open>?r ! ?i \<le> name\<close> show ?thesis using same i False by (simp add: page_step_def)
  next
    case notin: False
    then have no: "\<not> (?i < length ?r \<and> ?r ! ?i = name)" by (auto simp: in_set_conv_nth)
    have put: "take ?i ?r @ name # drop ?i ?r = insort name ?r" using split insort_filter[OF s(1), of name] by simp
    show ?thesis
    proof (cases "length ?r < limit")
      case True
      then have r: "?r = ?xs" by (auto simp: page_of_def)
      then have "name \<notin> ?B" using notin B by simp
      then have "page_of cursor limit (insert name A) = take limit (insort name ?xs)" by (rule new_name)
      also have "\<dots> = insort name ?r" using True r by simp
      finally show ?thesis unfolding page_step_def Let_def if_not_P[OF False] if_not_P[OF no] if_P[OF True] put by (rule sym)
    next
      case full: False
      then have l: "length ?r = limit" by (simp add: page_of_def)
      have new: "page_of cursor limit (insert name A) = take limit (insort name ?r)"
      proof (cases "name \<in> ?B")
        case True
        have "sorted ?xs" "distinct ?xs" by simp_all
        have "\<forall>y \<in> set ?r. y < name"
        proof
          fix y assume y: "y \<in> set ?r"
          have "name \<in> set (drop limit ?xs)" using True notin B
            by (metis (no_types, lifting) Un_iff append_take_drop_id page_of_def set_append set_sorted_list_of_set)
          moreover have "sorted (take limit ?xs @ drop limit ?xs)" by simp
          ultimately have "y \<le> name" using y by (simp add: sorted_append page_of_def del: append_take_drop_id)
          then show "y < name" using notin y by (metis order_le_less)
        qed
        then have "filter (\<lambda>y. y < name) ?r = ?r" by (simp add: filter_id_conv)
        then have "insort name ?r = ?r @ filter (\<lambda>y. \<not> y < name) (name # ?r)" using insort_filter[OF s(1), of name] by simp
        then have "take limit (insort name ?r) = ?r" using l by simp
        moreover have "page_of cursor limit (insert name A) = ?r" using True by (rule old_name)
        ultimately show ?thesis by simp
      next
        case False
        then have "page_of cursor limit (insert name A) = take limit (insort name ?xs)" by (rule new_name)
        then show ?thesis using take_insort[of limit name ?xs] by (simp add: page_of_def)
      qed
      show ?thesis
      proof (cases "?i \<ge> limit")
        case True
        then have "take ?i ?r = ?r" using l by simp
        then have "insort name ?r = ?r @ name # drop ?i ?r" using put by simp
        then have "take limit (insort name ?r) = ?r" using l by simp
        then show ?thesis unfolding page_step_def Let_def if_not_P[OF False] if_not_P[OF no] if_not_P[OF full] if_P[OF True] new by (rule sym)
      next
        case i: False
        have "take limit (insort name ?r) = take ?i ?r @ name # take (limit - Suc ?i) (drop ?i ?r)"
          using i l by (simp add: put[symmetric] take_Cons' min_def)
        also have "take (limit - Suc ?i) (drop ?i ?r) = drop ?i (take (limit - 1) ?r)" using i by (simp add: take_drop)
        finally show ?thesis unfolding page_step_def Let_def if_not_P[OF False] if_not_P[OF no] if_not_P[OF full] if_not_P[OF i] new by (rule sym)
      qed
    qed
  qed
qed

text \<open>
  C40: a page is the first names after the cursor. In whatever order the members are visited, the bounded insertion
  returns the least names greater than the cursor, as many as fit, in order and without repetition; so following
  the last name of each page visits every member once.
\<close>

theorem boundedMemberPage_least:
  "boundedMemberPage members cursor limit = take limit (sorted_list_of_set {n \<in> set members. cursor < n})"
proof -
  have "fold (page_step cursor limit) xs (page_of cursor limit A) = page_of cursor limit (A \<union> set xs)" if "finite A" for xs A
    using that by (induction xs arbitrary: A) (simp_all add: page_step_of)
  from this[of "{}" members] show ?thesis by (simp add: boundedMemberPage_def page_of_def)
qed

end
