(* ===== verification/Catalog_Examples.thy ===== *)
theory Catalog_Examples
  imports Catalog_Runtime_Props Catalog_Pages Zone_Props
begin

text \<open>The properties of catalogs, applied to a catalog \<open>a.\<close> with one member \<open>m.\<close>.\<close>

subsection \<open>Names of the example library\<close>

lemma trim_id: "s \<noteq> [] \<Longrightarrow> hd s \<notin> cs \<Longrightarrow> last s \<notin> cs \<Longrightarrow> trim_set cs s = s"
  using dropWhile_eq_self_iff[of "\<lambda>c. c \<in> cs" s] dropWhile_eq_self_iff[of "\<lambda>c. c \<in> cs" "rev s"]
  by (simp add: trim_set_def hd_rev)

lemma hd_trim: "trim_set cs s \<noteq> [] \<Longrightarrow> hd (trim_set cs s) \<notin> cs"
proof -
  assume ne: "trim_set cs s \<noteq> []"
  let ?u = "dropWhile (\<lambda>c. c \<in> cs) s"
  have u: "?u = trim_set cs s @ rev (takeWhile (\<lambda>c. c \<in> cs) (rev ?u))"
    unfolding trim_set_def by (metis rev_append rev_rev_ident takeWhile_dropWhile_id)
  then have "hd (trim_set cs s) = hd ?u" using ne by (metis hd_append2)
  moreover have "?u \<noteq> []" using u ne by (metis append_is_Nil_conv)
  ultimately show ?thesis using hd_dropWhile by metis
qed

lemma space_lower: "lower_char c \<in> {char_of (9 :: nat), char_of (10 :: nat), char_of (11 :: nat), char_of (12 :: nat),
     char_of (13 :: nat), CHR '' ''} \<Longrightarrow> c \<in> {char_of (9 :: nat), char_of (10 :: nat), char_of (11 :: nat), char_of (12 :: nat),
     char_of (13 :: nat), CHR '' ''}"
proof -
  have "list_all (\<lambda>c. lower_char c \<in> {char_of (9 :: nat), char_of (10 :: nat), char_of (11 :: nat), char_of (12 :: nat),
     char_of (13 :: nat), CHR '' ''} \<longrightarrow> c \<in> {char_of (9 :: nat), char_of (10 :: nat), char_of (11 :: nat), char_of (12 :: nat),
     char_of (13 :: nat), CHR '' ''}) Enum.enum" by code_simp
  then show "lower_char c \<in> {char_of (9 :: nat), char_of (10 :: nat), char_of (11 :: nat), char_of (12 :: nat),
     char_of (13 :: nat), CHR '' ''} \<Longrightarrow> c \<in> {char_of (9 :: nat), char_of (10 :: nat), char_of (11 :: nat), char_of (12 :: nat),
     char_of (13 :: nat), CHR '' ''}"
    unfolding list_all_iff using enum_UNIV by blast
qed

lemma ex_normalize: "normalize_laws ex_lib"
  unfolding normalize_laws_def
proof
  fix n
  define ws where "ws = {char_of (9 :: nat), char_of (10 :: nat), char_of (11 :: nat), char_of (12 :: nat), char_of (13 :: nat), CHR '' ''}"
  let ?s = "ex_fqdn (TrimSpace n)"
  have dot: "CHR ''.'' \<notin> ws" unfolding ws_def by code_simp
  have s: "?s \<noteq> []" "last ?s = CHR ''.''" by (simp_all add: ex_fqdn_def)
  have "hd ?s \<notin> ws"
  proof (cases "TrimSpace n = []")
    case False
    then have "hd ?s = hd (TrimSpace n)" by (simp add: ex_fqdn_def)
    then show ?thesis using hd_trim[of ws n] False by (simp add: TrimSpace_def ws_def)
  qed (simp add: ex_fqdn_def dot)
  then have "hd (to_lower ?s) \<notin> ws" using space_lower s(1) by (auto simp: to_lower_def hd_map ws_def)
  moreover have l: "to_lower ?s \<noteq> []" "last (to_lower ?s) = CHR ''.''"
    using s by (simp_all add: to_lower_def last_map lower_char_def)
  ultimately have "TrimSpace (to_lower ?s) = to_lower ?s"
    unfolding TrimSpace_def ws_def[symmetric] using dot by (intro trim_id) auto
  moreover have "to_lower (to_lower ?s) = to_lower ?s" by (simp add: to_lower_def lower_char_def)
  ultimately show "normalizeName ex_lib (normalizeName ex_lib n) = normalizeName ex_lib n"
    using l by (simp add: normalizeName_def ex_fqdn_def)
qed

subsection \<open>A runtime\<close>

definition ex_catalog :: zone where
  "ex_catalog = ex_add (ex_rr ''l1.zones.a.'' 12 60 (RPTR ''m.'')) (ex_add (ex_rr ''version.a.'' TypeTXT 60 (RTXT [''2''])) ex_zone)"

definition ex_member :: zone where
  "ex_member = ex_add (ex_rr ''n.m.'' TypeA 60 (RA [9])) (ex_add (ex_rr ''m.'' TypeNS 60 (RNS ''n.m.''))
     (ex_add ((ex_soa 5)\<lparr>rr_name := ''m.''\<rparr>) (the (New ''m.''))))"

definition ex_sec :: "unit sec_config" where
  "ex_sec = \<lparr>sc_Name = [], Masters = [''192.0.2.1''], RetainOnError = False, sc_rest = ()\<rparr>"

definition ex_source :: "unit source" where
  "ex_source = \<lparr>src_Name = ''A'', Defaults = ex_sec, Groups = [], MemberAllowSuffixes = [], MemberDenySuffixes = [''bad.''], MaxMembers = 0,
     MaxReconcileActions = 0, ReconcileActionsPerMinute = 0, ReconcileActionBurst = 0, DryRun = False, ApprovalRequiredAbove = 0,
     ApprovedSerial = None\<rparr>"

text \<open>The world tells whether transfers succeed.\<close>

definition ex_rt_env :: "(unit, bool) rt_env" where
  "ex_rt_env = \<lparr>rl = ex_lib, NewRR = (\<lambda>_. None), IsDomainName = (\<lambda>_. True), RtNow = (\<lambda>_. 7), WriteFile = (\<lambda>w. (True, w)),
     TakeBudget = (\<lambda>_ _ w. (True, w)), RefundBudget = (\<lambda>_ _ w. w),
     Transfers = (\<lambda>_ _ w. (if w then Some ([ex_member], []) else None, w)), Upsert = (\<lambda>_ w. (True, w))\<rparr>"

lemma ex_rt_env_sel:
  "rl ex_rt_env = ex_lib" "RtNow ex_rt_env w = 7" "WriteFile ex_rt_env w = (True, w)" "TakeBudget ex_rt_env n k w = (True, w)"
  "RefundBudget ex_rt_env n k w = w" "Transfers ex_rt_env cs s w = (if w then Some ([ex_member], []) else None, w)"
  by (simp_all add: ex_rt_env_def)

definition ex_new :: "bool \<Rightarrow> new_error + (unit, bool) runtime" where
  "ex_new w = NewRuntime ex_rt_env \<lparr>served = [], zs_journal = NewJournal 4\<rparr> [ex_source] ''state'' [] NoFile w"

definition ex_started :: "bool \<Rightarrow> (unit, bool) runtime" where
  "ex_started w = snd (AttachController ex_rt_env (projr (ex_new w)))"

lemma ex_started:
  "NewRuntime ex_rt_env \<lparr>served = [], zs_journal = NewJournal 4\<rparr> [ex_source] ''state'' [] NoFile w = Inr (projr (ex_new w))"
  "AttachController ex_rt_env (projr (ex_new w)) = (None, ex_started w)"
proof -
  have "isl (ex_new w) = False" "fst (AttachController ex_rt_env (projr (ex_new w))) = None" by (cases w; code_simp)+
  then show "NewRuntime ex_rt_env \<lparr>served = [], zs_journal = NewJournal 4\<rparr> [ex_source] ''state'' [] NoFile w = Inr (projr (ex_new w))"
    "AttachController ex_rt_env (projr (ex_new w)) = (None, ex_started w)"
    by (simp_all add: ex_new_def[symmetric] ex_started_def prod_eq_iff)
qed

definition ex_configured :: "(string \<times> unit source) list" where
  "ex_configured = projr (add_sources ex_rt_env [ex_source] [])"

lemma ex_started_fields:
  "rt_sources (ex_started w) = ex_configured" "rt_order (ex_started w) = [''a.'']" "rt_reserved (ex_started w) = [''a.'']"
  "rt_attached (ex_started w)" "rt_catalogs (ex_started w) = []" "rt_ownership (ex_started w) = []" "rt_memberZone (ex_started w) = []"
  "rt_world (ex_started w) = w" "served (rt_store (ex_started w)) = []"
  by (cases w; code_simp)+

subsection \<open>The catalog\<close>

definition ex_cat :: catalog where
  "ex_cat = \<lparr>cat_Name = ''a.'', cat_Serial = 5,
     Members = [(''m.'', \<lparr>mb_Zone = ''m.'', mb_Label = ''l1'', mb_Groups = [], ChangeOfOwnership = [], mb_Extensions = []\<rparr>)],
     GlobalExtensions = []\<rparr>"

definition ex_act :: action where
  "ex_act = (plain_action ActionAdd ''m.'')\<lparr>act_Catalog := ''a.'', act_Label := ''l1''\<rparr>"

definition ex_owners :: owners where
  "ex_owners = [(''m.'', \<lparr>own_Catalog = ''a.'', own_Label = ''l1''\<rparr>)]"

lemma ex_checks:
  "normalizeName ex_lib (Origin ex_catalog) = ''a.''" "Parse ex_lib (Some ex_catalog) = Inr ex_cat"
  "validateMemberScope ex_lib ex_configured ''a.'' ex_cat = None" "validateCatalogGraph ex_lib ex_configured [(''a.'', ex_cat)] = None"
  "Plan ex_lib [] [(''a.'', ex_cat)] [] [''a.''] [''a.''] = Inr [ex_act]"
  "build_changes ex_lib ex_configured [(''a.'', ex_cat)] [ex_act] [] [] = Inr ([ChangeUpsert (ex_sec\<lparr>sc_Name := ''m.'', RetainOnError := True\<rparr>) False], ex_owners)"
  "map_of ex_configured ''a.'' = Some (snd (hd ex_configured))" "\<not> MaxReconcileActions (snd (hd ex_configured)) < 1"
  "\<not> DryRun (snd (hd ex_configured))" "ApprovalRequiredAbove (snd (hd ex_configured)) = 0" "act_Kind ex_act \<noteq> ActionConflict"
  "normalizeName ex_lib (Origin ex_member) = ''m.''"
  by code_simp+

lemma ex_reconcile:
  "reconcile ex_rt_env ''a.'' ex_cat ex_catalog (recordAttempt ex_rt_env ''a.'' (ex_started w)) =
   carry_out ex_rt_env ''a.'' ex_catalog [(''a.'', ex_cat)] [ex_act] (recordAttempt ex_rt_env ''a.'' (ex_started w))"
  using ex_checks by (simp add: reconcile_def ex_rt_env_sel recordAttempt_def ex_started_fields)

lemma ex_attempt_fields:
  "rt_sources (recordAttempt E n r) = rt_sources r" "rt_ownership (recordAttempt E n r) = rt_ownership r"
  "rt_memberZone (recordAttempt E n r) = rt_memberZone r" "rt_world (recordAttempt E n r) = rt_world r"
  "rt_store (recordAttempt E n r) = rt_store r"
  by (simp_all add: recordAttempt_def)

lemma ex_batch: "\<exists>s'. ApplyZoneBatch ex_lib [ex_member] [] s = Inr s'"
proof -
  have "check_upserts ex_lib [] [ex_member] = Inr [''m.'']" by code_simp
  then show ?thesis by (simp add: ApplyZoneBatch_def)
qed

lemma ex_publish:
  "runtime_AddZone ex_rt_env (Some ex_catalog) (ex_started w) = publish_catalog ex_rt_env ''a.'' ex_catalog (ex_started w)"
  using ex_checks by (simp add: runtime_AddZone_def ex_rt_env_sel ex_started_fields)

lemma ex_fails: "fst (runtime_AddZone ex_rt_env (Some ex_catalog) (ex_started False)) = Some TransferFailed"
proof -
  have "fst (carry_out ex_rt_env ''a.'' ex_catalog [(''a.'', ex_cat)] [ex_act] (recordAttempt ex_rt_env ''a.'' (ex_started False))) = Inl TransferFailed"
    using ex_checks by (simp add: carry_out_def ex_rt_env_sel takeReconcileBudget_def ex_attempt_fields ex_started_fields
        del: build_changes.simps)
  then obtain r where "carry_out ex_rt_env ''a.'' ex_catalog [(''a.'', ex_cat)] [ex_act] (recordAttempt ex_rt_env ''a.'' (ex_started False)) =
      (Inl TransferFailed, r)" by (metis prod.collapse)
  then have "reconcile ex_rt_env ''a.'' ex_cat ex_catalog (recordAttempt ex_rt_env ''a.'' (ex_started False)) = (Inl TransferFailed, r)"
    using ex_reconcile by simp
  then show ?thesis using ex_checks(2) by (simp add: ex_publish publish_catalog_def Let_def ex_rt_env_sel)
qed

lemma ex_succeeds:
  "fst (runtime_AddZone ex_rt_env (Some ex_catalog) (ex_started True)) = None"
  "rt_ownership (snd (runtime_AddZone ex_rt_env (Some ex_catalog) (ex_started True))) = ex_owners"
proof -
  obtain s' where s': "ApplyZoneBatch ex_lib [ex_member] [] (rt_store (ex_started True)) = Inr s'" using ex_batch by blast
  let ?r = "recordAttempt ex_rt_env ''a.'' (ex_started True)"
  have "\<exists>r'. carry_out ex_rt_env ''a.'' ex_catalog [(''a.'', ex_cat)] [ex_act] ?r = (Inr [ex_act], r') \<and> rt_ownership r' = ex_owners"
    using ex_checks s'
    by (simp add: carry_out_def ex_rt_env_sel takeReconcileBudget_def ex_attempt_fields ex_started_fields commitReconciliation_def
        persistLocked_def ex_owners_def Let_def del: build_changes.simps)
  then obtain r' where "reconcile ex_rt_env ''a.'' ex_cat ex_catalog ?r = (Inr [ex_act], r')" "rt_ownership r' = ex_owners"
    using ex_reconcile by auto
  then show "fst (runtime_AddZone ex_rt_env (Some ex_catalog) (ex_started True)) = None"
    "rt_ownership (snd (runtime_AddZone ex_rt_env (Some ex_catalog) (ex_started True))) = ex_owners"
    using ex_checks(2) by (simp_all add: ex_publish publish_catalog_def Let_def ex_rt_env_sel recordSuccess_def)
qed

subsection \<open>The properties\<close>

definition ex_managed :: "(unit, bool) runtime" where
  "ex_managed = snd (runtime_AddZone ex_rt_env (Some ex_catalog) (ex_started True))"

lemma ex_managed: "runtime_AddZone ex_rt_env (Some ex_catalog) (ex_started True) = (None, ex_managed)"
  using ex_succeeds(1) by (simp add: ex_managed_def prod_eq_iff)

theorem catalog_ownership_invariant_witness:
  "''m.'' \<notin> set (rt_reserved ex_managed) \<and> map_of (rt_memberZone ex_managed) ''m.'' \<noteq> None"
proof -
  have "rt_reach ex_rt_env ex_managed"
    using rt_reach.published[OF rt_reach.attached[OF ex_started] ex_managed] .
  moreover have "normalize_laws (rl ex_rt_env)" using ex_normalize by (simp add: ex_rt_env_sel)
  moreover have "map_of (rt_ownership ex_managed) ''m.'' = Some \<lparr>own_Catalog = ''a.'', own_Label = ''l1''\<rparr>"
    using ex_succeeds(2) by (simp add: ex_managed_def ex_owners_def)
  ultimately show ?thesis using catalog_ownership_invariant by blast
qed

text \<open>A transfer that fails leaves the runtime as it was; one that succeeds takes the catalog over.\<close>

theorem catalog_taken_over_atomically_witness:
  "rt_ownership (snd (runtime_AddZone ex_rt_env (Some ex_catalog) (ex_started False))) = [] \<and>
   rt_disk ex_managed = Some (disk_image ex_lib ex_managed)"
proof -
  have n: "''a.'' = normalizeName (rl ex_rt_env) (Origin ex_catalog)" using ex_checks(1) by (simp add: ex_rt_env_sel)
  have src: "map_of (rt_sources (ex_started w)) ''a.'' \<noteq> None" for w using ex_checks(7) by (simp add: ex_started_fields)
  obtain r' where f: "runtime_AddZone ex_rt_env (Some ex_catalog) (ex_started False) = (Some TransferFailed, r')"
    using ex_fails by (metis prod.collapse)
  have "rt_core r' = rt_core (ex_started False)" using catalog_taken_over_atomically[OF f src n] by blast
  moreover have "rt_disk ex_managed = Some (disk_image (rl ex_rt_env) ex_managed)"
    using catalog_taken_over_atomically[OF ex_managed src n] by blast
  ultimately show ?thesis using f by (simp add: rt_core_def ex_rt_env_sel ex_started_fields)
qed

theorem Plan_respects_ownership_witness:
  "\<exists>m. memberIn (map_of [(''a.'', ex_cat)] ''a.'') ''m.'' = Some m \<and> mb_Label m = ''l1''"
proof -
  have same: "normalizeCatalogMap ex_lib [(''a.'', ex_cat)] = [(''a.'', ex_cat)]" "normalizeOwnership ex_lib [] = []" by code_simp+
  have filed: "filed (normalizeCatalogMap ex_lib [(''a.'', ex_cat)])"
    unfolding same by (simp add: filed_def ex_cat_def)
  have built: "build_changes ex_lib ex_configured (normalizeCatalogMap ex_lib [(''a.'', ex_cat)]) [ex_act] [] (normalizeOwnership ex_lib []) =
      Inr ([ChangeUpsert (ex_sec\<lparr>sc_Name := ''m.'', RetainOnError := True\<rparr>) False], ex_owners)" by (simp only: same ex_checks(6))
  have "map_of ex_owners ''m.'' = Some \<lparr>own_Catalog = ''a.'', own_Label = ''l1''\<rparr>" by (simp add: ex_owners_def)
  then show ?thesis
    using Plan_respects_ownership[OF ex_checks(5) filed built, THEN conjunct1, THEN mp, of "''m.''"] unfolding same by fastforce
qed

end
