(* ===== verification/Spec2Isabelle.thy ===== *)
theory Spec2Isabelle
  imports Packet_Props RRL_Props Cookie Zone_Transfer_Props Update_Props RFC5011_Examples Resolver_Examples
    Validator_Examples Cached_Resolver_Examples
    Authoritative_Examples Server_Examples Rpz_Examples Catalog_Examples
begin

text \<open>
  A verification library for DNSScienced, an authoritative and recursive DNS server written in Go. The
  source is under \<open>src/\<close>; the theories follow its packages.

  \<^bold>\<open>The program.\<close> A query enters through a transport and is parsed (\<open>internal/packet\<close>). The server
  (\<open>internal/server\<close>) applies cookies (\<open>internal/cookie\<close>), access lists and response rate limiting
  (\<open>internal/rrl\<close>), answers from its zones (\<open>internal/zone\<close>), or passes the question to the recursive resolver
  (\<open>internal/resolver\<close>), which uses the response cache (\<open>internal/cache\<close>) and the DNSSEC validator
  (\<open>internal/dnssec\<close>) with its trust anchors. Dynamic updates change a zone atomically and are recorded in a
  journal, from which full and incremental transfers are served; \<open>internal/secondary\<close> applies them.

  \<^bold>\<open>Theories and sources.\<close>

  \<^item> \<open>Prelude\<close>: Go's integers as words (signed ones as integers with the wrap-around written out), the codecs of
    \<open>encoding/binary\<close>, FNV-1a, the functions of \<open>strings\<close>, the state-and-error monad of methods with a mutable
    receiver. \<open>Dns_Lib\<close>: records and messages of \<open>miekg/dns\<close>; its name functions are the fields of a record
    \<open>dns_lib\<close> that every definition takes as an argument. \<open>Go_Net\<close>: addresses and networks of \<open>net\<close>.
  \<^item> \<open>Packet\<close>, \<open>Packet_Props\<close> (\<open>internal/packet/parser.go\<close>): the wire parser, with its reference reading of
    RFC 1035 names, the encoder it inverts and its security limits.
  \<^item> \<open>RRL\<close>, \<open>RRL_Props\<close> (\<open>internal/rrl/limiter.go\<close>) over the locale \<open>Token_Bucket\<close>: the bound on what a run of
    checks lets through. \<open>Cookie\<close> (\<open>internal/cookie/cookie.go\<close>). \<open>Acl\<close> (\<open>internal/engine/acl.go\<close>,
    \<open>internal/dsync/source_acl.go\<close>).
  \<^item> \<open>Zone\<close>, \<open>Zone_Props\<close> (\<open>internal/zone/zone.go\<close>); \<open>Journal\<close>, \<open>Journal_Props\<close> (\<open>internal/zone/journal.go\<close>);
    \<open>Zone_Transfer\<close>, \<open>Zone_Transfer_Props\<close> (\<open>internal/server/axfr.go\<close>, \<open>internal/secondary/ixfr.go\<close>,
    \<open>transfer.go\<close>): what is served from the journal rebuilds the zone at the secondary.
  \<^item> \<open>Replay\<close> (\<open>internal/server/update_replay.go\<close>), \<open>Update\<close>, \<open>Update_Props\<close> (\<open>internal/server/update.go\<close>): admission,
    prerequisites and the transaction of a dynamic update.
  \<^item> \<open>RFC5011\<close> and its \<open>_Props\<close>, \<open>_State\<close>, \<open>_Examples\<close> (\<open>internal/dnssec/rfc5011.go\<close>): the life of a trust
    anchor. \<open>Validator\<close>, \<open>Validator_Props\<close>, \<open>Validator_Examples\<close> (\<open>internal/dnssec/validator.go\<close>): the chain of
    trust as an inductive definition, and that a secure verdict implies it.
  \<^item> \<open>Hedge\<close>, \<open>Hedge_Props\<close> (\<open>internal/resolver/hedge.go\<close>): hedged queries under an arbitrary scheduler, the
    locale \<open>hedged\<close>. \<open>Resolver\<close> and its \<open>_Props\<close>, \<open>_Examples\<close> (\<open>internal/resolver/recursive.go\<close>,
    \<open>internal/engine/security.go\<close>): iteration, forwarding, alias chains.
  \<^item> \<open>Expiry_Queue\<close>, \<open>Cache\<close>, \<open>Cache_Props\<close> (\<open>internal/cache/sharded.go\<close>, \<open>negative.go\<close>, \<open>rebinding.go\<close>, \<open>enrichment.go\<close>): the indexed
    heap, the sharded store above it, and the bounds it keeps. \<open>Nsec\<close>, \<open>Nsec_Props\<close> (\<open>internal/cache/nsec.go\<close>):
    denials synthesised from cached NSEC and NSEC3 records.
  \<^item> \<open>Cached_Resolver\<close> and its \<open>_Props\<close>, \<open>_Examples\<close> (\<open>Resolve\<close>, \<open>resolveFresh\<close> and \<open>NewRecursive\<close> of
    \<open>internal/resolver/recursive.go\<close>): the resolver composed with both caches and the validator; the locale
    \<open>resolver_invariant\<close> lifts an invariant to every operation, and what the caches hold is its instance.
  \<^item> \<open>Authoritative\<close> and its \<open>_Props\<close>, \<open>_Examples\<close> (\<open>handleAuthoritative\<close> and the zone set of
    \<open>internal/server/server.go\<close>, \<open>authoritative_dnssec.go\<close>, \<open>query_complexity.go\<close>): referrals, alias chains,
    negative answers with their denials, and batches of zone changes that apply as a whole.
  \<^item> \<open>Server\<close> and its \<open>_Props\<close>, \<open>_Examples\<close> (\<open>handleDNS\<close> of \<open>internal/server/server.go\<close>): routing, and the path
    of a query through admission, the checks, the policies, cookies, zones, resolver and rate limiter, composed
    from the models above; the policy engines and the libraries are one record of parameters.
  \<^item> \<open>Rpz\<close>, \<open>Rpz_Props\<close> (\<open>internal/engine/rpz.go\<close>): response policy zones, their address tables as a finite map with
    longest-prefix lookup, and the stages of evaluation. \<open>Rpz_Loader\<close>, \<open>Rpz_Loader_Props\<close>
    (\<open>internal/engine/rpz_loader.go\<close>): policy files. \<open>Rpz_Server\<close>, \<open>Rpz_Server_Props\<close> (\<open>internal/server/rpz.go\<close>,
    \<open>internal/resolver/rpz_nameservers.go\<close>): reload, actions and name server discovery, put into the record of
    policies of \<open>Server\<close> (\<open>with_rpz\<close>), whose properties therefore hold with them. \<open>Rpz_Examples\<close>: a policy file and its
    effect on a query.
  \<^item> \<open>Catalog\<close>, \<open>Catalog_Props\<close> (\<open>internal/catalog/catalog.go\<close>, \<open>planner.go\<close>): reading a catalog zone and planning the
    changes it asks for. \<open>Catalog_Runtime\<close>, \<open>Catalog_Runtime_Props\<close> (\<open>internal/catalog/runtime.go\<close>): the reconciler
    over the zone set of \<open>Authoritative\<close>, its state file and restart; an inductive predicate \<open>rt_reach\<close> collects the
    states it reaches, and every owned zone is accounted for in each of them. \<open>Catalog_Pages\<close>: the pages of members
    shown to operators. \<open>Catalog_Examples\<close>: a catalog taken over, and one whose transfers fail.

  \<^bold>\<open>Conventions.\<close> A method under one lock is one atomic step. Times are integers (nanoseconds unless the
  theory says seconds) and are arguments or readings of a world, so nothing is assumed about how long anything
  takes. Randomness, sockets and goroutine scheduling are parameters: a property that mentions them holds for
  every behaviour of theirs. Go ranges over a map in any order; the model ranges in list order where the result
  does not depend on it, and says so where an error message does. Library code (\<open>miekg/dns\<close>, cryptography) is a
  parameter; what a proof needs of it is a named predicate in the theorem's statement, and a witness
  instantiates it with the concrete library of \<open>Dns_Lib\<close>.

  \<^bold>\<open>Fuel and termination.\<close> The parser's pointer loop terminates by the depth limit and the position, iterative
  resolution by its iteration budget (the configured \<open>MaxIterations\<close>), alias chains by \<open>maxAliasChain\<close>, the heap
  loops by the index: all of these are total functions with the code's own bounds. The walk over the ancestors of a name
  (\<open>ancestor_walk\<close>) has the number of labels and two as fuel, and \<open>ancestor_walk_enough\<close> shows that more makes no
  difference. The walk along changes of ownership (\<open>cycle_walk\<close>) has the number of edges and two
  (\<open>cycle_walk_enough\<close>). The cleanup of a cache shard
  has no bound in the code and is a partial function; that it always ends is proved.

  \<^bold>\<open>Not modelled.\<close> Transports, TLS and sockets, the gRPC administration interface, generated code, the Starlark
  engines, metrics, logging and configuration files are I/O or glue. The zone file formats delegate to YAML,
  protobuf and \<open>miekg/dns\<close> parsers. Floating-point code (reputation scores, the prefetch ratio, the cache hit
  rate) is left out, and the server is one without the defensive manager. The token budget of the catalog reconciler
  is floating-point too and a parameter, as is the secondary manager it drives. Start-up and shutdown of the server
  and DSYNC notifications are not modelled.
\<close>

end
